(* ===== verification/Prelude.thy ===== *)
theory Prelude
  imports Main "HOL-Library.Word"
begin

text \<open>
  Shared vocabulary of the development: machine integers, C++ exceptions as values,
  raw memory, \<open>std::to_string\<close>, and the two interfaces most components share (a codec
  with a framing, and a transition system with an invariant).

  A function that may throw returns \<open>exn + 'a\<close>: \<open>Inl\<close> carries the exception, \<open>Inr\<close> the
  value. Operations the C++ standard leaves undefined (out-of-range array access,
  dereferencing \<open>end()\<close>) are the branch \<open>Inl (Undefined_behaviour _)\<close>, so that a theorem
  that such a branch is not reached is a memory-safety statement.
\<close>

section \<open>Types\<close>

type_synonym u8 = "8 word"
type_synonym u16 = "16 word"
type_synonym u32 = "32 word"
type_synonym u64 = "64 word"
type_synonym bytes = "u8 list"

datatype exn =
    Invalid_argument string
  | Out_of_range string
  | Runtime_error string
  | Bad_alloc
  | Undefined_behaviour string

type_synonym 'a result = "exn + 'a"

named_theorems result_simps
named_theorems memory_simps

section \<open>Results\<close>

definition rbind :: "'a result \<Rightarrow> ('a \<Rightarrow> 'b result) \<Rightarrow> 'b result" where
  "rbind m f = (case m of Inl e \<Rightarrow> Inl e | Inr x \<Rightarrow> f x)"

lemma rbind_Inl [simp, result_simps]: "rbind (Inl e) f = Inl e"
  by (simp add: rbind_def)

lemma rbind_Inr [simp, result_simps]: "rbind (Inr x) f = f x"
  by (simp add: rbind_def)

lemma rbind_Inr_eq [result_simps]:
  "rbind m f = Inr y \<longleftrightarrow> (\<exists>x. m = Inr x \<and> f x = Inr y)"
  by (cases m) auto

lemma rbind_Inl_eq [result_simps]:
  "rbind m f = Inl e \<longleftrightarrow> m = Inl e \<or> (\<exists>x. m = Inr x \<and> f x = Inl e)"
  by (cases m) auto

lemma rbind_assoc: "rbind (rbind m f) g = rbind m (\<lambda>x. rbind (f x) g)"
  by (cases m) auto

lemma rbind_cong [fundef_cong]:
  "m = m' \<Longrightarrow> (\<And>x. m' = Inr x \<Longrightarrow> f x = f' x) \<Longrightarrow> rbind m f = rbind m' f'"
  by (cases m') auto

definition is_ok :: "'a result \<Rightarrow> bool" where
  "is_ok m = (case m of Inl _ \<Rightarrow> False | Inr _ \<Rightarrow> True)"

lemma is_ok_simps [simp]: "is_ok (Inr x)" "\<not> is_ok (Inl e)"
  by (simp_all add: is_ok_def)

lemma is_ok_iff: "is_ok m \<longleftrightarrow> (\<exists>x. m = Inr x)"
  by (cases m) simp_all

lemma is_ok_rbind: "is_ok (rbind m f) \<longleftrightarrow> (\<exists>x. m = Inr x \<and> is_ok (f x))"
  by (cases m) simp_all

lemma is_ok_rbindI: "is_ok m \<Longrightarrow> (\<And>x. is_ok (f x)) \<Longrightarrow> is_ok (rbind m f)"
  by (cases m) simp_all

text \<open>A \<open>for\<close> loop over a sequence that threads a state and may throw.\<close>

primrec foldR :: "('a \<Rightarrow> 's \<Rightarrow> 's result) \<Rightarrow> 'a list \<Rightarrow> 's \<Rightarrow> 's result" where
  "foldR f [] s = Inr s"
| "foldR f (x # xs) s = rbind (f x s) (foldR f xs)"

lemma foldR_append: "foldR f (xs @ ys) s = rbind (foldR f xs s) (foldR f ys)"
proof (induction xs arbitrary: s)
  case (Cons x xs)
  have "foldR f (xs @ ys) = (\<lambda>u. rbind (foldR f xs u) (foldR f ys))"
    using Cons.IH by (rule ext)
  then show ?case by (simp add: rbind_assoc)
qed simp

lemma foldR_invariant:
  assumes "foldR f xs s = Inr t" "I s"
    and "\<And>x s s'. x \<in> set xs \<Longrightarrow> I s \<Longrightarrow> f x s = Inr s' \<Longrightarrow> I s'"
  shows "I t"
  using assms
proof (induction xs arbitrary: s)
  case Nil
  then show ?case by simp
next
  case (Cons x xs)
  from Cons.prems(1) obtain s' where s': "f x s = Inr s'" "foldR f xs s' = Inr t"
    by (auto simp: rbind_Inr_eq)
  have "I s'" using Cons.prems(2,3) s'(1) by (meson list.set_intros(1))
  then show ?case using Cons.IH [OF s'(2)] Cons.prems(3) by (meson list.set_intros(2))
qed

lemma foldR_is_ok:
  "(\<And>x s. x \<in> set xs \<Longrightarrow> is_ok (f x s)) \<Longrightarrow> is_ok (foldR f xs s)"
proof (induction xs arbitrary: s)
  case (Cons x xs)
  have "is_ok (foldR f xs t)" for t using Cons by simp
  then show ?case using Cons.prems by (simp add: is_ok_rbindI)
qed simp

lemma foldR_cong [fundef_cong]:
  "xs = ys \<Longrightarrow> (\<And>x s. x \<in> set ys \<Longrightarrow> f x s = g x s) \<Longrightarrow> s = t \<Longrightarrow> foldR f xs s = foldR g ys t"
proof (induction ys arbitrary: xs s t)
  case Nil
  then show ?case by simp
next
  case (Cons y ys)
  have "foldR f ys = foldR g ys"
    using Cons.IH [OF refl _ refl] Cons.prems(2) by (intro ext) simp
  then show ?case using Cons.prems by simp
qed

section \<open>Operations that may not return\<close>

text \<open>\<open>None\<close> is an operation that does not return.\<close>

type_synonym 'a run = "'a result option"

definition obind :: "'a run \<Rightarrow> ('a \<Rightarrow> 'b run) \<Rightarrow> 'b run" where
  "obind m f = (case m of None \<Rightarrow> None | Some (Inl e) \<Rightarrow> Some (Inl e) | Some (Inr x) \<Rightarrow> f x)"

lemma obind_simps [simp]:
  "obind None f = None" "obind (Some (Inl e)) f = Some (Inl e)" "obind (Some (Inr x)) f = f x"
  by (simp_all add: obind_def)

primrec foldO :: "('a \<Rightarrow> 's \<Rightarrow> 's run) \<Rightarrow> 'a list \<Rightarrow> 's \<Rightarrow> 's run" where
  "foldO f [] s = Some (Inr s)"
| "foldO f (x # xs) s = obind (f x s) (foldO f xs)"

text \<open>An operation returns, keeps a property of the state, or fails in a way that is allowed.\<close>

definition returns :: "('e \<Rightarrow> bool) \<Rightarrow> ('s \<Rightarrow> bool) \<Rightarrow> ('e + 's) option \<Rightarrow> bool" where
  "returns E I m \<longleftrightarrow> (case m of None \<Rightarrow> False | Some (Inl e) \<Rightarrow> E e | Some (Inr s) \<Rightarrow> I s)"

lemma returns_simps [simp]:
  "\<not> returns E I None" "returns E I (Some (Inl e)) \<longleftrightarrow> E e" "returns E I (Some (Inr s)) \<longleftrightarrow> I s"
  by (simp_all add: returns_def)

lemma returns_obind:
  assumes "returns E J m" "\<And>x. J x \<Longrightarrow> returns E I (f x)"
  shows "returns E I (obind m f)"
proof (cases m)
  case (Some y)
  then show ?thesis using assms by (cases y) simp_all
qed (use assms in simp)

lemma returns_foldO:
  "I s \<Longrightarrow> (\<And>x s. x \<in> set xs \<Longrightarrow> I s \<Longrightarrow> returns E I (f x s)) \<Longrightarrow> returns E I (foldO f xs s)"
  by (induction xs arbitrary: s) (auto intro: returns_obind)

section \<open>Raw memory\<close>

text \<open>
  \<open>new unsigned char[n]\<close> either throws \<open>std::bad_alloc\<close> or yields \<open>n\<close> bytes of unspecified
  contents (given by the parameter \<open>fresh\<close>); \<open>avail\<close> is the largest block the allocator
  can provide. \<open>poke\<close> is \<open>memcpy\<close> to an offset of a block.
\<close>

definition new_array :: "(nat \<Rightarrow> u8) \<Rightarrow> nat \<Rightarrow> nat \<Rightarrow> bytes result" where
  "new_array fresh avail n = (if n \<le> avail then Inr (map fresh [0..<n]) else Inl Bad_alloc)"

definition poke :: "nat \<Rightarrow> bytes \<Rightarrow> bytes \<Rightarrow> bytes result" where
  "poke off bs mem =
     (if off + length bs \<le> length mem
      then Inr (take off mem @ bs @ drop (off + length bs) mem)
      else Inl (Undefined_behaviour ''write past the end of a buffer''))"

definition peek :: "nat \<Rightarrow> nat \<Rightarrow> bytes \<Rightarrow> bytes result" where
  "peek off n mem =
     (if off + n \<le> length mem then Inr (take n (drop off mem))
      else Inl (Undefined_behaviour ''read past the end of a buffer''))"

lemma new_array_Inr [memory_simps]:
  "new_array fresh avail n = Inr bs \<longleftrightarrow> n \<le> avail \<and> bs = map fresh [0..<n]"
  by (auto simp: new_array_def)

lemma poke_Inr [memory_simps]:
  "poke off bs mem = Inr mem' \<longleftrightarrow>
     off + length bs \<le> length mem \<and> mem' = take off mem @ bs @ drop (off + length bs) mem"
  by (auto simp: poke_def)

lemma peek_Inr [memory_simps]:
  "peek off n mem = Inr bs \<longleftrightarrow> off + n \<le> length mem \<and> bs = take n (drop off mem)"
  by (auto simp: peek_def)

lemma length_poke: "poke off bs mem = Inr mem' \<Longrightarrow> length mem' = length mem"
  by (auto simp: poke_Inr)

lemma peek_poke_same: "poke off bs mem = Inr mem' \<Longrightarrow> peek off (length bs) mem' = Inr bs"
  by (auto simp: memory_simps)

lemma peek_poke_before:
  assumes "poke off bs mem = Inr mem'" "o' + n \<le> off"
  shows "peek o' n mem' = peek o' n mem"
proof -
  have m: "mem' = take off mem @ bs @ drop (off + length bs) mem" "off \<le> length mem"
    using assms(1) by (auto simp: poke_Inr)
  have "take n (drop o' mem') = take n (drop o' (take off mem))"
    using m assms(2) by simp
  also have "\<dots> = take n (drop o' mem)"
    using m(2) assms(2) by (simp add: drop_take)
  finally show ?thesis using length_poke [OF assms(1)] by (simp add: peek_def)
qed

lemma peek_poke_after:
  assumes "poke off bs mem = Inr mem'" "off + length bs \<le> o'"
  shows "peek o' n mem' = peek o' n mem"
proof -
  have m: "mem' = take off mem @ bs @ drop (off + length bs) mem" "off + length bs \<le> length mem"
    using assms(1) by (auto simp: poke_Inr)
  have "drop o' mem' = drop (o' - (off + length bs)) (drop (off + length bs) mem)"
    using m assms(2) by simp
  then have "drop o' mem' = drop o' mem"
    using assms(2) by simp
  then show ?thesis using length_poke [OF assms(1)] by (simp add: peek_def)
qed

section \<open>Decimal strings\<close>

text \<open>\<open>std::to_string\<close> on unsigned and signed integers.\<close>

definition digit_char :: "nat \<Rightarrow> char" where
  "digit_char d = char_of (48 + d)"

fun nat_to_string :: "nat \<Rightarrow> string" where
  "nat_to_string n =
     (if n < 10 then [digit_char n] else nat_to_string (n div 10) @ [digit_char (n mod 10)])"

declare nat_to_string.simps [simp del]

definition int_to_string :: "int \<Rightarrow> string" where
  "int_to_string i = (if i < 0 then CHR ''-'' # nat_to_string (nat (- i)) else nat_to_string (nat i))"

definition u64_to_string :: "u64 \<Rightarrow> string" where
  "u64_to_string w = nat_to_string (unat w)"

definition u32_to_string :: "u32 \<Rightarrow> string" where
  "u32_to_string w = nat_to_string (unat w)"

lemma nat_to_string_not_Nil [simp]: "nat_to_string n \<noteq> []"
  by (subst nat_to_string.simps) simp

section \<open>Bits of words\<close>

unbundle bit_operations_syntax

lemma word_eq_bitI:
  fixes a b :: "'a::len word"
  assumes "\<And>n. n < LENGTH('a) \<Longrightarrow> bit a n = bit b n"
  shows "a = b"
  using assms by (simp add: bit_word_eqI)

lemma unat_of_nat_small: "n < 2 ^ LENGTH('a) \<Longrightarrow> unat (of_nat n :: 'a::len word) = n"
  by (simp add: unsigned_of_nat take_bit_nat_eq_self)

lemma unat_ucast_mod: "unat (ucast (x :: 'a::len word) :: 'b::len word) = unat x mod 2 ^ LENGTH('b)"
  by (simp add: unsigned_ucast_eq take_bit_eq_mod)

lemma unat_ucast_small:
  "unat (x :: 'a::len word) < 2 ^ LENGTH('b) \<Longrightarrow> unat (ucast x :: 'b::len word) = unat x"
  by (simp add: unat_ucast_mod)

lemma mod_shift_32:
  assumes "u < 2 ^ 32"
  shows "(int u + 2 ^ 31) mod 2 ^ 32 - 2 ^ 31 = (if u < 2 ^ 31 then int u else int u - 2 ^ 32)"
proof (cases "u < 2 ^ 31")
  case False
  have "(int u + 2 ^ 31) mod 2 ^ 32 = (int u - 2 ^ 31 + 2 ^ 32) mod 2 ^ 32" by (simp add: add.commute)
  also have "\<dots> = int u - 2 ^ 31"
    unfolding mod_add_self2 using False assms by (intro mod_pos_pos_trivial) auto
  finally show ?thesis using False by simp
qed simp

lemma sint_u32:
  "sint (h :: u32) = (if unat h < 2 ^ 31 then int (unat h) else int (unat h) - 2 ^ 32)"
proof -
  have lt: "unat h < 2 ^ 32" using unsigned_less [of h] by simp
  have "sint h = (int (unat h) + 2 ^ 31) mod 2 ^ 32 - 2 ^ 31"
    unfolding sint_uint signed_take_bit_eq_take_bit_shift take_bit_eq_mod by simp
  also have "\<dots> = (if unat h < 2 ^ 31 then int (unat h) else int (unat h) - 2 ^ 32)"
    by (rule mod_shift_32 [OF lt])
  finally show ?thesis .
qed

lemma bit_one_word: "bit (1 :: 'a::len word) n \<longleftrightarrow> n = 0"
  by (simp add: bit_1_iff)

lemma and_eq_0_iff_bits:
  fixes a b :: "'a::len word"
  shows "a AND b = 0 \<longleftrightarrow> (\<forall>n < LENGTH('a). \<not> (bit a n \<and> bit b n))"
proof
  assume "a AND b = 0"
  then show "\<forall>n < LENGTH('a). \<not> (bit a n \<and> bit b n)"
    by (metis bit_and_iff bit_0_eq bot_apply bot_bool_def)
next
  assume "\<forall>n < LENGTH('a). \<not> (bit a n \<and> bit b n)"
  then show "a AND b = 0"
    by (intro word_eq_bitI) (simp add: bit_and_iff)
qed

section \<open>Lists\<close>

lemma filter_id: "(\<And>x. x \<in> set xs \<Longrightarrow> P x) \<Longrightarrow> filter P xs = xs"
  by (simp add: filter_id_conv)

lemma find_Some_set: "List.find P xs = Some x \<Longrightarrow> x \<in> set xs \<and> P x"
  by (auto simp: find_Some_iff)

lemma butlast_snoc_or_Nil: "xs = [] \<or> xs = butlast xs @ [last xs]"
  by (cases xs) auto

section \<open>Codecs\<close>

text \<open>
  An encoder with a partial decoder that inverts it, on the values the encoder accepts.
  The facts proved here are used for the frame header, the \<open>sfn_sf\<close> counter and the
  capability bitmap.
\<close>

locale codec =
  fixes enc :: "'a \<Rightarrow> 'b"
    and dec :: "'b \<Rightarrow> 'a option"
    and ok :: "'a \<Rightarrow> bool"
  assumes dec_enc: "ok x \<Longrightarrow> dec (enc x) = Some x"
begin

lemma enc_inj: "ok x \<Longrightarrow> ok y \<Longrightarrow> enc x = enc y \<Longrightarrow> x = y"
  using dec_enc by (metis option.inject)

lemma enc_inj_on: "inj_on enc {x. ok x}"
  by (auto intro!: inj_onI enc_inj)

lemma dec_map: "(\<And>x. x \<in> set xs \<Longrightarrow> ok x) \<Longrightarrow> map (\<lambda>x. dec (enc x)) xs = map Some xs"
  by (simp add: dec_enc)

end

text \<open>
  A framing: an encoder to sequences and a stateful reader that cuts the encodings out of a
  stream. \<open>read_all s bs\<close> gives the values read, the state of the reader and what is left of
  the stream. The law \<open>read_enc\<close> is about one frame; \<open>read_concat\<close> lifts it to streams.
\<close>

locale framing =
  fixes enc :: "'a \<Rightarrow> 'b list"
    and read_all :: "'s \<Rightarrow> 'b list \<Rightarrow> ('a list \<times> 's \<times> 'b list) result"
    and ok :: "'a \<Rightarrow> bool"
    and good :: "'s \<Rightarrow> bool"
  assumes read_enc: "ok x \<Longrightarrow> good s \<Longrightarrow>
      \<exists>s'. good s' \<and> (\<forall>rest. read_all s (enc x @ rest) =
        rbind (read_all s' rest) (\<lambda>(xs, t, r). Inr (x # xs, t, r)))"
begin

lemma read_concat:
  assumes "\<And>x. x \<in> set xs \<Longrightarrow> ok x" "good s"
  shows "\<exists>s'. good s' \<and> (\<forall>rest. read_all s (concat (map enc xs) @ rest) =
           rbind (read_all s' rest) (\<lambda>(ys, t, r). Inr (xs @ ys, t, r)))"
  using assms
proof (induction xs arbitrary: s)
  case Nil
  have "rbind m (\<lambda>(ys, t, r). Inr (ys, t, r)) = m" for m :: "('a list \<times> 's \<times> 'b list) result"
    by (cases m) auto
  then show ?case using Nil.prems(2) by auto
next
  case (Cons x xs)
  obtain s1 where s1: "good s1"
    "\<And>rest. read_all s (enc x @ rest) = rbind (read_all s1 rest) (\<lambda>(xs, t, r). Inr (x # xs, t, r))"
    using read_enc [of x s] Cons.prems by auto
  obtain s2 where s2: "good s2" "\<And>rest. read_all s1 (concat (map enc xs) @ rest) =
      rbind (read_all s2 rest) (\<lambda>(ys, t, r). Inr (xs @ ys, t, r))"
    using Cons.IH [OF _ s1(1)] Cons.prems(1) by (metis list.set_intros(2))
  have "read_all s (concat (map enc (x # xs)) @ rest) =
      rbind (read_all s2 rest) (\<lambda>(ys, t, r). Inr ((x # xs) @ ys, t, r))" for rest
    by (cases "read_all s2 rest") (simp_all add: s1(2) s2(2) case_prod_beta)
  then show ?case using s2(1) by blast
qed

end

section \<open>Transition systems\<close>

text \<open>
  A component that takes one event at a time (a message, a completion handler) and the
  invariant each step keeps. \<open>admissible\<close> says that every event of a sequence is enabled in
  the state in which it occurs; clients use \<open>run_invariant\<close> and \<open>run_safe\<close>.
\<close>

primrec admissible :: "('e \<Rightarrow> 's \<Rightarrow> 's result) \<Rightarrow> ('e \<Rightarrow> 's \<Rightarrow> bool) \<Rightarrow> 'e list \<Rightarrow> 's \<Rightarrow> bool" where
  "admissible step enabled [] s \<longleftrightarrow> True"
| "admissible step enabled (e # es) s \<longleftrightarrow> enabled e s \<and>
     (case step e s of Inl _ \<Rightarrow> True | Inr s' \<Rightarrow> admissible step enabled es s')"

lemma admissible_True: "admissible step (\<lambda>_ _. True) es s"
  by (induction es arbitrary: s) (auto split: sum.splits)

lemma admissible_mono:
  "(\<And>e s. e \<in> set es \<Longrightarrow> enabled e s) \<Longrightarrow> admissible step enabled es s"
  by (induction es arbitrary: s) (auto split: sum.splits)

locale step_system =
  fixes step :: "'e \<Rightarrow> 's \<Rightarrow> 's result"
    and invar :: "'s \<Rightarrow> bool"
    and enabled :: "'e \<Rightarrow> 's \<Rightarrow> bool"
  assumes step_invar: "invar s \<Longrightarrow> enabled e s \<Longrightarrow> step e s = Inr s' \<Longrightarrow> invar s'"
begin

inductive reach :: "'s \<Rightarrow> 's \<Rightarrow> bool" where
  reach_refl: "reach s s"
| reach_step: "reach s t \<Longrightarrow> enabled e t \<Longrightarrow> step e t = Inr u \<Longrightarrow> reach s u"

lemma reach_invar: "reach s t \<Longrightarrow> invar s \<Longrightarrow> invar t"
  by (induction rule: reach.induct) (auto intro: step_invar)

lemma reach_trans: "reach t u \<Longrightarrow> reach s t \<Longrightarrow> reach s u"
  by (induction rule: reach.induct) (auto intro: reach_step)

lemma run_reach: "foldR step es s = Inr t \<Longrightarrow> admissible step enabled es s \<Longrightarrow> reach s t"
proof (induction es arbitrary: s)
  case Nil
  then show ?case by (simp add: reach_refl)
next
  case (Cons e es)
  then obtain s' where s': "step e s = Inr s'" "foldR step es s' = Inr t"
    by (auto simp: rbind_Inr_eq)
  have "reach s s'" by (rule reach_step [OF reach_refl _ s'(1)]) (use Cons.prems(2) in simp)
  moreover have "reach s' t" using Cons.IH [OF s'(2)] Cons.prems(2) s'(1) by simp
  ultimately show ?case using reach_trans by blast
qed

lemma run_invariant:
  "foldR step es s = Inr t \<Longrightarrow> invar s \<Longrightarrow> admissible step enabled es s \<Longrightarrow> invar t"
  using run_reach reach_invar by blast

end

text \<open>A system that may fail, but only in allowed ways.\<close>

locale guarded_system = step_system +
  fixes allowed :: "exn \<Rightarrow> bool"
  assumes step_guarded: "invar s \<Longrightarrow> enabled e s \<Longrightarrow> step e s = Inl x \<Longrightarrow> allowed x"
begin

lemma run_guarded:
  "invar s \<Longrightarrow> admissible step enabled es s \<Longrightarrow> (case foldR step es s of Inl x \<Rightarrow> allowed x | Inr t \<Rightarrow> invar t)"
proof (induction es arbitrary: s)
  case (Cons e es)
  then show ?case
    using step_guarded [of s e] step_invar [of s e] by (cases "step e s") auto
qed simp

end

text \<open>A system whose enabled steps never throw: then every admissible run completes.\<close>

locale safe_system = step_system +
  assumes step_safe: "invar s \<Longrightarrow> enabled e s \<Longrightarrow> is_ok (step e s)"

sublocale safe_system \<subseteq> guarded: guarded_system step invar enabled "\<lambda>_. False"
  by unfold_locales (use step_safe in \<open>fastforce simp: is_ok_iff\<close>)

context safe_system begin

lemma run_safe: "invar s \<Longrightarrow> admissible step enabled es s \<Longrightarrow> \<exists>t. foldR step es s = Inr t \<and> invar t"
  using guarded.run_guarded [of s es] by (cases "foldR step es s") simp_all

end

end
