(* ===== verification/Agent_Info.thy ===== *)
theory Agent_Info
  imports Prelude
begin

text \<open>
  \<open>rib/agent_info.{h,cc}\<close>: what an agent says about itself in its hello, in particular the set
  of capabilities (which layers of the base station it implements). Capabilities are kept as
  a sorted vector that the operations convert to and from a bitmap.
\<close>

section \<open>Capabilities and splits\<close>

text \<open>
  The enumerators of the protocol. \<open>Cap_other k\<close> is the value \<open>9 + k\<close>, which has no name: the
  generated parser never yields it in a message, but \<open>from_u32\<close> may cast to it.
\<close>

datatype flex_bs_capability =
    LOPHY | HIPHY | LOMAC | HIMAC | RLC | PDCP | SDAP | RRC | S1AP | Cap_other nat

datatype flex_bs_split = F1 | nFAPI | IF4 | IF4p5 | IF5

fun cap_num :: "flex_bs_capability \<Rightarrow> nat" where
  "cap_num LOPHY = 0"
| "cap_num HIPHY = 1"
| "cap_num LOMAC = 2"
| "cap_num HIMAC = 3"
| "cap_num RLC = 4"
| "cap_num PDCP = 5"
| "cap_num SDAP = 6"
| "cap_num RRC = 7"
| "cap_num S1AP = 8"
| "cap_num (Cap_other k) = 9 + k"

definition num_cap :: "nat \<Rightarrow> flex_bs_capability" where
  "num_cap n = (if n < 9 then [LOPHY, HIPHY, LOMAC, HIMAC, RLC, PDCP, SDAP, RRC, S1AP] ! n
     else Cap_other (n - 9))"

fun cap_name :: "flex_bs_capability \<Rightarrow> string" where
  "cap_name LOPHY = ''LOPHY''"
| "cap_name HIPHY = ''HIPHY''"
| "cap_name LOMAC = ''LOMAC''"
| "cap_name HIMAC = ''HIMAC''"
| "cap_name RLC = ''RLC''"
| "cap_name PDCP = ''PDCP''"
| "cap_name SDAP = ''SDAP''"
| "cap_name RRC = ''RRC''"
| "cap_name S1AP = ''S1AP''"
| "cap_name (Cap_other k) = ''''"

fun split_name :: "flex_bs_split \<Rightarrow> string" where
  "split_name F1 = ''F1''"
| "split_name nFAPI = ''nFAPI''"
| "split_name IF4 = ''IF4''"
| "split_name IF4p5 = ''IF4p5''"
| "split_name IF5 = ''IF5''"

lemma num_cap_cap_num [simp]: "num_cap (cap_num c) = c"
  by (cases c) (simp_all add: num_cap_def)

lemma cap_num_num_cap [simp]: "cap_num (num_cap n) = n"
proof (cases "n < 9")
  case True
  then have "n \<in> {0, 1, 2, 3, 4, 5, 6, 7, 8}" by auto
  then show ?thesis by (auto simp: num_cap_def)
qed (simp add: num_cap_def)

lemma cap_num_inj: "cap_num c = cap_num d \<longleftrightarrow> c = d"
  by (metis num_cap_cap_num)

instantiation flex_bs_capability :: linorder
begin

definition less_eq_flex_bs_capability :: "flex_bs_capability \<Rightarrow> flex_bs_capability \<Rightarrow> bool" where
  "c \<le> d \<longleftrightarrow> cap_num c \<le> cap_num d"

definition less_flex_bs_capability :: "flex_bs_capability \<Rightarrow> flex_bs_capability \<Rightarrow> bool" where
  "c < d \<longleftrightarrow> cap_num c < cap_num d"

instance
  by standard
    (auto simp: less_eq_flex_bs_capability_def less_flex_bs_capability_def cap_num_inj)

end

section \<open>The bitmap\<close>

unbundle bit_operations_syntax

definition to_u32 :: "flex_bs_capability list \<Rightarrow> u32" where
  "to_u32 caps = fold (\<lambda>c u. u OR push_bit (cap_num c) 1) caps 0"

text \<open>The \<open>while\<close> loop of \<open>from_u32\<close>: \<open>n\<close> counts from 1.\<close>

function from_u32_loop :: "u32 \<Rightarrow> nat \<Rightarrow> flex_bs_capability list \<Rightarrow> flex_bs_capability list" where
  "from_u32_loop u n caps =
     (if u = 0 then caps
      else from_u32_loop (drop_bit 1 u) (n + 1) (if u AND 1 = 1 then caps @ [num_cap (n - 1)] else caps))"
  by pat_completeness auto

lemma unat_drop_bit_1: "unat (drop_bit 1 (u :: u32)) = unat u div 2"
  by (simp add: drop_bit_eq_div unat_div)

lemma drop_bit_decreases: "(u :: u32) \<noteq> 0 \<Longrightarrow> unat (drop_bit 1 u) < unat u"
  using unat_gt_0 [of u] by (simp only: unat_drop_bit_1) simp

termination from_u32_loop
  by (relation "measure (\<lambda>(u, _, _). unat u)") (simp_all add: drop_bit_decreases [unfolded One_nat_def])

declare from_u32_loop.simps [simp del]

definition from_u32 :: "u32 \<Rightarrow> flex_bs_capability list" where
  "from_u32 u = from_u32_loop u 1 []"

section \<open>Operations\<close>

text \<open>\<open>agent_capabilities\<close> holds the sorted vector \<open>caps_\<close>.\<close>

type_synonym agent_capabilities = "flex_bs_capability list"

definition make_capabilities :: "flex_bs_capability list \<Rightarrow> agent_capabilities result" where
  "make_capabilities proto_caps =
     (if length proto_caps < 1 then Inl (Runtime_error ''illegal: zero capabilities'')
      else Inr (from_u32 (to_u32 proto_caps)))"

definition orthogonal :: "agent_capabilities \<Rightarrow> agent_capabilities \<Rightarrow> bool" where
  "orthogonal caps other \<longleftrightarrow> to_u32 caps AND to_u32 other = 0"

definition merge_in :: "agent_capabilities \<Rightarrow> agent_capabilities \<Rightarrow> agent_capabilities" where
  "merge_in caps other = from_u32 (to_u32 caps OR to_u32 other)"

definition is_complete :: "agent_capabilities \<Rightarrow> bool" where
  "is_complete caps \<longleftrightarrow> to_u32 caps AND 0xFF = 0xFF"

text \<open>\<open>s[s.size() - 1] = ']'\<close> overwrites the last comma.\<close>

definition close_list :: "string \<Rightarrow> string" where
  "close_list s = butlast s @ '']''"

definition caps_to_string :: "agent_capabilities \<Rightarrow> string" where
  "caps_to_string caps = close_list (''['' @ concat (map (\<lambda>c. cap_name c @ '','') caps))"

definition caps_to_json :: "agent_capabilities \<Rightarrow> string" where
  "caps_to_json caps = close_list (''['' @ concat (map (\<lambda>c. CHR 0x22 # cap_name c @ [CHR 0x22] @ '','') caps))"

type_synonym agent_splits = "flex_bs_split list"

definition splits_to_string :: "agent_splits \<Rightarrow> string" where
  "splits_to_string splits = (if length splits < 1 then ''[]''
     else close_list (''['' @ concat (map (\<lambda>s. split_name s @ '','') splits)))"

definition splits_to_json :: "agent_splits \<Rightarrow> string" where
  "splits_to_json splits = (if length splits < 1 then ''[]''
     else close_list (''['' @ concat (map (\<lambda>s. CHR 0x22 # split_name s @ [CHR 0x22] @ '','') splits)))"

record agent_info =
  agent_id :: int
  agent_bs_id :: u64
  capabilities :: agent_capabilities
  splits :: agent_splits
  port_ip :: string
  rx_packets :: u64
  rx_bytes :: u64

definition make_agent_info ::
  "int \<Rightarrow> u64 \<Rightarrow> agent_capabilities \<Rightarrow> agent_splits \<Rightarrow> string \<Rightarrow> agent_info" where
  "make_agent_info i b cap spl ep =
     \<lparr>agent_id = i, agent_bs_id = b, capabilities = cap, splits = spl, port_ip = ep,
      rx_packets = 0, rx_bytes = 0\<rparr>"

definition quoted :: "string \<Rightarrow> string" where
  "quoted s = CHR 0x22 # s @ [CHR 0x22]"

definition agent_info_to_json :: "agent_info \<Rightarrow> string" where
  "agent_info_to_json a =
     ''{'' @ quoted ''agent_id'' @ '':'' @ int_to_string (agent_id a)
     @ '','' @ quoted ''ip_port'' @ '':'' @ quoted (port_ip a)
     @ '','' @ quoted ''bs_id'' @ '':'' @ u64_to_string (agent_bs_id a)
     @ '','' @ quoted ''capabilities'' @ '':'' @ caps_to_json (capabilities a)
     @ '','' @ quoted ''splits'' @ '':'' @ splits_to_json (splits a) @ ''}''"

definition agent_info_to_string :: "agent_info \<Rightarrow> string" where
  "agent_info_to_string a =
     ''agent ID '' @ int_to_string (agent_id a) @ '' ('' @ port_ip a @ '')''
     @ '' for BS '' @ u64_to_string (agent_bs_id a)
     @ '', capabilities: '' @ caps_to_string (capabilities a)
     @ '', splits: '' @ splits_to_string (splits a)"

section \<open>The bitmap as a set\<close>

definition cap_ok :: "flex_bs_capability \<Rightarrow> bool" where
  "cap_ok c \<longleftrightarrow> cap_num c < 32"

lemma bit_to_u32_fold:
  "bit (fold (\<lambda>c u. u OR push_bit (cap_num c) 1) caps (u :: u32)) n \<longleftrightarrow>
     bit u n \<or> (n < 32 \<and> (\<exists>c \<in> set caps. cap_num c = n))"
  by (induction caps arbitrary: u) (auto simp: bit_simps)

lemma bit_to_u32: "bit (to_u32 caps) n \<longleftrightarrow> n < 32 \<and> num_cap n \<in> set caps"
  unfolding to_u32_def bit_to_u32_fold by (auto intro: bexI [of _ "num_cap n"])

lemma to_u32_cong: "set caps = set caps' \<Longrightarrow> to_u32 caps = to_u32 caps'"
  by (rule bit_word_eqI) (simp add: bit_to_u32)

lemma bit_word_bound: "bit (u :: u32) n \<Longrightarrow> n < 32"
  using bit_imp_le_length by fastforce

lemma from_u32_loop_eq:
  "1 \<le> n \<Longrightarrow> n + k = 33 \<Longrightarrow> unat u < 2 ^ k \<Longrightarrow>
     from_u32_loop u n caps = caps @ map num_cap (filter (\<lambda>i. bit u (i - (n - 1))) [n - 1..<32])"
proof (induction k arbitrary: u n caps)
  case 0
  then have "u = 0" by (simp add: unat_eq_zero)
  then show ?case using 0 by (subst from_u32_loop.simps) simp
next
  case (Suc k)
  have split: "[n - 1..<32] = (n - 1) # [n..<32]"
    using Suc.prems(1,2) by (simp add: upt_conv_Cons)
  show ?case
  proof (cases "u = 0")
    case True
    then show ?thesis by (subst from_u32_loop.simps) simp
  next
    case False
    let ?caps = "if u AND 1 = 1 then caps @ [num_cap (n - 1)] else caps"
    have "unat (drop_bit 1 u) < 2 ^ k"
      using Suc.prems(3) unfolding unat_drop_bit_1 by (simp add: less_mult_imp_div_less)
    then have "from_u32_loop (drop_bit 1 u) (n + 1) ?caps =
        ?caps @ map num_cap (filter (\<lambda>i. bit (drop_bit 1 u) (i - n)) [n..<32])"
      using Suc.IH [of "n + 1" "drop_bit 1 u" ?caps] Suc.prems(1,2) by simp
    moreover have "filter (\<lambda>i. bit (drop_bit 1 u) (i - n)) [n..<32] = filter (\<lambda>i. bit u (i - (n - 1))) [n..<32]"
      using Suc.prems(1) by (intro filter_cong) (auto simp: bit_drop_bit_eq Suc_diff_le)
    moreover have "u AND 1 = 1 \<longleftrightarrow> bit u 0"
      by (simp add: and_one_eq bit_0 odd_iff_mod_2_eq_one)
    ultimately show ?thesis
      using False by (subst from_u32_loop.simps) (simp add: split [unfolded One_nat_def])
  qed
qed

lemma from_u32_eq: "from_u32 u = map num_cap (filter (bit u) [0..<32])"
  using from_u32_loop_eq [of 1 32 u "[]"] unsigned_less [of u] by (simp add: from_u32_def)

lemma set_from_u32: "set (from_u32 u) = {c. bit u (cap_num c)}"
  unfolding from_u32_eq by (auto intro!: image_eqI [of _ num_cap] dest: bit_word_bound)

lemma set_from_to: "set (from_u32 (to_u32 caps)) = {c \<in> set caps. cap_ok c}"
  by (auto simp: set_from_u32 bit_to_u32 cap_ok_def)

lemma to_from_u32: "to_u32 (from_u32 u) = u"
  by (rule bit_word_eqI) (auto simp: bit_to_u32 set_from_u32)

text \<open>Well-formed: as the constructor leaves it.\<close>

definition caps_ok :: "agent_capabilities \<Rightarrow> bool" where
  "caps_ok caps \<longleftrightarrow> sorted_wrt (<) caps \<and> (\<forall>c \<in> set caps. cap_ok c)"

lemma sorted_from_u32: "sorted_wrt (<) (from_u32 u)"
  unfolding from_u32_eq sorted_wrt_map
  by (rule sorted_wrt_filter) (auto simp: sorted_wrt_iff_nth_less less_flex_bs_capability_def)

lemma caps_ok_from_u32: "caps_ok (from_u32 u)"
  by (auto simp: caps_ok_def sorted_from_u32 set_from_u32 cap_ok_def dest: bit_word_bound)

lemma caps_ok_unique: "caps_ok a \<Longrightarrow> caps_ok b \<Longrightarrow> set a = set b \<Longrightarrow> a = b"
  unfolding caps_ok_def by (meson strict_sorted_equal)

interpretation caps: codec to_u32 "\<lambda>u. Some (from_u32 u)" caps_ok
proof unfold_locales
  fix caps
  assume ok: "caps_ok caps"
  then have "set (from_u32 (to_u32 caps)) = set caps" by (auto simp: set_from_to caps_ok_def)
  then show "Some (from_u32 (to_u32 caps)) = Some caps"
    using caps_ok_unique [OF caps_ok_from_u32 ok] by simp
qed

lemma orthogonal_iff: "caps_ok a \<Longrightarrow> orthogonal a b \<longleftrightarrow> set a \<inter> set b = {}"
  unfolding orthogonal_def and_eq_0_iff_bits caps_ok_def
  by (fastforce simp: bit_to_u32 cap_ok_def)

lemma orthogonal_sym: "orthogonal a b \<longleftrightarrow> orthogonal b a"
  by (simp add: orthogonal_def and.commute)

lemma set_merge_in: "caps_ok a \<Longrightarrow> caps_ok b \<Longrightarrow> set (merge_in a b) = set a \<union> set b"
  by (auto simp: merge_in_def set_from_u32 bit_or_iff bit_to_u32 caps_ok_def cap_ok_def)

lemma merge_in_ok: "caps_ok (merge_in a b)"
  by (simp add: merge_in_def caps_ok_from_u32)

lemma is_complete_iff:
  "is_complete caps \<longleftrightarrow> {LOPHY, HIPHY, LOMAC, HIMAC, RLC, PDCP, SDAP, RRC} \<subseteq> set caps"
proof -
  have m: "(0xFF :: u32) = mask 8" by (simp add: mask_eq_exp_minus_1)
  have "is_complete caps \<longleftrightarrow> (\<forall>n < 8. bit (to_u32 caps) n)"
  proof
    assume "is_complete caps"
    then have e: "to_u32 caps AND mask 8 = mask 8" by (simp only: is_complete_def m)
    show "\<forall>n < 8. bit (to_u32 caps) n"
    proof (intro allI impI)
      fix n :: nat
      assume "n < 8"
      then have "bit (mask 8 :: u32) n" by (simp add: bit_mask_iff)
      then show "bit (to_u32 caps) n" by (metis e bit_and_iff)
    qed
  next
    assume "\<forall>n < 8. bit (to_u32 caps) n"
    then have "to_u32 caps AND mask 8 = mask 8"
      by (intro bit_word_eqI) (simp only: bit_and_iff bit_mask_iff, blast)
    then show "is_complete caps" by (simp only: is_complete_def m)
  qed
  also have "\<dots> \<longleftrightarrow> (\<forall>n < 8. num_cap n \<in> set caps)"
    by (auto simp: bit_to_u32)
  also have "\<dots> \<longleftrightarrow> (\<forall>n \<in> set [0..<8]. num_cap n \<in> set caps)"
    by auto
  also have "\<dots> \<longleftrightarrow> {LOPHY, HIPHY, LOMAC, HIMAC, RLC, PDCP, SDAP, RRC} \<subseteq> set caps"
    by (simp add: upt_rec num_cap_def)
  finally show ?thesis .
qed

section \<open>Properties\<close>

text \<open>The constructor sorts the announced capabilities and removes duplicates without losing
  or inventing any: the result is determined by the set announced, and only an empty
  announcement is refused.\<close>

theorem make_capabilities_set:
  assumes "\<And>c. c \<in> set proto_caps \<Longrightarrow> cap_ok c"
  shows "make_capabilities proto_caps =
     (if proto_caps = [] then Inl (Runtime_error ''illegal: zero capabilities'')
      else Inr (sorted_list_of_set (set proto_caps)))"
proof -
  have "set (from_u32 (to_u32 proto_caps)) = set proto_caps" using assms by (auto simp: set_from_to)
  moreover have "sorted_wrt (<) (from_u32 (to_u32 proto_caps))" by (rule sorted_from_u32)
  ultimately have "from_u32 (to_u32 proto_caps) = sorted_list_of_set (set proto_caps)"
    by (metis sorted_list_of_set.sorted_sorted_key_list_of_set sorted_list_of_set.idem_if_sorted_distinct
        strict_sorted_iff)
  then show ?thesis by (auto simp: make_capabilities_def less_Suc_eq)
qed

theorem make_capabilities_set_witness:
  "make_capabilities [RRC, LOPHY, RRC] = Inr (sorted_list_of_set (set [RRC, LOPHY, RRC]))"
proof -
  have "cap_ok c" if "c \<in> set [RRC, LOPHY, RRC]" for c
    using that by (auto simp: cap_ok_def)
  from make_capabilities_set [of "[RRC, LOPHY, RRC]", OF this] show ?thesis
    by (simp only: list.distinct(2) if_False)
qed

text \<open>The bitmap operations are the set operations: two agents are orthogonal exactly when
  they share no capability, merging is union, and a base station is complete exactly when all
  layers from the low PHY to the RRC are there (S1AP is not required).\<close>

theorem capability_algebra:
  assumes "caps_ok a" "caps_ok b"
  shows "(orthogonal a b \<longleftrightarrow> set a \<inter> set b = {}) \<and>
    (set (merge_in a b) = set a \<union> set b \<and> caps_ok (merge_in a b)) \<and>
    (is_complete (merge_in a b) \<longleftrightarrow>
           {LOPHY, HIPHY, LOMAC, HIMAC, RLC, PDCP, SDAP, RRC} \<subseteq> set a \<union> set b)"
  using assms by (simp_all add: orthogonal_iff set_merge_in merge_in_ok is_complete_iff)

theorem capability_algebra_witness:
  "orthogonal [LOPHY, HIPHY, LOMAC, HIMAC] [RLC, PDCP, SDAP, RRC] \<and>
   is_complete (merge_in [LOPHY, HIPHY, LOMAC, HIMAC] [RLC, PDCP, SDAP, RRC])"
proof -
  have "caps_ok [LOPHY, HIPHY, LOMAC, HIMAC]" "caps_ok [RLC, PDCP, SDAP, RRC]"
    by (simp_all add: caps_ok_def cap_ok_def less_flex_bs_capability_def)
  from capability_algebra [OF this] show ?thesis by auto
qed

end
