(* ===== verification/Messages.thy ===== *)
theory Messages
  imports Agent_Info
begin

text \<open>
  The protocol messages (\<open>MESSAGES/V2/*.proto\<close>) as far as the controller reads or fills them.
  An optional field is an \<open>option\<close>, a repeated field a list, a \<open>oneof\<close> a datatype. Fields that
  the controller only copies are kept as their encoding (\<open>raw\<close>). Reading an absent field gives
  its default, as the generated accessors do (\<open>get_or\<close>).
\<close>

type_synonym raw = bytes

definition get_or :: "'a \<Rightarrow> 'a option \<Rightarrow> 'a" where
  "get_or d x = (case x of None \<Rightarrow> d | Some y \<Rightarrow> y)"

lemma get_or_simps [simp]: "get_or d None = d" "get_or d (Some x) = x"
  by (simp_all add: get_or_def)

section \<open>Header\<close>

text \<open>The \<open>FLPT_*\<close> numbers of \<open>header.proto\<close> that the controller writes.\<close>

definition FLPT_HELLO :: nat where "FLPT_HELLO = 0"
definition FLPT_ECHO_REPLY :: nat where "FLPT_ECHO_REPLY = 2"
definition FLPT_STATS_REQUEST :: nat where "FLPT_STATS_REQUEST = 3"
definition FLPT_GET_ENB_CONFIG_REQUEST :: nat where "FLPT_GET_ENB_CONFIG_REQUEST = 7"
definition FLPT_GET_ENB_CONFIG_REPLY :: nat where "FLPT_GET_ENB_CONFIG_REPLY = 8"
definition FLPT_GET_UE_CONFIG_REQUEST :: nat where "FLPT_GET_UE_CONFIG_REQUEST = 9"
definition FLPT_GET_LC_CONFIG_REQUEST :: nat where "FLPT_GET_LC_CONFIG_REQUEST = 11"
definition FLPT_RECONFIGURE_AGENT :: nat where "FLPT_RECONFIGURE_AGENT = 16"
definition FLPT_DL_MAC_CONFIG :: nat where "FLPT_DL_MAC_CONFIG = 13"
definition FLPT_DELEGATE_CONTROL :: nat where "FLPT_DELEGATE_CONTROL = 15"
definition FLPT_RRC_TRIGGERING :: nat where "FLPT_RRC_TRIGGERING = 17"
definition FLPT_HO_COMMAND :: nat where "FLPT_HO_COMMAND = 21"

record flex_header =
  h_version :: "u32 option"
  h_type :: "nat option"
  h_xid :: "u32 option"

definition mk_header :: "nat \<Rightarrow> u32 \<Rightarrow> flex_header" where
  "mk_header t xid = \<lparr>h_version = Some 0, h_type = Some t, h_xid = Some xid\<rparr>"

definition header_xid :: "flex_header option \<Rightarrow> u32" where
  "header_xid h = (case h of None \<Rightarrow> 0 | Some h \<Rightarrow> get_or 0 (h_xid h))"

datatype flexran_direction = NOT_SET | INITIATING_MESSAGE | SUCCESSFUL_OUTCOME | UNSUCCESSFUL_OUTCOME

section \<open>Configuration of a base station\<close>

record flex_plmn =
  mcc :: "u32 option"
  mnc :: "u32 option"
  mnc_length :: "u32 option"

datatype flex_slice_algorithm = Alg_None | Alg_Static | Alg_NVS

record flex_slice_static =
  posLow :: "u32 option"
  posHigh :: "u32 option"

record flex_slice =
  slice_id :: "u32 option"
  slice_label :: "string option"
  slice_scheduler :: "string option"
  slice_static :: "flex_slice_static option"

record flex_slice_dl_ul_config =
  algorithm :: "flex_slice_algorithm option"
  slices :: "flex_slice list"
  scheduler :: "string option"

record flex_slice_config =
  sl_dl :: "flex_slice_dl_ul_config option"
  sl_ul :: "flex_slice_dl_ul_config option"

definition empty_dl_ul :: flex_slice_dl_ul_config where
  "empty_dl_ul = \<lparr>algorithm = None, slices = [], scheduler = None\<rparr>"

definition empty_slice_config :: flex_slice_config where
  "empty_slice_config = \<lparr>sl_dl = None, sl_ul = None\<rparr>"

text \<open>The optional \<open>uint32\<close> fields of \<open>flex_cell_config\<close>, in the order of the message.\<close>

datatype cell_field =
    phy_cell_id | pusch_hopping_offset | hopping_mode | n_sb | phich_resource | phich_duration
  | init_nr_PDCCH_OFDM_sym | dl_bandwidth | ul_bandwidth | ul_cyclic_prefix_length
  | dl_cyclic_prefix_length | antenna_ports_count | duplex_mode | subframe_assignment
  | special_subframe_patterns | prach_config_index | prach_freq_offset | ra_response_window_size
  | mac_contention_resolution_timer | max_HARQ_Msg3Tx | n1PUCCH_AN | deltaPUCCH_shift | nRB_cqi
  | srs_subframe_config | srs_bw_config | srs_mac_up_pts | enable_64QAM | carrier_index
  | dl_freq | ul_freq | eutra_band

record flex_cell_config =
  cell_u32 :: "cell_field \<Rightarrow> u32 option"
  si_config :: "raw option"
  mbsfn_subframe_config_rfperiod :: "u32 list"
  mbsfn_subframe_config_rfoffset :: "u32 list"
  mbsfn_subframe_config_sfalloc :: "u32 list"
  dl_pdsch_power :: "int option"
  ul_pusch_power :: "int option"
  plmn_id :: "flex_plmn list"
  slice_config :: "flex_slice_config option"
  x2_ho_net_control :: "bool option"

definition empty_cell_config :: flex_cell_config where
  "empty_cell_config = \<lparr>cell_u32 = (\<lambda>_. None), si_config = None,
     mbsfn_subframe_config_rfperiod = [], mbsfn_subframe_config_rfoffset = [],
     mbsfn_subframe_config_sfalloc = [], dl_pdsch_power = None, ul_pusch_power = None,
     plmn_id = [], slice_config = None, x2_ho_net_control = None\<rparr>"

record flex_s1ap_mme =
  s1_ip :: "string option"
  requested_plmns :: "flex_plmn list"
  served_gummeis :: "raw list"
  rel_capacity :: "u32 option"
  mme_state :: "nat option"

record flex_s1ap_config =
  s1ap_pending :: "u32 option"
  s1ap_connected :: "u32 option"
  enb_s1_ip :: "string option"
  enb_name :: "string option"
  mme :: "flex_s1ap_mme list"

definition empty_s1ap :: flex_s1ap_config where
  "empty_s1ap = \<lparr>s1ap_pending = None, s1ap_connected = None, enb_s1_ip = None, enb_name = None, mme = []\<rparr>"

record flex_enb_config_reply =
  enb_header :: "flex_header option"
  enb_id :: "u64 option"
  cell_config :: "flex_cell_config list"
  device_spec :: "u32 option"
  s1ap :: "flex_s1ap_config option"
  loadedApps :: "string list"
  loadedMacObjects :: "string list"

definition empty_enb_config :: flex_enb_config_reply where
  "empty_enb_config = \<lparr>enb_header = None, enb_id = None, cell_config = [], device_spec = None,
     s1ap = None, loadedApps = [], loadedMacObjects = []\<rparr>"

section \<open>Configuration of users and logical channels\<close>

record flex_measurement_info =
  offset_freq_serving :: "int option"
  offset_freq_neighbouring :: "int option"
  cell_individual_offset :: "int list"
  filter_coefficient_rsrp :: "int option"
  filter_coefficient_rsrq :: "int option"
  meas_event :: "raw option"

definition empty_info :: flex_measurement_info where
  "empty_info = \<lparr>offset_freq_serving = None, offset_freq_neighbouring = None, cell_individual_offset = [],
     filter_coefficient_rsrp = None, filter_coefficient_rsrq = None, meas_event = None\<rparr>"

text \<open>\<open>ue_rest\<close> holds the singular fields the controller never looks at.\<close>

record flex_ue_config =
  ue_rnti :: "u32 option"
  ue_imsi :: "u64 option"
  dl_slice_id :: "u32 option"
  ul_slice_id :: "u32 option"
  scell_config :: "raw list"
  ue_info :: "flex_measurement_info option"
  ue_rest :: raw

definition empty_ue_config :: flex_ue_config where
  "empty_ue_config = \<lparr>ue_rnti = None, ue_imsi = None, dl_slice_id = None, ul_slice_id = None,
     scell_config = [], ue_info = None, ue_rest = []\<rparr>"

abbreviation rnti_of :: "flex_ue_config \<Rightarrow> u32" where
  "rnti_of c \<equiv> get_or 0 (ue_rnti c)"

record flex_ue_config_reply =
  uer_header :: "flex_header option"
  ue_config :: "flex_ue_config list"

definition empty_ue_config_reply :: flex_ue_config_reply where
  "empty_ue_config_reply = \<lparr>uer_header = None, ue_config = []\<rparr>"

record flex_lc_ue_config =
  lc_rnti :: "u32 option"
  lc_config :: "raw list"

record flex_lc_config_reply =
  lcr_header :: "flex_header option"
  lc_ue_config :: "flex_lc_ue_config list"

definition empty_lc_config_reply :: flex_lc_config_reply where
  "empty_lc_config_reply = \<lparr>lcr_header = None, lc_ue_config = []\<rparr>"

text \<open>The \<open>type\<close> of a state change is a \<open>uint32\<close>.\<close>

definition FLUESC_UPDATED :: u32 where "FLUESC_UPDATED = 0"
definition FLUESC_ACTIVATED :: u32 where "FLUESC_ACTIVATED = 1"
definition FLUESC_DEACTIVATED :: u32 where "FLUESC_DEACTIVATED = 2"

lemmas FLUESC_defs = FLUESC_UPDATED_def FLUESC_ACTIVATED_def FLUESC_DEACTIVATED_def

record flex_ue_state_change =
  sc_type :: "u32 option"
  sc_config :: "flex_ue_config option"

section \<open>Statistics and subframe triggers\<close>

record flex_ue_stats_report =
  r_rnti :: "u32 option"
  r_flags :: "u32 option"
  bsr :: "u32 list"
  phr :: "u32 option"
  rlc_report :: "raw list"
  pending_mac_ces :: "u32 option"
  dl_cqi_report :: "raw option"
  pbr :: "raw option"
  ul_cqi_report :: "raw option"
  rrc_measurements :: "raw option"
  pdcp_stats :: "raw option"
  mac_stats :: "raw option"
  gtp_stats :: "raw list"
  s1ap_stats :: "raw option"

definition empty_ue_report :: flex_ue_stats_report where
  "empty_ue_report = \<lparr>r_rnti = None, r_flags = None, bsr = [], phr = None, rlc_report = [],
     pending_mac_ces = None, dl_cqi_report = None, pbr = None, ul_cqi_report = None,
     rrc_measurements = None, pdcp_stats = None, mac_stats = None, gtp_stats = [], s1ap_stats = None\<rparr>"

record flex_cell_stats_report =
  c_carrier_index :: "u32 option"
  c_flags :: "u32 option"
  noise_inter_report :: "raw option"

definition empty_cell_report :: flex_cell_stats_report where
  "empty_cell_report = \<lparr>c_carrier_index = None, c_flags = None, noise_inter_report = None\<rparr>"

record flex_stats_reply =
  sr_header :: "flex_header option"
  ue_report :: "flex_ue_stats_report list"
  cell_report :: "flex_cell_stats_report list"

record flex_dl_info =
  dl_rnti :: "u32 option"
  harq_process_id :: "u32 option"
  harq_status :: "u32 list"
  dl_serv_cell_index :: "u32 option"

record flex_ul_info =
  ul_rnti :: "u32 option"
  ul_reception :: "u32 list"
  reception_status :: "u32 option"
  ul_tpc :: "u32 option"
  ul_serv_cell_index :: "u32 option"

record flex_sf_trigger =
  sfn_sf :: "u32 option"
  dl_info :: "flex_dl_info list"
  ul_info :: "flex_ul_info list"

datatype flex_stats_report_freq = FLSRF_ONCE | FLSRF_PERIODICAL | FLSRF_CONTINUOUS | FLSRF_OFF

record flex_complete_stats_request =
  report_frequency :: "flex_stats_report_freq option"
  sf :: "u32 option"
  cell_report_flags :: "u32 option"
  ue_report_flags :: "u32 option"
  cell_reports :: "nat list"
  ue_reports :: "nat list"

definition empty_complete_request :: flex_complete_stats_request where
  "empty_complete_request = \<lparr>report_frequency = None, sf = None, cell_report_flags = None,
     ue_report_flags = None, cell_reports = [], ue_reports = []\<rparr>"

section \<open>Messages\<close>

record flex_hello =
  hello_header :: "flex_header option"
  hello_bs_id :: "u64 option"
  hello_capabilities :: "flex_bs_capability list"
  hello_splits :: "flex_bs_split list"

datatype flex_control_delegation_type = FLCDT_MAC_DL_UE_SCHEDULER | FLCDT_AGENT_CONTROL_APP

record flex_control_delegation =
  cd_header :: "flex_header option"
  cd_type :: "flex_control_delegation_type option"
  cd_payload :: "string option"
  cd_name :: "string option"

record flex_control_delegation_request =
  cdr_header :: "flex_header option"
  cdr_type :: "flex_control_delegation_type option"
  cdr_name :: "string option"

datatype flex_agent_reconfiguration_param = Param_integer int | Param_floating raw | Param_boolean bool | Param_str string

text \<open>A protobuf map is a function to optional values.\<close>

record flex_agent_reconfiguration_subsystem =
  sub_name :: "string option"
  sub_behavior :: "string option"
  sub_params :: "string \<Rightarrow> flex_agent_reconfiguration_param option"

record flex_agent_reconfiguration_system =
  sys_name :: "string option"
  subsystems :: "flex_agent_reconfiguration_subsystem list"

record flex_agent_reconfiguration =
  ar_header :: "flex_header option"
  ar_policy :: "string option"
  ar_systems :: "flex_agent_reconfiguration_system list"

section \<open>Commands of the schedulers\<close>

record flex_dl_dci =
  dci_rnti :: "u32 option"
  res_alloc :: "u32 option"
  rb_bitmap :: "u32 option"
  rb_shift :: "u32 option"
  tbs_size :: "u32 list"
  dci_mcs :: "u32 list"
  dci_ndi :: "u32 list"
  dci_rv :: "u32 list"
  aggr_level :: "u32 option"
  dci_format :: "u32 option"
  dci_tpc :: "u32 option"
  harq_process :: "u32 option"
  vrb_format :: "u32 option"

record flex_rlc_pdu_tb =
  logical_channel_id :: "u32 option"
  tb_size :: "u32 option"

text \<open>An RLC PDU is the list of its transport blocks.\<close>

record flex_dl_data =
  dd_rnti :: "u32 option"
  dl_dci :: "flex_dl_dci option"
  ce_bitmap :: "u32 list"
  rlc_pdu :: "flex_rlc_pdu_tb list list"
  dd_serv_cell_index :: "u32 option"

record flex_dl_mac_config =
  dmc_header :: "flex_header option"
  dmc_sfn_sf :: "u32 option"
  dl_ue_data :: "flex_dl_data list"

datatype msg_body =
    Hello_msg flex_hello
  | Echo_request_msg "flex_header option"
  | Echo_reply_msg "flex_header option"
  | Stats_request_msg "flex_header option" flex_complete_stats_request
  | Stats_reply_msg flex_stats_reply
  | Sf_trigger_msg flex_sf_trigger
  | Ul_sr_info_msg raw
  | Enb_config_request_msg "flex_header option"
  | Enb_config_reply_msg flex_enb_config_reply
  | Ue_config_request_msg "flex_header option"
  | Ue_config_reply_msg flex_ue_config_reply
  | Lc_config_request_msg "flex_header option"
  | Lc_config_reply_msg flex_lc_config_reply
  | Dl_mac_config_msg flex_dl_mac_config
  | Ue_state_change_msg flex_ue_state_change
  | Agent_reconfiguration_msg flex_agent_reconfiguration
  | Rrc_triggering "flex_header option" "flex_measurement_info option"
  | Ho_command "flex_header option" "u32 option" "u32 option"
  | Disconnect_msg "flex_header option"
  | Control_delegation_msg flex_control_delegation
  | Control_del_req_msg flex_control_delegation_request
  | Other_msg raw

record flexran_message =
  msg_dir :: "flexran_direction option"
  msg_body :: "msg_body option"

definition message_of :: "flexran_direction \<Rightarrow> msg_body \<Rightarrow> flexran_message" where
  "message_of d b = \<lparr>msg_dir = Some d, msg_body = Some b\<rparr>"

end
