(* ===== verification/Protobuf.thy ===== *)
theory Protobuf
  imports Messages
begin

text \<open>
  The protocol buffer runtime and the code generated from the \<open>.proto\<close> files are not part of
  the program. What the program takes from them is a record of functions that the definitions
  get as an argument; \<open>merge_ok\<close> states the documented behaviour of \<open>MergeFrom\<close>: singular
  fields present in the source replace, repeated fields are appended, sub-messages are merged.
\<close>

record protobuf =
  merge_cell :: "flex_cell_config \<Rightarrow> flex_cell_config \<Rightarrow> flex_cell_config"
  merge_ue :: "flex_ue_config \<Rightarrow> flex_ue_config \<Rightarrow> flex_ue_config"
  parse_message :: "bytes \<Rightarrow> flexran_message"
  report_debug :: "flex_ue_stats_report \<Rightarrow> string"
  report_json :: "flex_ue_stats_report \<Rightarrow> string"
  enb_debug :: "flex_enb_config_reply \<Rightarrow> string"
  enb_json :: "flex_enb_config_reply \<Rightarrow> string"
  ue_debug :: "flex_ue_config_reply \<Rightarrow> string"
  ue_json :: "flex_ue_config_reply \<Rightarrow> string"
  lc_debug :: "flex_lc_config_reply \<Rightarrow> string"
  lc_json :: "flex_lc_config_reply \<Rightarrow> string"

definition override :: "'a option \<Rightarrow> 'a option \<Rightarrow> 'a option" where
  "override dst src = (case src of None \<Rightarrow> dst | Some v \<Rightarrow> Some v)"

lemma override_simps [simp]: "override d None = d" "override d (Some v) = Some v"
  by (simp_all add: override_def)

definition merge_info :: "flex_measurement_info \<Rightarrow> flex_measurement_info \<Rightarrow> flex_measurement_info \<Rightarrow> bool" where
  "merge_info d s m \<longleftrightarrow>
     offset_freq_serving m = override (offset_freq_serving d) (offset_freq_serving s) \<and>
     offset_freq_neighbouring m = override (offset_freq_neighbouring d) (offset_freq_neighbouring s) \<and>
     cell_individual_offset m = cell_individual_offset d @ cell_individual_offset s \<and>
     filter_coefficient_rsrp m = override (filter_coefficient_rsrp d) (filter_coefficient_rsrp s) \<and>
     filter_coefficient_rsrq m = override (filter_coefficient_rsrq d) (filter_coefficient_rsrq s)"

definition merge_cell_ok :: "protobuf \<Rightarrow> bool" where
  "merge_cell_ok pb \<longleftrightarrow> (\<forall>d s. let m = merge_cell pb d s in
     (\<forall>f. cell_u32 m f = override (cell_u32 d f) (cell_u32 s f)) \<and>
     mbsfn_subframe_config_rfperiod m = mbsfn_subframe_config_rfperiod d @ mbsfn_subframe_config_rfperiod s \<and>
     mbsfn_subframe_config_rfoffset m = mbsfn_subframe_config_rfoffset d @ mbsfn_subframe_config_rfoffset s \<and>
     mbsfn_subframe_config_sfalloc m = mbsfn_subframe_config_sfalloc d @ mbsfn_subframe_config_sfalloc s \<and>
     dl_pdsch_power m = override (dl_pdsch_power d) (dl_pdsch_power s) \<and>
     ul_pusch_power m = override (ul_pusch_power d) (ul_pusch_power s) \<and>
     plmn_id m = plmn_id d @ plmn_id s \<and>
     (slice_config s = None \<longrightarrow> slice_config m = slice_config d) \<and>
     (slice_config d = None \<longrightarrow> slice_config m = slice_config s) \<and>
     x2_ho_net_control m = override (x2_ho_net_control d) (x2_ho_net_control s))"

definition merge_ue_ok :: "protobuf \<Rightarrow> bool" where
  "merge_ue_ok pb \<longleftrightarrow> (\<forall>d s. let m = merge_ue pb d s in
     ue_rnti m = override (ue_rnti d) (ue_rnti s) \<and>
     ue_imsi m = override (ue_imsi d) (ue_imsi s) \<and>
     dl_slice_id m = override (dl_slice_id d) (dl_slice_id s) \<and>
     ul_slice_id m = override (ul_slice_id d) (ul_slice_id s) \<and>
     scell_config m = scell_config d @ scell_config s \<and>
     (case ue_info s of None \<Rightarrow> ue_info m = ue_info d
      | Some si \<Rightarrow> (\<exists>mi. ue_info m = Some mi \<and> merge_info (get_or empty_info (ue_info d)) si mi)))"

definition merge_ok :: "protobuf \<Rightarrow> bool" where
  "merge_ok pb \<longleftrightarrow> merge_cell_ok pb \<and> merge_ue_ok pb"

lemma merge_cellD:
  assumes "merge_cell_ok pb"
  shows "cell_u32 (merge_cell pb d s) f = override (cell_u32 d f) (cell_u32 s f)"
    and "mbsfn_subframe_config_rfperiod (merge_cell pb d s) = mbsfn_subframe_config_rfperiod d @ mbsfn_subframe_config_rfperiod s"
    and "mbsfn_subframe_config_rfoffset (merge_cell pb d s) = mbsfn_subframe_config_rfoffset d @ mbsfn_subframe_config_rfoffset s"
    and "mbsfn_subframe_config_sfalloc (merge_cell pb d s) = mbsfn_subframe_config_sfalloc d @ mbsfn_subframe_config_sfalloc s"
    and "plmn_id (merge_cell pb d s) = plmn_id d @ plmn_id s"
    and "slice_config s = None \<Longrightarrow> slice_config (merge_cell pb d s) = slice_config d"
    and "slice_config d = None \<Longrightarrow> slice_config (merge_cell pb d s) = slice_config s"
    and "x2_ho_net_control (merge_cell pb d s) = override (x2_ho_net_control d) (x2_ho_net_control s)"
  using assms unfolding merge_cell_ok_def Let_def by blast+

lemma merge_ueD:
  assumes "merge_ue_ok pb"
  shows "ue_rnti (merge_ue pb d s) = override (ue_rnti d) (ue_rnti s)"
    and "ue_imsi (merge_ue pb d s) = override (ue_imsi d) (ue_imsi s)"
    and "dl_slice_id (merge_ue pb d s) = override (dl_slice_id d) (dl_slice_id s)"
    and "ul_slice_id (merge_ue pb d s) = override (ul_slice_id d) (ul_slice_id s)"
    and "scell_config (merge_ue pb d s) = scell_config d @ scell_config s"
    and "ue_info s = None \<Longrightarrow> ue_info (merge_ue pb d s) = ue_info d"
    and "ue_info s = Some si \<Longrightarrow>
      \<exists>mi. ue_info (merge_ue pb d s) = Some mi \<and> merge_info (get_or empty_info (ue_info d)) si mi"
proof -
  let ?m = "merge_ue pb d s"
  have all: "ue_rnti ?m = override (ue_rnti d) (ue_rnti s) \<and> ue_imsi ?m = override (ue_imsi d) (ue_imsi s) \<and>
     dl_slice_id ?m = override (dl_slice_id d) (dl_slice_id s) \<and>
     ul_slice_id ?m = override (ul_slice_id d) (ul_slice_id s) \<and>
     scell_config ?m = scell_config d @ scell_config s \<and>
     (case ue_info s of None \<Rightarrow> ue_info ?m = ue_info d
      | Some si \<Rightarrow> (\<exists>mi. ue_info ?m = Some mi \<and> merge_info (get_or empty_info (ue_info d)) si mi))"
    using assms unfolding merge_ue_ok_def Let_def by blast
  show "ue_rnti ?m = override (ue_rnti d) (ue_rnti s)" "ue_imsi ?m = override (ue_imsi d) (ue_imsi s)"
    "dl_slice_id ?m = override (dl_slice_id d) (dl_slice_id s)"
    "ul_slice_id ?m = override (ul_slice_id d) (ul_slice_id s)"
    "scell_config ?m = scell_config d @ scell_config s" using all by auto
  show "ue_info s = None \<Longrightarrow> ue_info ?m = ue_info d" using all by simp
  show "ue_info s = Some si \<Longrightarrow> \<exists>mi. ue_info ?m = Some mi \<and> merge_info (get_or empty_info (ue_info d)) si mi"
    using all by simp
qed

section \<open>An instance for the examples\<close>

definition plain_merge_info :: "flex_measurement_info \<Rightarrow> flex_measurement_info \<Rightarrow> flex_measurement_info" where
  "plain_merge_info d s = \<lparr>
     offset_freq_serving = override (offset_freq_serving d) (offset_freq_serving s),
     offset_freq_neighbouring = override (offset_freq_neighbouring d) (offset_freq_neighbouring s),
     cell_individual_offset = cell_individual_offset d @ cell_individual_offset s,
     filter_coefficient_rsrp = override (filter_coefficient_rsrp d) (filter_coefficient_rsrp s),
     filter_coefficient_rsrq = override (filter_coefficient_rsrq d) (filter_coefficient_rsrq s),
     meas_event = override (meas_event d) (meas_event s)\<rparr>"

definition plain_merge_cell :: "flex_cell_config \<Rightarrow> flex_cell_config \<Rightarrow> flex_cell_config" where
  "plain_merge_cell d s = \<lparr>
     cell_u32 = (\<lambda>f. override (cell_u32 d f) (cell_u32 s f)),
     si_config = override (si_config d) (si_config s),
     mbsfn_subframe_config_rfperiod = mbsfn_subframe_config_rfperiod d @ mbsfn_subframe_config_rfperiod s,
     mbsfn_subframe_config_rfoffset = mbsfn_subframe_config_rfoffset d @ mbsfn_subframe_config_rfoffset s,
     mbsfn_subframe_config_sfalloc = mbsfn_subframe_config_sfalloc d @ mbsfn_subframe_config_sfalloc s,
     dl_pdsch_power = override (dl_pdsch_power d) (dl_pdsch_power s),
     ul_pusch_power = override (ul_pusch_power d) (ul_pusch_power s),
     plmn_id = plmn_id d @ plmn_id s,
     slice_config = override (slice_config d) (slice_config s),
     x2_ho_net_control = override (x2_ho_net_control d) (x2_ho_net_control s)\<rparr>"

definition plain_merge_ue :: "flex_ue_config \<Rightarrow> flex_ue_config \<Rightarrow> flex_ue_config" where
  "plain_merge_ue d s = \<lparr>
     ue_rnti = override (ue_rnti d) (ue_rnti s), ue_imsi = override (ue_imsi d) (ue_imsi s),
     dl_slice_id = override (dl_slice_id d) (dl_slice_id s),
     ul_slice_id = override (ul_slice_id d) (ul_slice_id s),
     scell_config = scell_config d @ scell_config s,
     ue_info = (case ue_info s of None \<Rightarrow> ue_info d
                | Some si \<Rightarrow> Some (plain_merge_info (get_or empty_info (ue_info d)) si)),
     ue_rest = ue_rest d @ ue_rest s\<rparr>"

definition plain_pb :: protobuf where
  "plain_pb = \<lparr>merge_cell = plain_merge_cell, merge_ue = plain_merge_ue,
     parse_message = (\<lambda>_. \<lparr>msg_dir = None, msg_body = None\<rparr>),
     report_debug = (\<lambda>_. []), report_json = (\<lambda>_. ''{}''), enb_debug = (\<lambda>_. []), enb_json = (\<lambda>_. ''{}''),
     ue_debug = (\<lambda>_. []), ue_json = (\<lambda>_. ''{}''), lc_debug = (\<lambda>_. []), lc_json = (\<lambda>_. ''{}'')\<rparr>"

lemma plain_pb_ok: "merge_ok plain_pb"
  by (auto simp: merge_ok_def merge_cell_ok_def merge_ue_ok_def Let_def plain_pb_def plain_merge_cell_def
      plain_merge_ue_def merge_info_def plain_merge_info_def override_def split: option.splits)

end
