(* ===== verification/Ue_Mac.thy ===== *)
theory Ue_Mac
  imports Messages Rib_Common
begin

text \<open>
  Per-user and per-cell MAC state: \<open>rib/ue_mac_rib_info.{h,cc}\<close> and
  \<open>rib/cell_mac_rib_info.{h,cc}\<close>. The fixed-size \<open>std::array\<close>s are functions with their bounds
  checked at every access: an index out of range is \<open>Undefined_behaviour\<close>. \<open>active_harq\<close> is true
  for the HARQ processes that are free.
\<close>

section \<open>State\<close>

record ue_mac_rib_info =
  um_rnti :: u32
  mac_stats_report :: flex_ue_stats_report
  harq_stats :: "nat \<Rightarrow> nat \<Rightarrow> nat \<Rightarrow> u8"
  active_harq :: "nat \<Rightarrow> nat \<Rightarrow> nat \<Rightarrow> bool"
  uplink_reception_stats :: "nat \<Rightarrow> u8"
  ul_reception_data :: "nat \<Rightarrow> nat \<Rightarrow> u8"
  tpc :: "u8 option"

definition FLHS_ACK :: u8 where "FLHS_ACK = 0"

definition new_ue_mac :: "u32 \<Rightarrow> ue_mac_rib_info" where
  "new_ue_mac rnti = \<lparr>um_rnti = rnti, mac_stats_report = empty_ue_report,
     harq_stats = (\<lambda>_ _ _. FLHS_ACK), active_harq = (\<lambda>_ _ _. True),
     uplink_reception_stats = (\<lambda>_. 0), ul_reception_data = (\<lambda>_ _. 0), tpc = None\<rparr>"

definition out_of_bounds :: exn where
  "out_of_bounds = Undefined_behaviour ''array index out of bounds''"

definition upd3 :: "nat \<Rightarrow> nat \<Rightarrow> nat \<Rightarrow> 'a \<Rightarrow> (nat \<Rightarrow> nat \<Rightarrow> nat \<Rightarrow> 'a) \<Rightarrow> nat \<Rightarrow> nat \<Rightarrow> nat \<Rightarrow> 'a" where
  "upd3 i j k v a = (\<lambda>i' j' k'. if i' = i \<and> j' = j \<and> k' = k then v else a i' j' k')"

section \<open>Subframe information\<close>

text \<open>The indices of the message are cut to eight bits and not checked.\<close>

definition update_dl_sf_info :: "flex_dl_info \<Rightarrow> ue_mac_rib_info \<Rightarrow> ue_mac_rib_info result" where
  "update_dl_sf_info d u =
     (let CC_id = unat (ucast (get_or 0 (dl_serv_cell_index d)) :: u8);
          harq_id = unat (ucast (get_or 0 (harq_process_id d)) :: u8) in
      foldR (\<lambda>(i, st) u.
          if CC_id < MAX_NUM_CC \<and> harq_id < MAX_NUM_HARQ \<and> i < MAX_NUM_TB
          then Inr (u\<lparr>harq_stats := upd3 CC_id harq_id i (ucast st) (harq_stats u),
                      active_harq := upd3 CC_id harq_id i True (active_harq u)\<rparr>)
          else Inl out_of_bounds)
        (enumerate 0 (harq_status d)) u)"

definition update_ul_sf_info :: "flex_ul_info \<Rightarrow> ue_mac_rib_info \<Rightarrow> ue_mac_rib_info result" where
  "update_ul_sf_info l u =
     (let u = u\<lparr>tpc := Some (ucast (get_or 0 (ul_tpc l)))\<rparr>;
          CC_id = unat (ucast (get_or 0 (ul_serv_cell_index l)) :: u8) in
      if \<not> CC_id < MAX_NUM_CC then Inl out_of_bounds
      else foldR (\<lambda>(i, v) u.
             if i < MAX_NUM_LC
             then Inr (u\<lparr>ul_reception_data := (ul_reception_data u)(CC_id := (ul_reception_data u CC_id)(i := ucast v))\<rparr>)
             else Inl out_of_bounds)
           (enumerate 0 (ul_reception l))
           (u\<lparr>uplink_reception_stats := (uplink_reception_stats u)(CC_id := ucast (get_or 0 (reception_status l)))\<rparr>))"

section \<open>MAC statistics\<close>

definition FLUST_BSR :: u32 where "FLUST_BSR = 1"
definition FLUST_PHR :: u32 where "FLUST_PHR = 2"
definition FLUST_RLC_BS :: u32 where "FLUST_RLC_BS = 4"
definition FLUST_MAC_CE_BS :: u32 where "FLUST_MAC_CE_BS = 8"
definition FLUST_DL_CQI :: u32 where "FLUST_DL_CQI = 16"
definition FLUST_PBS :: u32 where "FLUST_PBS = 32"
definition FLUST_UL_CQI :: u32 where "FLUST_UL_CQI = 64"
definition FLUST_MAC_STATS :: u32 where "FLUST_MAC_STATS = 128"
definition FLUST_PDCP_STATS :: u32 where "FLUST_PDCP_STATS = 1024"
definition FLUST_GTP_STATS :: u32 where "FLUST_GTP_STATS = 2048"
definition FLUST_S1AP_STATS :: u32 where "FLUST_S1AP_STATS = 4096"
definition FLUST_RRC_MEASUREMENTS :: u32 where "FLUST_RRC_MEASUREMENTS = 65536"
definition FLCST_NOISE_INTERFERENCE :: u32 where "FLCST_NOISE_INTERFERENCE = 1"

lemmas FLUST_defs = FLUST_BSR_def FLUST_PHR_def FLUST_RLC_BS_def FLUST_MAC_CE_BS_def FLUST_DL_CQI_def
  FLUST_PBS_def FLUST_UL_CQI_def FLUST_MAC_STATS_def FLUST_PDCP_STATS_def FLUST_GTP_STATS_def
  FLUST_S1AP_STATS_def FLUST_RRC_MEASUREMENTS_def

unbundle bit_operations_syntax

definition flag_set :: "u32 \<Rightarrow> u32 \<Rightarrow> bool" where
  "flag_set f flags \<longleftrightarrow> f AND flags \<noteq> 0"

text \<open>Copy the groups of fields whose flag is set in the report.\<close>

definition merge_report :: "flex_ue_stats_report \<Rightarrow> flex_ue_stats_report \<Rightarrow> flex_ue_stats_report" where
  "merge_report r m =
     (let flags = get_or 0 (r_flags r);
          m = m\<lparr>r_rnti := Some (get_or 0 (r_rnti r))\<rparr>;
          m = (if flag_set FLUST_BSR flags then m\<lparr>bsr := bsr r\<rparr> else m);
          m = (if flag_set FLUST_PHR flags then m\<lparr>phr := Some (get_or 0 (phr r))\<rparr> else m);
          m = (if flag_set FLUST_RLC_BS flags then m\<lparr>rlc_report := rlc_report r\<rparr> else m);
          m = (if flag_set FLUST_MAC_CE_BS flags then m\<lparr>pending_mac_ces := Some (get_or 0 (pending_mac_ces r))\<rparr> else m);
          m = (if flag_set FLUST_DL_CQI flags then m\<lparr>dl_cqi_report := Some (get_or [] (dl_cqi_report r))\<rparr> else m);
          m = (if flag_set FLUST_PBS flags then m\<lparr>pbr := Some (get_or [] (pbr r))\<rparr> else m);
          m = (if flag_set FLUST_UL_CQI flags then m\<lparr>ul_cqi_report := Some (get_or [] (ul_cqi_report r))\<rparr> else m);
          m = (if flag_set FLUST_PDCP_STATS flags then m\<lparr>pdcp_stats := Some (get_or [] (pdcp_stats r))\<rparr> else m);
          m = (if flag_set FLUST_RRC_MEASUREMENTS flags then m\<lparr>rrc_measurements := Some (get_or [] (rrc_measurements r))\<rparr> else m);
          m = (if flag_set FLUST_MAC_STATS flags then m\<lparr>mac_stats := Some (get_or [] (mac_stats r))\<rparr> else m);
          m = (if flag_set FLUST_GTP_STATS flags then m\<lparr>gtp_stats := gtp_stats r\<rparr> else m);
          m = (if flag_set FLUST_S1AP_STATS flags then m\<lparr>s1ap_stats := Some (get_or [] (s1ap_stats r))\<rparr> else m)
      in m)"

definition update_mac_stats_report :: "flex_ue_stats_report \<Rightarrow> ue_mac_rib_info \<Rightarrow> ue_mac_rib_info" where
  "update_mac_stats_report r u = u\<lparr>mac_stats_report := merge_report r (mac_stats_report u)\<rparr>"

type_synonym cell_mac_rib_info = flex_cell_stats_report

definition update_cell_stats_report :: "flex_cell_stats_report \<Rightarrow> cell_mac_rib_info \<Rightarrow> cell_mac_rib_info" where
  "update_cell_stats_report r c =
     (let flags = get_or 0 (c_flags r) in
      if flag_set FLCST_NOISE_INTERFERENCE flags
      then c\<lparr>noise_inter_report := Some (get_or [] (noise_inter_report r))\<rparr> else c)"

section \<open>HARQ processes\<close>

definition get_harq_stats :: "nat \<Rightarrow> nat \<Rightarrow> ue_mac_rib_info \<Rightarrow> u8 result" where
  "get_harq_stats cell_id harq_pid u =
     (if cell_id < MAX_NUM_CC \<and> harq_pid < MAX_NUM_HARQ then Inr (harq_stats u cell_id harq_pid 0)
      else Inl out_of_bounds)"

definition get_next_available_harq :: "nat \<Rightarrow> ue_mac_rib_info \<Rightarrow> int result" where
  "get_next_available_harq cell_id u =
     (if \<not> cell_id < MAX_NUM_CC then Inl out_of_bounds
      else Inr (case List.find (\<lambda>i. active_harq u cell_id i 0) [0..<MAX_NUM_HARQ] of
                  Some i \<Rightarrow> int i | None \<Rightarrow> -1))"

definition has_available_harq :: "nat \<Rightarrow> ue_mac_rib_info \<Rightarrow> bool result" where
  "has_available_harq cell_id u =
     (if \<not> cell_id < MAX_NUM_CC then Inl out_of_bounds
      else Inr (list_ex (\<lambda>i. active_harq u cell_id i 0) [0..<MAX_NUM_HARQ]))"

definition harq_scheduled :: "nat \<Rightarrow> nat \<Rightarrow> ue_mac_rib_info \<Rightarrow> ue_mac_rib_info result" where
  "harq_scheduled cell_id harq_pid u =
     (if cell_id < MAX_NUM_CC \<and> harq_pid < MAX_NUM_HARQ
      then Inr (u\<lparr>active_harq := upd3 cell_id harq_pid 1 False (upd3 cell_id harq_pid 0 False (active_harq u))\<rparr>)
      else Inl out_of_bounds)"

section \<open>Text and JSON\<close>

text \<open>\<open>debug\<close> and \<open>json\<close> are the renderings of the generated code.\<close>

definition ack_name :: "ue_mac_rib_info \<Rightarrow> nat \<Rightarrow> string" where
  "ack_name u i = (if harq_stats u 0 i 0 = FLHS_ACK then ''ACK'' else ''NACK'')"

definition newline :: string where "newline = [CHR 0x0A]"

definition ue_dump_stats_to_string :: "(flex_ue_stats_report \<Rightarrow> string) \<Rightarrow> ue_mac_rib_info \<Rightarrow> string" where
  "ue_dump_stats_to_string debug u =
     ''Rnti: '' @ u32_to_string (um_rnti u) @ newline @ debug (mac_stats_report u) @ newline
     @ ''Harq status'' @ newline
     @ concat (map (\<lambda>i. ''  |   '' @ nat_to_string i) [0..<8])
     @ ''   |   '' @ newline @ '' ''
     @ concat (map (\<lambda>i. '' | '' @ ack_name u i) [0..<8]) @ ''  |'' @ newline"

definition comma_separated :: "string list \<Rightarrow> string" where
  "comma_separated xs = (case xs of [] \<Rightarrow> [] | y # ys \<Rightarrow> y @ concat (map (\<lambda>s. CHR '','' # s) ys))"

definition format_stats_to_json :: "u32 \<Rightarrow> string \<Rightarrow> string list \<Rightarrow> string" where
  "format_stats_to_json rnti mac_stats_json harq =
     ''{'' @ quoted ''rnti'' @ '': '' @ u32_to_string rnti
     @ '','' @ quoted ''mac_stats'' @ '':'' @ mac_stats_json
     @ '','' @ quoted ''harq'' @ '':['' @ comma_separated harq @ '']}''"

definition ue_dump_stats_to_json :: "(flex_ue_stats_report \<Rightarrow> string) \<Rightarrow> ue_mac_rib_info \<Rightarrow> string" where
  "ue_dump_stats_to_json json u =
     format_stats_to_json (um_rnti u) (json (mac_stats_report u))
       (map (\<lambda>i. quoted (ack_name u i)) [0..<8])"

section \<open>Lemmas\<close>

text \<open>Which indices an agent may send.\<close>

definition dl_info_ok :: "flex_dl_info \<Rightarrow> bool" where
  "dl_info_ok d \<longleftrightarrow> harq_status d = [] \<or>
     (unat (ucast (get_or 0 (dl_serv_cell_index d)) :: u8) < MAX_NUM_CC \<and>
      unat (ucast (get_or 0 (harq_process_id d)) :: u8) < MAX_NUM_HARQ \<and>
      length (harq_status d) \<le> MAX_NUM_TB)"

definition ul_info_ok :: "flex_ul_info \<Rightarrow> bool" where
  "ul_info_ok l \<longleftrightarrow> unat (ucast (get_or 0 (ul_serv_cell_index l)) :: u8) < MAX_NUM_CC \<and>
     length (ul_reception l) \<le> MAX_NUM_LC"

lemma foldR_guarded:
  "is_ok (foldR (\<lambda>x s. if P x then Inr (f x s) else Inl e) xs s) \<longleftrightarrow> (\<forall>x \<in> set xs. P x)"
  by (induction xs arbitrary: s) auto

lemma foldR_guarded_Inr:
  "(\<forall>x \<in> set xs. P x) \<Longrightarrow> foldR (\<lambda>x s. if P x then Inr (f x s) else Inl e) xs s = Inr (fold f xs s)"
  by (induction xs arbitrary: s) auto

lemma set_enumerate_fst: "(\<forall>x \<in> set (enumerate 0 xs). Q (fst x)) \<longleftrightarrow> (\<forall>i < length xs. Q i)"
proof -
  have "fst ` set (enumerate 0 xs) = {0..<length xs}"
    by (metis add_0 map_fst_enumerate set_map set_upt)
  then show ?thesis by (metis (no_types, lifting) atLeastLessThan_iff image_iff zero_le)
qed

lemma bounded_index: "(\<forall>i < n. i < (m :: nat)) \<longleftrightarrow> n \<le> m"
  by (metis le_less_linear less_irrefl order.strict_trans2)

lemma update_dl_sf_info_ok: "is_ok (update_dl_sf_info d u) \<longleftrightarrow> dl_info_ok d"
proof -
  let ?c = "unat (ucast (get_or 0 (dl_serv_cell_index d)) :: u8)"
  let ?h = "unat (ucast (get_or 0 (harq_process_id d)) :: u8)"
  have "is_ok (update_dl_sf_info d u) \<longleftrightarrow>
      (\<forall>x \<in> set (enumerate 0 (harq_status d)). (\<lambda>i. ?c < MAX_NUM_CC \<and> ?h < MAX_NUM_HARQ \<and> i < MAX_NUM_TB) (fst x))"
    unfolding update_dl_sf_info_def Let_def case_prod_unfold by (rule foldR_guarded)
  also have "\<dots> \<longleftrightarrow> (\<forall>i < length (harq_status d). ?c < MAX_NUM_CC \<and> ?h < MAX_NUM_HARQ \<and> i < MAX_NUM_TB)"
    by (rule set_enumerate_fst)
  also have "\<dots> \<longleftrightarrow> harq_status d = [] \<or> (?c < MAX_NUM_CC \<and> ?h < MAX_NUM_HARQ \<and> (\<forall>i < length (harq_status d). i < MAX_NUM_TB))"
    by (cases "harq_status d") auto
  finally show ?thesis by (simp add: dl_info_ok_def bounded_index)
qed

lemma update_ul_sf_info_ok: "is_ok (update_ul_sf_info l u) \<longleftrightarrow> ul_info_ok l"
proof -
  let ?c = "unat (ucast (get_or 0 (ul_serv_cell_index l)) :: u8)"
  have "is_ok (update_ul_sf_info l u) \<longleftrightarrow>
      ?c < MAX_NUM_CC \<and> (\<forall>x \<in> set (enumerate 0 (ul_reception l)). fst x < MAX_NUM_LC)"
    unfolding update_ul_sf_info_def Let_def case_prod_unfold by (simp add: foldR_guarded)
  then show ?thesis
    using set_enumerate_fst [of "ul_reception l" "\<lambda>i. i < MAX_NUM_LC"]
    by (simp add: ul_info_ok_def bounded_index)
qed

text \<open>A field that each report either sets or leaves alone holds the last value set.\<close>

lemma fold_last_set:
  assumes "\<And>r m. g (upd r m) = (if P r then h r else g m)"
  shows "g (fold upd rs m) = (case List.find P (rev rs) of Some r \<Rightarrow> h r | None \<Rightarrow> g m)"
proof (induction rs rule: rev_induct)
  case Nil
  then show ?case by simp
next
  case (snoc r rs)
  then show ?case using assms by simp
qed

abbreviation last_with :: "u32 \<Rightarrow> flex_ue_stats_report list \<Rightarrow> flex_ue_stats_report option" where
  "last_with f rs \<equiv> List.find (\<lambda>r. flag_set f (get_or 0 (r_flags r))) (rev rs)"

lemma find_upt_Some:
  "List.find P [0..<n] = Some i \<Longrightarrow> i < n \<and> P i \<and> (\<forall>j < i. \<not> P j)"
  by (auto simp: find_Some_iff)

lemma next_harq_cases:
  assumes "c < MAX_NUM_CC"
  obtains i where "get_next_available_harq c u = Inr (int i)" "i < MAX_NUM_HARQ" "active_harq u c i 0"
      "\<And>j. j < i \<Longrightarrow> \<not> active_harq u c j 0"
  | "get_next_available_harq c u = Inr (-1)" "\<And>j. j < MAX_NUM_HARQ \<Longrightarrow> \<not> active_harq u c j 0"
proof (cases "List.find (\<lambda>i. active_harq u c i 0) [0..<MAX_NUM_HARQ]")
  case None
  then have "\<And>j. j < MAX_NUM_HARQ \<Longrightarrow> \<not> active_harq u c j 0" by (auto simp: find_None_iff)
  then show ?thesis using that(2) None assms by (simp add: get_next_available_harq_def)
next
  case (Some i)
  then show ?thesis using that(1) [of i] find_upt_Some [OF Some] assms
    by (simp add: get_next_available_harq_def)
qed

abbreviation set_harq :: "nat \<Rightarrow> nat \<Rightarrow> nat \<times> u32 \<Rightarrow> ue_mac_rib_info \<Rightarrow> ue_mac_rib_info" where
  "set_harq c i x u \<equiv> u\<lparr>harq_stats := upd3 c i (fst x) (ucast (snd x)) (harq_stats u),
     active_harq := upd3 c i (fst x) True (active_harq u)\<rparr>"

lemma active_fold_set_harq:
  "active_harq (fold (set_harq c i) ys v) c j 0 \<longleftrightarrow> (j = i \<and> 0 \<in> fst ` set ys) \<or> active_harq v c j 0"
  by (induction ys arbitrary: v) (auto simp: upd3_def)

lemma foldR_guarded_value:
  "foldR (\<lambda>x s. if P x then Inr (f x s) else Inl e) xs s = Inr t \<Longrightarrow> t = fold f xs s"
  by (induction xs arbitrary: s) (auto split: if_splits)

text \<open>Feedback for a process makes it available again.\<close>

lemma dl_info_frees:
  assumes "update_dl_sf_info d u = Inr u''" "harq_status d \<noteq> []"
    and "unat (ucast (get_or 0 (dl_serv_cell_index d)) :: u8) = c"
      "unat (ucast (get_or 0 (harq_process_id d)) :: u8) = i"
  shows "active_harq u'' c j 0 \<longleftrightarrow> j = i \<or> active_harq u c j 0"
proof -
  have "u'' = fold (set_harq c i) (enumerate 0 (harq_status d)) u"
    by (rule foldR_guarded_value)
      (use assms(1) in \<open>unfold update_dl_sf_info_def Let_def case_prod_unfold assms(3,4)\<close>)
  moreover have "0 \<in> fst ` set (enumerate 0 (harq_status d))"
    using assms(2) by (cases "harq_status d") auto
  ultimately show ?thesis by (simp add: active_fold_set_harq)
qed

section \<open>Properties\<close>

text \<open>After any sequence of reports each group of statistics is that of the last report that
  flagged the group, and a group never flagged keeps its value: unflagged fields of a report
  never overwrite what is stored.\<close>

theorem reports_last_flagged_wins:
  "bsr (fold merge_report rs m) = (case last_with FLUST_BSR rs of Some r \<Rightarrow> bsr r | None \<Rightarrow> bsr m) \<and>
   phr (fold merge_report rs m) = (case last_with FLUST_PHR rs of Some r \<Rightarrow> Some (get_or 0 (phr r)) | None \<Rightarrow> phr m) \<and>
   rlc_report (fold merge_report rs m) = (case last_with FLUST_RLC_BS rs of Some r \<Rightarrow> rlc_report r | None \<Rightarrow> rlc_report m) \<and>
   pending_mac_ces (fold merge_report rs m) =
     (case last_with FLUST_MAC_CE_BS rs of Some r \<Rightarrow> Some (get_or 0 (pending_mac_ces r)) | None \<Rightarrow> pending_mac_ces m) \<and>
   dl_cqi_report (fold merge_report rs m) =
     (case last_with FLUST_DL_CQI rs of Some r \<Rightarrow> Some (get_or [] (dl_cqi_report r)) | None \<Rightarrow> dl_cqi_report m) \<and>
   pbr (fold merge_report rs m) = (case last_with FLUST_PBS rs of Some r \<Rightarrow> Some (get_or [] (pbr r)) | None \<Rightarrow> pbr m) \<and>
   ul_cqi_report (fold merge_report rs m) =
     (case last_with FLUST_UL_CQI rs of Some r \<Rightarrow> Some (get_or [] (ul_cqi_report r)) | None \<Rightarrow> ul_cqi_report m) \<and>
   pdcp_stats (fold merge_report rs m) =
     (case last_with FLUST_PDCP_STATS rs of Some r \<Rightarrow> Some (get_or [] (pdcp_stats r)) | None \<Rightarrow> pdcp_stats m) \<and>
   rrc_measurements (fold merge_report rs m) =
     (case last_with FLUST_RRC_MEASUREMENTS rs of Some r \<Rightarrow> Some (get_or [] (rrc_measurements r)) | None \<Rightarrow> rrc_measurements m) \<and>
   mac_stats (fold merge_report rs m) =
     (case last_with FLUST_MAC_STATS rs of Some r \<Rightarrow> Some (get_or [] (mac_stats r)) | None \<Rightarrow> mac_stats m) \<and>
   gtp_stats (fold merge_report rs m) = (case last_with FLUST_GTP_STATS rs of Some r \<Rightarrow> gtp_stats r | None \<Rightarrow> gtp_stats m) \<and>
   s1ap_stats (fold merge_report rs m) =
     (case last_with FLUST_S1AP_STATS rs of Some r \<Rightarrow> Some (get_or [] (s1ap_stats r)) | None \<Rightarrow> s1ap_stats m)"
  by (intro conjI; rule fold_last_set; simp add: merge_report_def Let_def)

text \<open>The HARQ process handed out is the lowest free one; once scheduled it is not handed
  out again until feedback for that process of that cell arrives, and scheduling it leaves all
  other processes as they were. There is no free process exactly when -1 is returned.\<close>

theorem harq_lifecycle:
  assumes "c < MAX_NUM_CC" "get_next_available_harq c u = Inr (int i)"
    and "get_or 0 (dl_serv_cell_index d) = of_nat c" "get_or 0 (harq_process_id d) = of_nat i"
    and "harq_status d \<noteq> []" "length (harq_status d) \<le> MAX_NUM_TB"
  shows "\<exists>u'. harq_scheduled c i u = Inr u' \<and> get_next_available_harq c u' \<noteq> Inr (int i) \<and>
     (\<forall>c' i' k. (c', i') \<noteq> (c, i) \<longrightarrow> active_harq u' c' i' k = active_harq u c' i' k) \<and>
     (\<exists>u''. update_dl_sf_info d u' = Inr u'' \<and> get_next_available_harq c u'' = Inr (int i))"
proof -
  have i: "i < MAX_NUM_HARQ" "active_harq u c i 0" "\<And>j. j < i \<Longrightarrow> \<not> active_harq u c j 0"
    by (rule next_harq_cases [OF assms(1), of u]; use assms(2) in auto)+
  let ?u' = "u\<lparr>active_harq := upd3 c i 1 False (upd3 c i 0 False (active_harq u))\<rparr>"
  have s: "harq_scheduled c i u = Inr ?u'" using assms(1) i(1) by (simp add: harq_scheduled_def)
  have n: "get_next_available_harq c ?u' \<noteq> Inr (int i)"
    by (rule next_harq_cases [OF assms(1), of ?u']) (auto simp: upd3_def)
  have frame: "\<forall>c' i' k. (c', i') \<noteq> (c, i) \<longrightarrow> active_harq ?u' c' i' k = active_harq u c' i' k"
    by (auto simp: upd3_def)
  have idx: "unat (ucast (of_nat c :: u32) :: u8) = c" "unat (ucast (of_nat i :: u32) :: u8) = i"
    using assms(1) i(1) by (simp_all add: rib_consts unat_ucast_mod unat_of_nat)
  then have "dl_info_ok d" using assms i(1) by (simp add: dl_info_ok_def)
  then obtain u'' where u'': "update_dl_sf_info d ?u' = Inr u''"
    using update_dl_sf_info_ok [of d ?u'] by (auto simp: is_ok_iff)
  have act: "active_harq u'' c j 0 \<longleftrightarrow> j = i \<or> active_harq ?u' c j 0" for j
    by (rule dl_info_frees [OF u'' assms(5)]) (use idx assms(3,4) in auto)
  have act': "active_harq u'' c j 0 \<longleftrightarrow> j = i \<or> active_harq u c j 0" for j
    unfolding act by (simp add: upd3_def)
  have "get_next_available_harq c u'' = Inr (int i)"
  proof (rule next_harq_cases [OF assms(1), of u''])
    fix k
    assume k: "get_next_available_harq c u'' = Inr (int k)" "active_harq u'' c k 0"
      "\<And>j. j < k \<Longrightarrow> \<not> active_harq u'' c j 0"
    have "\<not> k < i" using k(2) act' [of k] i(3) [of k] by auto
    moreover have "\<not> i < k" using k(3) [of i] act' [of i] by auto
    ultimately show ?thesis using k(1) by simp
  next
    assume "\<And>j. j < MAX_NUM_HARQ \<Longrightarrow> \<not> active_harq u'' c j 0"
    from this [OF i(1)] show ?thesis using act' [of i] by simp
  qed
  then show ?thesis using s n frame u'' by blast
qed


theorem harq_lifecycle_witness:
  "get_next_available_harq 1 (new_ue_mac 7) = Inr 0 \<and>
   (\<exists>u'. harq_scheduled 1 0 (new_ue_mac 7) = Inr u' \<and> get_next_available_harq 1 u' \<noteq> Inr 0)"
proof -
  have "get_next_available_harq 1 (new_ue_mac 7) = Inr (int 0)"
    by (simp add: get_next_available_harq_def new_ue_mac_def rib_consts upt_rec)
  with harq_lifecycle [of 1 "new_ue_mac 7" 0 "\<lparr>dl_rnti = None, harq_process_id = Some 0,
      harq_status = [1], dl_serv_cell_index = Some 1\<rparr>"]
  show ?thesis by (auto simp: rib_consts)
qed

end
