(* ===== verification/Std_Map.thy ===== *)
theory Std_Map
  imports Prelude
begin

text \<open>
  \<open>std::map\<close> as the program uses it: lookup, \<open>emplace\<close> and \<open>insert\<close> (which leave an existing
  entry alone), assignment through \<open>operator[]\<close> or an iterator, erasure, and iteration in key
  order. The implementation is an association list sorted by key; clients rest on the laws of
  the locale \<open>std_map\<close>, which the list implementation is shown to satisfy.
\<close>

section \<open>The interface\<close>

locale std_map =
  fixes find :: "'k::linorder \<Rightarrow> 'm \<Rightarrow> 'v option"
    and emplace :: "'k \<Rightarrow> 'v \<Rightarrow> 'm \<Rightarrow> 'm"
    and put :: "'k \<Rightarrow> 'v \<Rightarrow> 'm \<Rightarrow> 'm"
    and erase :: "'k \<Rightarrow> 'm \<Rightarrow> 'm"
    and keys :: "'m \<Rightarrow> 'k list"
    and inv :: "'m \<Rightarrow> bool"
  assumes find_emplace: "find k' (emplace k v m) = (if k' = k \<and> find k m = None then Some v else find k' m)"
    and find_put: "find k' (put k v m) = (if k' = k then Some v else find k' m)"
    and find_erase: "find k' (erase k m) = (if k' = k then None else find k' m)"
    and set_keys: "set (keys m) = {k. find k m \<noteq> None}"
    and sorted_keys: "inv m \<Longrightarrow> sorted_wrt (<) (keys m)"
    and inv_emplace: "inv m \<Longrightarrow> inv (emplace k v m)"
    and inv_put: "inv m \<Longrightarrow> inv (put k v m)"
    and inv_erase: "inv m \<Longrightarrow> inv (erase k m)"
begin

lemma find_erase_all: "find k (fold erase ks m) = (if k \<in> set ks then None else find k m)"
  by (induction ks arbitrary: m) (auto simp: find_erase)

lemma inv_erase_all: "inv m \<Longrightarrow> inv (fold erase ks m)"
  by (induction ks arbitrary: m) (auto intro: inv_erase)

text \<open>Emplacing a list of values under computed keys: the first value of a new key wins.\<close>

lemma find_emplace_all:
  "find k (fold (\<lambda>v m. emplace (key v) v m) vs m) =
     (case find k m of Some v \<Rightarrow> Some v | None \<Rightarrow> List.find (\<lambda>v. key v = k) vs)"
proof (induction vs arbitrary: m)
  case Nil
  then show ?case by (simp split: option.splits)
next
  case (Cons v vs)
  then show ?case by (auto simp: find_emplace split: option.splits)
qed

lemma inv_emplace_all: "inv m \<Longrightarrow> inv (fold (\<lambda>v m. emplace (key v) v m) vs m)"
  by (induction vs arbitrary: m) (auto intro: inv_emplace)

lemma last_key_greatest:
  assumes "inv m" "keys m \<noteq> []" "find k m \<noteq> None"
  shows "k \<le> last (keys m)"
proof -
  have "k \<in> set (keys m)" using assms(3) by (simp add: set_keys)
  then have "k \<in> set (butlast (keys m)) \<or> k = last (keys m)"
    using assms(2) by (metis append_butlast_last_id rotate1.simps(2) set_ConsD set_rotate1)
  moreover have "sorted_wrt (<) (butlast (keys m) @ [last (keys m)])"
    using sorted_keys [OF assms(1)] assms(2) by simp
  ultimately show ?thesis by (auto simp: sorted_wrt_append)
qed

lemma find_last_key: "keys m \<noteq> [] \<Longrightarrow> find (last (keys m)) m \<noteq> None"
  using set_keys [of m] last_in_set by blast

lemma keys_Nil: "keys m = [] \<longleftrightarrow> (\<forall>k. find k m = None)"
  using set_keys [of m] by (metis (mono_tags, lifting) empty_Collect_eq empty_iff list.set(1) set_empty)

lemma distinct_keys: "inv m \<Longrightarrow> distinct (keys m)"
  using sorted_keys strict_sorted_iff by blast

end

section \<open>The implementation\<close>

type_synonym ('k, 'v) std_map = "('k \<times> 'v) list"

fun sm_find :: "'k \<Rightarrow> ('k, 'v) std_map \<Rightarrow> 'v option" where
  "sm_find k [] = None"
| "sm_find k ((k', v) # m) = (if k = k' then Some v else sm_find k m)"

fun sm_put :: "'k::linorder \<Rightarrow> 'v \<Rightarrow> ('k, 'v) std_map \<Rightarrow> ('k, 'v) std_map" where
  "sm_put k v [] = [(k, v)]"
| "sm_put k v ((k', v') # m) =
     (if k < k' then (k, v) # (k', v') # m
      else if k = k' then (k, v) # m
      else (k', v') # sm_put k v m)"

definition sm_emplace :: "'k::linorder \<Rightarrow> 'v \<Rightarrow> ('k, 'v) std_map \<Rightarrow> ('k, 'v) std_map" where
  "sm_emplace k v m = (case sm_find k m of Some _ \<Rightarrow> m | None \<Rightarrow> sm_put k v m)"

definition sm_erase :: "'k \<Rightarrow> ('k, 'v) std_map \<Rightarrow> ('k, 'v) std_map" where
  "sm_erase k m = filter (\<lambda>(k', _). k' \<noteq> k) m"

definition sm_keys :: "('k, 'v) std_map \<Rightarrow> 'k list" where
  "sm_keys m = map fst m"

definition sm_inv :: "('k::linorder, 'v) std_map \<Rightarrow> bool" where
  "sm_inv m \<longleftrightarrow> sorted_wrt (<) (map fst m)"

lemma sm_find_put: "sm_find k' (sm_put k v m) = (if k' = k then Some v else sm_find k' m)"
  by (induction k v m rule: sm_put.induct) auto

lemma sm_find_erase: "sm_find k' (sm_erase k m) = (if k' = k then None else sm_find k' m)"
  unfolding sm_erase_def by (induction m) auto

lemma sm_set_keys: "set (sm_keys m) = {k. sm_find k m \<noteq> None}"
  unfolding sm_keys_def by (induction m) (auto split: if_splits)

lemma set_sm_put: "fst ` set (sm_put k v m) = insert k (fst ` set m)"
  by (induction k v m rule: sm_put.induct) auto

lemma sm_inv_put: "sm_inv m \<Longrightarrow> sm_inv (sm_put k v m)"
  unfolding sm_inv_def by (induction k v m rule: sm_put.induct) (auto simp: set_sm_put)

lemma sm_inv_erase: "sm_inv m \<Longrightarrow> sm_inv (sm_erase k m)"
  unfolding sm_inv_def sm_erase_def by (induction m) auto

lemma sm_inv_Nil [simp]: "sm_inv []"
  by (simp add: sm_inv_def)

interpretation sm: std_map sm_find sm_emplace sm_put sm_erase sm_keys sm_inv
proof unfold_locales
  show "sm_find k' (sm_emplace k v m) = (if k' = k \<and> sm_find k m = None then Some v else sm_find k' m)"
    for k' k v and m :: "('a::linorder, 'b) std_map"
    by (auto simp: sm_emplace_def sm_find_put split: option.splits)
  show "sm_inv m \<Longrightarrow> sm_inv (sm_emplace k v m)" for k v and m :: "('a::linorder, 'b) std_map"
    by (auto simp: sm_emplace_def sm_inv_put split: option.splits)
qed (simp_all only: sm_find_put sm_find_erase sm_set_keys sm_inv_put sm_inv_erase, simp add: sm_inv_def sm_keys_def)

lemmas sm_simps [simp] = sm.find_emplace sm.find_put sm.find_erase
lemmas sm_invs [intro] = sm.inv_emplace sm.inv_put sm.inv_erase

text \<open>Iteration.\<close>

lemma sm_find_set: "sm_inv m \<Longrightarrow> (k, v) \<in> set m \<longleftrightarrow> sm_find k m = Some v"
  unfolding sm_inv_def
proof (induction m)
  case Nil
  then show ?case by simp
next
  case (Cons a m)
  obtain k' v' where a: "a = (k', v')" by fastforce
  have "k' \<notin> fst ` set m" using Cons.prems a by fastforce
  then have "(k', v) \<notin> set m" for v by force
  then show ?case using Cons a by auto
qed

text \<open>Changing the value of an existing entry in place.\<close>

definition sm_update :: "'k::linorder \<Rightarrow> ('v \<Rightarrow> 'v) \<Rightarrow> ('k, 'v) std_map \<Rightarrow> ('k, 'v) std_map" where
  "sm_update k f m = (case sm_find k m of None \<Rightarrow> m | Some v \<Rightarrow> sm_put k (f v) m)"

lemma sm_find_update [simp]:
  "sm_find k' (sm_update k f m) = (if k' = k then map_option f (sm_find k m) else sm_find k' m)"
  by (auto simp: sm_update_def split: option.splits)

lemma sm_inv_update [intro]: "sm_inv m \<Longrightarrow> sm_inv (sm_update k f m)"
  by (auto simp: sm_update_def split: option.splits)

lemma sm_keys_eqI:
  "sm_inv a \<Longrightarrow> sm_inv b \<Longrightarrow> (\<And>k. sm_find k a = None \<longleftrightarrow> sm_find k b = None) \<Longrightarrow> sm_keys a = sm_keys b"
  by (rule strict_sorted_equal) (auto simp: sm_set_keys sm.sorted_keys)

end
