(* ===== verification/Cxx_Strings.thy ===== *)
theory Cxx_Strings
  imports Prelude
begin

text \<open>
  Conversions of the standard library between strings and integers: \<open>std::stoll\<close> and
  \<open>std::stoi\<close> (leading white space and a sign are accepted, conversion stops at the first
  character that is no digit, \<open>std::invalid_argument\<close> when there is no digit at all,
  \<open>std::out_of_range\<close> when the value does not fit) and their relation to \<open>std::to_string\<close>.
\<close>

section \<open>Definitions\<close>

definition is_space :: "char \<Rightarrow> bool" where
  "is_space c \<longleftrightarrow> (let n = of_char c :: nat in n = 32 \<or> (9 \<le> n \<and> n \<le> 13))"

definition is_alpha :: "char \<Rightarrow> bool" where
  "is_alpha c \<longleftrightarrow> (let n = of_char c :: nat in (65 \<le> n \<and> n \<le> 90) \<or> (97 \<le> n \<and> n \<le> 122))"

definition digit_val :: "nat \<Rightarrow> char \<Rightarrow> nat option" where
  "digit_val base c =
     (let n = of_char c :: nat;
          v = (if 48 \<le> n \<and> n \<le> 57 then Some (n - 48)
               else if 97 \<le> n \<and> n \<le> 122 then Some (n - 87)
               else if 65 \<le> n \<and> n \<le> 90 then Some (n - 55)
               else None)
      in case v of None \<Rightarrow> None | Some d \<Rightarrow> if d < base then Some d else None)"

fun take_digits :: "nat \<Rightarrow> string \<Rightarrow> nat list" where
  "take_digits base [] = []"
| "take_digits base (c # cs) = (case digit_val base c of None \<Rightarrow> [] | Some d \<Rightarrow> d # take_digits base cs)"

definition digits_value :: "nat \<Rightarrow> nat list \<Rightarrow> nat" where
  "digits_value base ds = foldl (\<lambda>a d. a * base + d) 0 ds"

definition strip_sign :: "string \<Rightarrow> bool \<times> string" where
  "strip_sign s = (case s of
     [] \<Rightarrow> (False, [])
   | c # cs \<Rightarrow> if c = CHR ''-'' then (True, cs) else if c = CHR ''+'' then (False, cs) else (False, s))"

text \<open>With base 16 a prefix \<open>0x\<close> is skipped when a digit follows it.\<close>

definition strip_0x :: "nat \<Rightarrow> string \<Rightarrow> string" where
  "strip_0x base s = (case s of
     a # b # c # cs \<Rightarrow>
       (if base = 16 \<and> a = CHR ''0'' \<and> (b = CHR ''x'' \<or> b = CHR ''X'') \<and> digit_val 16 c \<noteq> None
        then c # cs else s)
   | _ \<Rightarrow> s)"

definition strto :: "nat \<Rightarrow> string \<Rightarrow> int option" where
  "strto base s =
     (let (neg, s1) = strip_sign (dropWhile is_space s);
          ds = take_digits base (strip_0x base s1) in
      if ds = [] then None
      else Some (if neg then - int (digits_value base ds) else int (digits_value base ds)))"

definition stoll :: "nat \<Rightarrow> string \<Rightarrow> int result" where
  "stoll base s = (case strto base s of
     None \<Rightarrow> Inl (Invalid_argument ''stoll'')
   | Some v \<Rightarrow> if - (2 ^ 63) \<le> v \<and> v < 2 ^ 63 then Inr v else Inl (Out_of_range ''stoll''))"

definition stoi :: "string \<Rightarrow> int result" where
  "stoi s = (case strto 10 s of
     None \<Rightarrow> Inl (Invalid_argument ''stoi'')
   | Some v \<Rightarrow> if - (2 ^ 31) \<le> v \<and> v < 2 ^ 31 then Inr v else Inl (Out_of_range ''stoi''))"

section \<open>Decimal round trip\<close>

lemma digit_val_digit_char: "d < 10 \<Longrightarrow> digit_val 10 (digit_char d) = Some d"
  by (simp add: digit_val_def digit_char_def Let_def)

lemma digit_char_facts:
  assumes "d < 10"
  shows "\<not> is_space (digit_char d)" "digit_char d \<noteq> CHR ''-''" "digit_char d \<noteq> CHR ''+''" "digit_char d \<noteq> CHR ''x''"
proof -
  have n: "(of_char (digit_char d) :: nat) = 48 + d" using assms by (simp add: digit_char_def)
  show "\<not> is_space (digit_char d)" using n by (simp add: is_space_def)
  show "digit_char d \<noteq> CHR ''-''" "digit_char d \<noteq> CHR ''+''" "digit_char d \<noteq> CHR ''x''"
    using n assms by auto
qed

lemma take_digits_append:
  "list_all (\<lambda>c. digit_val base c \<noteq> None) xs \<Longrightarrow>
     take_digits base (xs @ ys) = map (\<lambda>c. the (digit_val base c)) xs @ take_digits base ys"
  by (induction xs) auto

lemma nat_to_string_digits: "c \<in> set (nat_to_string n) \<Longrightarrow> \<exists>d < 10. c = digit_char d"
proof (induction n rule: nat_to_string.induct)
  case (1 n)
  show ?case
  proof (cases "n < 10")
    case True
    then show ?thesis using "1.prems" by (auto simp: nat_to_string.simps)
  next
    case False
    then have "nat_to_string n = nat_to_string (n div 10) @ [digit_char (n mod 10)]"
      by (simp add: nat_to_string.simps)
    then show ?thesis using "1.prems" "1.IH" [OF False] by force
  qed
qed

lemma digits_value_snoc: "digits_value base (ds @ [d]) = digits_value base ds * base + d"
  by (simp add: digits_value_def)

lemma digits_value_nat_to_string:
  "digits_value 10 (map (\<lambda>c. the (digit_val 10 c)) (nat_to_string n)) = n"
proof (induction n rule: nat_to_string.induct)
  case (1 n)
  show ?case
  proof (cases "n < 10")
    case True
    then show ?thesis by (simp add: nat_to_string.simps digits_value_def digit_val_digit_char)
  next
    case False
    then show ?thesis
      using "1.IH" by (subst nat_to_string.simps) (simp add: digits_value_snoc digit_val_digit_char)
  qed
qed

lemma nat_to_string_Cons:
  obtains d cs where "nat_to_string n = digit_char d # cs" "d < 10"
  using nat_to_string_digits [of "hd (nat_to_string n)" n] nat_to_string_not_Nil [of n]
  by (cases "nat_to_string n") auto

lemma take_digits_nat_to_string: "take_digits 10 (nat_to_string n) = map (\<lambda>c. the (digit_val 10 c)) (nat_to_string n)"
proof -
  have "list_all (\<lambda>c. digit_val 10 c \<noteq> None) (nat_to_string n)"
    using nat_to_string_digits digit_val_digit_char by (fastforce simp: list_all_iff)
  from take_digits_append [OF this, of "[]"] show ?thesis by simp
qed

lemma strto_nat_to_string: "strto 10 (nat_to_string n) = Some (int n)"
proof -
  obtain d cs where d: "nat_to_string n = digit_char d # cs" "d < 10" by (rule nat_to_string_Cons)
  have "dropWhile is_space (nat_to_string n) = nat_to_string n"
    using d digit_char_facts(1) by simp
  moreover have "strip_sign (nat_to_string n) = (False, nat_to_string n)"
    using d digit_char_facts [OF d(2)] by (simp add: strip_sign_def)
  moreover have "strip_0x 10 (nat_to_string n) = nat_to_string n"
    by (simp add: strip_0x_def split: list.splits)
  moreover have "take_digits 10 (nat_to_string n) \<noteq> []"
    using take_digits_nat_to_string by simp
  ultimately show ?thesis
    using digits_value_nat_to_string [of n] by (simp add: strto_def take_digits_nat_to_string)
qed

lemma stoll_nat_to_string:
  "stoll 10 (nat_to_string n) = (if n < 2 ^ 63 then Inr (int n) else Inl (Out_of_range ''stoll''))"
  by (simp add: stoll_def strto_nat_to_string)

text \<open>The written number is a codec for the values of \<open>long long\<close> that are not negative.\<close>

interpretation decimal: codec nat_to_string "\<lambda>s. case stoll 10 s of Inl _ \<Rightarrow> None | Inr v \<Rightarrow> Some (nat v)"
  "\<lambda>n. n < 2 ^ 63"
  by unfold_locales (simp add: stoll_nat_to_string)

lemma nat_to_string_inj: "a < 2 ^ 63 \<Longrightarrow> b < 2 ^ 63 \<Longrightarrow> nat_to_string a = nat_to_string b \<Longrightarrow> a = b"
  by (rule decimal.enc_inj)

lemma nat_to_string_plain:
  "nat_to_string n \<noteq> ''-1'' \<and> take 2 (nat_to_string n) \<noteq> ''0x''"
proof -
  obtain d cs where d: "nat_to_string n = digit_char d # cs" "d < 10" by (rule nat_to_string_Cons)
  have "nat_to_string n \<noteq> ''-1''" using d digit_char_facts(2) [OF d(2)] by auto
  moreover have "CHR ''x'' \<notin> set (nat_to_string n)"
    using nat_to_string_digits digit_char_facts(4) by metis
  then have "take 2 (nat_to_string n) \<noteq> ''0x''"
    by (metis in_set_takeD list.set_intros(1,2))
  ultimately show ?thesis ..
qed

text \<open>A string of at most nine characters converts to a value that fits in an \<open>int\<close>.\<close>

lemma digit_val_less: "digit_val base c = Some d \<Longrightarrow> d < base"
  by (auto simp: digit_val_def Let_def split: option.splits if_splits)

lemma take_digits_bounds: "length (take_digits base s) \<le> length s \<and> (\<forall>d \<in> set (take_digits base s). d < base)"
  by (induction s) (auto dest: digit_val_less split: option.splits)

lemma digits_value_bound:
  "(\<forall>d \<in> set ds. d < base) \<Longrightarrow> digits_value base ds < base ^ length ds"
proof (induction ds rule: rev_induct)
  case Nil
  then show ?case by (simp add: digits_value_def)
next
  case (snoc d ds)
  have "digits_value base ds * base + d < (digits_value base ds + 1) * base"
    using snoc.prems by simp
  also have "\<dots> \<le> base ^ length ds * base"
    using snoc by (intro mult_right_mono) (auto simp: Suc_le_eq)
  finally show ?case by (simp add: digits_value_snoc mult.commute)
qed

lemma length_strip: "length (snd (strip_sign s)) \<le> length s" "length (strip_0x b s) \<le> length s"
  by (auto simp: strip_sign_def strip_0x_def split: list.splits)

lemma strto_bound:
  assumes "strto 10 s = Some v"
  shows "\<bar>v\<bar> < 10 ^ length s"
proof -
  obtain neg s1 where s1: "strip_sign (dropWhile is_space s) = (neg, s1)" by fastforce
  let ?ds = "take_digits 10 (strip_0x 10 s1)"
  have "length ?ds \<le> length s"
    using take_digits_bounds [of 10 "strip_0x 10 s1"] length_strip(2) [of 10 s1]
      length_strip(1) [of "dropWhile is_space s"] length_dropWhile_le [of is_space s] s1 by simp
  then have "digits_value 10 ?ds < 10 ^ length s"
    using digits_value_bound [of ?ds 10] take_digits_bounds [of 10 "strip_0x 10 s1"]
    by (meson less_le_trans one_le_numeral power_increasing)
  then have "int (digits_value 10 ?ds) < 10 ^ length s"
    by (metis of_nat_less_iff of_nat_numeral of_nat_power)
  moreover have "\<bar>v\<bar> = int (digits_value 10 ?ds)"
    using assms s1 by (auto simp: strto_def Let_def split: if_splits)
  ultimately show ?thesis by simp
qed

lemma stoi_short: "length s \<le> 9 \<Longrightarrow> stoi s = Inl e \<Longrightarrow> e = Invalid_argument ''stoi''"
proof -
  assume len: "length s \<le> 9" and e: "stoi s = Inl e"
  have "\<bar>v\<bar> < 2 ^ 31" if "strto 10 s = Some v" for v
  proof -
    have "\<bar>v\<bar> < 10 ^ length s" using strto_bound [OF that] .
    also have "(10 :: int) ^ length s \<le> 10 ^ 9" using len by (intro power_increasing) auto
    finally show ?thesis by simp
  qed
  then show ?thesis using e by (fastforce simp: stoi_def split: option.splits if_splits)
qed

text \<open>The number of digits.\<close>

lemma length_nat_to_string: "1 \<le> k \<Longrightarrow> length (nat_to_string n) \<le> k \<longleftrightarrow> n < 10 ^ k"
proof (induction k arbitrary: n)
  case 0
  then show ?case by simp
next
  case (Suc k)
  show ?case
  proof (cases "n < 10")
    case True
    then have "n < 10 ^ Suc k" by (simp add: less_le_trans [OF True])
    then show ?thesis using True by (simp add: nat_to_string.simps)
  next
    case False
    then have len: "length (nat_to_string n) = Suc (length (nat_to_string (n div 10)))"
      by (subst nat_to_string.simps) simp
    show ?thesis
    proof (cases "k = 0")
      case True
      then show ?thesis using len False by simp
    next
      case k: False
      then have "length (nat_to_string (n div 10)) \<le> k \<longleftrightarrow> n div 10 < 10 ^ k" using Suc.IH by simp
      moreover have "n div 10 < 10 ^ k \<longleftrightarrow> n < 10 ^ Suc k" by (simp add: div_less_iff_less_mult mult.commute)
      ultimately show ?thesis using len by simp
    qed
  qed
qed

lemma stoi_nat_to_string:
  "stoi (nat_to_string n) = (if n < 2 ^ 31 then Inr (int n) else Inl (Out_of_range ''stoi''))"
  by (simp add: stoi_def strto_nat_to_string)

end
