(* ===== verification/Enb_Rib.thy ===== *)
theory Enb_Rib
  imports Protobuf Ue_Mac Std_Map Cxx_Strings
begin

text \<open>
  The state of one base station, \<open>rib/enb_rib_info.{h,cc}\<close>: its agents, its configuration, that
  of its users and logical channels, and the MAC state per user and cell. Times are
  microseconds of the steady clock, given to the operations that read it.
\<close>

section \<open>State\<close>

record enb_rib_info =
  enb_bs_id :: u64
  enb_agents :: "agent_info list"
  last_checked :: nat
  current_frame :: "u16 option"
  current_subframe :: "u16 option"
  eNB_config :: flex_enb_config_reply
  ue_configs :: flex_ue_config_reply
  lc_configs :: flex_lc_config_reply
  ue_mac_info :: "(u32, ue_mac_rib_info) std_map"
  cell_mac_info :: "nat \<Rightarrow> cell_mac_rib_info"

text \<open>The constructor refuses agents of another base station. Frame numbers start uninitialised.\<close>

definition new_enb :: "u64 \<Rightarrow> agent_info list \<Rightarrow> nat \<Rightarrow> enb_rib_info" where
  "new_enb bs_id ags now = \<lparr>enb_bs_id = bs_id, enb_agents = ags, last_checked = now,
     current_frame = None, current_subframe = None, eNB_config = empty_enb_config,
     ue_configs = empty_ue_config_reply, lc_configs = empty_lc_config_reply,
     ue_mac_info = [], cell_mac_info = (\<lambda>_. empty_cell_report)\<rparr>"

definition make_enb :: "u64 \<Rightarrow> agent_info list \<Rightarrow> nat \<Rightarrow> enb_rib_info result" where
  "make_enb bs_id ags now = (case List.find (\<lambda>a. agent_bs_id a \<noteq> bs_id) ags of
     Some a \<Rightarrow> Inl (Runtime_error (''invalid bs_id '' @ u64_to_string (agent_bs_id a)
                 @ '' from agent '' @ int_to_string (agent_id a) @ '' for BS '' @ u64_to_string bs_id))
   | None \<Rightarrow> Inr (new_enb bs_id ags now))"

definition update_liveness :: "nat \<Rightarrow> enb_rib_info \<Rightarrow> enb_rib_info" where
  "update_liveness now e = e\<lparr>last_checked := now\<rparr>"

definition time_to_query :: nat where "time_to_query = 500"

definition need_to_query :: "nat \<Rightarrow> enb_rib_info \<Rightarrow> bool" where
  "need_to_query now e \<longleftrightarrow> now - last_checked e > time_to_query"

section \<open>Configuration of the cells\<close>

text \<open>\<open>clear_repeated_if_present\<close> for the messages it is called with.\<close>

definition clear_if_present :: "'a list \<Rightarrow> 'a list \<Rightarrow> 'a list" where
  "clear_if_present dst src = (if src = [] then dst else [])"

definition clear_repeated_cell :: "flex_cell_config \<Rightarrow> flex_cell_config \<Rightarrow> flex_cell_config" where
  "clear_repeated_cell dst src = dst\<lparr>
     mbsfn_subframe_config_rfperiod := clear_if_present (mbsfn_subframe_config_rfperiod dst) (mbsfn_subframe_config_rfperiod src),
     mbsfn_subframe_config_rfoffset := clear_if_present (mbsfn_subframe_config_rfoffset dst) (mbsfn_subframe_config_rfoffset src),
     mbsfn_subframe_config_sfalloc := clear_if_present (mbsfn_subframe_config_sfalloc dst) (mbsfn_subframe_config_sfalloc src),
     plmn_id := clear_if_present (plmn_id dst) (plmn_id src)\<rparr>"

definition clear_repeated_ue :: "flex_ue_config \<Rightarrow> flex_ue_config \<Rightarrow> flex_ue_config" where
  "clear_repeated_ue dst src = dst\<lparr>scell_config := clear_if_present (scell_config dst) (scell_config src)\<rparr>"

definition clear_repeated_info :: "flex_measurement_info \<Rightarrow> flex_measurement_info \<Rightarrow> flex_measurement_info" where
  "clear_repeated_info dst src =
     dst\<lparr>cell_individual_offset := clear_if_present (cell_individual_offset dst) (cell_individual_offset src)\<rparr>"

definition update_cell :: "protobuf \<Rightarrow> flex_cell_config \<Rightarrow> flex_cell_config \<Rightarrow> flex_cell_config" where
  "update_cell pb dst src =
     (let dst = clear_repeated_cell dst src;
          dst = (if slice_config src \<noteq> None then dst\<lparr>slice_config := None\<rparr> else dst)
      in merge_cell pb dst src)"

definition update_eNB_config :: "protobuf \<Rightarrow> nat \<Rightarrow> flex_enb_config_reply \<Rightarrow> enb_rib_info \<Rightarrow> enb_rib_info" where
  "update_eNB_config pb now upd e =
     (let saved = eNB_config e;
          new = (if cell_config saved = [] then upd
                 else let n = min (length (cell_config saved)) (length (cell_config upd)) in
                   saved\<lparr>cell_config := map2 (update_cell pb) (take n (cell_config saved)) (take n (cell_config upd))
                                        @ drop n (cell_config saved),
                         s1ap := Some (get_or empty_s1ap (s1ap upd)),
                         loadedApps := loadedApps upd,
                         loadedMacObjects := loadedMacObjects upd\<rparr>)
      in update_liveness now (e\<lparr>eNB_config := new\<rparr>))"

section \<open>Configuration of the users\<close>

text \<open>\<open>find_if\<close> on a repeated field, changing or erasing the element found.\<close>

fun update_first :: "('a \<Rightarrow> bool) \<Rightarrow> ('a \<Rightarrow> 'a) \<Rightarrow> 'a list \<Rightarrow> 'a list" where
  "update_first P f [] = []"
| "update_first P f (x # xs) = (if P x then f x # xs else x # update_first P f xs)"

fun erase_first :: "('a \<Rightarrow> bool) \<Rightarrow> 'a list \<Rightarrow> 'a list" where
  "erase_first P [] = []"
| "erase_first P (x # xs) = (if P x then xs else x # erase_first P xs)"

definition merge_ue_update :: "protobuf \<Rightarrow> flex_ue_config \<Rightarrow> flex_ue_config \<Rightarrow> flex_ue_config" where
  "merge_ue_update pb src dst =
     (let dst = clear_repeated_ue dst src;
          dst = (case ue_info src of None \<Rightarrow> dst
                 | Some si \<Rightarrow> dst\<lparr>ue_info := Some (clear_repeated_info (get_or empty_info (ue_info dst)) si)\<rparr>)
      in merge_ue pb dst src)"

definition update_UE_config :: "protobuf \<Rightarrow> nat \<Rightarrow> flex_ue_config_reply \<Rightarrow> enb_rib_info \<Rightarrow> enb_rib_info" where
  "update_UE_config pb now upd e =
     update_liveness now
       (e\<lparr>ue_configs := (ue_configs e)\<lparr>ue_config :=
          fold (\<lambda>src cs. update_first (\<lambda>c. rnti_of c = rnti_of src) (merge_ue_update pb src) cs)
            (ue_config upd) (ue_config (ue_configs e))\<rparr>\<rparr>)"

text \<open>A state change clears the repeated fields of the user only, not those of its \<open>info\<close>.\<close>

definition merge_ue_state :: "protobuf \<Rightarrow> flex_ue_config \<Rightarrow> flex_ue_config \<Rightarrow> flex_ue_config" where
  "merge_ue_state pb src dst = merge_ue pb (clear_repeated_ue dst src) src"

definition update_UE_state :: "protobuf \<Rightarrow> flex_ue_state_change \<Rightarrow> enb_rib_info \<Rightarrow> enb_rib_info" where
  "update_UE_state pb sc e =
     (let src = get_or empty_ue_config (sc_config sc);
          rnti = rnti_of src;
          t = get_or 0 (sc_type sc);
          cs = ue_config (ue_configs e);
          found = list_ex (\<lambda>c. rnti = rnti_of c) cs;
          set_ues = (\<lambda>cs e. e\<lparr>ue_configs := (ue_configs e)\<lparr>ue_config := cs\<rparr>\<rparr>) in
      if t = FLUESC_ACTIVATED then
        (if \<not> found
         then (set_ues (cs @ [src]) e)\<lparr>ue_mac_info := sm_emplace rnti (new_ue_mac rnti) (ue_mac_info e)\<rparr>
         else set_ues (update_first (\<lambda>c. rnti = rnti_of c) (merge_ue_state pb src) cs) e)
      else if t = FLUESC_DEACTIVATED then
        (if found
         then (set_ues (erase_first (\<lambda>c. rnti = rnti_of c) cs) e)
           \<lparr>ue_mac_info := sm_erase rnti (ue_mac_info e),
            lc_configs := (lc_configs e)\<lparr>lc_ue_config :=
              erase_first (\<lambda>c. rnti = get_or 0 (lc_rnti c)) (lc_ue_config (lc_configs e))\<rparr>\<rparr>
         else e)
      else if t = FLUESC_UPDATED then
        (if found then set_ues (update_first (\<lambda>c. rnti = rnti_of c) (merge_ue_state pb src) cs) e else e)
      else e)"

definition update_LC_config :: "nat \<Rightarrow> flex_lc_config_reply \<Rightarrow> enb_rib_info \<Rightarrow> enb_rib_info" where
  "update_LC_config now upd e =
     (let e = update_liveness now e in
      if length (lc_ue_config upd) = 0 then e else e\<lparr>lc_configs := upd\<rparr>)"

section \<open>Subframes and statistics\<close>

definition update_ue_mac ::
  "u32 \<Rightarrow> (ue_mac_rib_info \<Rightarrow> ue_mac_rib_info result) \<Rightarrow> enb_rib_info \<Rightarrow> enb_rib_info result" where
  "update_ue_mac rnti f e = (case sm_find rnti (ue_mac_info e) of
     None \<Rightarrow> Inr e
   | Some u \<Rightarrow> rbind (f u) (\<lambda>u. Inr (e\<lparr>ue_mac_info := sm_put rnti u (ue_mac_info e)\<rparr>)))"

definition update_subframe :: "nat \<Rightarrow> flex_sf_trigger \<Rightarrow> enb_rib_info \<Rightarrow> enb_rib_info result" where
  "update_subframe now tr e =
     (let sfn = (ucast (get_or 0 (sfn_sf tr)) :: u16);
          e = e\<lparr>current_frame := Some (get_frame (ucast sfn)),
                current_subframe := Some (get_subframe (ucast sfn))\<rparr> in
      rbind (foldR (\<lambda>d. update_ue_mac (get_or 0 (dl_rnti d)) (update_dl_sf_info d)) (dl_info tr) e) (\<lambda>e.
      rbind (foldR (\<lambda>u. update_ue_mac (get_or 0 (ul_rnti u)) (update_ul_sf_info u)) (ul_info tr) e) (\<lambda>e.
      Inr (update_liveness now e))))"

definition update_mac_stats :: "flex_stats_reply \<Rightarrow> enb_rib_info \<Rightarrow> enb_rib_info result" where
  "update_mac_stats st e =
     rbind (foldR (\<lambda>r. update_ue_mac (get_or 0 (r_rnti r)) (\<lambda>u. Inr (update_mac_stats_report r u))) (ue_report st) e)
       (foldR (\<lambda>(i, r) e. if i < MAX_NUM_CC
            then Inr (e\<lparr>cell_mac_info := (cell_mac_info e)(i := update_cell_stats_report r (cell_mac_info e i))\<rparr>)
            else Inl out_of_bounds) (enumerate 0 (cell_report st)))"

definition get_ue_mac_info :: "u32 \<Rightarrow> enb_rib_info \<Rightarrow> ue_mac_rib_info option" where
  "get_ue_mac_info rnti e = sm_find rnti (ue_mac_info e)"

section \<open>Queries\<close>

text \<open>\<open>get_rnti\<close> and \<open>parse_rnti_imsi\<close> return the RNTI through a reference when they return true.\<close>

definition get_rnti :: "u64 \<Rightarrow> enb_rib_info \<Rightarrow> u32 option" where
  "get_rnti imsi e = map_option rnti_of (List.find (\<lambda>c. ue_imsi c = Some imsi) (ue_config (ue_configs e)))"

definition RNTI_ID_LENGTH_LIMIT :: nat where "RNTI_ID_LENGTH_LIMIT = 6"

definition parse_rnti_imsi :: "string \<Rightarrow> enb_rib_info \<Rightarrow> u32 option result" where
  "parse_rnti_imsi s e =
     (if length s \<ge> RNTI_ID_LENGTH_LIMIT
      then (case stoll 10 s of
              Inl (Invalid_argument _) \<Rightarrow> Inr None
            | Inl x \<Rightarrow> Inl x
            | Inr v \<Rightarrow> Inr (get_rnti (word_of_int v) e))
      else (case stoi s of
              Inl (Invalid_argument _) \<Rightarrow> Inr None
            | Inl x \<Rightarrow> Inl x
            | Inr v \<Rightarrow> Inr (let rnti = word_of_int v in
                            if sm_find rnti (ue_mac_info e) \<noteq> None then Some rnti else None)))"

definition cell_config_at :: "nat \<Rightarrow> enb_rib_info \<Rightarrow> flex_cell_config result" where
  "cell_config_at i e = (if i < length (cell_config (eNB_config e)) then Inr (cell_config (eNB_config e) ! i)
     else Inl (Undefined_behaviour ''cell_config index out of range''))"

definition slice_config_of :: "flex_cell_config \<Rightarrow> flex_slice_config" where
  "slice_config_of c = get_or empty_slice_config (slice_config c)"

definition has_dl_slice :: "u32 \<Rightarrow> nat \<Rightarrow> enb_rib_info \<Rightarrow> bool result" where
  "has_dl_slice sid cell e = rbind (cell_config_at cell e) (\<lambda>c.
     Inr (case sl_dl (slice_config_of c) of None \<Rightarrow> False
          | Some s \<Rightarrow> list_ex (\<lambda>x. get_or 0 (slice_id x) = sid) (slices s)))"

definition num_dl_slices :: "nat \<Rightarrow> enb_rib_info \<Rightarrow> nat result" where
  "num_dl_slices cell e = rbind (cell_config_at cell e) (\<lambda>c.
     Inr (case sl_dl (slice_config_of c) of None \<Rightarrow> 0 | Some s \<Rightarrow> length (slices s)))"

definition has_ul_slice :: "u32 \<Rightarrow> nat \<Rightarrow> enb_rib_info \<Rightarrow> bool result" where
  "has_ul_slice sid cell e = rbind (cell_config_at cell e) (\<lambda>c.
     Inr (case sl_ul (slice_config_of c) of None \<Rightarrow> False
          | Some s \<Rightarrow> list_ex (\<lambda>x. get_or 0 (slice_id x) = sid) (slices s)))"

definition num_ul_slices :: "nat \<Rightarrow> enb_rib_info \<Rightarrow> nat result" where
  "num_ul_slices cell e = rbind (cell_config_at cell e) (\<lambda>c.
     Inr (case sl_ul (slice_config_of c) of None \<Rightarrow> 0 | Some s \<Rightarrow> length (slices s)))"

section \<open>Text and JSON\<close>

text \<open>
  \<open>str += bs_id_\<close> with an integer appends the character with that code (the low byte), not the
  number.
\<close>

definition enb_dump_mac_stats_to_string :: "protobuf \<Rightarrow> enb_rib_info \<Rightarrow> string" where
  "enb_dump_mac_stats_to_string pb e =
     ''UE MAC stats for BS '' @ [char_of (unat (enb_bs_id e))] @ newline
     @ concat (map (\<lambda>(_, u). ue_dump_stats_to_string (report_debug pb) u @ newline) (ue_mac_info e))"

definition enb_format_mac_stats_to_json :: "u64 \<Rightarrow> string list \<Rightarrow> string" where
  "enb_format_mac_stats_to_json bs_id ues =
     quoted ''bs_id'' @ '':'' @ u64_to_string bs_id @ '','' @ quoted ''ue_mac_stats'' @ '':[''
     @ comma_separated ues @ '']''"

definition enb_dump_mac_stats_to_json :: "protobuf \<Rightarrow> enb_rib_info \<Rightarrow> string" where
  "enb_dump_mac_stats_to_json pb e =
     enb_format_mac_stats_to_json (enb_bs_id e)
       (map (\<lambda>(_, u). ue_dump_stats_to_json (report_json pb) u) (ue_mac_info e))"

definition enb_dump_configs_to_string :: "protobuf \<Rightarrow> enb_rib_info \<Rightarrow> string" where
  "enb_dump_configs_to_string pb e =
     ''configs for BS '' @ u64_to_string (enb_bs_id e) @ newline
     @ concat (map (\<lambda>a. agent_info_to_string a @ newline) (enb_agents e))
     @ enb_debug pb (eNB_config e) @ newline @ ue_debug pb (ue_configs e) @ newline
     @ lc_debug pb (lc_configs e) @ newline"

definition format_configs_to_json :: "u64 \<Rightarrow> string \<Rightarrow> string \<Rightarrow> string \<Rightarrow> string \<Rightarrow> string" where
  "format_configs_to_json bs_id ags enb ue lc =
     quoted ''bs_id'' @ '':'' @ u64_to_string bs_id @ '','' @ quoted ''agent_info'' @ '':'' @ ags
     @ '','' @ quoted ''eNB'' @ '':'' @ enb @ '','' @ quoted ''UE'' @ '':'' @ ue
     @ '','' @ quoted ''LC'' @ '':'' @ lc"

definition enb_dump_configs_to_json :: "protobuf \<Rightarrow> enb_rib_info \<Rightarrow> string" where
  "enb_dump_configs_to_json pb e =
     format_configs_to_json (enb_bs_id e)
       (''['' @ comma_separated (map agent_info_to_json (enb_agents e)) @ '']'')
       (enb_json pb (eNB_config e)) (ue_json pb (ue_configs e)) (lc_json pb (lc_configs e))"

definition dump_ue_spec_stats_by_rnti :: "protobuf \<Rightarrow> u32 \<Rightarrow> enb_rib_info \<Rightarrow> string option" where
  "dump_ue_spec_stats_by_rnti pb rnti e =
     map_option (ue_dump_stats_to_json (report_json pb)) (sm_find rnti (ue_mac_info e))"

section \<open>The updates of one base station\<close>

datatype enb_update =
    Upd_enb flex_enb_config_reply
  | Upd_ue flex_ue_config_reply
  | Upd_ue_state flex_ue_state_change
  | Upd_lc flex_lc_config_reply
  | Upd_sf flex_sf_trigger
  | Upd_stats flex_stats_reply

fun enb_step :: "protobuf \<Rightarrow> nat \<Rightarrow> enb_update \<Rightarrow> enb_rib_info \<Rightarrow> enb_rib_info result" where
  "enb_step pb now (Upd_enb m) e = Inr (update_eNB_config pb now m e)"
| "enb_step pb now (Upd_ue m) e = Inr (update_UE_config pb now m e)"
| "enb_step pb now (Upd_ue_state m) e = Inr (update_UE_state pb m e)"
| "enb_step pb now (Upd_lc m) e = Inr (update_LC_config now m e)"
| "enb_step pb now (Upd_sf m) e = update_subframe now m e"
| "enb_step pb now (Upd_stats m) e = update_mac_stats m e"

text \<open>What an agent must respect for the updates to stay within the arrays.\<close>

fun enb_update_ok :: "enb_update \<Rightarrow> enb_rib_info \<Rightarrow> bool" where
  "enb_update_ok (Upd_sf m) e \<longleftrightarrow> list_all dl_info_ok (dl_info m) \<and> list_all ul_info_ok (ul_info m)"
| "enb_update_ok (Upd_stats m) e \<longleftrightarrow> length (cell_report m) \<le> MAX_NUM_CC"
| "enb_update_ok _ e \<longleftrightarrow> True"

text \<open>
  Users are listed once, and exactly the listed users have a MAC entry, filed under their RNTI.
\<close>

definition enb_inv :: "enb_rib_info \<Rightarrow> bool" where
  "enb_inv e \<longleftrightarrow> sm_inv (ue_mac_info e) \<and> distinct (map rnti_of (ue_config (ue_configs e))) \<and>
     (\<forall>r. sm_find r (ue_mac_info e) \<noteq> None \<longleftrightarrow> r \<in> rnti_of ` set (ue_config (ue_configs e))) \<and>
     (\<forall>r u. sm_find r (ue_mac_info e) = Some u \<longrightarrow> um_rnti u = r)"

lemma enb_inv_cong:
  "ue_mac_info e' = ue_mac_info e \<Longrightarrow> ue_configs e' = ue_configs e \<Longrightarrow> enb_inv e' = enb_inv e"
  by (simp add: enb_inv_def)

lemma new_enb_inv: "enb_inv (new_enb bs ags now)"
  by (simp add: enb_inv_def new_enb_def empty_ue_config_reply_def)

lemma update_first_map:
  "(\<And>x. x \<in> set xs \<Longrightarrow> P x \<Longrightarrow> g (f x) = g x) \<Longrightarrow> map g (update_first P f xs) = map g xs"
  by (induction xs) auto

lemma set_erase_first_distinct:
  "distinct (map g xs) \<Longrightarrow> g ` set (erase_first (\<lambda>x. k = g x) xs) = g ` set xs - {k}"
  by (induction xs) auto

lemma distinct_erase_first: "distinct (map g xs) \<Longrightarrow> distinct (map g (erase_first P xs))"
proof (induction xs)
  case (Cons x xs)
  have "set (erase_first P ys) \<subseteq> set ys" for ys by (induction ys) auto
  then show ?case using Cons by fastforce
qed simp

lemma merged_rnti:
  assumes "merge_ue_ok pb" "rnti_of dst = rnti_of src"
  shows "rnti_of (merge_ue_update pb src dst) = rnti_of dst" "rnti_of (merge_ue_state pb src dst) = rnti_of dst"
  using assms merge_ueD(1) [OF assms(1)]
  by (auto simp: merge_ue_update_def merge_ue_state_def clear_repeated_ue_def override_def Let_def split: option.splits)

lemma map_rnti_update_UE:
  assumes "merge_ue_ok pb"
  shows "map rnti_of (ue_config (ue_configs (update_UE_config pb now upd e))) = map rnti_of (ue_config (ue_configs e))"
proof -
  have "map rnti_of (fold (\<lambda>src cs. update_first (\<lambda>c. rnti_of c = rnti_of src) (merge_ue_update pb src) cs) srcs cs) =
      map rnti_of cs" for srcs cs
  proof (induction srcs arbitrary: cs)
    case (Cons src srcs)
    have "map rnti_of (update_first (\<lambda>c. rnti_of c = rnti_of src) (merge_ue_update pb src) cs) = map rnti_of cs"
      by (rule update_first_map) (simp add: merged_rnti [OF assms])
    then show ?case by (simp add: Cons.IH)
  qed simp
  then show ?thesis by (simp add: update_UE_config_def update_liveness_def)
qed

lemma update_UE_config_inv:
  assumes "merge_ue_ok pb" "enb_inv e"
  shows "enb_inv (update_UE_config pb now upd e)"
proof -
  have "ue_mac_info (update_UE_config pb now upd e) = ue_mac_info e"
    by (simp add: update_UE_config_def update_liveness_def)
  moreover have "rnti_of ` set (ue_config (ue_configs (update_UE_config pb now upd e))) = rnti_of ` set (ue_config (ue_configs e))"
    using map_rnti_update_UE [OF assms(1)] by (metis set_map)
  ultimately show ?thesis
    using assms(2) map_rnti_update_UE [OF assms(1), of now upd e] unfolding enb_inv_def by simp
qed

lemma update_UE_state_inv:
  assumes "merge_ue_ok pb" "enb_inv e"
  shows "enb_inv (update_UE_state pb sc e)"
proof -
  let ?src = "get_or empty_ue_config (sc_config sc)"
  let ?cs = "ue_config (ue_configs e)"
  have upd: "map rnti_of (update_first (\<lambda>c. rnti_of ?src = rnti_of c) (merge_ue_state pb ?src) ?cs) = map rnti_of ?cs"
    by (rule update_first_map) (simp add: merged_rnti [OF assms(1)])
  have upd_inv: "enb_inv (e\<lparr>ue_configs := (ue_configs e)\<lparr>ue_config :=
      update_first (\<lambda>c. rnti_of ?src = rnti_of c) (merge_ue_state pb ?src) ?cs\<rparr>\<rparr>)"
  proof -
    have "rnti_of ` set (update_first (\<lambda>c. rnti_of ?src = rnti_of c) (merge_ue_state pb ?src) ?cs) = rnti_of ` set ?cs"
      using upd by (metis set_map)
    then show ?thesis using assms(2) upd unfolding enb_inv_def by simp
  qed
  have new_inv: "enb_inv (e\<lparr>ue_configs := (ue_configs e)\<lparr>ue_config := ?cs @ [?src]\<rparr>,
      ue_mac_info := sm_emplace (rnti_of ?src) (new_ue_mac (rnti_of ?src)) (ue_mac_info e)\<rparr>)"
    if "\<not> list_ex (\<lambda>c. rnti_of ?src = rnti_of c) ?cs"
  proof -
    have "rnti_of ?src \<notin> rnti_of ` set ?cs" using that by (auto simp: list_ex_iff)
    then show ?thesis using assms(2) unfolding enb_inv_def by (auto simp: new_ue_mac_def)
  qed
  have del_inv: "enb_inv (e\<lparr>ue_configs := (ue_configs e)\<lparr>ue_config := erase_first (\<lambda>c. rnti_of ?src = rnti_of c) ?cs\<rparr>,
      ue_mac_info := sm_erase (rnti_of ?src) (ue_mac_info e), lc_configs := l\<rparr>)" for l
  proof -
    have d: "distinct (map rnti_of ?cs)" using assms(2) by (simp add: enb_inv_def)
    show ?thesis
      using assms(2) distinct_erase_first [OF d] set_erase_first_distinct [OF d]
      unfolding enb_inv_def by auto
  qed
  show ?thesis
    using assms(2) upd_inv new_inv del_inv by (auto simp: update_UE_state_def Let_def)
qed

lemma update_ue_mac_inv:
  assumes "enb_inv e" "update_ue_mac r f e = Inr e'"
    and "\<And>u u'. f u = Inr u' \<Longrightarrow> um_rnti u' = um_rnti u"
  shows "enb_inv e'"
proof (cases "sm_find r (ue_mac_info e)")
  case None
  then show ?thesis using assms(1,2) by (simp add: update_ue_mac_def)
next
  case (Some u)
  then obtain u' where u': "f u = Inr u'" "e' = e\<lparr>ue_mac_info := sm_put r u' (ue_mac_info e)\<rparr>"
    using assms(2) by (auto simp: update_ue_mac_def rbind_Inr_eq)
  have k: "um_rnti u' = r" "r \<in> rnti_of ` set (ue_config (ue_configs e))"
    using assms(1) assms(3) [OF u'(1)] Some unfolding enb_inv_def by (simp, blast)
  show ?thesis
    using assms(1) k unfolding enb_inv_def u'(2)
    by (simp add: sm.inv_put)
qed

lemma update_ue_mac_frame:
  assumes "update_ue_mac r f e = Inr e'"
  shows "ue_configs e' = ue_configs e \<and> enb_bs_id e' = enb_bs_id e \<and> enb_agents e' = enb_agents e"
  using assms by (auto simp: update_ue_mac_def rbind_Inr_eq split: option.splits)

lemma update_dl_rnti: "update_dl_sf_info d u = Inr u' \<Longrightarrow> um_rnti u' = um_rnti u"
  unfolding update_dl_sf_info_def Let_def
  by (erule foldR_invariant [where I = "\<lambda>v. um_rnti v = um_rnti u"]) (auto split: if_splits)

lemma update_ul_rnti: "update_ul_sf_info d u = Inr u' \<Longrightarrow> um_rnti u' = um_rnti u"
  unfolding update_ul_sf_info_def Let_def
  by (auto split: if_splits elim!: foldR_invariant [where I = "\<lambda>v. um_rnti v = um_rnti u"])

lemma update_subframe_inv:
  assumes "enb_inv e" "update_subframe now tr e = Inr e'"
  shows "enb_inv e'"
proof -
  let ?e0 = "e\<lparr>current_frame := Some (get_frame (ucast (ucast (get_or 0 (sfn_sf tr)) :: u16))),
    current_subframe := Some (get_subframe (ucast (ucast (get_or 0 (sfn_sf tr)) :: u16)))\<rparr>"
  obtain e1 e2 where e: "foldR (\<lambda>d. update_ue_mac (get_or 0 (dl_rnti d)) (update_dl_sf_info d)) (dl_info tr) ?e0 = Inr e1"
    "foldR (\<lambda>u. update_ue_mac (get_or 0 (ul_rnti u)) (update_ul_sf_info u)) (ul_info tr) e1 = Inr e2"
    "e' = update_liveness now e2"
    using assms(2) by (auto simp: update_subframe_def Let_def rbind_Inr_eq)
  have "enb_inv ?e0" using assms(1) by (simp add: enb_inv_def)
  with e(1) have "enb_inv e1"
    by (rule foldR_invariant) (blast intro: update_ue_mac_inv update_dl_rnti)
  with e(2) have "enb_inv e2"
    by (rule foldR_invariant) (blast intro: update_ue_mac_inv update_ul_rnti)
  then show ?thesis using e(3) by (simp add: enb_inv_def update_liveness_def)
qed

lemma update_mac_stats_inv:
  assumes "enb_inv e" "update_mac_stats st e = Inr e'"
  shows "enb_inv e'"
proof -
  obtain e1 where e1: "foldR (\<lambda>r. update_ue_mac (get_or 0 (r_rnti r)) (\<lambda>u. Inr (update_mac_stats_report r u))) (ue_report st) e = Inr e1"
    and e2: "foldR (\<lambda>(i, r) e. if i < MAX_NUM_CC
            then Inr (e\<lparr>cell_mac_info := (cell_mac_info e)(i := update_cell_stats_report r (cell_mac_info e i))\<rparr>)
            else Inl out_of_bounds) (enumerate 0 (cell_report st)) e1 = Inr e'"
    using assms(2) by (auto simp: update_mac_stats_def rbind_Inr_eq)
  from e1 assms(1) have "enb_inv e1"
    by (rule foldR_invariant) (auto elim!: update_ue_mac_inv simp: update_mac_stats_report_def)
  with e2 show ?thesis
  proof (rule foldR_invariant [where I = enb_inv])
    show "enb_inv s'" if "enb_inv s" "(case x of (i, r) \<Rightarrow> \<lambda>e. if i < MAX_NUM_CC
            then Inr (e\<lparr>cell_mac_info := (cell_mac_info e)(i := update_cell_stats_report r (cell_mac_info e i))\<rparr>)
            else Inl out_of_bounds) s = Inr s'" for x s s'
      using that enb_inv_cong [of s' s] by (auto split: prod.splits if_splits)
  qed
qed

lemma enb_step_inv:
  assumes "merge_ue_ok pb" "enb_inv e" "enb_step pb now m e = Inr e'"
  shows "enb_inv e'"
proof (cases m)
  case (Upd_enb x)
  then have "ue_mac_info e' = ue_mac_info e" "ue_configs e' = ue_configs e"
    using assms(3) by (auto simp: update_eNB_config_def update_liveness_def Let_def)
  then show ?thesis using assms(2) enb_inv_cong by blast
next
  case (Upd_lc x)
  then have "ue_mac_info e' = ue_mac_info e" "ue_configs e' = ue_configs e"
    using assms(3) by (auto simp: update_LC_config_def update_liveness_def Let_def)
  then show ?thesis using assms(2) enb_inv_cong by blast
qed (use assms update_UE_config_inv [OF assms(1,2)] update_UE_state_inv [OF assms(1,2)]
    update_subframe_inv [OF assms(2)] update_mac_stats_inv [OF assms(2)] in auto)

text \<open>Safety: updates within bounds do not throw.\<close>

lemma update_ue_mac_ok: "(\<And>u. is_ok (f u)) \<Longrightarrow> is_ok (update_ue_mac r f e)"
  by (simp add: update_ue_mac_def is_ok_rbindI split: option.splits)

lemma enb_step_ok:
  assumes "enb_update_ok m e"
  shows "is_ok (enb_step pb now m e)"
proof (cases m)
  case (Upd_sf tr)
  have dl: "is_ok (foldR (\<lambda>d. update_ue_mac (get_or 0 (dl_rnti d)) (update_dl_sf_info d)) (dl_info tr) x)" for x
    using assms Upd_sf by (intro foldR_is_ok update_ue_mac_ok) (auto simp: update_dl_sf_info_ok list_all_iff)
  have ul: "is_ok (foldR (\<lambda>u. update_ue_mac (get_or 0 (ul_rnti u)) (update_ul_sf_info u)) (ul_info tr) x)" for x
    using assms Upd_sf by (intro foldR_is_ok update_ue_mac_ok) (auto simp: update_ul_sf_info_ok list_all_iff)
  show ?thesis unfolding Upd_sf enb_step.simps update_subframe_def Let_def by (intro is_ok_rbindI dl ul) simp
next
  case (Upd_stats st)
  have ue: "is_ok (foldR (\<lambda>r. update_ue_mac (get_or 0 (r_rnti r)) (\<lambda>u. Inr (update_mac_stats_report r u))) (ue_report st) x)" for x
    by (intro foldR_is_ok update_ue_mac_ok) simp
  have "\<forall>x \<in> set (enumerate 0 (cell_report st)). fst x < MAX_NUM_CC"
    using assms Upd_stats set_enumerate_fst [of "cell_report st" "\<lambda>i. i < MAX_NUM_CC"] by simp
  then have cells: "is_ok (foldR (\<lambda>(i, r) e. if i < MAX_NUM_CC
            then Inr (e\<lparr>cell_mac_info := (cell_mac_info e)(i := update_cell_stats_report r (cell_mac_info e i))\<rparr>)
            else Inl out_of_bounds) (enumerate 0 (cell_report st)) x)" for x
    unfolding case_prod_unfold by (simp add: foldR_guarded)
  show ?thesis unfolding Upd_stats enb_step.simps update_mac_stats_def by (rule is_ok_rbindI [OF ue cells])
qed auto

text \<open>The invariant does not depend on the message being within bounds; only the run does.\<close>

interpretation enb: safe_system "enb_step pb now" "\<lambda>e. merge_ue_ok pb \<and> enb_inv e" enb_update_ok
  for pb now
  by unfold_locales (auto intro: enb_step_inv enb_step_ok)

section \<open>Properties\<close>

text \<open>C27. Starting from a new base station, every sequence of updates whose indices fit the
  arrays is processed without an error, and afterwards every user is listed once and has a MAC
  entry under its RNTI, and no other MAC entry exists.\<close>

theorem base_station_consistent:
  assumes "merge_ue_ok pb" "admissible (enb_step pb now) enb_update_ok ms (new_enb bs ags t)"
  shows "\<exists>e. foldR (enb_step pb now) ms (new_enb bs ags t) = Inr e \<and> enb_inv e"
  using enb.run_safe [of pb "new_enb bs ags t" now ms] assms new_enb_inv by blast

theorem base_station_consistent_witness:
  "\<exists>e. foldR (enb_step plain_pb 5)
     [Upd_ue_state \<lparr>sc_type = Some 1, sc_config = Some (empty_ue_config\<lparr>ue_rnti := Some 70\<rparr>)\<rparr>,
      Upd_sf \<lparr>sfn_sf = Some 3, dl_info = [\<lparr>dl_rnti = Some 70, harq_process_id = Some 2, harq_status = [1],
        dl_serv_cell_index = None\<rparr>], ul_info = []\<rparr>]
     (new_enb 1 [] 0) = Inr e \<and> enb_inv e"
proof (rule base_station_consistent)
  show "merge_ue_ok plain_pb" using plain_pb_ok by (simp add: merge_ok_def)
  show "admissible (enb_step plain_pb 5) enb_update_ok
     [Upd_ue_state \<lparr>sc_type = Some 1, sc_config = Some (empty_ue_config\<lparr>ue_rnti := Some 70\<rparr>)\<rparr>,
      Upd_sf \<lparr>sfn_sf = Some 3, dl_info = [\<lparr>dl_rnti = Some 70, harq_process_id = Some 2, harq_status = [1],
        dl_serv_cell_index = None\<rparr>], ul_info = []\<rparr>]
     (new_enb 1 [] 0)"
    by (rule admissible_mono) (auto simp: dl_info_ok_def rib_consts)
qed

definition unified_list :: "'a list \<Rightarrow> 'a list \<Rightarrow> 'a list" where
  "unified_list dst src = (if src = [] then dst else src)"

text \<open>A configuration that arrives when one is stored is unified with it cell by cell: fields
  and lists that are present replace the stored ones, absent ones are kept, the slice
  configuration is replaced as a whole, and no cell is added or lost.\<close>

theorem update_eNB_config_unifies:
  assumes "merge_cell_ok pb" "cell_config (eNB_config e) \<noteq> []" "i < length (cell_config (eNB_config e))"
    and "i < length (cell_config upd)"
  shows "length (cell_config (eNB_config (update_eNB_config pb now upd e))) = length (cell_config (eNB_config e)) \<and>
    (let old = cell_config (eNB_config e) ! i; src = cell_config upd ! i;
         new = cell_config (eNB_config (update_eNB_config pb now upd e)) ! i in
     (\<forall>f. cell_u32 new f = override (cell_u32 old f) (cell_u32 src f)) \<and>
     plmn_id new = unified_list (plmn_id old) (plmn_id src) \<and>
     mbsfn_subframe_config_rfperiod new =
       unified_list (mbsfn_subframe_config_rfperiod old) (mbsfn_subframe_config_rfperiod src) \<and>
     slice_config new = override (slice_config old) (slice_config src) \<and>
     x2_ho_net_control new = override (x2_ho_net_control old) (x2_ho_net_control src))"
proof -
  let ?n = "min (length (cell_config (eNB_config e))) (length (cell_config upd))"
  have cc: "cell_config (eNB_config (update_eNB_config pb now upd e)) =
      map2 (update_cell pb) (take ?n (cell_config (eNB_config e))) (take ?n (cell_config upd))
        @ drop ?n (cell_config (eNB_config e))"
    using assms(2) by (simp add: update_eNB_config_def update_liveness_def Let_def)
  have "i < ?n" using assms(3,4) by simp
  then have new: "cell_config (eNB_config (update_eNB_config pb now upd e)) ! i =
      update_cell pb (cell_config (eNB_config e) ! i) (cell_config upd ! i)"
    unfolding cc by (simp add: nth_append)
  have len: "length (cell_config (eNB_config (update_eNB_config pb now upd e))) = length (cell_config (eNB_config e))"
    unfolding cc by simp
  show ?thesis
    unfolding new Let_def using len merge_cellD [OF assms(1)]
    by (auto simp: update_cell_def clear_repeated_cell_def clear_if_present_def unified_list_def Let_def
        override_def split: option.splits)
qed

theorem update_eNB_config_unifies_witness:
  "cell_u32 (cell_config (eNB_config (update_eNB_config plain_pb 9
      (empty_enb_config\<lparr>cell_config := [empty_cell_config\<lparr>cell_u32 := (\<lambda>_. None)(dl_freq := Some 2650)\<rparr>]\<rparr>)
      ((new_enb 1 [] 0)\<lparr>eNB_config := empty_enb_config\<lparr>cell_config := [empty_cell_config]\<rparr>\<rparr>))) ! 0) dl_freq = Some 2650"
proof -
  have "merge_cell_ok plain_pb" using plain_pb_ok by (simp add: merge_ok_def)
  from update_eNB_config_unifies [OF this,
      of "(new_enb 1 [] 0)\<lparr>eNB_config := empty_enb_config\<lparr>cell_config := [empty_cell_config]\<rparr>\<rparr>" 0
        "empty_enb_config\<lparr>cell_config := [empty_cell_config\<lparr>cell_u32 := (\<lambda>_. None)(dl_freq := Some 2650)\<rparr>]\<rparr>" 9]
  show ?thesis by (simp add: Let_def override_def)
qed

text \<open>The S1AP configuration and the lists of loaded objects are not unified but overwritten,
  also by an update that does not carry them: a partial update (of an agent without S1AP)
  loses what another agent of the base station reported.\<close>

theorem partial_update_loses_s1ap:
  assumes "cell_config (eNB_config e) \<noteq> []" "s1ap upd = None"
  shows "s1ap (eNB_config (update_eNB_config pb now upd e)) = Some empty_s1ap \<and>
         loadedApps (eNB_config (update_eNB_config pb now upd e)) = loadedApps upd"
  using assms by (simp add: update_eNB_config_def update_liveness_def Let_def)

theorem partial_update_loses_s1ap_witness:
  "s1ap (eNB_config (update_eNB_config plain_pb 9 empty_enb_config
      ((new_enb 1 [] 0)\<lparr>eNB_config := empty_enb_config\<lparr>cell_config := [empty_cell_config],
          s1ap := Some (empty_s1ap\<lparr>enb_name := Some ''a''\<rparr>)\<rparr>\<rparr>))) = Some empty_s1ap"
  by (rule conjunct1 [OF partial_update_loses_s1ap]) (simp_all add: empty_enb_config_def)

lemma erase_first_other:
  "(\<And>x. P x \<Longrightarrow> \<not> Q x) \<Longrightarrow> filter Q (erase_first P xs) = filter Q xs"
  by (induction xs) auto

text \<open>When a user is deactivated it disappears from the configuration and from the MAC
  state, and the entries of all other users are untouched.\<close>

theorem deactivation_removes_user:
  assumes "enb_inv e" "sc_type sc = Some FLUESC_DEACTIVATED" "sc_config sc = Some c"
  shows "let e' = update_UE_state pb sc e in
     (\<forall>d \<in> set (ue_config (ue_configs e')). rnti_of d \<noteq> rnti_of c) \<and>
     get_ue_mac_info (rnti_of c) e' = None \<and>
     filter (\<lambda>d. rnti_of d \<noteq> rnti_of c) (ue_config (ue_configs e')) =
       filter (\<lambda>d. rnti_of d \<noteq> rnti_of c) (ue_config (ue_configs e)) \<and>
     (\<forall>r. r \<noteq> rnti_of c \<longrightarrow> get_ue_mac_info r e' = get_ue_mac_info r e)"
proof -
  let ?cs = "ue_config (ue_configs e)"
  have d: "distinct (map rnti_of ?cs)" using assms(1) by (simp add: enb_inv_def)
  have keys: "sm_find r (ue_mac_info e) \<noteq> None \<longleftrightarrow> r \<in> rnti_of ` set ?cs" for r
    using assms(1) by (simp add: enb_inv_def)
  show ?thesis
  proof (cases "list_ex (\<lambda>d. rnti_of c = rnti_of d) ?cs")
    case True
    have "rnti_of d \<noteq> rnti_of c" if "d \<in> set (erase_first (\<lambda>d. rnti_of c = rnti_of d) ?cs)" for d
      using set_erase_first_distinct [OF d, of "rnti_of c"] that by auto
    moreover have "filter (\<lambda>d. rnti_of d \<noteq> rnti_of c) (erase_first (\<lambda>d. rnti_of c = rnti_of d) ?cs) =
        filter (\<lambda>d. rnti_of d \<noteq> rnti_of c) ?cs"
      by (rule erase_first_other) simp
    ultimately show ?thesis
      using True assms(2,3) by (simp add: update_UE_state_def Let_def FLUESC_defs get_ue_mac_info_def)
  next
    case False
    then have "rnti_of c \<notin> rnti_of ` set ?cs" by (auto simp: list_ex_iff)
    moreover have "\<forall>d \<in> set ?cs. rnti_of d \<noteq> rnti_of c" using False by (auto simp: list_ex_iff)
    moreover have "sm_find (rnti_of c) (ue_mac_info e) = None" using keys calculation(1) by blast
    ultimately show ?thesis
      using False assms(2,3) by (auto simp: update_UE_state_def Let_def FLUESC_defs get_ue_mac_info_def)
  qed
qed

theorem deactivation_removes_user_witness:
  "get_ue_mac_info 70 (update_UE_state plain_pb
     \<lparr>sc_type = Some FLUESC_DEACTIVATED, sc_config = Some (empty_ue_config\<lparr>ue_rnti := Some 70\<rparr>)\<rparr>
     (update_UE_state plain_pb \<lparr>sc_type = Some 1, sc_config = Some (empty_ue_config\<lparr>ue_rnti := Some 70\<rparr>)\<rparr>
       (new_enb 1 [] 0))) = None"
proof -
  have "merge_ue_ok plain_pb" using plain_pb_ok by (simp add: merge_ok_def)
  from update_UE_state_inv [OF this new_enb_inv]
  have "enb_inv (update_UE_state plain_pb \<lparr>sc_type = Some 1, sc_config = Some (empty_ue_config\<lparr>ue_rnti := Some 70\<rparr>)\<rparr>
       (new_enb 1 [] 0))" .
  from deactivation_removes_user [OF this, of "\<lparr>sc_type = Some FLUESC_DEACTIVATED,
      sc_config = Some (empty_ue_config\<lparr>ue_rnti := Some 70\<rparr>)\<rparr>" "empty_ue_config\<lparr>ue_rnti := Some 70\<rparr>" plain_pb]
  show ?thesis by (simp add: Let_def)
qed

lemma update_first_distinct:
  "distinct (map g xs) \<Longrightarrow> x \<in> set xs \<Longrightarrow> g x = k \<Longrightarrow> f x \<in> set (update_first (\<lambda>x. k = g x) f xs)"
proof (induction xs)
  case (Cons a xs)
  then show ?case by (cases "x = a") (auto simp: rev_image_eqI)
qed simp

lemma concat_replicate_Suc: "concat (replicate (Suc n) xs) = concat (replicate n xs) @ xs"
  by (induction n) simp_all

text \<open>Unlike a configuration reply, a state change appends the measurement offsets of the user
  to those stored: every further update message with the same offsets makes the list longer.\<close>

theorem state_updates_accumulate_offsets:
  assumes "merge_ue_ok pb" "enb_inv e" "c \<in> set (ue_config (ue_configs e))" "ue_info c = Some ci"
    and "sc_type sc = Some FLUESC_UPDATED" "sc_config sc = Some s" "rnti_of s = rnti_of c" "ue_info s = Some si"
  shows "\<exists>c' \<in> set (ue_config (ue_configs ((update_UE_state pb sc ^^ n) e))). rnti_of c' = rnti_of c \<and>
     (\<exists>ci'. ue_info c' = Some ci' \<and> cell_individual_offset ci' =
        cell_individual_offset ci @ concat (replicate n (cell_individual_offset si)))"
proof (induction n)
  case 0
  then show ?case using assms(3,4) by auto
next
  case (Suc n)
  let ?e = "(update_UE_state pb sc ^^ n) e"
  have inv: "enb_inv ((update_UE_state pb sc ^^ k) e)" for k
    by (induction k) (use assms(2) update_UE_state_inv [OF assms(1)] in auto)
  obtain c' ci' where c': "c' \<in> set (ue_config (ue_configs ?e))" "rnti_of c' = rnti_of c" "ue_info c' = Some ci'"
    "cell_individual_offset ci' = cell_individual_offset ci @ concat (replicate n (cell_individual_offset si))"
    using Suc.IH by blast
  have found: "list_ex (\<lambda>d. rnti_of s = rnti_of d) (ue_config (ue_configs ?e))"
    unfolding list_ex_iff by (rule bexI [of _ c']) (use c'(1,2) assms(7) in auto)
  have e': "ue_config (ue_configs ((update_UE_state pb sc ^^ Suc n) e)) =
      update_first (\<lambda>d. rnti_of s = rnti_of d) (merge_ue_state pb s) (ue_config (ue_configs ?e))"
    using found assms(5,6) by (simp add: update_UE_state_def Let_def FLUESC_defs)
  have "merge_ue_state pb s c' \<in> set (ue_config (ue_configs ((update_UE_state pb sc ^^ Suc n) e)))"
    unfolding e' using c'(1,2) assms(7) inv [of n] by (intro update_first_distinct) (auto simp: enb_inv_def)
  moreover have "rnti_of (merge_ue_state pb s c') = rnti_of c"
    using merged_rnti(2) [OF assms(1), of c' s] c'(2) assms(7) by simp
  moreover obtain mi where "ue_info (merge_ue_state pb s c') = Some mi" "merge_info ci' si mi"
    using merge_ueD(7) [OF assms(1,8), of "clear_repeated_ue c' s"] c'(3)
    by (auto simp: merge_ue_state_def clear_repeated_ue_def)
  moreover have "cell_individual_offset mi = cell_individual_offset ci @ concat (replicate (Suc n) (cell_individual_offset si))"
    if "merge_info ci' si mi" for mi
  proof -
    have "concat (replicate (Suc n) (cell_individual_offset si)) =
        concat (replicate n (cell_individual_offset si)) @ cell_individual_offset si"
      by (rule concat_replicate_Suc)
    then show ?thesis using that c'(4) by (simp add: merge_info_def)
  qed
  ultimately show ?case by blast
qed

theorem state_updates_accumulate_offsets_witness:
  "\<exists>c' \<in> set (ue_config (ue_configs ((update_UE_state plain_pb \<lparr>sc_type = Some FLUESC_UPDATED,
       sc_config = Some (empty_ue_config\<lparr>ue_rnti := Some 7, ue_info := Some (empty_info\<lparr>cell_individual_offset := [3]\<rparr>)\<rparr>)\<rparr> ^^ 2)
       (update_UE_state plain_pb \<lparr>sc_type = Some 1, sc_config = Some (empty_ue_config\<lparr>ue_rnti := Some 7,
          ue_info := Some empty_info\<rparr>)\<rparr> (new_enb 1 [] 0))))).
     rnti_of c' = 7 \<and> (\<exists>ci'. ue_info c' = Some ci' \<and> cell_individual_offset ci' = [3, 3])"
proof -
  let ?c = "empty_ue_config\<lparr>ue_rnti := Some 7, ue_info := Some empty_info\<rparr>"
  let ?si = "empty_info\<lparr>cell_individual_offset := [3]\<rparr>"
  let ?s = "empty_ue_config\<lparr>ue_rnti := Some 7, ue_info := Some ?si\<rparr>"
  have m: "merge_ue_ok plain_pb" using plain_pb_ok by (simp add: merge_ok_def)
  let ?e = "update_UE_state plain_pb \<lparr>sc_type = Some 1, sc_config = Some ?c\<rparr> (new_enb 1 [] 0)"
  have "enb_inv ?e" using update_UE_state_inv [OF m new_enb_inv] .
  moreover have "?c \<in> set (ue_config (ue_configs ?e))"
    by (simp add: update_UE_state_def Let_def FLUESC_defs new_enb_def empty_ue_config_reply_def)
  moreover have "ue_info ?c = Some empty_info" "rnti_of ?s = rnti_of ?c" "ue_info ?s = Some ?si" by simp_all
  ultimately have "\<exists>c' \<in> set (ue_config (ue_configs ((update_UE_state plain_pb
      \<lparr>sc_type = Some FLUESC_UPDATED, sc_config = Some ?s\<rparr> ^^ 2) ?e))). rnti_of c' = rnti_of ?c \<and>
     (\<exists>ci'. ue_info c' = Some ci' \<and> cell_individual_offset ci' =
        cell_individual_offset empty_info @ concat (replicate 2 (cell_individual_offset ?si)))"
    by (intro state_updates_accumulate_offsets [OF m]) auto
  then show ?thesis by (simp add: numeral_2_eq_2 empty_info_def)
qed

text \<open>The UE part of a request: a decimal number of up to five digits is an RNTI and must have
  a MAC entry, a longer one is an IMSI looked up in the configuration; a number of more than
  63 bits makes \<open>std::stoll\<close> throw \<open>std::out_of_range\<close>, which is not caught.\<close>

theorem parse_rnti_imsi_decimal:
  "parse_rnti_imsi (nat_to_string n) e =
     (if n < 10 ^ 5
      then Inr (if get_ue_mac_info (of_nat n) e \<noteq> None then Some (of_nat n) else None)
      else if n < 2 ^ 63 then Inr (get_rnti (of_nat n) e)
      else Inl (Out_of_range ''stoll''))"
proof -
  have len: "length (nat_to_string n) \<ge> 6 \<longleftrightarrow> \<not> n < 10 ^ 5"
    using length_nat_to_string [of 5 n] by linarith
  show ?thesis
  proof (cases "n < 10 ^ 5")
    case True
    then have "n < 2 ^ 31" by simp
    then show ?thesis using True len
      by (simp add: parse_rnti_imsi_def RNTI_ID_LENGTH_LIMIT_def stoi_nat_to_string get_ue_mac_info_def Let_def)
  next
    case False
    then show ?thesis using len
      by (simp add: parse_rnti_imsi_def RNTI_ID_LENGTH_LIMIT_def stoll_nat_to_string)
  qed
qed

text \<open>A statistics report with more cells than the controller has room for writes past the
  end of the cell array.\<close>

theorem too_many_cell_reports:
  assumes "ue_report st = []" "length (cell_report st) > MAX_NUM_CC"
  shows "update_mac_stats st e = Inl out_of_bounds"
proof -
  have err: "x = Inl out_of_bounds" if "\<not> is_ok x" "\<And>y. x = Inl y \<Longrightarrow> y = out_of_bounds" for x :: "enb_rib_info result"
    using that by (cases x) auto
  have "\<not> is_ok (update_mac_stats st e)"
    using assms set_enumerate_fst [of "cell_report st" "\<lambda>i. i < MAX_NUM_CC"] bounded_index
    unfolding update_mac_stats_def case_prod_unfold by (auto simp: foldR_guarded)
  moreover have "y = out_of_bounds" if "foldR (\<lambda>x s. if P x then Inr (f x s) else Inl out_of_bounds) xs s = Inl y"
    for P f y s and xs :: "(nat \<times> flex_cell_stats_report) list"
    using that by (induction xs arbitrary: s) (auto split: if_splits)
  then have "\<And>y. update_mac_stats st e = Inl y \<Longrightarrow> y = out_of_bounds"
    using assms(1) unfolding update_mac_stats_def case_prod_unfold by simp
  ultimately show ?thesis by (rule err)
qed

theorem too_many_cell_reports_witness:
  "update_mac_stats \<lparr>sr_header = None, ue_report = [], cell_report = replicate 3 empty_cell_report\<rparr> (new_enb 1 [] 0)
     = Inl out_of_bounds"
  by (rule too_many_cell_reports) (simp_all add: rib_consts)

end
