(* ===== verification/Rib.thy ===== *)
theory Rib
  imports Enb_Rib
begin

text \<open>
  \<open>rib/rib.{h,cc}\<close>: the RAN information base. It keeps the base stations, the agents that make
  them up, and the agents that said hello but whose base station is not complete yet. The
  invariant \<open>rib_inv\<close> is what every operation keeps and what makes \<open>new_eNB_config_entry\<close> never
  throw and \<open>remove_eNB_config_entry\<close> never dereference \<open>end()\<close>; \<open>rib_unique\<close> adds what holds
  as long as no connection announces itself twice.
\<close>

section \<open>State\<close>

text \<open>
  \<open>pending_agents_\<close> is a \<open>std::set\<close> of shared pointers: a list without repetition, in the order
  in which the set iterates. The invariant makes two different agents of the set different as
  values, so that equality of the records stands for equality of the pointers.
\<close>

record rib =
  eNB_configs :: "(u64, enb_rib_info) std_map"
  agent_configs :: "(int, agent_info) std_map"
  pending_agents :: "agent_info list"

definition empty_rib :: rib where
  "empty_rib = \<lparr>eNB_configs = [], agent_configs = [], pending_agents = []\<rparr>"

definition set_insert :: "'a \<Rightarrow> 'a list \<Rightarrow> 'a list" where
  "set_insert x xs = (if x \<in> set xs then xs else xs @ [x])"

lemma set_set_insert [simp]: "set (set_insert x xs) = insert x (set xs)"
  by (auto simp: set_insert_def)

lemma distinct_set_insert: "distinct xs \<Longrightarrow> distinct (set_insert x xs)"
  by (auto simp: set_insert_def)

lemma set_fold_insert: "set (fold set_insert xs ys) = set xs \<union> set ys"
  by (induction xs arbitrary: ys) auto

lemma distinct_fold_insert: "distinct ys \<Longrightarrow> distinct (fold set_insert xs ys)"
  by (induction xs arbitrary: ys) (auto intro: distinct_set_insert)

section \<open>Lookup\<close>

definition get_bs :: "u64 \<Rightarrow> rib \<Rightarrow> enb_rib_info option" where
  "get_bs bs_id r = sm_find bs_id (eNB_configs r)"

definition has_eNB_config_entry :: "u64 \<Rightarrow> rib \<Rightarrow> bool" where
  "has_eNB_config_entry bs_id r \<longleftrightarrow> get_bs bs_id r \<noteq> None"

definition get_agent :: "int \<Rightarrow> rib \<Rightarrow> agent_info option" where
  "get_agent i r = sm_find i (agent_configs r)"

definition get_bs_id :: "int \<Rightarrow> rib \<Rightarrow> u64" where
  "get_bs_id i r = (case sm_find i (agent_configs r) of None \<Rightarrow> 0 | Some a \<Rightarrow> agent_bs_id a)"

definition get_bs_from_agent :: "int \<Rightarrow> rib \<Rightarrow> enb_rib_info option" where
  "get_bs_from_agent i r = (let b = get_bs_id i r in if b = 0 then None else get_bs b r)"

definition get_available_base_stations :: "rib \<Rightarrow> u64 list" where
  "get_available_base_stations r = sm_keys (eNB_configs r)"

text \<open>Handlers change a base station through the shared pointer that the lookup returned.\<close>

definition set_bs :: "u64 \<Rightarrow> enb_rib_info \<Rightarrow> rib \<Rightarrow> rib" where
  "set_bs bs_id e r = r\<lparr>eNB_configs := sm_put bs_id e (eNB_configs r)\<rparr>"

section \<open>Pending agents\<close>

definition agent_is_pending :: "int \<Rightarrow> rib \<Rightarrow> bool" where
  "agent_is_pending i r \<longleftrightarrow> List.find (\<lambda>a. i = agent_id a) (pending_agents r) \<noteq> None"

definition add_pending_agent :: "agent_info \<Rightarrow> rib \<Rightarrow> bool \<times> rib" where
  "add_pending_agent ai r =
     (if agent_bs_id ai = 0 then (False, r)
      else if agent_is_pending (agent_id ai) r then (False, r)
      else if length (capabilities ai) < 1 then (False, r)
      else if list_ex (\<lambda>p. agent_bs_id p = agent_bs_id ai
                \<and> \<not> orthogonal (capabilities p) (capabilities ai)) (pending_agents r) then (False, r)
      else (True, r\<lparr>pending_agents := set_insert ai (pending_agents r)\<rparr>))"

definition remove_pending_agent :: "int \<Rightarrow> rib \<Rightarrow> rib" where
  "remove_pending_agent i r =
     (case List.find (\<lambda>a. i = agent_id a) (pending_agents r) of
        None \<Rightarrow> r
      | Some a \<Rightarrow> r\<lparr>pending_agents := remove1 a (pending_agents r)\<rparr>)"

text \<open>The \<open>while\<close> loop of \<open>remove_pending_agents\<close>: one search and one erasure per turn.\<close>

function erase_all :: "('a \<Rightarrow> bool) \<Rightarrow> 'a list \<Rightarrow> 'a list" where
  "erase_all P xs = (case List.find P xs of None \<Rightarrow> xs | Some x \<Rightarrow> erase_all P (remove1 x xs))"
  by pat_completeness auto

lemma length_remove1_find: "List.find P xs = Some x \<Longrightarrow> length (remove1 x xs) < length xs"
  by (auto simp: find_Some_iff length_remove1 intro!: diff_less)

termination erase_all
  by (relation "measure (\<lambda>(_, xs). length xs)") (auto simp: length_remove1_find)

declare erase_all.simps [simp del]

definition remove_pending_agents :: "u64 \<Rightarrow> rib \<Rightarrow> rib" where
  "remove_pending_agents bs_id r =
     r\<lparr>pending_agents := erase_all (\<lambda>a. bs_id = agent_bs_id a) (pending_agents r)\<rparr>"

section \<open>Base stations\<close>

definition merge_step :: "agent_info \<Rightarrow> agent_capabilities \<Rightarrow> agent_capabilities result" where
  "merge_step a caps =
     (if orthogonal caps (capabilities a) then Inr (merge_in caps (capabilities a))
      else Inl (Runtime_error ''overlapping capabilities detected''))"

definition create_bs :: "nat \<Rightarrow> agent_info list \<Rightarrow> rib \<Rightarrow> (bool \<times> rib) result" where
  "create_bs now agents r =
     (let bs_id = agent_bs_id (hd agents) in
      rbind (make_enb bs_id agents now) (\<lambda>e.
        Inr (True, r\<lparr>eNB_configs := sm_emplace bs_id e (eNB_configs r),
                     pending_agents := fold remove1 agents (pending_agents r),
                     agent_configs := fold (\<lambda>a. sm_emplace (agent_id a) a) agents (agent_configs r)\<rparr>)))"

definition new_eNB_config_entry :: "nat \<Rightarrow> u64 \<Rightarrow> rib \<Rightarrow> (bool \<times> rib) result" where
  "new_eNB_config_entry now bs_id r =
     (if get_bs bs_id r \<noteq> None then Inr (False, r)
      else let agents = filter (\<lambda>a. bs_id = agent_bs_id a) (pending_agents r) in
        if length agents = 1 \<and> is_complete (capabilities (hd agents)) then create_bs now agents r
        else if length agents > 1 then
          rbind (foldR merge_step (tl agents) (capabilities (hd agents))) (\<lambda>caps.
            if is_complete caps then create_bs now agents r else Inr (False, r))
        else Inr (False, r))"

definition remove_eNB_config_entry :: "int \<Rightarrow> rib \<Rightarrow> (bool \<times> rib) result" where
  "remove_eNB_config_entry i r =
     (case sm_find i (agent_configs r) of
        None \<Rightarrow> Inr (False, r)
      | Some disconnected \<Rightarrow>
          (case sm_find (agent_bs_id disconnected) (eNB_configs r) of
             None \<Rightarrow> Inl (Undefined_behaviour ''eNB_configs_.end() dereferenced'')
           | Some e \<Rightarrow>
               Inr (True, r\<lparr>eNB_configs := sm_erase (agent_bs_id disconnected) (eNB_configs r),
                 agent_configs := fold (\<lambda>b. sm_erase (agent_id b)) (enb_agents e) (agent_configs r),
                 pending_agents := fold set_insert (remove1 disconnected (enb_agents e)) (pending_agents r)\<rparr>)))"

section \<open>Identifiers given by a client of the REST interface\<close>

definition AGENT_ID_LENGTH_LIMIT :: nat where "AGENT_ID_LENGTH_LIMIT = 4"

definition last_bs_id :: "rib \<Rightarrow> u64" where
  "last_bs_id r = (if eNB_configs r = [] then 0 else last (sm_keys (eNB_configs r)))"

definition parse_number :: "string \<Rightarrow> u64 result" where
  "parse_number s = rbind (if take 2 s = ''0x'' then stoll 16 s else stoll 10 s) (\<lambda>v. Inr (word_of_int v))"

definition parse_bs_id :: "string \<Rightarrow> rib \<Rightarrow> u64 result" where
  "parse_bs_id s r =
     (if s = ''-1'' then Inr (last_bs_id r)
      else case parse_number s of
        Inl (Invalid_argument _) \<Rightarrow> Inr 0
      | Inl e \<Rightarrow> Inl e
      | Inr v \<Rightarrow> Inr (if get_bs v r = None then 0 else v))"

definition parse_enb_agent_id :: "string \<Rightarrow> rib \<Rightarrow> u64 result" where
  "parse_enb_agent_id s r =
     (if s = ''-1'' then Inr (last_bs_id r)
      else case parse_number s of
        Inl (Invalid_argument _) \<Rightarrow> Inr 0
      | Inl e \<Rightarrow> Inl e
      | Inr v \<Rightarrow>
          Inr (if length s < AGENT_ID_LENGTH_LIMIT then get_bs_id (sint (ucast v :: u32)) r
               else if get_bs v r = None then 0 else v))"

section \<open>Dumps\<close>

definition json_array :: "string list \<Rightarrow> string" where
  "json_array xs = ''['' @ comma_separated (map (\<lambda>x. ''{'' @ x @ ''}'') xs) @ '']''"

definition format_mac_stats_to_json :: "string list \<Rightarrow> string" where
  "format_mac_stats_to_json = json_array"

definition format_enb_configurations_to_json :: "string list \<Rightarrow> string" where
  "format_enb_configurations_to_json = json_array"

definition dump_all_mac_stats_to_string :: "protobuf \<Rightarrow> rib \<Rightarrow> string" where
  "dump_all_mac_stats_to_string pb r =
     concat (map (\<lambda>(_, e). enb_dump_mac_stats_to_string pb e @ [CHR 0x0A]) (eNB_configs r))"

definition dump_all_mac_stats_to_json :: "protobuf \<Rightarrow> rib \<Rightarrow> string" where
  "dump_all_mac_stats_to_json pb r =
     format_mac_stats_to_json (map (\<lambda>(_, e). enb_dump_mac_stats_to_json pb e) (eNB_configs r))"

definition dump_mac_stats_by_bs_id :: "protobuf \<Rightarrow> u64 \<Rightarrow> rib \<Rightarrow> string option" where
  "dump_mac_stats_by_bs_id pb bs_id r = (case sm_find bs_id (eNB_configs r) of None \<Rightarrow> None
     | Some e \<Rightarrow> Some (format_mac_stats_to_json [enb_dump_mac_stats_to_json pb e]))"

definition dump_all_enb_configurations_to_string :: "protobuf \<Rightarrow> rib \<Rightarrow> string" where
  "dump_all_enb_configurations_to_string pb r =
     concat (map (\<lambda>(_, e). enb_dump_configs_to_string pb e @ [CHR 0x0A]) (eNB_configs r))"

definition dump_all_enb_configurations_to_json :: "protobuf \<Rightarrow> rib \<Rightarrow> string" where
  "dump_all_enb_configurations_to_json pb r =
     format_enb_configurations_to_json (map (\<lambda>(_, e). enb_dump_configs_to_json pb e) (eNB_configs r))"

definition dump_enb_configurations_by_bs_id :: "protobuf \<Rightarrow> u64 \<Rightarrow> rib \<Rightarrow> string option" where
  "dump_enb_configurations_by_bs_id pb bs_id r = (case sm_find bs_id (eNB_configs r) of None \<Rightarrow> None
     | Some e \<Rightarrow> Some (format_enb_configurations_to_json [enb_dump_configs_to_json pb e]))"

definition format_statistics_to_json :: "string \<Rightarrow> string \<Rightarrow> string \<Rightarrow> string" where
  "format_statistics_to_json date_time configurations mac_stats_s =
     ''{'' @ quoted ''date_time'' @ '':'' @ quoted date_time @ '',''
     @ (if configurations \<noteq> [] then quoted ''eNB_config'' @ '':'' @ configurations else '''')
     @ (if configurations \<noteq> [] \<and> mac_stats_s \<noteq> [] then '','' else '''')
     @ (if mac_stats_s \<noteq> [] then quoted ''mac_stats'' @ '':'' @ mac_stats_s else '''') @ ''}''"

definition dump_ue_by_rnti_by_bs_id :: "protobuf \<Rightarrow> u32 \<Rightarrow> u64 \<Rightarrow> rib \<Rightarrow> string option" where
  "dump_ue_by_rnti_by_bs_id pb rnti bs_id r = (case sm_find bs_id (eNB_configs r) of None \<Rightarrow> None
     | Some e \<Rightarrow> dump_ue_spec_stats_by_rnti pb rnti e)"

section \<open>Invariant\<close>

definition full_caps :: "flex_bs_capability set" where
  "full_caps = {LOPHY, HIPHY, LOMAC, HIMAC, RLC, PDCP, SDAP, RRC}"

definition caps_of :: "agent_info list \<Rightarrow> flex_bs_capability set" where
  "caps_of as = (\<Union>a \<in> set as. set (capabilities a))"

definition agent_ok :: "agent_info \<Rightarrow> bool" where
  "agent_ok a \<longleftrightarrow> agent_bs_id a \<noteq> 0 \<and> capabilities a \<noteq> [] \<and> caps_ok (capabilities a)"

text \<open>Different agents of one base station have no layer in common.\<close>

definition disjoint_agents :: "agent_info list \<Rightarrow> bool" where
  "disjoint_agents as \<longleftrightarrow> distinct as \<and> (\<forall>a \<in> set as. agent_ok a) \<and>
     (\<forall>a \<in> set as. \<forall>b \<in> set as. a \<noteq> b \<longrightarrow> agent_bs_id a = agent_bs_id b \<longrightarrow>
        orthogonal (capabilities a) (capabilities b))"

definition bs_ok :: "u64 \<Rightarrow> enb_rib_info \<Rightarrow> bool" where
  "bs_ok k e \<longleftrightarrow> enb_bs_id e = k \<and> k \<noteq> 0 \<and> enb_inv e \<and> disjoint_agents (enb_agents e)
     \<and> (\<forall>a \<in> set (enb_agents e). agent_bs_id a = k) \<and> full_caps \<subseteq> caps_of (enb_agents e)"

definition rib_inv :: "rib \<Rightarrow> bool" where
  "rib_inv r \<longleftrightarrow> sm_inv (eNB_configs r) \<and> sm_inv (agent_configs r)
     \<and> (\<forall>k e. get_bs k r = Some e \<longrightarrow> bs_ok k e)
     \<and> (\<forall>i a. get_agent i r = Some a \<longrightarrow> agent_id a = i
          \<and> (\<exists>e. get_bs (agent_bs_id a) r = Some e \<and> a \<in> set (enb_agents e)))
     \<and> disjoint_agents (pending_agents r)
     \<and> (\<forall>a \<in> set (pending_agents r). get_bs (agent_bs_id a) r = None)"

text \<open>Each connection is known at most once, and known exactly where it should be.\<close>

definition rib_unique :: "rib \<Rightarrow> bool" where
  "rib_unique r \<longleftrightarrow> distinct (map agent_id (pending_agents r))
     \<and> (\<forall>a \<in> set (pending_agents r). get_agent (agent_id a) r = None)
     \<and> (\<forall>k e. get_bs k r = Some e \<longrightarrow> (\<forall>a \<in> set (enb_agents e). get_agent (agent_id a) r = Some a))"

lemma rib_invD:
  assumes "rib_inv r"
  shows "sm_inv (eNB_configs r)" "sm_inv (agent_configs r)"
    "get_bs k r = Some e \<Longrightarrow> bs_ok k e"
    "get_agent i r = Some a \<Longrightarrow> agent_id a = i"
    "get_agent i r = Some a \<Longrightarrow> \<exists>e. get_bs (agent_bs_id a) r = Some e \<and> a \<in> set (enb_agents e)"
    "disjoint_agents (pending_agents r)"
    "a \<in> set (pending_agents r) \<Longrightarrow> get_bs (agent_bs_id a) r = None"
  using assms unfolding rib_inv_def by blast+

lemma bs_ok_agent: "bs_ok k e \<Longrightarrow> a \<in> set (enb_agents e) \<Longrightarrow> agent_bs_id a = k"
  by (simp add: bs_ok_def)

lemma rib_uniqueD:
  assumes "rib_unique r"
  shows "inj_on agent_id (set (pending_agents r))"
    "a \<in> set (pending_agents r) \<Longrightarrow> get_agent (agent_id a) r = None"
    "get_bs k r = Some e \<Longrightarrow> a \<in> set (enb_agents e) \<Longrightarrow> get_agent (agent_id a) r = Some a"
  using assms by (auto simp: rib_unique_def distinct_map)

lemma empty_rib_inv: "rib_inv empty_rib" "rib_unique empty_rib"
  by (simp_all add: rib_inv_def rib_unique_def empty_rib_def get_bs_def get_agent_def disjoint_agents_def)

lemma disjoint_agents_filter: "disjoint_agents as \<Longrightarrow> disjoint_agents (filter P as)"
  by (auto simp: disjoint_agents_def)

lemma disjoint_agents_remove1: "disjoint_agents as \<Longrightarrow> disjoint_agents (remove1 a as)"
  unfolding disjoint_agents_def using distinct_remove1 notin_set_remove1 by metis

lemma find_NoneD: "List.find P xs = None \<Longrightarrow> x \<in> set xs \<Longrightarrow> \<not> P x"
  by (auto simp: find_None_iff)

lemma find_SomeD: "List.find P xs = Some x \<Longrightarrow> x \<in> set xs \<and> P x"
  by (auto simp: find_Some_iff)

lemma agent_is_pending_iff: "agent_is_pending i r \<longleftrightarrow> i \<in> agent_id ` set (pending_agents r)"
  by (auto simp: agent_is_pending_def find_None_iff)

lemma erase_all_filter: "distinct xs \<Longrightarrow> erase_all P xs = filter (\<lambda>x. \<not> P x) xs"
proof (induction P xs rule: erase_all.induct)
  case (1 P xs)
  show ?case
  proof (cases "List.find P xs")
    case None
    then have "filter (\<lambda>x. \<not> P x) xs = xs" by (auto simp: find_None_iff intro!: filter_True)
    then show ?thesis using None by (subst erase_all.simps) simp
  next
    case (Some x)
    then have "P x" by (auto simp: find_Some_iff)
    have "erase_all P xs = filter (\<lambda>x. \<not> P x) (remove1 x xs)"
      using 1(1) [OF Some] 1(2) Some by (subst erase_all.simps) simp
    also have "\<dots> = filter (\<lambda>x. \<not> P x) xs"
      using \<open>P x\<close> by (induction xs) auto
    finally show ?thesis .
  qed
qed

section \<open>Pending agents\<close>

lemma add_pending_agent_True:
  "add_pending_agent ai r = (True, r') \<Longrightarrow>
     r' = r\<lparr>pending_agents := set_insert ai (pending_agents r)\<rparr> \<and> agent_bs_id ai \<noteq> 0 \<and> capabilities ai \<noteq> []
     \<and> agent_id ai \<notin> agent_id ` set (pending_agents r)
     \<and> (\<forall>p \<in> set (pending_agents r). agent_bs_id p = agent_bs_id ai \<longrightarrow> orthogonal (capabilities p) (capabilities ai))"
  by (auto simp: add_pending_agent_def agent_is_pending_iff list_ex_iff split: if_splits)

lemma add_pending_agent_False: "add_pending_agent ai r = (False, r') \<Longrightarrow> r' = r"
  by (auto simp: add_pending_agent_def split: if_splits)

lemma pending_simps [simp]:
  "get_bs k (r\<lparr>pending_agents := ps\<rparr>) = get_bs k r" "get_agent i (r\<lparr>pending_agents := ps\<rparr>) = get_agent i r"
  by (simp_all add: get_bs_def get_agent_def)

lemma add_pending_agent_inv:
  assumes "rib_inv r" "caps_ok (capabilities ai)" "get_bs (agent_bs_id ai) r = None" "add_pending_agent ai r = (ok, r')"
  shows "rib_inv r'"
proof (cases ok)
  case True
  then have a: "add_pending_agent ai r = (True, r')" using assms(4) by simp
  note a = add_pending_agent_True [OF a]
  have "disjoint_agents (set_insert ai (pending_agents r))"
    using a assms(1,2) orthogonal_sym unfolding rib_inv_def disjoint_agents_def
    by (auto simp: agent_ok_def distinct_set_insert)
  then show ?thesis using a assms(1,3) by (simp add: rib_inv_def)
qed (use assms add_pending_agent_False in auto)

lemma add_pending_agent_unique:
  assumes "rib_unique r" "get_agent (agent_id ai) r = None" "add_pending_agent ai r = (ok, r')"
  shows "rib_unique r'"
proof (cases ok)
  case True
  then have a: "add_pending_agent ai r = (True, r')" using assms(3) by simp
  note a = add_pending_agent_True [OF a]
  then have "set_insert ai (pending_agents r) = pending_agents r @ [ai]"
    by (auto simp: set_insert_def)
  then show ?thesis using a assms(1,2) by (auto simp: rib_unique_def)
qed (use assms add_pending_agent_False in auto)

lemma remove_pending_inv:
  assumes "rib_inv r" "disjoint_agents ps" "set ps \<subseteq> set (pending_agents r)"
  shows "rib_inv (r\<lparr>pending_agents := ps\<rparr>)"
  using assms by (auto simp: rib_inv_def)

lemma remove_pending_agent_eq:
  "remove_pending_agent i r = r\<lparr>pending_agents := pending_agents (remove_pending_agent i r)\<rparr>"
  "\<exists>a. pending_agents (remove_pending_agent i r) = remove1 a (pending_agents r)
     \<or> pending_agents (remove_pending_agent i r) = pending_agents r"
  by (auto simp: remove_pending_agent_def split: option.splits)

lemma remove_pending_agent_inv: "rib_inv r \<Longrightarrow> rib_inv (remove_pending_agent i r)"
  using remove_pending_agent_eq [of i r] remove_pending_inv [of r "pending_agents (remove_pending_agent i r)"]
    disjoint_agents_remove1 rib_invD(6) set_remove1_subset by (metis order_refl)

lemma remove_pending_agents_inv: "rib_inv r \<Longrightarrow> rib_inv (remove_pending_agents b r)"
  using rib_invD(6) [of r] unfolding remove_pending_agents_def
  by (intro remove_pending_inv)
    (auto simp: erase_all_filter disjoint_agents_def intro: disjoint_agents_filter)

section \<open>Creation of a base station\<close>

lemma merge_all:
  assumes "caps_ok caps" "disjoint_agents as" "\<And>a. a \<in> set as \<Longrightarrow> agent_bs_id a = b"
    "\<And>a. a \<in> set as \<Longrightarrow> set caps \<inter> set (capabilities a) = {}"
  shows "\<exists>c. foldR merge_step as caps = Inr c \<and> caps_ok c \<and> set c = set caps \<union> caps_of as"
  using assms
proof (induction as arbitrary: caps)
  case Nil
  then show ?case by (simp add: caps_of_def)
next
  case (Cons a as)
  have ok: "caps_ok (capabilities a)" using Cons.prems(2) by (simp add: disjoint_agents_def agent_ok_def)
  have step: "merge_step a caps = Inr (merge_in caps (capabilities a))"
    using Cons.prems(4) [of a] orthogonal_iff [OF Cons.prems(1)] by (simp add: merge_step_def)
  have other: "set (capabilities a) \<inter> set (capabilities x) = {}" if "x \<in> set as" for x
  proof -
    have "a \<noteq> x" "agent_bs_id a = agent_bs_id x" using Cons.prems(2,3) that by (auto simp: disjoint_agents_def)
    then have "orthogonal (capabilities a) (capabilities x)"
      using Cons.prems(2) that by (simp add: disjoint_agents_def)
    then show ?thesis using orthogonal_iff [OF ok] by simp
  qed
  have "disjoint_agents as" using Cons.prems(2) by (simp add: disjoint_agents_def)
  moreover have "set (merge_in caps (capabilities a)) \<inter> set (capabilities x) = {}" if "x \<in> set as" for x
    using other [OF that] Cons.prems(4) [of x] that by (auto simp: set_merge_in [OF Cons.prems(1) ok])
  ultimately obtain c where "foldR merge_step as (merge_in caps (capabilities a)) = Inr c" "caps_ok c"
    "set c = set (merge_in caps (capabilities a)) \<union> caps_of as"
    using Cons.IH [of "merge_in caps (capabilities a)"] merge_in_ok Cons.prems(3) by auto
  then show ?case using step by (auto simp: set_merge_in [OF Cons.prems(1) ok] caps_of_def)
qed

lemma caps_ok_hd:
  "disjoint_agents as \<Longrightarrow> a \<in> set as \<Longrightarrow> caps_ok (capabilities a) \<and> agent_bs_id a \<noteq> 0 \<and> capabilities a \<noteq> []"
  by (simp add: disjoint_agents_def agent_ok_def)

text \<open>What \<open>create_bs\<close> leaves behind.\<close>

definition created :: "nat \<Rightarrow> u64 \<Rightarrow> rib \<Rightarrow> rib" where
  "created now b r =
     (let agents = filter (\<lambda>a. b = agent_bs_id a) (pending_agents r) in
      r\<lparr>eNB_configs := sm_emplace b (new_enb b agents now) (eNB_configs r),
        pending_agents := filter (\<lambda>a. b \<noteq> agent_bs_id a) (pending_agents r),
        agent_configs := fold (\<lambda>a. sm_emplace (agent_id a) a) agents (agent_configs r)\<rparr>)"

lemma fold_remove1_filter:
  "distinct xs \<Longrightarrow> fold remove1 (filter P xs) xs = filter (\<lambda>x. \<not> P x) xs"
proof -
  have gen: "fold remove1 zs xs = filter (\<lambda>x. x \<notin> set zs) xs" if "distinct xs" for zs xs :: "'a list"
    using that by (induction zs arbitrary: xs) (auto simp: distinct_remove1_removeAll removeAll_filter_not_eq intro: filter_cong)
  then show "distinct xs \<Longrightarrow> fold remove1 (filter P xs) xs = filter (\<lambda>x. \<not> P x) xs"
    by (auto intro!: filter_cong)
qed

lemma create_bs_created:
  assumes "rib_inv r" "filter (\<lambda>a. b = agent_bs_id a) (pending_agents r) \<noteq> []"
  shows "create_bs now (filter (\<lambda>a. b = agent_bs_id a) (pending_agents r)) r = Inr (True, created now b r)"
proof -
  let ?as = "filter (\<lambda>a. b = agent_bs_id a) (pending_agents r)"
  have hd: "agent_bs_id (hd ?as) = b" using hd_in_set [OF assms(2)] by simp
  have "List.find (\<lambda>a. agent_bs_id a \<noteq> b) ?as = None" by (auto simp: find_None_iff)
  moreover have "fold remove1 ?as (pending_agents r) = filter (\<lambda>a. b \<noteq> agent_bs_id a) (pending_agents r)"
    using rib_invD(6) [OF assms(1)] by (intro fold_remove1_filter) (simp add: disjoint_agents_def)
  ultimately show ?thesis by (simp add: create_bs_def Let_def hd make_enb_def created_def)
qed

text \<open>The outcome in terms of the layers covered: the two branches of the code are one condition.\<close>

lemma new_entry_eq:
  assumes "rib_inv r"
  shows "new_eNB_config_entry now b r =
     (if get_bs b r = None \<and> full_caps \<subseteq> caps_of (filter (\<lambda>a. b = agent_bs_id a) (pending_agents r))
      then Inr (True, created now b r) else Inr (False, r))"
proof (cases "get_bs b r")
  case (Some e)
  then show ?thesis by (simp add: new_eNB_config_entry_def)
next
  case None
  define as where "as = filter (\<lambda>a. b = agent_bs_id a) (pending_agents r)"
  have d: "disjoint_agents as" using rib_invD(6) [OF assms] by (simp add: as_def disjoint_agents_filter)
  have new: "new_eNB_config_entry now b r =
      (if length as = 1 \<and> is_complete (capabilities (hd as)) then create_bs now as r
        else if length as > 1 then
          rbind (foldR merge_step (tl as) (capabilities (hd as))) (\<lambda>caps.
            if is_complete caps then create_bs now as r else Inr (False, r))
        else Inr (False, r))"
    using None by (simp only: new_eNB_config_entry_def as_def Let_def) simp
  show ?thesis
  proof (cases as)
    case Nil
    then show ?thesis using None by (simp add: new as_def [symmetric] caps_of_def full_caps_def)
  next
    case (Cons a bs)
    have mk: "create_bs now as r = Inr (True, created now b r)"
      using create_bs_created [OF assms, of b now] Cons by (simp add: as_def)
    have d': "disjoint_agents bs" "a \<notin> set bs" using d Cons by (auto simp: disjoint_agents_def)
    have bsid: "agent_bs_id x = b" if "x \<in> set as" for x using that by (simp add: as_def)
    have disj: "set (capabilities a) \<inter> set (capabilities x) = {}" if "x \<in> set bs" for x
    proof -
      have "a \<noteq> x" "x \<in> set as" "a \<in> set as" using that d'(2) Cons by auto
      then have "orthogonal (capabilities a) (capabilities x)"
        using d bsid unfolding disjoint_agents_def by metis
      then show ?thesis using orthogonal_iff caps_ok_hd [OF d \<open>a \<in> set as\<close>] by simp
    qed
    obtain c where c: "foldR merge_step bs (capabilities a) = Inr c" "set c = set (capabilities a) \<union> caps_of bs"
      using merge_all [OF _ d'(1) bsid disj] caps_ok_hd [OF d, of a] Cons by (metis list.set_intros(1,2))
    have all: "caps_of as = set (capabilities a) \<union> caps_of bs" by (simp add: Cons caps_of_def)
    show ?thesis
    proof (cases bs)
      case Nil
      then show ?thesis using None mk Cons all
        by (simp add: new as_def [symmetric] is_complete_iff full_caps_def caps_of_def)
    next
      case (Cons _ _)
      then show ?thesis using None mk \<open>as = a # bs\<close> all c
        by (simp add: new as_def [symmetric] is_complete_iff full_caps_def)
    qed
  qed
qed

lemma get_bs_created:
  "get_bs k (created now b r) =
     (if k = b \<and> get_bs b r = None
      then Some (new_enb b (filter (\<lambda>a. b = agent_bs_id a) (pending_agents r)) now) else get_bs k r)"
  by (simp add: created_def get_bs_def Let_def)

lemma get_agent_created:
  "get_agent i (created now b r) = (case get_agent i r of Some a \<Rightarrow> Some a
     | None \<Rightarrow> List.find (\<lambda>a. agent_id a = i) (filter (\<lambda>a. b = agent_bs_id a) (pending_agents r)))"
  by (simp add: created_def get_agent_def Let_def sm.find_emplace_all)

lemma pending_created: "pending_agents (created now b r) = filter (\<lambda>a. b \<noteq> agent_bs_id a) (pending_agents r)"
  by (simp add: created_def Let_def)

lemma created_inv:
  assumes "rib_inv r" "get_bs b r = None" "full_caps \<subseteq> caps_of (filter (\<lambda>a. b = agent_bs_id a) (pending_agents r))"
  shows "rib_inv (created now b r)"
proof -
  let ?as = "filter (\<lambda>a. b = agent_bs_id a) (pending_agents r)"
  note I = rib_invD [OF assms(1)]
  have d: "disjoint_agents ?as" using I(6) by (rule disjoint_agents_filter)
  have "\<exists>a. a \<in> set ?as" using assms(3) by (force simp: caps_of_def full_caps_def)
  then have "b \<noteq> 0" using caps_ok_hd [OF d] by auto
  then have new: "bs_ok b (new_enb b ?as now)"
    using new_enb_inv d assms(3) by (simp add: bs_ok_def new_enb_def)
  show ?thesis
    unfolding rib_inv_def
  proof (intro conjI allI impI ballI)
    show "sm_inv (eNB_configs (created now b r))" "sm_inv (agent_configs (created now b r))"
      using I(1,2) by (auto simp: created_def Let_def intro: sm.inv_emplace_all)
    show "bs_ok k e" if "get_bs k (created now b r) = Some e" for k e
      using that new I(3) [of k e] by (auto simp: get_bs_created split: if_splits)
    fix i a
    assume a: "get_agent i (created now b r) = Some a"
    show "agent_id a = i"
      using a I(4) [of i] by (auto simp: get_agent_created find_Some_iff split: option.splits)
    show "\<exists>e. get_bs (agent_bs_id a) (created now b r) = Some e \<and> a \<in> set (enb_agents e)"
    proof (cases "get_agent i r")
      case None
      then have "a \<in> set ?as" using a by (auto simp: get_agent_created find_Some_iff in_set_conv_nth simp del: set_filter)
      then show ?thesis using assms(2) by (auto simp: get_bs_created new_enb_def)
    next
      case (Some a')
      then obtain e where "get_bs (agent_bs_id a) r = Some e" "a \<in> set (enb_agents e)"
        using I(5) [OF Some] a by (auto simp: get_agent_created)
      then show ?thesis using assms(2) by (auto simp: get_bs_created)
    qed
  next
    show "disjoint_agents (pending_agents (created now b r))"
      unfolding pending_created using I(6) by (rule disjoint_agents_filter)
    show "get_bs (agent_bs_id a) (created now b r) = None" if "a \<in> set (pending_agents (created now b r))" for a
      using that I(7) [of a] by (auto simp: pending_created get_bs_created)
  qed
qed

lemma created_unique:
  assumes "rib_inv r" "rib_unique r"
  shows "rib_unique (created now b r)"
proof -
  let ?as = "filter (\<lambda>a. b = agent_bs_id a) (pending_agents r)"
  have dis: "distinct (map agent_id (pending_agents r))" using assms(2) by (simp add: rib_unique_def)
  have find: "List.find (\<lambda>a. agent_id a = agent_id x) ?as = (if b = agent_bs_id x then Some x else None)"
    if "x \<in> set (pending_agents r)" for x
  proof (cases "b = agent_bs_id x")
    case True
    have "List.find (\<lambda>a. agent_id a = agent_id x) ?as \<noteq> None" using that True by (auto simp: find_None_iff)
    then obtain y where y: "List.find (\<lambda>a. agent_id a = agent_id x) ?as = Some y" by blast
    have "y = x" using find_SomeD [OF y] dis that by (auto dest: inj_onD simp: distinct_map)
    with y True show ?thesis by simp
  next
    case False
    have "\<not> (\<exists>y \<in> set ?as. agent_id y = agent_id x)"
      using dis that False by (auto dest: inj_onD simp: distinct_map)
    then have "List.find (\<lambda>a. agent_id a = agent_id x) ?as = None" unfolding find_None_iff by blast
    then show ?thesis using False by simp
  qed
  have pend: "get_agent (agent_id x) r = None" if "x \<in> set (pending_agents r)" for x
    using that assms(2) by (simp add: rib_unique_def)
  show ?thesis
    unfolding rib_unique_def
  proof (intro conjI ballI allI impI)
    show "distinct (map agent_id (pending_agents (created now b r)))"
      using dis by (simp add: pending_created distinct_map_filter)
    show "get_agent (agent_id a) (created now b r) = None" if "a \<in> set (pending_agents (created now b r))" for a
      using that find [of a] pend [of a] by (simp add: pending_created get_agent_created)
    show "get_agent (agent_id a) (created now b r) = Some a"
      if "get_bs k (created now b r) = Some e" "a \<in> set (enb_agents e)" for k e a
    proof (cases "k = b \<and> get_bs b r = None")
      case True
      then have "a \<in> set ?as" using that by (auto simp: get_bs_created new_enb_def)
      then show ?thesis using find [of a] pend [of a] by (simp add: get_agent_created)
    next
      case False
      then have "get_bs k r = Some e" using that(1) by (auto simp: get_bs_created split: if_splits)
      then have "get_agent (agent_id a) r = Some a" using assms(2) that(2) unfolding rib_unique_def by blast
      then show ?thesis by (simp add: get_agent_created)
    qed
  qed
qed

section \<open>Removal of a base station\<close>

definition removed :: "agent_info \<Rightarrow> enb_rib_info \<Rightarrow> rib \<Rightarrow> rib" where
  "removed d e r =
     r\<lparr>eNB_configs := sm_erase (agent_bs_id d) (eNB_configs r),
       agent_configs := fold (\<lambda>b. sm_erase (agent_id b)) (enb_agents e) (agent_configs r),
       pending_agents := fold set_insert (remove1 d (enb_agents e)) (pending_agents r)\<rparr>"

lemma remove_entry_eq:
  assumes "rib_inv r"
  shows "remove_eNB_config_entry i r = (case get_agent i r of None \<Rightarrow> Inr (False, r)
     | Some d \<Rightarrow> Inr (True, removed d (the (get_bs (agent_bs_id d) r)) r))"
proof (cases "get_agent i r")
  case None
  then show ?thesis by (simp add: remove_eNB_config_entry_def get_agent_def)
next
  case (Some d)
  obtain e where "get_bs (agent_bs_id d) r = Some e" using rib_invD(5) [OF assms Some] by blast
  then show ?thesis using Some by (simp add: remove_eNB_config_entry_def get_agent_def get_bs_def removed_def)
qed

lemma fold_erase_map: "fold (\<lambda>b. sm_erase (f b)) xs m = fold sm_erase (map f xs) m"
  by (induction xs arbitrary: m) simp_all

lemma get_bs_removed: "get_bs k (removed d e r) = (if k = agent_bs_id d then None else get_bs k r)"
  by (simp add: removed_def get_bs_def)

lemma get_agent_removed:
  "get_agent i (removed d e r) = (if i \<in> agent_id ` set (enb_agents e) then None else get_agent i r)"
  by (simp add: removed_def get_agent_def fold_erase_map [of agent_id] sm.find_erase_all)

lemma pending_removed:
  "pending_agents (removed d e r) = fold set_insert (remove1 d (enb_agents e)) (pending_agents r)"
  by (simp add: removed_def)

lemma removed_pending:
  assumes "rib_inv r" "get_bs (agent_bs_id d) r = Some e"
  shows "disjoint_agents (pending_agents (removed d e r))"
proof -
  note I = rib_invD [OF assms(1)]
  have bs: "bs_ok (agent_bs_id d) e" using I(3) [OF assms(2)] .
  have peers: "a \<in> set (enb_agents e)" if "a \<in> set (remove1 d (enb_agents e))" for a
    using that notin_set_remove1 by metis
  have old: "agent_bs_id a \<noteq> agent_bs_id d" if "a \<in> set (pending_agents r)" for a
    using I(7) [OF that] assms(2) by auto
  show ?thesis
    unfolding disjoint_agents_def pending_removed set_fold_insert
  proof (intro conjI ballI impI)
    show "distinct (fold set_insert (remove1 d (enb_agents e)) (pending_agents r))"
      using I(6) by (intro distinct_fold_insert) (simp add: disjoint_agents_def)
    show "agent_ok a" if "a \<in> set (remove1 d (enb_agents e)) \<union> set (pending_agents r)" for a
      using that peers [of a] bs I(6) by (auto simp: bs_ok_def disjoint_agents_def)
    show "orthogonal (capabilities a) (capabilities b)"
      if ab: "a \<in> set (remove1 d (enb_agents e)) \<union> set (pending_agents r)"
        "b \<in> set (remove1 d (enb_agents e)) \<union> set (pending_agents r)" "a \<noteq> b" "agent_bs_id a = agent_bs_id b" for a b
    proof -
      have mem: "x \<in> set (enb_agents e) \<or> x \<in> set (pending_agents r)"
        if "x \<in> set (remove1 d (enb_agents e)) \<union> set (pending_agents r)" for x
        using that peers by blast
      have bsid: "agent_bs_id x = agent_bs_id d" if "x \<in> set (enb_agents e)" for x
        using bs that unfolding bs_ok_def by blast
      consider "a \<in> set (enb_agents e)" "b \<in> set (enb_agents e)" | "a \<in> set (pending_agents r)" "b \<in> set (pending_agents r)"
        using mem [OF ab(1)] mem [OF ab(2)] ab(4) old [of a] old [of b] bsid [of a] bsid [of b] by argo
      then show ?thesis
      proof cases
        case 1
        then show ?thesis using bs ab(3,4) unfolding bs_ok_def disjoint_agents_def by blast
      next
        case 2
        then show ?thesis using I(6) ab(3,4) unfolding disjoint_agents_def by blast
      qed
    qed
  qed
qed

lemma removed_inv:
  assumes "rib_inv r" "get_agent i r = Some d" "get_bs (agent_bs_id d) r = Some e"
  shows "rib_inv (removed d e r)"
proof -
  note I = rib_invD [OF assms(1)]
  have bs: "bs_ok (agent_bs_id d) e" using I(3) [OF assms(3)] .
  have peers: "a \<in> set (enb_agents e)" if "a \<in> set (remove1 d (enb_agents e))" for a
    using that notin_set_remove1 by metis
  show ?thesis
    unfolding rib_inv_def
  proof (intro conjI allI impI ballI)
    show "sm_inv (eNB_configs (removed d e r))" "sm_inv (agent_configs (removed d e r))"
      using I(1,2) by (auto simp: removed_def fold_erase_map [of agent_id] intro: sm.inv_erase_all)
    show "bs_ok k e'" if "get_bs k (removed d e r) = Some e'" for k e'
      using that I(3) [of k e'] by (auto simp: get_bs_removed split: if_splits)
    fix j a
    assume "get_agent j (removed d e r) = Some a"
    then have a: "get_agent j r = Some a" "j \<notin> agent_id ` set (enb_agents e)"
      by (auto simp: get_agent_removed split: if_splits)
    show "agent_id a = j" using I(4) [OF a(1)] .
    obtain e' where e': "get_bs (agent_bs_id a) r = Some e'" "a \<in> set (enb_agents e')" using I(5) [OF a(1)] by blast
    then have "agent_bs_id a \<noteq> agent_bs_id d" using a(2) I(4) [OF a(1)] assms(3) by auto
    then show "\<exists>e'. get_bs (agent_bs_id a) (removed d e r) = Some e' \<and> a \<in> set (enb_agents e')"
      using e' by (simp add: get_bs_removed)
  next
    show "disjoint_agents (pending_agents (removed d e r))" by (rule removed_pending [OF assms(1,3)])
    show "get_bs (agent_bs_id a) (removed d e r) = None" if m: "a \<in> set (pending_agents (removed d e r))" for a
    proof -
      consider "a \<in> set (enb_agents e)" | "a \<in> set (pending_agents r)"
        using m peers by (auto simp: pending_removed set_fold_insert)
      then show ?thesis
      proof cases
        case 1
        then have "agent_bs_id a = agent_bs_id d" using bs unfolding bs_ok_def by blast
        then show ?thesis by (simp add: get_bs_removed)
      qed (use I(7) in \<open>simp add: get_bs_removed\<close>)
    qed
  qed
qed

lemma removed_unique:
  assumes "rib_inv r" "rib_unique r" "get_agent i r = Some d" "get_bs (agent_bs_id d) r = Some e"
  shows "rib_unique (removed d e r)"
proof -
  note I = rib_invD [OF assms(1)]
  note U = rib_uniqueD [OF assms(2)]
  have bs: "bs_ok (agent_bs_id d) e" using I(3) [OF assms(4)] .
  have peers: "a \<in> set (enb_agents e)" if "a \<in> set (remove1 d (enb_agents e))" for a
    using that notin_set_remove1 by metis
  have mine: "get_agent (agent_id a) r = Some a" if "a \<in> set (enb_agents e)" for a
    using U(3) [OF assms(4) that] .
  have inj: "inj_on agent_id (set (enb_agents e) \<union> set (pending_agents r))"
  proof (rule inj_onI)
    fix a b
    assume ab: "a \<in> set (enb_agents e) \<union> set (pending_agents r)" "b \<in> set (enb_agents e) \<union> set (pending_agents r)"
      "agent_id a = agent_id b"
    show "a = b" using ab U(1) U(2) mine by (metis Un_iff inj_onD option.distinct(1) option.inject)
  qed
  show ?thesis
    unfolding rib_unique_def
  proof (intro conjI ballI allI impI)
    have "distinct (pending_agents (removed d e r))"
      using I(6) unfolding pending_removed by (intro distinct_fold_insert) (simp add: disjoint_agents_def)
    moreover have "set (pending_agents (removed d e r)) \<subseteq> set (enb_agents e) \<union> set (pending_agents r)"
      using peers by (auto simp: pending_removed set_fold_insert)
    ultimately show "distinct (map agent_id (pending_agents (removed d e r)))"
      using inj inj_on_subset by (auto simp: distinct_map)
    show "get_agent (agent_id a) (removed d e r) = None" if "a \<in> set (pending_agents (removed d e r))" for a
      using that peers [of a] U(2) [of a] by (auto simp: pending_removed set_fold_insert get_agent_removed)
    show "get_agent (agent_id a) (removed d e r) = Some a"
      if "get_bs k (removed d e r) = Some e'" "a \<in> set (enb_agents e')" for k e' a
    proof -
      have k: "get_bs k r = Some e'" "k \<noteq> agent_bs_id d" using that(1) by (auto simp: get_bs_removed split: if_splits)
      have a: "get_agent (agent_id a) r = Some a" using U(3) [OF k(1) that(2)] .
      have "agent_bs_id a = k" using I(3) [OF k(1)] that(2) by (simp add: bs_ok_def)
      then have "a \<notin> set (enb_agents e)" using k(2) bs unfolding bs_ok_def by blast
      then have "agent_id a \<notin> agent_id ` set (enb_agents e)" using mine a by force
      then show ?thesis using a by (simp add: get_agent_removed)
    qed
  qed
qed

section \<open>The information base as a transition system\<close>

text \<open>\<open>Change b m\<close> is an update of base station \<open>b\<close> through the pointer that \<open>get_bs\<close> returned.\<close>

datatype rib_op =
    Add_pending agent_info
  | New_entry u64
  | Remove_entry int
  | Remove_pending int
  | Remove_pendings u64
  | Change u64 enb_update

definition change_bs :: "protobuf \<Rightarrow> nat \<Rightarrow> u64 \<Rightarrow> enb_update \<Rightarrow> rib \<Rightarrow> rib result" where
  "change_bs pb now b m r = (case get_bs b r of None \<Rightarrow> Inr r
     | Some e \<Rightarrow> rbind (enb_step pb now m e) (\<lambda>e'. Inr (set_bs b e' r)))"

fun rib_step :: "protobuf \<Rightarrow> nat \<Rightarrow> rib_op \<Rightarrow> rib \<Rightarrow> rib result" where
  "rib_step pb now (Add_pending a) r = Inr (snd (add_pending_agent a r))"
| "rib_step pb now (New_entry b) r = rbind (new_eNB_config_entry now b r) (\<lambda>(_, r'). Inr r')"
| "rib_step pb now (Remove_entry i) r = rbind (remove_eNB_config_entry i r) (\<lambda>(_, r'). Inr r')"
| "rib_step pb now (Remove_pending i) r = Inr (remove_pending_agent i r)"
| "rib_step pb now (Remove_pendings b) r = Inr (remove_pending_agents b r)"
| "rib_step pb now (Change b m) r = change_bs pb now b m r"

text \<open>The caller of \<open>add_pending_agent\<close> checks that the base station does not exist.\<close>

fun rib_enabled :: "rib_op \<Rightarrow> rib \<Rightarrow> bool" where
  "rib_enabled (Add_pending a) r \<longleftrightarrow> caps_ok (capabilities a) \<and> get_bs (agent_bs_id a) r = None"
| "rib_enabled (Change b m) r \<longleftrightarrow> (\<forall>e. get_bs b r = Some e \<longrightarrow> enb_update_ok m e)"
| "rib_enabled _ r \<longleftrightarrow> True"

definition same_bs :: "enb_rib_info \<Rightarrow> enb_rib_info \<Rightarrow> bool" where
  "same_bs e e' \<longleftrightarrow> enb_agents e' = enb_agents e \<and> enb_bs_id e' = enb_bs_id e"

lemma same_bs_trans: "same_bs e1 e2 \<Longrightarrow> same_bs e2 e3 \<Longrightarrow> same_bs e1 e3"
  by (simp add: same_bs_def)

lemma same_bs_mac: "update_ue_mac r f e = Inr e' \<Longrightarrow> same_bs e e'"
  using update_ue_mac_frame by (auto simp: same_bs_def)

lemma same_bs_foldR:
  assumes "foldR f xs s = Inr t" "\<And>x s s'. f x s = Inr s' \<Longrightarrow> same_bs s s'"
  shows "same_bs s t"
  using assms(1)
  by (rule foldR_invariant [where I = "same_bs s"]) (auto dest: assms(2) intro: same_bs_trans simp: same_bs_def)

lemma enb_step_same:
  assumes "enb_step pb now m e = Inr e'"
  shows "same_bs e e'"
proof (cases m)
  case (Upd_sf tr)
  then show ?thesis using assms
    by (auto simp: update_subframe_def Let_def rbind_Inr_eq update_liveness_def same_bs_def
        dest!: same_bs_foldR [OF _ same_bs_mac])
next
  case (Upd_stats st)
  then obtain e1 where e1: "foldR (\<lambda>r. update_ue_mac (get_or 0 (r_rnti r)) (\<lambda>u. Inr (update_mac_stats_report r u))) (ue_report st) e = Inr e1"
    "foldR (\<lambda>(i, r) e. if i < MAX_NUM_CC
            then Inr (e\<lparr>cell_mac_info := (cell_mac_info e)(i := update_cell_stats_report r (cell_mac_info e i))\<rparr>)
            else Inl out_of_bounds) (enumerate 0 (cell_report st)) e1 = Inr e'"
    using assms by (auto simp: update_mac_stats_def rbind_Inr_eq)
  have "same_bs e1 e'"
    by (intro same_bs_foldR [OF e1(2)]) (auto simp: same_bs_def split: if_splits)
  moreover have "same_bs e e1" by (rule same_bs_foldR [OF e1(1)]) (auto dest: same_bs_mac)
  ultimately show ?thesis using same_bs_trans by blast
next
  case (Upd_ue_state sc)
  then show ?thesis using assms by (auto simp: update_UE_state_def Let_def same_bs_def split: option.splits)
qed (use assms in \<open>auto simp: same_bs_def update_eNB_config_def update_UE_config_def update_LC_config_def
    update_liveness_def Let_def\<close>)

lemmas enb_step_frame = enb_step_same [unfolded same_bs_def, THEN conjunct1]
  enb_step_same [unfolded same_bs_def, THEN conjunct2]

lemma set_bs_simps [simp]:
  "get_bs k (set_bs b e r) = (if k = b then Some e else get_bs k r)" "get_agent i (set_bs b e r) = get_agent i r"
  "pending_agents (set_bs b e r) = pending_agents r" "agent_configs (set_bs b e r) = agent_configs r"
  by (simp_all add: set_bs_def get_bs_def get_agent_def)

lemma set_bs_inv:
  assumes "rib_inv r" "get_bs b r = Some e" "enb_inv e'" "enb_agents e' = enb_agents e" "enb_bs_id e' = enb_bs_id e"
  shows "rib_inv (set_bs b e' r)" "rib_unique r \<Longrightarrow> rib_unique (set_bs b e' r)"
proof -
  note I = rib_invD [OF assms(1)]
  have ok: "bs_ok b e'" using I(3) [OF assms(2)] assms(3-5) by (simp add: bs_ok_def)
  have sm: "sm_inv (eNB_configs (set_bs b e' r))" using I(1) by (auto simp: set_bs_def)
  show "rib_inv (set_bs b e' r)"
    unfolding rib_inv_def
  proof (intro conjI allI impI ballI)
    show "\<exists>e. get_bs (agent_bs_id a) (set_bs b e' r) = Some e \<and> a \<in> set (enb_agents e)"
      if a: "get_agent i (set_bs b e' r) = Some a" for i a
    proof -
      have "get_agent i r = Some a" using a by simp
      then show ?thesis using I(5) assms(2,4) by fastforce
    qed
  qed (use sm I assms(2) ok in \<open>auto split: if_splits\<close>)
  show "rib_unique (set_bs b e' r)" if u: "rib_unique r"
    using rib_uniqueD [OF u] u assms(2,4) unfolding rib_unique_def by auto
qed

lemma change_bs_inv:
  assumes "merge_ue_ok pb" "rib_inv r" "change_bs pb now b m r = Inr r'"
  shows "rib_inv r'" "rib_unique r \<Longrightarrow> rib_unique r'"
proof -
  have "rib_inv r' \<and> (rib_unique r \<longrightarrow> rib_unique r')"
  proof (cases "get_bs b r")
    case None
    then show ?thesis using assms(2,3) by (simp add: change_bs_def)
  next
    case (Some e)
    then obtain e' where e': "enb_step pb now m e = Inr e'" "r' = set_bs b e' r"
      using assms(3) by (auto simp: change_bs_def rbind_Inr_eq)
    have "enb_inv e" using rib_invD(3) [OF assms(2) Some] by (simp add: bs_ok_def)
    then have "enb_inv e'" using enb_step_inv [OF assms(1) _ e'(1)] by simp
    then show ?thesis using set_bs_inv [OF assms(2) Some] enb_step_frame [OF e'(1)] e'(2) by simp
  qed
  then show "rib_inv r'" "rib_unique r \<Longrightarrow> rib_unique r'" by simp_all
qed

lemma new_entry_inv:
  assumes "rib_inv r" "new_eNB_config_entry now b r = Inr (ok, r')"
  shows "rib_inv r'" "rib_unique r \<Longrightarrow> rib_unique r'"
  using assms(2) created_inv [OF assms(1)] created_unique [OF assms(1)] assms(1)
  by (auto simp: new_entry_eq [OF assms(1)] split: if_splits)

lemma remove_entry_inv:
  assumes "rib_inv r" "remove_eNB_config_entry i r = Inr (ok, r')"
  shows "rib_inv r'" "rib_unique r \<Longrightarrow> rib_unique r'"
proof -
  have "rib_inv r' \<and> (rib_unique r \<longrightarrow> rib_unique r')"
  proof (cases "get_agent i r")
    case (Some d)
    obtain e where e: "get_bs (agent_bs_id d) r = Some e" using rib_invD(5) [OF assms(1) Some] by blast
    then have "r' = removed d e r" using assms(2) Some by (simp add: remove_entry_eq [OF assms(1)])
    then show ?thesis using removed_inv [OF assms(1) Some e] removed_unique [OF assms(1) _ Some e] by simp
  qed (use assms in \<open>simp add: remove_entry_eq\<close>)
  then show "rib_inv r'" "rib_unique r \<Longrightarrow> rib_unique r'" by simp_all
qed

lemma rib_step_inv:
  assumes "merge_ue_ok pb" "rib_inv r" "rib_enabled op r" "rib_step pb now op r = Inr r'"
  shows "rib_inv r'"
proof (cases op)
  case (Add_pending a)
  then show ?thesis using add_pending_agent_inv [OF assms(2), of a] assms(3,4)
    by (cases "add_pending_agent a r") auto
next
  case (New_entry b)
  then show ?thesis using new_entry_inv(1) [OF assms(2)] assms(4) by (auto simp: rbind_Inr_eq)
next
  case (Remove_entry i)
  then show ?thesis using remove_entry_inv(1) [OF assms(2)] assms(4) by (auto simp: rbind_Inr_eq)
next
  case (Change b m)
  then show ?thesis using change_bs_inv(1) [OF assms(1,2)] assms(4) by simp
qed (use assms(2,4) remove_pending_agent_inv remove_pending_agents_inv in auto)

lemma change_bs_ok: "(\<And>e. get_bs b r = Some e \<Longrightarrow> enb_update_ok m e) \<Longrightarrow> is_ok (change_bs pb now b m r)"
  by (auto simp: change_bs_def intro!: is_ok_rbindI enb_step_ok split: option.splits)

lemma rib_step_ok: "rib_inv r \<Longrightarrow> rib_enabled op r \<Longrightarrow> is_ok (rib_step pb now op r)"
  by (cases op) (auto simp: new_entry_eq remove_entry_eq intro: change_bs_ok split: option.splits)

interpretation rib: safe_system "rib_step pb now" "\<lambda>r. merge_ue_ok pb \<and> rib_inv r" rib_enabled
  for pb now
  by unfold_locales (auto intro: rib_step_inv rib_step_ok)

section \<open>Properties\<close>

text \<open>A base station in two parts, for the examples.\<close>

definition lower_agent :: agent_info where
  "lower_agent = make_agent_info 1 7 [LOPHY, HIPHY, LOMAC, HIMAC] [] ''a''"

definition upper_agent :: agent_info where
  "upper_agent = make_agent_info 2 7 [RLC, PDCP, SDAP, RRC] [] ''b''"

definition full_agent :: "int \<Rightarrow> u64 \<Rightarrow> agent_info" where
  "full_agent i b = make_agent_info i b [LOPHY, HIPHY, LOMAC, HIMAC, RLC, PDCP, SDAP, RRC] [] ''c''"

definition two_pending :: rib where
  "two_pending = empty_rib\<lparr>pending_agents := [lower_agent, upper_agent]\<rparr>"

definition bs_online :: rib where
  "bs_online = created 0 7 two_pending"

lemmas example_defs = lower_agent_def upper_agent_def full_agent_def make_agent_info_def two_pending_def empty_rib_def

lemma example_caps:
  "caps_ok (capabilities lower_agent)" "caps_ok (capabilities upper_agent)" "caps_ok (capabilities (full_agent i b))"
  "orthogonal (capabilities lower_agent) (capabilities upper_agent)"
  "orthogonal (capabilities upper_agent) (capabilities lower_agent)"
  by (simp_all add: example_defs caps_ok_def cap_ok_def less_flex_bs_capability_def orthogonal_def to_u32_def)

lemma example_agents [simp]:
  "agent_bs_id lower_agent = 7" "agent_bs_id upper_agent = 7" "agent_id lower_agent = 1" "agent_id upper_agent = 2"
  "agent_bs_id (full_agent i b) = b" "agent_id (full_agent i b) = i"
  "capabilities lower_agent = [LOPHY, HIPHY, LOMAC, HIMAC]" "capabilities upper_agent = [RLC, PDCP, SDAP, RRC]"
  "set (capabilities (full_agent i b)) = full_caps"
  by (simp_all add: example_defs full_caps_def)

lemma two_pending_inv: "rib_inv two_pending" "rib_unique two_pending" "get_bs k two_pending = None" "get_agent i two_pending = None"
proof -
  have ne: "lower_agent \<noteq> upper_agent" by (simp add: example_defs)
  show "rib_inv two_pending"
    using ne example_caps by (simp add: rib_inv_def two_pending_def empty_rib_def get_bs_def get_agent_def
        disjoint_agents_def agent_ok_def)
qed (simp_all add: rib_unique_def two_pending_def empty_rib_def get_bs_def get_agent_def)

lemma two_pending_full: "full_caps \<subseteq> caps_of (filter (\<lambda>a. 7 = agent_bs_id a) (pending_agents two_pending))"
  by (simp add: two_pending_def full_caps_def caps_of_def)

lemma bs_online_inv: "rib_inv bs_online" "rib_unique bs_online"
  unfolding bs_online_def using created_inv [OF two_pending_inv(1,3) two_pending_full]
    created_unique [OF two_pending_inv(1,2)] by simp_all

lemma bs_online_state:
  "get_agent i bs_online = (if i = 1 then Some lower_agent else if i = 2 then Some upper_agent else None)"
  "get_bs k bs_online = (if k = 7 then Some (new_enb 7 [lower_agent, upper_agent] 0) else None)"
  "pending_agents bs_online = []"
  using two_pending_inv(3,4)
  by (auto simp: bs_online_def get_agent_created get_bs_created pending_created two_pending_def)



text \<open>C9. A base station comes into being exactly when the layers of its pending agents, taken
  together, are the eight layers from the low PHY to RRC; the overlap test never fails, and the
  result holds precisely those agents while all other agents and base stations stay.\<close>

theorem base_station_created_iff_complete:
  assumes "rib_inv r" "get_bs b r = None"
  defines "agents \<equiv> filter (\<lambda>a. b = agent_bs_id a) (pending_agents r)"
  shows "\<exists>ok r'. new_eNB_config_entry now b r = Inr (ok, r')
     \<and> (ok \<longleftrightarrow> {LOPHY, HIPHY, LOMAC, HIMAC, RLC, PDCP, SDAP, RRC} \<subseteq> (\<Union>a \<in> set agents. set (capabilities a)))
     \<and> (ok \<longrightarrow> get_bs b r' = Some (new_enb b agents now) \<and> (\<forall>k. k \<noteq> b \<longrightarrow> get_bs k r' = get_bs k r)
          \<and> pending_agents r' = filter (\<lambda>a. agent_bs_id a \<noteq> b) (pending_agents r))
     \<and> (\<not> ok \<longrightarrow> r' = r)"
proof -
  let ?full = "full_caps \<subseteq> caps_of agents"
  have eq: "new_eNB_config_entry now b r = (if ?full then Inr (True, created now b r) else Inr (False, r))"
    using assms(2) by (simp only: new_entry_eq [OF assms(1)] agents_def simp_thms)
  have full: "?full = ({LOPHY, HIPHY, LOMAC, HIMAC, RLC, PDCP, SDAP, RRC} \<subseteq> (\<Union>a \<in> set agents. set (capabilities a)))"
    by (simp only: full_caps_def caps_of_def)
  have st: "get_bs b (created now b r) = Some (new_enb b agents now)"
    "\<forall>k. k \<noteq> b \<longrightarrow> get_bs k (created now b r) = get_bs k r"
    "pending_agents (created now b r) = filter (\<lambda>a. agent_bs_id a \<noteq> b) (pending_agents r)"
    using assms(2) by (auto simp: get_bs_created pending_created agents_def intro: filter_cong)
  show ?thesis
    unfolding full [symmetric]
    by (rule exI [of _ ?full], rule exI [of _ "if ?full then created now b r else r"]) (use st in \<open>simp add: eq\<close>)
qed

theorem base_station_created_iff_complete_witness:
  "\<exists>r'. new_eNB_config_entry 0 7 two_pending = Inr (True, r')
     \<and> get_bs 7 r' = Some (new_enb 7 [lower_agent, upper_agent] 0) \<and> pending_agents r' = []"
  using base_station_created_iff_complete [OF two_pending_inv(1,3), of 0 7]
  by (auto simp: two_pending_def)



text \<open>C12. A reconnection restores the base station: when an agent of a base station disconnects
  and a new connection announces the same base station and layers, it is accepted and the base
  station is created again, from the remaining agents and the new one.\<close>

theorem reconnect_restores:
  assumes "rib_inv r" "get_agent i r = Some d" "remove_eNB_config_entry i r = Inr (True, r1)"
    and "agent_bs_id a = agent_bs_id d" "capabilities a = capabilities d"
    and "\<not> agent_is_pending (agent_id a) r1" "a \<notin> set (pending_agents r1)"
  shows "\<exists>e r2 r3 ags. get_bs (agent_bs_id d) r = Some e
     \<and> add_pending_agent a r1 = (True, r2) \<and> new_eNB_config_entry now (agent_bs_id d) r2 = Inr (True, r3)
     \<and> get_bs (agent_bs_id d) r3 = Some (new_enb (agent_bs_id d) ags now)
     \<and> set ags = insert a (set (enb_agents e) - {d})"
proof -
  let ?b = "agent_bs_id d"
  obtain e where e: "get_bs ?b r = Some e" "d \<in> set (enb_agents e)"
    using rib_invD(5) [OF assms(1,2)] by blast
  have r1: "r1 = removed d e r"
    using assms(3) e(1) by (simp add: remove_entry_eq [OF assms(1)] assms(2))
  have bs: "bs_ok ?b e" using rib_invD(3) [OF assms(1) e(1)] .
  then have dis: "disjoint_agents (enb_agents e)" by (simp add: bs_ok_def)
  have ok: "agent_ok d" using dis e(2) by (simp add: disjoint_agents_def)
  have pend: "set (pending_agents r1) = set (pending_agents r) \<union> (set (enb_agents e) - {d})"
    using dis by (auto simp: r1 pending_removed set_fold_insert disjoint_agents_def)
  have old: "agent_bs_id p \<noteq> ?b" if "p \<in> set (pending_agents r)" for p
    using rib_invD(7) [OF assms(1) that] e(1) by auto
  have orth: "orthogonal (capabilities p) (capabilities a)" if "p \<in> set (pending_agents r1)" "agent_bs_id p = ?b" for p
  proof -
    have "p \<in> set (enb_agents e)" "p \<noteq> d" using that pend old by auto
    then show ?thesis using dis e(2) that(2) assms(5) unfolding disjoint_agents_def by metis
  qed
  define r2 where "r2 = r1\<lparr>pending_agents := pending_agents r1 @ [a]\<rparr>"
  have add: "add_pending_agent a r1 = (True, r2)"
    using ok assms(4-7) orth by (auto simp: add_pending_agent_def agent_ok_def list_ex_iff r2_def set_insert_def)
  have none: "get_bs ?b r2 = None" by (simp add: r2_def r1 get_bs_removed)
  have inv1: "rib_inv r1" unfolding r1 by (rule removed_inv [OF assms(1,2) e(1)])
  have inv2: "rib_inv r2"
    by (rule add_pending_agent_inv [OF inv1 _ _ add]) (use ok assms(4,5) none in \<open>auto simp: agent_ok_def r2_def\<close>)
  define ags where "ags = filter (\<lambda>x. ?b = agent_bs_id x) (pending_agents r2)"
  have "set ags = {x \<in> set (pending_agents r) \<union> (set (enb_agents e) - {d}). ?b = agent_bs_id x} \<union> {a}"
    using assms(4) pend by (auto simp: ags_def r2_def)
  also have "\<dots> = insert a (set (enb_agents e) - {d})"
  proof -
    have "x \<notin> set (pending_agents r)" if "?b = agent_bs_id x" for x using old [of x] that by auto
    moreover have "?b = agent_bs_id x" if "x \<in> set (enb_agents e)" for x using bs_ok_agent [OF bs that] by simp
    ultimately show ?thesis by blast
  qed
  finally have ags: "set ags = insert a (set (enb_agents e) - {d})" .
  have "caps_of ags = caps_of (enb_agents e)"
    using e(2) assms(5) by (auto simp: caps_of_def ags)
  then have full: "full_caps \<subseteq> caps_of ags" using bs by (simp add: bs_ok_def)
  have "new_eNB_config_entry now ?b r2 = Inr (True, created now ?b r2)"
    using none full by (simp add: new_entry_eq [OF inv2] ags_def)
  moreover have "get_bs ?b (created now ?b r2) = Some (new_enb ?b ags now)"
    using none by (simp add: get_bs_created ags_def)
  ultimately show ?thesis using e(1) add ags by blast
qed

theorem reconnect_restores_witness:
  "\<exists>r1 r2 r3. remove_eNB_config_entry 1 bs_online = Inr (True, r1)
     \<and> add_pending_agent (lower_agent\<lparr>agent_id := 3\<rparr>) r1 = (True, r2)
     \<and> new_eNB_config_entry 5 7 r2 = Inr (True, r3) \<and> has_eNB_config_entry 7 r3"
proof -
  let ?r1 = "removed lower_agent (new_enb 7 [lower_agent, upper_agent] 0) bs_online"
  let ?a = "lower_agent\<lparr>agent_id := 3\<rparr>"
  have rem: "remove_eNB_config_entry 1 bs_online = Inr (True, ?r1)"
    by (simp add: remove_entry_eq [OF bs_online_inv(1)] bs_online_state)
  have "upper_agent \<noteq> ?a" by (simp add: example_defs)
  then have pend: "\<not> agent_is_pending 3 ?r1" "?a \<notin> set (pending_agents ?r1)"
    by (auto simp: agent_is_pending_iff pending_removed set_fold_insert bs_online_state new_enb_def)
  show ?thesis
    using reconnect_restores [OF bs_online_inv(1) _ rem, of lower_agent ?a 5] rem pend
    by (auto simp: bs_online_state has_eNB_config_entry_def)
qed

text \<open>A connection that is already part of a base station and announces a second one is not
  refused. When it closes, the second base station stays behind, and no disconnection of any
  other connection can remove it.\<close>

theorem second_hello_leaves_zombie:
  assumes "rib_inv r" "get_agent i r = Some d" "agent_id a = i" "caps_ok (capabilities a)"
    and "full_caps \<subseteq> set (capabilities a)" "agent_bs_id a \<noteq> 0" "get_bs (agent_bs_id a) r = None"
    and "\<not> agent_is_pending i r" "\<forall>p \<in> set (pending_agents r). agent_bs_id p \<noteq> agent_bs_id a"
  shows "\<exists>r1 r2 r3. add_pending_agent a r = (True, r1)
     \<and> new_eNB_config_entry now (agent_bs_id a) r1 = Inr (True, r2)
     \<and> remove_eNB_config_entry i r2 = Inr (True, r3)
     \<and> has_eNB_config_entry (agent_bs_id a) r3
     \<and> (\<forall>j x. get_agent j r3 = Some x \<longrightarrow> agent_bs_id x \<noteq> agent_bs_id a)"
proof -
  let ?b = "agent_bs_id a"
  define r1 where "r1 = r\<lparr>pending_agents := set_insert a (pending_agents r)\<rparr>"
  have ne: "capabilities a \<noteq> []" using assms(5) by (auto simp: full_caps_def)
  have add: "add_pending_agent a r = (True, r1)"
    using assms(3,6,8,9) ne by (auto simp: add_pending_agent_def r1_def list_ex_iff)
  have inv1: "rib_inv r1" by (rule add_pending_agent_inv [OF assms(1,4,7) add])
  have none: "get_bs ?b r1 = None" using assms(7) by (simp add: r1_def)
  have "filter (\<lambda>x. ?b = agent_bs_id x) (pending_agents r) = []"
    using assms(9) by (auto simp: filter_empty_conv)
  moreover have "a \<notin> set (pending_agents r)" using assms(9) by blast
  ultimately have ags: "filter (\<lambda>x. ?b = agent_bs_id x) (pending_agents r1) = [a]"
    by (simp add: r1_def set_insert_def)
  have full: "full_caps \<subseteq> caps_of [a]" using assms(5) by (simp add: caps_of_def)
  define r2 where "r2 = created now ?b r1"
  have new: "new_eNB_config_entry now ?b r1 = Inr (True, r2)"
    using none full by (simp add: new_entry_eq [OF inv1] ags r2_def)
  have inv2: "rib_inv r2" using new_entry_inv(1) [OF inv1 new] .
  have d: "get_agent i r2 = Some d" using assms(2) by (simp add: r2_def get_agent_created r1_def)
  obtain e where e: "get_bs (agent_bs_id d) r = Some e" using rib_invD(5) [OF assms(1,2)] by blast
  then have ne_b: "agent_bs_id d \<noteq> ?b" using assms(7) by auto
  then have e2: "get_bs (agent_bs_id d) r2 = Some e" using e by (simp add: r2_def get_bs_created r1_def)
  define r3 where "r3 = removed d e r2"
  have rem: "remove_eNB_config_entry i r2 = Inr (True, r3)"
    using d e2 by (simp add: remove_entry_eq [OF inv2] r3_def)
  have bs3: "get_bs ?b r3 = Some (new_enb ?b [a] now)"
    using ne_b none ags by (simp add: r3_def get_bs_removed r2_def get_bs_created)
  have inv3: "rib_inv r3" unfolding r3_def by (rule removed_inv [OF inv2 d e2])
  have "d \<in> set (enb_agents e)" using rib_invD(5) [OF assms(1,2)] e by auto
  then have gone: "get_agent i r3 = None"
    using rib_invD(4) [OF assms(1,2)] by (auto simp: r3_def get_agent_removed)
  have "agent_bs_id x \<noteq> ?b" if x: "get_agent j r3 = Some x" for j x
  proof
    assume "agent_bs_id x = ?b"
    then have "x = a" using rib_invD(5) [OF inv3 x] bs3 by (auto simp: new_enb_def)
    then have "j = i" using rib_invD(4) [OF inv3 x] assms(3) by simp
    then show False using x gone by simp
  qed
  then show ?thesis using add new rem bs3 unfolding has_eNB_config_entry_def by blast
qed

theorem second_hello_leaves_zombie_witness:
  "\<exists>r1 r2 r3. add_pending_agent (full_agent 1 9) bs_online = (True, r1)
     \<and> new_eNB_config_entry 0 9 r1 = Inr (True, r2) \<and> remove_eNB_config_entry 1 r2 = Inr (True, r3)
     \<and> has_eNB_config_entry 9 r3 \<and> (\<forall>j x. get_agent j r3 = Some x \<longrightarrow> agent_bs_id x \<noteq> 9)"
  using second_hello_leaves_zombie [OF bs_online_inv(1), of 1 lower_agent "full_agent 1 9" 0] example_caps(3)
  by (simp add: bs_online_state agent_is_pending_iff)

text \<open>Identifiers in requests: the decimal form of a base station's id is parsed back to it (0,
  which no base station has, when there is none), \<open>-1\<close> stands for the greatest id, and the
  decimal form of an id of 64 bits with the top bit set makes \<open>std::stoll\<close> throw
  \<open>std::out_of_range\<close>, which is not caught.\<close>

theorem parse_bs_id_correct:
  assumes "rib_inv r"
  shows "parse_bs_id (nat_to_string n) r =
       (if n < 2 ^ 63 then Inr (if has_eNB_config_entry (of_nat n) r then of_nat n else 0)
        else Inl (Out_of_range ''stoll''))
     \<and> (\<exists>b. parse_bs_id ''-1'' r = Inr b
          \<and> (if eNB_configs r = [] then b = 0
             else has_eNB_config_entry b r \<and> (\<forall>k. has_eNB_config_entry k r \<longrightarrow> k \<le> b)))"
proof
  show "parse_bs_id (nat_to_string n) r =
      (if n < 2 ^ 63 then Inr (if has_eNB_config_entry (of_nat n) r then of_nat n else 0)
       else Inl (Out_of_range ''stoll''))"
    using nat_to_string_plain [of n]
    by (simp add: parse_bs_id_def parse_number_def stoll_nat_to_string has_eNB_config_entry_def)
  have "has_eNB_config_entry b r \<and> (\<forall>k. has_eNB_config_entry k r \<longrightarrow> k \<le> b)"
    if "eNB_configs r \<noteq> []" "b = last (sm_keys (eNB_configs r))" for b
    using that sm.find_last_key [of "eNB_configs r"] sm.last_key_greatest [OF rib_invD(1) [OF assms]]
    by (auto simp: has_eNB_config_entry_def get_bs_def sm_keys_def)
  then show "\<exists>b. parse_bs_id ''-1'' r = Inr b
      \<and> (if eNB_configs r = [] then b = 0
         else has_eNB_config_entry b r \<and> (\<forall>k. has_eNB_config_entry k r \<longrightarrow> k \<le> b))"
    by (simp add: parse_bs_id_def last_bs_id_def)
qed

theorem parse_bs_id_correct_witness:
  "parse_bs_id (nat_to_string 7) bs_online = Inr 7 \<and> parse_bs_id (nat_to_string (2 ^ 63)) bs_online = Inl (Out_of_range ''stoll'')"
  using parse_bs_id_correct [OF bs_online_inv(1), of 7] parse_bs_id_correct [OF bs_online_inv(1), of "2 ^ 63"]
  by (simp add: has_eNB_config_entry_def bs_online_state)

end
