(* ===== verification/Requests_Manager.thy ===== *)
theory Requests_Manager
  imports Rib
begin

text \<open>
  \<open>core/requests_manager.cc\<close>: sending a message to a base station means sending it to each of its
  agents. What is handed to the network interface is a list of pairs (connection, message), in
  order. The locale \<open>messenger\<close> is what the senders rest on.
\<close>

type_synonym outbox = "(int \<times> flexran_message) list"

definition send_message :: "u64 \<Rightarrow> flexran_message \<Rightarrow> rib \<Rightarrow> outbox \<Rightarrow> outbox" where
  "send_message bs_id msg r out = (case get_bs bs_id r of
     None \<Rightarrow> out
   | Some bs \<Rightarrow> out @ map (\<lambda>a. (agent_id a, msg)) (enb_agents bs))"

section \<open>Interface\<close>

text \<open>
  Sending to a destination appends one copy of the message for each of its connections, in a
  fixed order, and nothing else.
\<close>

locale messenger =
  fixes send :: "'b \<Rightarrow> 'm \<Rightarrow> 's \<Rightarrow> ('i \<times> 'm) list \<Rightarrow> ('i \<times> 'm) list"
    and members :: "'b \<Rightarrow> 's \<Rightarrow> 'i list"
  assumes send_appends: "send b m s out = out @ map (\<lambda>i. (i, m)) (members b s)"
begin

lemma send_all: "fold (\<lambda>m. send b m s) ms out = out @ concat (map (\<lambda>m. map (\<lambda>i. (i, m)) (members b s)) ms)"
  by (induction ms arbitrary: out) (simp_all add: send_appends)

lemma send_only: "(i, m) \<in> set (fold (\<lambda>m. send b m s) ms []) \<longleftrightarrow> i \<in> set (members b s) \<and> m \<in> set ms"
  by (auto simp: send_all)

lemma send_seen_by:
  assumes "distinct (members b s)"
  shows "map snd (filter (\<lambda>p. fst p = i) (fold (\<lambda>m. send b m s) ms [])) = (if i \<in> set (members b s) then ms else [])"
proof -
  have one: "map snd (filter (\<lambda>p. fst p = i) (map (\<lambda>j. (j, m)) js)) = (if i \<in> set js then [m] else [])"
    if "distinct js" for m :: 'm and js
    using that by (induction js) auto
  have "map snd (filter (\<lambda>p. fst p = i) (concat (map (\<lambda>m. map (\<lambda>j. (j, m)) (members b s)) ms)))
      = (if i \<in> set (members b s) then ms else [])"
    by (induction ms) (auto simp: one [OF assms])
  then show ?thesis by (simp add: send_all)
qed

end

definition bs_members :: "u64 \<Rightarrow> rib \<Rightarrow> int list" where
  "bs_members bs_id r = (case get_bs bs_id r of None \<Rightarrow> [] | Some bs \<Rightarrow> map agent_id (enb_agents bs))"

interpretation mes: messenger send_message bs_members
  by unfold_locales (simp add: send_message_def bs_members_def split: option.splits)

text \<open>As long as no connection announces itself twice, a base station has each connection once.\<close>

lemma bs_members_distinct:
  assumes "rib_inv r" "rib_unique r"
  shows "distinct (bs_members b r)"
proof (cases "get_bs b r")
  case (Some e)
  have "inj_on agent_id (set (enb_agents e))"
  proof (rule inj_onI)
    fix x y
    assume xy: "x \<in> set (enb_agents e)" "y \<in> set (enb_agents e)" "agent_id x = agent_id y"
    show "x = y"
      using rib_uniqueD(3) [OF assms(2) Some xy(1)] rib_uniqueD(3) [OF assms(2) Some xy(2)] xy(3) by (metis option.inject)
  qed
  moreover have "distinct (enb_agents e)"
    using rib_invD(3) [OF assms(1) Some] by (simp add: bs_ok_def disjoint_agents_def)
  ultimately show ?thesis by (simp add: bs_members_def Some distinct_map)
qed (simp add: bs_members_def)

end
