(* ===== verification/Tagged_Message.thy ===== *)
theory Tagged_Message
  imports Prelude
begin

text \<open>
  The byte buffers of \<open>network/tagged_message.{h,cc}\<close> that travel between the network thread
  and the task thread: contents, size and the session (agent) they belong to. Up to 2048
  bytes are stored in the object, more in a block from the heap.
\<close>

datatype contents_loc = P_msg | Msg_block bytes

record tagged_message =
  tm_size :: u64
  tm_tag :: int
  p_msg :: bytes
  msg_contents :: contents_loc
  tm_dynamic_alloc :: bool

definition max_normal_msg_size :: nat where "max_normal_msg_size = 2048"

definition contents_mem :: "tagged_message \<Rightarrow> bytes" where
  "contents_mem m = (case msg_contents m of P_msg \<Rightarrow> p_msg m | Msg_block b \<Rightarrow> b)"

text \<open>\<open>getSize()\<close> returns an \<open>int\<close>.\<close>

definition getSize :: "tagged_message \<Rightarrow> int" where
  "getSize m = sint (ucast (tm_size m) :: 32 word)"

definition write_contents :: "bytes \<Rightarrow> tagged_message \<Rightarrow> tagged_message result" where
  "write_contents bs m = rbind (poke 0 bs (contents_mem m)) (\<lambda>mem.
     Inr (case msg_contents m of P_msg \<Rightarrow> m\<lparr>p_msg := mem\<rparr>
          | Msg_block _ \<Rightarrow> m\<lparr>msg_contents := Msg_block mem\<rparr>))"

definition read_contents :: "tagged_message \<Rightarrow> bytes result" where
  "read_contents m = peek 0 (unat (tm_size m)) (contents_mem m)"

text \<open>The constructor that reserves \<open>size\<close> bytes (filled later through \<open>getMessageArray\<close>).\<close>

definition tm_reserve :: "(nat \<Rightarrow> u8) \<Rightarrow> nat \<Rightarrow> u64 \<Rightarrow> int \<Rightarrow> tagged_message result" where
  "tm_reserve fresh avail sz tag =
     (let m = \<lparr>tm_size = sz, tm_tag = tag, p_msg = map fresh [0..<max_normal_msg_size],
               msg_contents = P_msg, tm_dynamic_alloc = False\<rparr> in
      if sz > of_nat max_normal_msg_size
      then rbind (new_array fresh avail (unat sz)) (\<lambda>b.
             Inr (m\<lparr>msg_contents := Msg_block b, tm_dynamic_alloc := True\<rparr>))
      else Inr m)"

text \<open>The constructor from a buffer copies the \<open>size\<close> first bytes of \<open>msg\<close>.\<close>

definition tm_make :: "(nat \<Rightarrow> u8) \<Rightarrow> nat \<Rightarrow> bytes \<Rightarrow> u64 \<Rightarrow> int \<Rightarrow> tagged_message result" where
  "tm_make fresh avail msg sz tag =
     (let m = \<lparr>tm_size = sz, tm_tag = tag, p_msg = map fresh [0..<max_normal_msg_size],
               msg_contents = P_msg, tm_dynamic_alloc = False\<rparr> in
      rbind (if sz \<le> of_nat max_normal_msg_size then Inr m
             else rbind (new_array fresh avail (unat sz)) (\<lambda>b.
               Inr (m\<lparr>msg_contents := Msg_block b, tm_dynamic_alloc := True\<rparr>))) (\<lambda>m.
      rbind (peek 0 (unat sz) msg) (\<lambda>bs. write_contents bs m)))"

text \<open>
  Copy and move constructors both copy: \<open>size_\<close> is taken from \<open>getSize()\<close>, an \<open>int\<close>
  converted back to \<open>size_t\<close>.
\<close>

definition tm_copy :: "(nat \<Rightarrow> u8) \<Rightarrow> nat \<Rightarrow> tagged_message \<Rightarrow> tagged_message result" where
  "tm_copy fresh avail other =
     (let sz = (word_of_int (getSize other) :: u64) in
      rbind (tm_reserve fresh avail sz (tm_tag other)) (\<lambda>m.
      rbind (peek 0 (unat sz) (contents_mem other)) (\<lambda>bs. write_contents bs m)))"

text \<open>
  Move assignment releases the block of the target and copies into a new one. The inline
  array keeps its contents when the new message is a long one.
\<close>

definition tm_assign ::
  "(nat \<Rightarrow> u8) \<Rightarrow> nat \<Rightarrow> tagged_message \<Rightarrow> tagged_message \<Rightarrow> tagged_message result" where
  "tm_assign fresh avail self other =
     (let sz = (word_of_int (getSize other) :: u64);
          m = self\<lparr>tm_tag := tm_tag other, tm_size := sz\<rparr> in
      rbind (if sz > of_nat max_normal_msg_size
             then rbind (new_array fresh avail (unat sz)) (\<lambda>b.
               Inr (m\<lparr>msg_contents := Msg_block b, tm_dynamic_alloc := True\<rparr>))
             else Inr (m\<lparr>msg_contents := P_msg, tm_dynamic_alloc := False\<rparr>)) (\<lambda>m.
      rbind (peek 0 (unat sz) (contents_mem other)) (\<lambda>bs. write_contents bs m)))"

section \<open>Invariant\<close>

definition tagged_inv :: "tagged_message \<Rightarrow> bool" where
  "tagged_inv m \<longleftrightarrow> length (p_msg m) = max_normal_msg_size \<and>
     (case msg_contents m of
        P_msg \<Rightarrow> \<not> tm_dynamic_alloc m \<and> unat (tm_size m) \<le> max_normal_msg_size
      | Msg_block b \<Rightarrow> tm_dynamic_alloc m \<and> length b = unat (tm_size m))"

text \<open>What a reader of the buffer observes.\<close>

definition tagged_view :: "tagged_message \<Rightarrow> bytes \<times> int" where
  "tagged_view m = (take (unat (tm_size m)) (contents_mem m), tm_tag m)"

lemma tagged_inv_length: "tagged_inv m \<Longrightarrow> unat (tm_size m) \<le> length (contents_mem m)"
  by (auto simp: tagged_inv_def contents_mem_def split: contents_loc.splits)

lemma read_contents_Inr: "tagged_inv m \<Longrightarrow> read_contents m = Inr (fst (tagged_view m))"
  using tagged_inv_length [of m] by (simp add: read_contents_def tagged_view_def peek_def)

lemma getSize_small:
  assumes "unat (tm_size m) < 2 ^ 31"
  shows "(word_of_int (getSize m) :: u64) = tm_size m"
proof -
  have "unat (ucast (tm_size m) :: 32 word) = unat (tm_size m)"
    using assms by (simp add: unat_ucast_small)
  then have "sint (ucast (tm_size m) :: 32 word) = int (unat (tm_size m))"
    using assms sint_u32 [of "ucast (tm_size m)"] by presburger
  then show ?thesis by (simp add: getSize_def)
qed

lemma tm_reserve_Inr:
  assumes "unat sz \<le> avail"
  obtains m where "tm_reserve fresh avail sz tag = Inr m" "tagged_inv m"
    "tm_size m = sz" "tm_tag m = tag"
  using assms
  by (cases "sz > of_nat max_normal_msg_size")
    (auto simp: tm_reserve_def new_array_def tagged_inv_def max_normal_msg_size_def Let_def
      word_less_nat_alt not_less)

lemma storage_Inr:
  assumes "unat sz \<le> avail" "length (p_msg m) = max_normal_msg_size" "tm_size m = sz"
  obtains s where "(if sz > of_nat max_normal_msg_size
      then rbind (new_array fresh avail (unat sz)) (\<lambda>b.
        Inr (m\<lparr>msg_contents := Msg_block b, tm_dynamic_alloc := True\<rparr>))
      else Inr (m\<lparr>msg_contents := P_msg, tm_dynamic_alloc := False\<rparr>)) = Inr s"
    "tagged_inv s" "tm_size s = sz" "tm_tag s = tm_tag m"
proof (cases "sz > of_nat max_normal_msg_size")
  case True
  then show ?thesis
    using that [of "m\<lparr>msg_contents := Msg_block (map fresh [0..<unat sz]), tm_dynamic_alloc := True\<rparr>"] assms
    by (simp add: new_array_def tagged_inv_def)
next
  case False
  then have "unat sz \<le> max_normal_msg_size"
    by (simp add: not_less word_le_nat_alt max_normal_msg_size_def)
  then show ?thesis
    using that [of "m\<lparr>msg_contents := P_msg, tm_dynamic_alloc := False\<rparr>"] assms False
    by (simp add: tagged_inv_def)
qed

lemma write_contents_Inr:
  assumes "tagged_inv m" "length bs = unat (tm_size m)"
  obtains m' where "write_contents bs m = Inr m'" "tagged_inv m'" "tagged_view m' = (bs, tm_tag m)"
    "tm_size m' = tm_size m"
proof -
  have le: "length bs \<le> length (contents_mem m)" using assms tagged_inv_length by simp
  show ?thesis
    using that [of "case msg_contents m of
          P_msg \<Rightarrow> m\<lparr>p_msg := bs @ drop (length bs) (p_msg m)\<rparr>
        | Msg_block b \<Rightarrow> m\<lparr>msg_contents := Msg_block (bs @ drop (length bs) b)\<rparr>"] le assms
    by (cases "msg_contents m")
      (auto simp: write_contents_def poke_def contents_mem_def tagged_inv_def tagged_view_def)
qed

lemma tm_make_eq:
  "tm_make fresh avail msg sz tag =
     rbind (tm_reserve fresh avail sz tag) (\<lambda>m. rbind (peek 0 (unat sz) msg) (\<lambda>bs. write_contents bs m))"
  by (auto simp: tm_make_def tm_reserve_def Let_def not_le not_less)

section \<open>Properties\<close>

text \<open>A message built from a buffer of less than \<open>2 ^ 31\<close> bytes, copied (or moved) and then
  assigned over any other message, still has the bytes and the tag it was built with, and no
  step reads or writes outside the buffers.\<close>

theorem tagged_message_copies:
  assumes "unat sz \<le> length buf" "unat sz < 2 ^ 31" "unat sz \<le> avail" "tagged_inv old"
  shows "\<exists>m m1 m2. tm_make fresh avail buf sz tag = Inr m \<and> tm_copy fresh avail m = Inr m1 \<and>
           tm_assign fresh avail old m1 = Inr m2 \<and> tagged_inv m2 \<and>
           tagged_view m2 = (take (unat sz) buf, tag) \<and>
           read_contents m2 = Inr (take (unat sz) buf)"
proof -
  let ?bs = "take (unat sz) buf"
  have copy: "\<exists>m'. tm_copy fresh avail m = Inr m' \<and> tagged_inv m' \<and> tagged_view m' = (?bs, tag) \<and>
      tm_size m' = sz" if m: "tagged_inv m" "tagged_view m = (?bs, tag)" "tm_size m = sz" for m
  proof -
    obtain r where r: "tm_reserve fresh avail sz tag = Inr r" "tagged_inv r" "tm_size r = sz" "tm_tag r = tag"
      by (rule tm_reserve_Inr [OF assms(3)])
    obtain w where w: "write_contents ?bs r = Inr w" "tagged_inv w" "tagged_view w = (?bs, tag)" "tm_size w = sz"
      by (rule write_contents_Inr [OF r(2), of ?bs]) (use r assms(1) in auto)
    have "peek 0 (unat sz) (contents_mem m) = Inr ?bs"
      using tagged_inv_length [OF m(1)] m by (simp add: peek_def tagged_view_def)
    then show ?thesis
      using w r m getSize_small [of m] assms(2) by (simp add: tm_copy_def Let_def tagged_view_def)
  qed
  obtain r where r: "tm_reserve fresh avail sz tag = Inr r" "tagged_inv r" "tm_size r = sz" "tm_tag r = tag"
    by (rule tm_reserve_Inr [OF assms(3)])
  obtain m where m: "write_contents ?bs r = Inr m" "tagged_inv m" "tagged_view m = (?bs, tag)" "tm_size m = sz"
    by (rule write_contents_Inr [OF r(2), of ?bs]) (use r assms(1) in auto)
  have mk: "tm_make fresh avail buf sz tag = Inr m"
    using r m assms(1) by (simp add: tm_make_eq peek_def)
  obtain m1 where m1: "tm_copy fresh avail m = Inr m1" "tagged_inv m1" "tagged_view m1 = (?bs, tag)" "tm_size m1 = sz"
    using copy [OF m(2-4)] by blast
  let ?o = "old\<lparr>tm_tag := tag, tm_size := sz\<rparr>"
  obtain s where s: "(if sz > of_nat max_normal_msg_size
      then rbind (new_array fresh avail (unat sz)) (\<lambda>b.
        Inr (?o\<lparr>msg_contents := Msg_block b, tm_dynamic_alloc := True\<rparr>))
      else Inr (?o\<lparr>msg_contents := P_msg, tm_dynamic_alloc := False\<rparr>)) = Inr s"
    "tagged_inv s" "tm_size s = sz" "tm_tag s = tag"
    by (rule storage_Inr [OF assms(3), of ?o fresh]) (use assms(4) in \<open>auto simp: tagged_inv_def\<close>)
  obtain m2 where m2: "write_contents ?bs s = Inr m2" "tagged_inv m2" "tagged_view m2 = (?bs, tag)"
    by (rule write_contents_Inr [OF s(2), of ?bs]) (use s assms(1) in auto)
  have "peek 0 (unat sz) (contents_mem m1) = Inr ?bs"
    using tagged_inv_length [OF m1(2)] m1 by (simp add: peek_def tagged_view_def)
  then have "tm_assign fresh avail old m1 = Inr m2"
    using s(1) m2 m1 getSize_small [of m1] assms(2)
    by (simp add: tm_assign_def Let_def tagged_view_def)
  then show ?thesis using mk m1 m2 read_contents_Inr [OF m2(2)] by auto
qed

theorem tagged_message_copies_witness:
  "\<exists>m m1 m2. tm_make (\<lambda>_. 0) 10 [1, 2, 3, 4] 3 7 = Inr m \<and> tm_copy (\<lambda>_. 0) 10 m = Inr m1 \<and>
     tm_assign (\<lambda>_. 0) 10 \<lparr>tm_size = 0, tm_tag = 1, p_msg = replicate 2048 0, msg_contents = P_msg,
       tm_dynamic_alloc = False\<rparr> m1 = Inr m2 \<and> tagged_view m2 = ([1, 2, 3], 7)"
proof -
  have "tagged_inv \<lparr>tm_size = 0, tm_tag = 1, p_msg = replicate 2048 0, msg_contents = P_msg,
       tm_dynamic_alloc = False\<rparr>"
    by (simp add: tagged_inv_def max_normal_msg_size_def)
  from tagged_message_copies [OF _ _ _ this, of 3 "[1, 2, 3, 4]" 10 "\<lambda>_. 0" 7]
  show ?thesis by auto
qed

end
