(* ===== verification/Updater.thy ===== *)
theory Updater
  imports Requests_Manager Tagged_Message
begin

text \<open>
  \<open>rib/rib_updater.{h,cc}\<close>: the handlers of the messages of the agents. A handler works on the
  information base, hands messages and connection releases to the network interface, and fires
  the events the applications subscribe to; the record \<open>controller\<close> holds these four and the
  queue of incoming messages. The parser, the address of a connection and the clock are
  arguments.
\<close>

section \<open>State\<close>

datatype event =
    Bs_add u64
  | Bs_remove u64
  | Ue_connect u64 u32
  | Ue_update u64 u32
  | Ue_disconnect u64 u32
  | Control_del_req u64 flex_control_delegation_request

record controller =
  ctl_rib :: rib
  ctl_sent :: outbox
  ctl_released :: "int list"
  ctl_events :: "event list"
  ctl_inbox :: "tagged_message list"

definition new_controller :: controller where
  "new_controller = \<lparr>ctl_rib = empty_rib, ctl_sent = [], ctl_released = [], ctl_events = [], ctl_inbox = []\<rparr>"

definition send_msg :: "flexran_message \<Rightarrow> int \<Rightarrow> controller \<Rightarrow> controller" where
  "send_msg m i c = c\<lparr>ctl_sent := ctl_sent c @ [(i, m)]\<rparr>"

definition release_connection :: "int \<Rightarrow> controller \<Rightarrow> controller" where
  "release_connection i c = c\<lparr>ctl_released := ctl_released c @ [i]\<rparr>"

definition fire :: "event \<Rightarrow> controller \<Rightarrow> controller" where
  "fire ev c = c\<lparr>ctl_events := ctl_events c @ [ev]\<rparr>"

definition request :: "u64 \<Rightarrow> flexran_message \<Rightarrow> controller \<Rightarrow> controller" where
  "request b m c = c\<lparr>ctl_sent := send_message b m (ctl_rib c) (ctl_sent c)\<rparr>"

section \<open>Handlers\<close>

definition hello_request :: flexran_message where
  "hello_request = message_of INITIATING_MESSAGE (Hello_msg
     \<lparr>hello_header = Some (mk_header FLPT_HELLO 0), hello_bs_id = None, hello_capabilities = [], hello_splits = []\<rparr>)"

definition handle_new_connection :: "int \<Rightarrow> controller \<Rightarrow> controller" where
  "handle_new_connection i c = send_msg hello_request i c"

text \<open>The third request never gets its version: the code sets that of the second once more.\<close>

definition bs_config_requests :: "flexran_message list" where
  "bs_config_requests =
     [message_of INITIATING_MESSAGE (Enb_config_request_msg (Some (mk_header FLPT_GET_ENB_CONFIG_REQUEST 0))),
      message_of INITIATING_MESSAGE (Ue_config_request_msg (Some (mk_header FLPT_GET_UE_CONFIG_REQUEST 1))),
      message_of INITIATING_MESSAGE (Lc_config_request_msg
        (Some \<lparr>h_version = None, h_type = Some FLPT_GET_LC_CONFIG_REQUEST, h_xid = Some 2\<rparr>))]"

definition trigger_bs_config :: "u64 \<Rightarrow> controller \<Rightarrow> controller" where
  "trigger_bs_config b c = fold (request b) bs_config_requests c"

definition BS_ID_OFFSET :: u64 where "BS_ID_OFFSET = 10000"

definition hello_bs :: "int \<Rightarrow> flex_hello \<Rightarrow> u64" where
  "hello_bs i h = (let b = get_or 0 (hello_bs_id h) in if b = 0 then BS_ID_OFFSET + word_of_int i else b)"

definition hello_caps :: "flex_hello \<Rightarrow> flex_bs_capability list" where
  "hello_caps h = (if hello_capabilities h = [] then [LOPHY, HIPHY, LOMAC, HIMAC, RLC, PDCP, RRC, SDAP]
     else hello_capabilities h)"

definition handle_hello ::
  "(int \<Rightarrow> string) \<Rightarrow> nat \<Rightarrow> int \<Rightarrow> flex_hello \<Rightarrow> flexran_direction \<Rightarrow> controller \<Rightarrow> controller result" where
  "handle_hello ep now i h dir c =
     (if dir \<noteq> SUCCESSFUL_OUTCOME then Inr (release_connection i c)
      else rbind (make_capabilities (hello_caps h)) (\<lambda>caps.
        let agent = make_agent_info i (hello_bs i h) caps (hello_splits h) (ep i);
            b = agent_bs_id agent in
        if get_bs b (ctl_rib c) \<noteq> None then Inr (release_connection i c)
        else (case add_pending_agent agent (ctl_rib c) of
           (False, r) \<Rightarrow> Inr (release_connection i (c\<lparr>ctl_rib := r\<rparr>))
         | (True, r) \<Rightarrow> rbind (new_eNB_config_entry now b r) (\<lambda>(ok, r').
             let c' = c\<lparr>ctl_rib := r'\<rparr> in
             Inr (if ok then fire (Bs_add b) (trigger_bs_config b c') else c')))))"

definition handle_echo_request :: "int \<Rightarrow> flex_header option \<Rightarrow> controller \<Rightarrow> controller" where
  "handle_echo_request i h c =
     send_msg (message_of SUCCESSFUL_OUTCOME (Echo_reply_msg (Some (mk_header FLPT_ECHO_REPLY (header_xid h))))) i c"

text \<open>Most handlers look up the base station of the connection, and ignore the message without one.\<close>

definition with_bs :: "int \<Rightarrow> (enb_rib_info \<Rightarrow> enb_rib_info result) \<Rightarrow> controller \<Rightarrow> controller result" where
  "with_bs i f c = (case get_bs_from_agent i (ctl_rib c) of
     None \<Rightarrow> Inr c
   | Some e \<Rightarrow> rbind (f e) (\<lambda>e'. Inr (c\<lparr>ctl_rib := set_bs (get_bs_id i (ctl_rib c)) e' (ctl_rib c)\<rparr>)))"

definition handle_echo_reply :: "nat \<Rightarrow> int \<Rightarrow> controller \<Rightarrow> controller result" where
  "handle_echo_reply now i c = with_bs i (\<lambda>e. Inr (update_liveness now e)) c"

definition handle_sf_trigger :: "nat \<Rightarrow> int \<Rightarrow> flex_sf_trigger \<Rightarrow> controller \<Rightarrow> controller result" where
  "handle_sf_trigger now i m c = with_bs i (update_subframe now m) c"

definition handle_enb_config_reply :: "protobuf \<Rightarrow> nat \<Rightarrow> int \<Rightarrow> flex_enb_config_reply \<Rightarrow> controller \<Rightarrow> controller result" where
  "handle_enb_config_reply pb now i m c = with_bs i (\<lambda>e. Inr (update_eNB_config pb now m e)) c"

definition handle_ue_config_reply :: "protobuf \<Rightarrow> nat \<Rightarrow> int \<Rightarrow> flex_ue_config_reply \<Rightarrow> controller \<Rightarrow> controller result" where
  "handle_ue_config_reply pb now i m c = with_bs i (\<lambda>e. Inr (update_UE_config pb now m e)) c"

definition handle_lc_config_reply :: "nat \<Rightarrow> int \<Rightarrow> flex_lc_config_reply \<Rightarrow> controller \<Rightarrow> controller result" where
  "handle_lc_config_reply now i m c = with_bs i (\<lambda>e. Inr (update_LC_config now m e)) c"

definition stats_off_request :: "u32 \<Rightarrow> flexran_message" where
  "stats_off_request xid = message_of INITIATING_MESSAGE (Stats_request_msg (Some (mk_header FLPT_STATS_REQUEST xid))
     (empty_complete_request\<lparr>report_frequency := Some FLSRF_OFF\<rparr>))"

definition handle_stats_reply :: "int \<Rightarrow> flex_stats_reply \<Rightarrow> controller \<Rightarrow> controller result" where
  "handle_stats_reply i m c =
     (if get_bs_from_agent i (ctl_rib c) = None then Inr (send_msg (stats_off_request (header_xid (sr_header m))) i c)
      else with_bs i (update_mac_stats m) c)"

definition handle_ue_state_change :: "protobuf \<Rightarrow> int \<Rightarrow> flex_ue_state_change \<Rightarrow> controller \<Rightarrow> controller result" where
  "handle_ue_state_change pb i m c = (case get_bs_from_agent i (ctl_rib c) of
     None \<Rightarrow> Inr c
   | Some e \<Rightarrow> rbind (with_bs i (\<lambda>e. Inr (update_UE_state pb m e)) c) (\<lambda>c'.
       let b = enb_bs_id e; rnti = rnti_of (get_or empty_ue_config (sc_config m)); t = get_or 0 (sc_type m) in
       Inr (if t = FLUESC_ACTIVATED then trigger_bs_config b (fire (Ue_connect b rnti) c')
            else if t = FLUESC_UPDATED then fire (Ue_update b rnti) c'
            else if t = FLUESC_DEACTIVATED then fire (Ue_disconnect b rnti) c'
            else c')))"

definition handle_disconnect :: "int \<Rightarrow> controller \<Rightarrow> controller result" where
  "handle_disconnect i c =
     (let b = get_bs_id i (ctl_rib c) in
      rbind (if b > 0 then
               rbind (remove_eNB_config_entry i (ctl_rib c)) (\<lambda>(ok, r).
                 Inr (if ok then fire (Bs_remove b) (c\<lparr>ctl_rib := r\<rparr>) else c\<lparr>ctl_rib := r\<rparr>))
             else if agent_is_pending i (ctl_rib c) then Inr (c\<lparr>ctl_rib := remove_pending_agent i (ctl_rib c)\<rparr>)
             else Inr c)
        (\<lambda>c'. Inr (release_connection i c')))"

definition handle_control_delegation_request :: "int \<Rightarrow> flex_control_delegation_request \<Rightarrow> controller \<Rightarrow> controller" where
  "handle_control_delegation_request i m c =
     (let b = get_bs_id i (ctl_rib c) in if b = 0 then c else fire (Control_del_req b m) c)"

section \<open>Dispatch\<close>

definition dispatch_message ::
  "protobuf \<Rightarrow> (int \<Rightarrow> string) \<Rightarrow> nat \<Rightarrow> int \<Rightarrow> flexran_message \<Rightarrow> controller \<Rightarrow> controller result" where
  "dispatch_message pb ep now i m c = (case msg_body m of
     Some (Hello_msg h) \<Rightarrow> handle_hello ep now i h (get_or NOT_SET (msg_dir m)) c
   | Some (Echo_request_msg h) \<Rightarrow> Inr (handle_echo_request i h c)
   | Some (Echo_reply_msg _) \<Rightarrow> handle_echo_reply now i c
   | Some (Stats_reply_msg s) \<Rightarrow> handle_stats_reply i s c
   | Some (Sf_trigger_msg t) \<Rightarrow> handle_sf_trigger now i t c
   | Some (Ul_sr_info_msg _) \<Rightarrow> Inr c
   | Some (Enb_config_reply_msg e) \<Rightarrow> handle_enb_config_reply pb now i e c
   | Some (Ue_config_reply_msg u) \<Rightarrow> handle_ue_config_reply pb now i u c
   | Some (Lc_config_reply_msg l) \<Rightarrow> handle_lc_config_reply now i l c
   | Some (Ue_state_change_msg s) \<Rightarrow> handle_ue_state_change pb i s c
   | Some (Disconnect_msg _) \<Rightarrow> handle_disconnect i c
   | Some (Control_del_req_msg d) \<Rightarrow> Inr (handle_control_delegation_request i d c)
   | _ \<Rightarrow> Inr c)"

text \<open>The body of the loop of \<open>update_rib\<close>: an empty message announces a new connection.\<close>

definition handle_message ::
  "protobuf \<Rightarrow> (int \<Rightarrow> string) \<Rightarrow> nat \<Rightarrow> tagged_message \<Rightarrow> controller \<Rightarrow> controller result" where
  "handle_message pb ep now tm c =
     (if getSize tm = 0 then Inr (handle_new_connection (tm_tag tm) c)
      else rbind (read_contents tm) (\<lambda>bs. dispatch_message pb ep now (tm_tag tm) (parse_message pb bs) c))"

text \<open>
  \<open>while (net_xface_.get_msg_from_network(tm) && rem_msgs > 0)\<close>: the message is taken from the
  queue before the budget is tested. \<open>clock k\<close> is the time when \<open>k\<close> messages are left to check.
\<close>

fun update_loop ::
  "protobuf \<Rightarrow> (int \<Rightarrow> string) \<Rightarrow> (nat \<Rightarrow> nat) \<Rightarrow> nat \<Rightarrow> tagged_message list \<Rightarrow> nat \<Rightarrow> controller
    \<Rightarrow> (nat \<times> controller) result" where
  "update_loop pb ep clock rem [] processed c = Inr (processed, c\<lparr>ctl_inbox := []\<rparr>)"
| "update_loop pb ep clock 0 (tm # tms) processed c = Inr (processed, c\<lparr>ctl_inbox := tms\<rparr>)"
| "update_loop pb ep clock (Suc rem) (tm # tms) processed c =
     rbind (handle_message pb ep (clock (Suc rem)) tm c) (\<lambda>c'.
       update_loop pb ep clock rem tms (Suc processed) c')"

definition messages_to_check :: nat where "messages_to_check = 350"

definition update_rib ::
  "protobuf \<Rightarrow> (int \<Rightarrow> string) \<Rightarrow> (nat \<Rightarrow> nat) \<Rightarrow> controller \<Rightarrow> (nat \<times> controller) result" where
  "update_rib pb ep clock c = update_loop pb ep clock messages_to_check (ctl_inbox c) 0 c"

section \<open>What the applications see\<close>

text \<open>
  The contract of the event system, as a partial function on the set of base stations an
  application believes to be online: a base station is added when it is not there and removed
  when it is, and all other events are about a base station that is online. \<open>None\<close> is a
  sequence of events that breaks the contract.
\<close>

fun event_bs :: "event \<Rightarrow> u64" where
  "event_bs (Bs_add b) = b"
| "event_bs (Bs_remove b) = b"
| "event_bs (Ue_connect b _) = b"
| "event_bs (Ue_update b _) = b"
| "event_bs (Ue_disconnect b _) = b"
| "event_bs (Control_del_req b _) = b"

fun view_step :: "event \<Rightarrow> u64 set \<Rightarrow> u64 set option" where
  "view_step (Bs_add b) s = (if b \<in> s then None else Some (insert b s))"
| "view_step (Bs_remove b) s = (if b \<in> s then Some (s - {b}) else None)"
| "view_step ev s = (if event_bs ev \<in> s then Some s else None)"

primrec view :: "event list \<Rightarrow> u64 set \<Rightarrow> u64 set option" where
  "view [] s = Some s"
| "view (ev # evs) s = Option.bind (view_step ev s) (view evs)"

lemma view_append: "view (xs @ ys) s = Option.bind (view xs s) (view ys)"
proof (induction xs arbitrary: s)
  case (Cons x xs)
  have "view (xs @ ys) = (\<lambda>t. Option.bind (view xs t) (view ys))" using Cons.IH by (rule ext)
  then show ?case by simp
qed simp

definition bs_set :: "rib \<Rightarrow> u64 set" where
  "bs_set r = {k. get_bs k r \<noteq> None}"

section \<open>Invariant\<close>

definition ctl_inv :: "controller \<Rightarrow> bool" where
  "ctl_inv c \<longleftrightarrow> rib_inv (ctl_rib c) \<and> view (ctl_events c) {} = Some (bs_set (ctl_rib c))"

text \<open>The outcome of handling a message of connection \<open>i\<close>.\<close>

definition handled :: "int \<Rightarrow> controller \<Rightarrow> controller result \<Rightarrow> bool" where
  "handled i c res \<longleftrightarrow> (\<exists>c'. res = Inr c' \<and> ctl_inv c' \<and>
     (\<forall>k. k \<noteq> get_bs_id i (ctl_rib c) \<longrightarrow> get_bs k (ctl_rib c) \<noteq> None \<longrightarrow>
        get_bs k (ctl_rib c') = get_bs k (ctl_rib c)))"

lemma ctl_simps [simp]:
  "ctl_rib (send_msg m i c) = ctl_rib c" "ctl_events (send_msg m i c) = ctl_events c"
  "ctl_rib (release_connection i c) = ctl_rib c" "ctl_events (release_connection i c) = ctl_events c"
  "ctl_rib (request b m c) = ctl_rib c" "ctl_events (request b m c) = ctl_events c"
  "ctl_rib (fire ev c) = ctl_rib c" "ctl_events (fire ev c) = ctl_events c @ [ev]"
  by (simp_all add: send_msg_def release_connection_def request_def fire_def)

lemma trigger_simps [simp]:
  "ctl_rib (trigger_bs_config b c) = ctl_rib c" "ctl_events (trigger_bs_config b c) = ctl_events c"
  by (simp_all add: trigger_bs_config_def bs_config_requests_def)

lemma handled_same:
  assumes "ctl_inv c" "ctl_rib c' = ctl_rib c" "ctl_events c' = ctl_events c"
  shows "handled i c (Inr c')"
  using assms by (simp add: handled_def ctl_inv_def)

lemma bs_set_set_bs: "get_bs b r \<noteq> None \<Longrightarrow> bs_set (set_bs b e r) = bs_set r"
  by (auto simp: bs_set_def)

lemma get_bs_from_agent_SomeD:
  "get_bs_from_agent i r = Some e \<Longrightarrow> get_bs (get_bs_id i r) r = Some e \<and> get_bs_id i r \<noteq> 0"
  by (auto simp: get_bs_from_agent_def Let_def split: if_splits)

lemma with_bs_handled:
  assumes "ctl_inv c"
    and "\<And>e. get_bs_from_agent i (ctl_rib c) = Some e \<Longrightarrow> enb_inv e \<Longrightarrow> \<exists>e'. f e = Inr e' \<and> enb_inv e' \<and> same_bs e e'"
  shows "handled i c (with_bs i f c)"
proof (cases "get_bs_from_agent i (ctl_rib c)")
  case None
  then show ?thesis using assms(1) by (simp add: with_bs_def handled_same)
next
  case (Some e)
  let ?b = "get_bs_id i (ctl_rib c)"
  have inv: "rib_inv (ctl_rib c)" using assms(1) by (simp add: ctl_inv_def)
  have e: "get_bs ?b (ctl_rib c) = Some e" using get_bs_from_agent_SomeD [OF Some] by simp
  then have "enb_inv e" using rib_invD(3) [OF inv e] by (simp add: bs_ok_def)
  then obtain e' where e': "f e = Inr e'" "enb_inv e'" "same_bs e e'" using assms(2) [OF Some] by blast
  have "rib_inv (set_bs ?b e' (ctl_rib c))"
    using set_bs_inv(1) [OF inv e e'(2)] e'(3) by (simp add: same_bs_def)
  then show ?thesis
    using assms(1) Some e e'(1) by (simp add: with_bs_def handled_def ctl_inv_def bs_set_set_bs)
qed

lemma with_bs_update_handled:
  assumes "ctl_inv c" "merge_ue_ok pb" "\<And>e. f e = enb_step pb now m e" "\<And>e. enb_update_ok m e"
  shows "handled i c (with_bs i f c)"
proof (rule with_bs_handled [OF assms(1)])
  fix e
  assume inv: "enb_inv e"
  obtain e' where e': "enb_step pb now m e = Inr e'"
    using enb_step_ok [OF assms(4), of pb now e] by (auto simp: is_ok_iff)
  then show "\<exists>e'. f e = Inr e' \<and> enb_inv e' \<and> same_bs e e'"
    using enb_step_inv [OF assms(2) inv e'] enb_step_same [OF e'] assms(3) by simp
qed

section \<open>The handlers keep the invariant\<close>

lemma bs_set_created: "get_bs b r = None \<Longrightarrow> bs_set (created now b r) = insert b (bs_set r)"
  by (auto simp: bs_set_def get_bs_created)

lemma hello_caps_make: "\<exists>caps. make_capabilities (hello_caps h) = Inr caps \<and> caps_ok caps"
  by (auto simp: make_capabilities_def hello_caps_def caps_ok_from_u32)

lemma handle_hello_handled:
  assumes "ctl_inv c"
  shows "handled i c (handle_hello ep now i h dir c)"
proof -
  obtain caps where caps: "make_capabilities (hello_caps h) = Inr caps" "caps_ok caps"
    using hello_caps_make by blast
  let ?a = "make_agent_info i (hello_bs i h) caps (hello_splits h) (ep i)"
  let ?b = "hello_bs i h"
  have a: "agent_bs_id ?a = ?b" "capabilities ?a = caps" by (simp_all add: make_agent_info_def)
  show ?thesis
  proof (cases "dir = SUCCESSFUL_OUTCOME \<and> get_bs ?b (ctl_rib c) = None")
    case False
    then show ?thesis using assms caps(1) by (auto simp: handle_hello_def Let_def a intro: handled_same)
  next
    case True
    have inv: "rib_inv (ctl_rib c)" using assms by (simp add: ctl_inv_def)
    obtain ok r where add: "add_pending_agent ?a (ctl_rib c) = (ok, r)" by fastforce
    have res: "handle_hello ep now i h dir c =
       (if ok then rbind (new_eNB_config_entry now ?b r) (\<lambda>(ok, r').
          Inr (if ok then fire (Bs_add ?b) (trigger_bs_config ?b (c\<lparr>ctl_rib := r'\<rparr>)) else c\<lparr>ctl_rib := r'\<rparr>))
        else Inr (release_connection i (c\<lparr>ctl_rib := r\<rparr>)))"
      using True caps(1) add by (simp add: handle_hello_def Let_def a cong: if_cong split: bool.splits)
    show ?thesis
    proof (cases ok)
      case False
      then have "r = ctl_rib c" using add add_pending_agent_False by metis
      then show ?thesis using assms False by (simp add: res handled_same)
    next
      case ok: True
      then have r: "r = (ctl_rib c)\<lparr>pending_agents := set_insert ?a (pending_agents (ctl_rib c))\<rparr>"
        using add add_pending_agent_True [of ?a "ctl_rib c" r] by simp
      have inv': "rib_inv r" using add_pending_agent_inv [OF inv _ _ add] caps(2) True a by simp
      have none: "get_bs ?b r = None" "\<And>k. get_bs k r = get_bs k (ctl_rib c)" "bs_set r = bs_set (ctl_rib c)"
        using True by (simp_all add: r bs_set_def)
      show ?thesis
      proof (cases "full_caps \<subseteq> caps_of (filter (\<lambda>a. ?b = agent_bs_id a) (pending_agents r))")
        case False
        then have "handle_hello ep now i h dir c = Inr (c\<lparr>ctl_rib := r\<rparr>)"
          using ok by (simp add: res new_entry_eq [OF inv'])
        then show ?thesis using assms inv' none by (simp add: handled_def ctl_inv_def)
      next
        case full: True
        then have "handle_hello ep now i h dir c =
            Inr (fire (Bs_add ?b) (trigger_bs_config ?b (c\<lparr>ctl_rib := created now ?b r\<rparr>)))"
          using ok none(1) by (simp add: res new_entry_eq [OF inv'])
        moreover have "rib_inv (created now ?b r)" using created_inv [OF inv' none(1) full] .
        moreover have "?b \<notin> bs_set r" using none(1) by (simp add: bs_set_def)
        ultimately show ?thesis
          using assms none True by (auto simp: handled_def ctl_inv_def view_append bs_set_created get_bs_created)
      qed
    qed
  qed
qed

lemma handle_disconnect_handled:
  assumes "ctl_inv c"
  shows "handled i c (handle_disconnect i c)"
proof -
  let ?r = "ctl_rib c"
  have inv: "rib_inv ?r" using assms by (simp add: ctl_inv_def)
  show ?thesis
  proof (cases "get_agent i ?r")
    case None
    then have z: "get_bs_id i ?r = 0" by (simp add: get_bs_id_def get_agent_def)
    have "rib_inv (remove_pending_agent i ?r)" using remove_pending_agent_inv [OF inv] .
    moreover have "get_bs k (remove_pending_agent i ?r) = get_bs k ?r" for k
      by (subst remove_pending_agent_eq(1)) simp
    ultimately show ?thesis
      using assms by (simp add: handle_disconnect_def z handled_def ctl_inv_def bs_set_def)
  next
    case (Some d)
    obtain e where e: "get_bs (agent_bs_id d) ?r = Some e" using rib_invD(5) [OF inv Some] by blast
    then have ne: "agent_bs_id d \<noteq> 0" using rib_invD(3) [OF inv e] by (simp add: bs_ok_def)
    have id: "get_bs_id i ?r = agent_bs_id d" using Some by (simp add: get_bs_id_def get_agent_def)
    have "handle_disconnect i c =
        Inr (release_connection i (fire (Bs_remove (agent_bs_id d)) (c\<lparr>ctl_rib := removed d e ?r\<rparr>)))"
      using ne Some e by (simp add: handle_disconnect_def id remove_entry_eq [OF inv] word_gt_0)
    moreover have "rib_inv (removed d e ?r)" using removed_inv [OF inv Some e] .
    moreover have "bs_set (removed d e ?r) = bs_set ?r - {agent_bs_id d}" by (auto simp: bs_set_def get_bs_removed)
    moreover have "agent_bs_id d \<in> bs_set ?r" using e by (simp add: bs_set_def)
    ultimately show ?thesis
      using assms by (simp add: handled_def ctl_inv_def view_append id get_bs_removed)
  qed
qed

lemma handle_ue_state_change_handled:
  assumes "merge_ue_ok pb" "ctl_inv c"
  shows "handled i c (handle_ue_state_change pb i m c)"
proof (cases "get_bs_from_agent i (ctl_rib c)")
  case None
  then show ?thesis using assms(2) by (simp add: handle_ue_state_change_def handled_same)
next
  case (Some e)
  have inv: "rib_inv (ctl_rib c)" using assms(2) by (simp add: ctl_inv_def)
  have e: "get_bs (get_bs_id i (ctl_rib c)) (ctl_rib c) = Some e" using get_bs_from_agent_SomeD [OF Some] by simp
  then have b: "enb_bs_id e = get_bs_id i (ctl_rib c)" using rib_invD(3) [OF inv e] by (simp add: bs_ok_def)
  have "handled i c (with_bs i (\<lambda>e. Inr (update_UE_state pb m e)) c)"
    by (rule with_bs_update_handled [OF assms(2,1), of _ 0 "Upd_ue_state m"]) simp_all
  then obtain c' where c': "with_bs i (\<lambda>e. Inr (update_UE_state pb m e)) c = Inr c'" "ctl_inv c'"
    "\<And>k. k \<noteq> get_bs_id i (ctl_rib c) \<Longrightarrow> get_bs k (ctl_rib c) \<noteq> None \<Longrightarrow> get_bs k (ctl_rib c') = get_bs k (ctl_rib c)"
    unfolding handled_def by blast
  have "get_bs (enb_bs_id e) (ctl_rib c') \<noteq> None"
    using c'(1) Some e by (auto simp: with_bs_def b)
  then have "enb_bs_id e \<in> bs_set (ctl_rib c')" by (simp add: bs_set_def)
  then show ?thesis
    using c' Some by (simp add: handle_ue_state_change_def handled_def ctl_inv_def view_append Let_def)
qed

lemma handle_control_delegation_handled:
  assumes "ctl_inv c"
  shows "handled i c (Inr (handle_control_delegation_request i m c))"
proof (cases "get_agent i (ctl_rib c)")
  case None
  then have "get_bs_id i (ctl_rib c) = 0" by (simp add: get_bs_id_def get_agent_def)
  then show ?thesis using assms by (simp add: handle_control_delegation_request_def handled_same)
next
  case (Some d)
  have inv: "rib_inv (ctl_rib c)" using assms by (simp add: ctl_inv_def)
  have "get_bs_id i (ctl_rib c) = agent_bs_id d" using Some by (simp add: get_bs_id_def get_agent_def)
  moreover have "agent_bs_id d \<in> bs_set (ctl_rib c)" using rib_invD(5) [OF inv Some] by (auto simp: bs_set_def)
  ultimately show ?thesis
    using assms by (simp add: handle_control_delegation_request_def handled_def ctl_inv_def view_append Let_def)
qed

text \<open>Messages whose indices are within the arrays of the base station.\<close>

fun body_ok :: "msg_body \<Rightarrow> bool" where
  "body_ok (Sf_trigger_msg t) \<longleftrightarrow> list_all dl_info_ok (dl_info t) \<and> list_all ul_info_ok (ul_info t)"
| "body_ok (Stats_reply_msg s) \<longleftrightarrow> length (cell_report s) \<le> MAX_NUM_CC"
| "body_ok _ \<longleftrightarrow> True"

definition msg_ok :: "flexran_message \<Rightarrow> bool" where
  "msg_ok m \<longleftrightarrow> (case msg_body m of None \<Rightarrow> True | Some b \<Rightarrow> body_ok b)"

lemmas simple_handlers = handle_echo_request_def handle_enb_config_reply_def handle_ue_config_reply_def
  handle_lc_config_reply_def handle_sf_trigger_def handle_stats_reply_def handle_echo_reply_def

lemma update_handled:
  assumes "merge_ue_ok pb" "ctl_inv c"
  shows "handled i c (handle_enb_config_reply pb now i m1 c)" "handled i c (handle_ue_config_reply pb now i m2 c)"
    "handled i c (handle_lc_config_reply now i m3 c)"
    "list_all dl_info_ok (dl_info t) \<Longrightarrow> list_all ul_info_ok (ul_info t) \<Longrightarrow> handled i c (handle_sf_trigger now i t c)"
    "length (cell_report st) \<le> MAX_NUM_CC \<Longrightarrow> handled i c (handle_stats_reply i st c)"
  using with_bs_update_handled [OF assms(2,1), of _ now "Upd_enb m1" i]
    with_bs_update_handled [OF assms(2,1), of _ now "Upd_ue m2" i]
    with_bs_update_handled [OF assms(2,1), of _ now "Upd_lc m3" i]
    with_bs_update_handled [OF assms(2,1), of "update_subframe now t" now "Upd_sf t" i]
    with_bs_update_handled [OF assms(2,1), of "update_mac_stats st" now "Upd_stats st" i]
  by (simp_all add: simple_handlers handled_same [OF assms(2)])

lemma dispatch_handled:
  assumes "merge_ue_ok pb" "ctl_inv c" "msg_ok m"
  shows "handled i c (dispatch_message pb ep now i m c)"
proof (cases "msg_body m")
  case None
  then show ?thesis using assms(2) by (simp add: dispatch_message_def handled_same)
next
  case (Some b)
  have echo: "handled i c (handle_echo_reply now i c)"
    unfolding handle_echo_reply_def
    by (rule with_bs_handled [OF assms(2)]) (auto simp: update_liveness_def same_bs_def enb_inv_def)
  have ok: "body_ok b" using assms(3) Some by (simp add: msg_ok_def)
  have "handled i c (Inr (handle_echo_request i h c))" for h
    by (rule handled_same [OF assms(2)]) (simp_all add: handle_echo_request_def)
  then show ?thesis
    using assms ok echo handle_hello_handled [OF assms(2)] handle_disconnect_handled [OF assms(2)]
      handle_ue_state_change_handled [OF assms(1,2)] handle_control_delegation_handled [OF assms(2)]
      update_handled [OF assms(1,2)] handled_same [OF assms(2), of c]
    by (cases b) (simp_all add: dispatch_message_def Some)
qed

definition delivered_ok :: "protobuf \<Rightarrow> tagged_message \<Rightarrow> bool" where
  "delivered_ok pb tm \<longleftrightarrow> tagged_inv tm \<and> msg_ok (parse_message pb (fst (tagged_view tm)))"

lemma handle_message_handled:
  assumes "merge_ue_ok pb" "ctl_inv c" "delivered_ok pb tm"
  shows "handled (tm_tag tm) c (handle_message pb ep now tm c)"
proof -
  have "read_contents tm = Inr (fst (tagged_view tm))"
    using assms(3) by (simp add: delivered_ok_def tagged_view_def read_contents_def peek_def tagged_inv_length)
  moreover have "handled (tm_tag tm) c (Inr (handle_new_connection (tm_tag tm) c))"
    by (rule handled_same [OF assms(2)]) (simp_all add: handle_new_connection_def)
  ultimately show ?thesis
    using dispatch_handled [OF assms(1,2)] assms(3) by (simp add: handle_message_def delivered_ok_def)
qed

interpretation ctl: safe_system "handle_message pb ep now" "\<lambda>c. merge_ue_ok pb \<and> ctl_inv c" "\<lambda>tm _. delivered_ok pb tm"
  for pb ep now
proof unfold_locales
  fix s e s'
  assume a: "merge_ue_ok pb \<and> ctl_inv s" "delivered_ok pb e"
  then have h: "handled (tm_tag e) s (handle_message pb ep now e s)" by (simp add: handle_message_handled)
  show "is_ok (handle_message pb ep now e s)" using h by (auto simp: handled_def)
  show "merge_ue_ok pb \<and> ctl_inv s'" if "handle_message pb ep now e s = Inr s'"
    using h a that by (auto simp: handled_def)
qed

section \<open>Rounds of the updater\<close>

lemma update_loop_eq:
  "update_loop pb ep clock rem tms processed c =
     rbind (foldR (\<lambda>(k, tm). handle_message pb ep (clock k) tm) (zip (rev [1..<Suc rem]) tms) c) (\<lambda>c'.
       Inr (processed + min rem (length tms), c'\<lparr>ctl_inbox := drop (Suc rem) tms\<rparr>))"
proof (induction pb ep clock rem tms processed c rule: update_loop.induct)
  case (3 pb ep clock rem tm tms processed c)
  let ?f = "\<lambda>(k, tm). handle_message pb ep (clock k) tm"
  have ks: "rev [1..<Suc (Suc rem)] = Suc rem # rev [1..<Suc rem]" by simp
  show ?case
    unfolding ks zip_Cons_Cons foldR.simps update_loop.simps rbind_assoc prod.case
    by (rule rbind_cong) (simp_all add: 3 del: upt_Suc)
qed simp_all

text \<open>A round: messages arrive, then \<open>run\<close> is called.\<close>

definition update_round ::
  "protobuf \<Rightarrow> (int \<Rightarrow> string) \<Rightarrow> (nat \<Rightarrow> nat) \<times> tagged_message list \<Rightarrow> controller \<Rightarrow> controller result" where
  "update_round pb ep r c =
     rbind (update_rib pb ep (fst r) (c\<lparr>ctl_inbox := ctl_inbox c @ snd r\<rparr>)) (\<lambda>(_, c'). Inr c')"

definition inbox_inv :: "protobuf \<Rightarrow> controller \<Rightarrow> bool" where
  "inbox_inv pb c \<longleftrightarrow> ctl_inv c \<and> list_all (delivered_ok pb) (ctl_inbox c)"

lemma ctl_inv_inbox [simp]: "ctl_inv (c\<lparr>ctl_inbox := tms\<rparr>) = ctl_inv c"
  by (simp add: ctl_inv_def)

lemma update_rib_ok:
  assumes "merge_ue_ok pb" "inbox_inv pb c"
  shows "\<exists>n c'. update_rib pb ep clock c = Inr (n, c') \<and> inbox_inv pb c'"
proof -
  let ?f = "\<lambda>(k, tm). handle_message pb ep (clock k) tm"
  let ?xs = "zip (rev [1..<Suc messages_to_check]) (ctl_inbox c)"
  have ok: "delivered_ok pb tm" if "(k, tm) \<in> set ?xs" for k tm
    using assms(2) set_zip_rightD [OF that] by (auto simp: inbox_inv_def list_all_iff)
  have "\<exists>c'. foldR ?f xs c = Inr c' \<and> ctl_inv c'" if "set xs \<subseteq> set ?xs" "ctl_inv c" for xs c
    using that
  proof (induction xs arbitrary: c)
    case (Cons x xs)
    obtain k tm where x: "x = (k, tm)" by fastforce
    have "delivered_ok pb tm" using ok Cons.prems(1) x by auto
    then obtain c1 where "handle_message pb ep (clock k) tm c = Inr c1" "ctl_inv c1"
      using handle_message_handled [OF assms(1) Cons.prems(2)] unfolding handled_def by blast
    then show ?case using Cons.IH [of c1] Cons.prems(1) x by simp
  qed simp
  then obtain c' where "foldR ?f ?xs c = Inr c'" "ctl_inv c'" using assms(2) by (auto simp: inbox_inv_def)
  moreover have "list_all (delivered_ok pb) (drop n (ctl_inbox c))" for n
    using assms(2) in_set_dropD by (fastforce simp: inbox_inv_def list_all_iff)
  ultimately show ?thesis by (simp add: update_rib_def update_loop_eq inbox_inv_def)
qed

interpretation rounds: safe_system "update_round pb ep" "\<lambda>c. merge_ue_ok pb \<and> inbox_inv pb c"
  "\<lambda>r _. list_all (delivered_ok pb) (snd r)"
  for pb ep
proof unfold_locales
  fix s :: controller and s' and e :: "(nat \<Rightarrow> nat) \<times> tagged_message list"
  assume a: "merge_ue_ok pb \<and> inbox_inv pb s" "list_all (delivered_ok pb) (snd e)"
  then have "inbox_inv pb (s\<lparr>ctl_inbox := ctl_inbox s @ snd e\<rparr>)" by (simp add: inbox_inv_def)
  then obtain n c' where "update_rib pb ep (fst e) (s\<lparr>ctl_inbox := ctl_inbox s @ snd e\<rparr>) = Inr (n, c')" "inbox_inv pb c'"
    using update_rib_ok a(1) by blast
  then show "is_ok (update_round pb ep e s)"
    "update_round pb ep e s = Inr s' \<Longrightarrow> merge_ue_ok pb \<and> inbox_inv pb s'"
    using a(1) by (auto simp: update_round_def)
qed

lemma new_controller_inv: "inbox_inv pb new_controller"
  using empty_rib_inv(1)
  by (simp add: inbox_inv_def new_controller_def ctl_inv_def bs_set_def get_bs_def empty_rib_def)

lemma rounds_ctl_inv:
  assumes "merge_ue_ok pb" "\<And>r. r \<in> set rs \<Longrightarrow> list_all (delivered_ok pb) (snd r)"
  shows "\<exists>c. foldR (update_round pb ep) rs new_controller = Inr c \<and> ctl_inv c"
proof -
  have "admissible (update_round pb ep) (\<lambda>r _. list_all (delivered_ok pb) (snd r)) rs new_controller"
    by (rule admissible_mono) (rule assms(2))
  then show ?thesis
    using rounds.run_safe [of pb new_controller ep rs] new_controller_inv assms(1) by (auto simp: inbox_inv_def)
qed

lemma request_fold:
  "ctl_sent (fold (request b) ms c) = fold (\<lambda>m. send_message b m (ctl_rib c)) ms (ctl_sent c)
     \<and> ctl_released (fold (request b) ms c) = ctl_released c"
  by (induction ms arbitrary: c) (simp_all add: request_def)

lemma trigger_sent:
  "ctl_sent (trigger_bs_config b c) =
     ctl_sent c @ concat (map (\<lambda>m. map (\<lambda>i. (i, m)) (bs_members b (ctl_rib c))) bs_config_requests)"
  by (simp add: trigger_bs_config_def request_fold mes.send_all)

lemma trigger_released: "ctl_released (trigger_bs_config b c) = ctl_released c"
  by (simp add: trigger_bs_config_def request_fold)

lemma hello_caps_full:
  "full_caps \<subseteq> set (hello_caps h) \<Longrightarrow>
     \<exists>caps. make_capabilities (hello_caps h) = Inr caps \<and> caps_ok caps \<and> full_caps \<subseteq> set caps"
  using set_from_to [of "hello_caps h"]
  by (auto simp: make_capabilities_def caps_ok_from_u32 hello_caps_def full_caps_def cap_ok_def)

section \<open>Properties\<close>

text \<open>For the examples: an old agent says hello, in a message of one byte.\<close>

definition old_hello :: flex_hello where
  "old_hello = \<lparr>hello_header = None, hello_bs_id = None, hello_capabilities = [], hello_splits = []\<rparr>"

definition hello_pb :: protobuf where
  "hello_pb = plain_pb\<lparr>parse_message := (\<lambda>_. message_of SUCCESSFUL_OUTCOME (Hello_msg old_hello))\<rparr>"

definition one_byte :: "int \<Rightarrow> tagged_message" where
  "one_byte i = \<lparr>tm_size = 1, tm_tag = i, p_msg = replicate 2048 0, msg_contents = P_msg, tm_dynamic_alloc = False\<rparr>"

lemma one_byte_ok: "delivered_ok hello_pb (one_byte i)"
  by (simp add: delivered_ok_def one_byte_def tagged_inv_def max_normal_msg_size_def hello_pb_def msg_ok_def message_of_def)

lemma example_pb: "merge_ue_ok hello_pb" "merge_ue_ok plain_pb"
  using plain_pb_ok by (simp_all add: merge_ok_def hello_pb_def merge_ue_ok_def)

definition ctl_online :: controller where
  "ctl_online = new_controller\<lparr>ctl_rib := bs_online, ctl_events := [Bs_add 7]\<rparr>"

lemma ctl_online_inv: "ctl_inv ctl_online"
  using bs_online_inv(1) by (auto simp: ctl_inv_def ctl_online_def bs_set_def bs_online_state)

text \<open>C3. However many messages arrive, and in whatever rounds they are handled, as long as their
  carrier and HARQ indices are in range no handler throws; the information base stays consistent,
  and the events fired so far are a legal history (no base station added twice or removed when
  absent, no event about one that is offline) whose outcome is exactly the set of base stations
  the information base holds.\<close>

theorem events_track_base_stations:
  assumes "merge_ue_ok pb" "\<And>r. r \<in> set rs \<Longrightarrow> list_all (delivered_ok pb) (snd r)"
  shows "\<exists>c. foldR (update_round pb ep) rs new_controller = Inr c \<and> rib_inv (ctl_rib c)
     \<and> view (ctl_events c) {} = Some {k. has_eNB_config_entry k (ctl_rib c)}"
  using rounds_ctl_inv [where ep = ep, OF assms]
  by (auto simp: ctl_inv_def bs_set_def has_eNB_config_entry_def)

theorem events_track_base_stations_witness:
  "\<exists>c. foldR (update_round hello_pb (\<lambda>_. [])) [(\<lambda>k. k, [one_byte 1]), (\<lambda>k. k, [one_byte 2, one_byte 1])] new_controller = Inr c
     \<and> rib_inv (ctl_rib c) \<and> view (ctl_events c) {} = Some {k. has_eNB_config_entry k (ctl_rib c)}"
  by (rule events_track_base_stations [OF example_pb(1)]) (auto simp: one_byte_ok)

text \<open>C39. One call of \<open>update_rib\<close> handles the first 350 messages of the queue in order; when there
  are more, the next one is taken from the queue and lost.\<close>

theorem update_rib_budget:
  "update_rib pb ep clock c =
     rbind (foldR (\<lambda>(k, tm). handle_message pb ep (clock k) tm) (zip (rev [1..<351]) (take 350 (ctl_inbox c))) c)
       (\<lambda>c'. Inr (min 350 (length (ctl_inbox c)), c'\<lparr>ctl_inbox := drop 351 (ctl_inbox c)\<rparr>))"
proof -
  have "zip ks (take (length ks) tms) = zip ks tms" for ks :: "nat list" and tms :: "tagged_message list"
    by (induction ks tms rule: list_induct2') simp_all
  from this [of "rev [1..<351]" "ctl_inbox c"]
  have "zip (rev [1..<351]) (take 350 (ctl_inbox c)) = zip (rev [1..<351]) (ctl_inbox c)" by simp
  then show ?thesis by (simp add: update_rib_def update_loop_eq messages_to_check_def del: upt_Suc)
qed

text \<open>C13. A message of one agent leaves the state of every base station but its own as it was.\<close>

theorem messages_are_isolated:
  assumes "merge_ue_ok pb" "ctl_inv c" "msg_ok m" "dispatch_message pb ep now i m c = Inr c'"
    and "has_eNB_config_entry k (ctl_rib c)" "k \<noteq> get_bs_id i (ctl_rib c)"
  shows "get_bs k (ctl_rib c') = get_bs k (ctl_rib c)"
  using dispatch_handled [OF assms(1-3), of i ep now] assms(4-6)
  unfolding handled_def has_eNB_config_entry_def by auto

theorem messages_are_isolated_witness:
  "\<exists>c'. dispatch_message plain_pb (\<lambda>_. []) 0 5 (message_of SUCCESSFUL_OUTCOME (Hello_msg old_hello)) ctl_online = Inr c'
     \<and> get_bs 7 (ctl_rib c') = Some (new_enb 7 [lower_agent, upper_agent] 0)"
proof -
  let ?m = "message_of SUCCESSFUL_OUTCOME (Hello_msg old_hello)"
  have ok: "msg_ok ?m" by (simp add: msg_ok_def message_of_def)
  obtain c' where c': "dispatch_message plain_pb (\<lambda>_. []) 0 5 ?m ctl_online = Inr c'"
    using dispatch_handled [OF example_pb(2) ctl_online_inv ok] unfolding handled_def by blast
  have "get_agent 5 bs_online = None" by (simp add: bs_online_state)
  then have "get_bs_id 5 bs_online = 0" by (simp add: get_bs_id_def get_agent_def)
  then show ?thesis
    using messages_are_isolated [OF example_pb(2) ctl_online_inv ok c', of 7] c'
    by (simp add: has_eNB_config_entry_def ctl_online_def bs_online_state)
qed

text \<open>C10. An agent that covers all layers (or an old one, which announces none) and whose base
  station is not known brings it online at once: the event is fired, and the three requests for
  the configuration go to this agent, in order.\<close>

theorem hello_brings_base_station_online:
  assumes "ctl_inv c" "full_caps \<subseteq> set (hello_caps h)" "hello_bs i h \<noteq> 0"
    and "get_bs (hello_bs i h) (ctl_rib c) = None" "\<not> agent_is_pending i (ctl_rib c)"
    and "\<forall>p \<in> set (pending_agents (ctl_rib c)). agent_bs_id p \<noteq> hello_bs i h"
  shows "\<exists>c'. handle_hello ep now i h SUCCESSFUL_OUTCOME c = Inr c'
     \<and> has_eNB_config_entry (hello_bs i h) (ctl_rib c')
     \<and> ctl_events c' = ctl_events c @ [Bs_add (hello_bs i h)]
     \<and> ctl_sent c' = ctl_sent c @ map (\<lambda>m. (i, m)) bs_config_requests
     \<and> ctl_released c' = ctl_released c"
proof -
  let ?b = "hello_bs i h"
  obtain caps where caps: "make_capabilities (hello_caps h) = Inr caps" "caps_ok caps" "full_caps \<subseteq> set caps"
    using assms(2) hello_caps_full by blast
  let ?a = "make_agent_info i ?b caps (hello_splits h) (ep i)"
  have a: "agent_bs_id ?a = ?b" "capabilities ?a = caps" "agent_id ?a = i" by (simp_all add: make_agent_info_def)
  have inv: "rib_inv (ctl_rib c)" using assms(1) by (simp add: ctl_inv_def)
  define r where "r = (ctl_rib c)\<lparr>pending_agents := pending_agents (ctl_rib c) @ [?a]\<rparr>"
  have new: "?a \<notin> set (pending_agents (ctl_rib c))" using assms(6) a(1) by metis
  have "caps \<noteq> []" using caps(3) by (auto simp: full_caps_def)
  then have add: "add_pending_agent ?a (ctl_rib c) = (True, r)"
    using assms(3,5,6) new by (auto simp: add_pending_agent_def a list_ex_iff set_insert_def r_def)
  have inv': "rib_inv r" by (rule add_pending_agent_inv [OF inv _ _ add]) (use assms(4) caps(2) a in simp_all)
  have "filter (\<lambda>x. ?b = agent_bs_id x) (pending_agents (ctl_rib c)) = []"
    using assms(6) by (auto simp: filter_empty_conv)
  then have ags: "filter (\<lambda>x. ?b = agent_bs_id x) (pending_agents r) = [?a]" by (simp add: r_def a)
  have none: "get_bs ?b r = None" using assms(4) by (simp add: r_def)
  let ?r = "created now ?b r"
  have entry: "new_eNB_config_entry now ?b r = Inr (True, ?r)"
    using none caps(3) by (simp add: new_entry_eq [OF inv'] ags caps_of_def a)
  have bs: "get_bs ?b ?r = Some (new_enb ?b [?a] now)" using none by (simp add: get_bs_created ags)
  have "handle_hello ep now i h SUCCESSFUL_OUTCOME c =
      Inr (fire (Bs_add ?b) (trigger_bs_config ?b (c\<lparr>ctl_rib := ?r\<rparr>)))"
    using assms(4) by (simp add: handle_hello_def caps(1) Let_def a add entry)
  moreover have "bs_members ?b ?r = [i]" using bs by (simp add: bs_members_def new_enb_def a)
  ultimately show ?thesis
    using bs by (simp add: has_eNB_config_entry_def fire_def trigger_sent trigger_released)
qed

theorem hello_brings_base_station_online_witness:
  "\<exists>c'. handle_hello (\<lambda>_. []) 0 3 old_hello SUCCESSFUL_OUTCOME new_controller = Inr c'
     \<and> ctl_events c' = [Bs_add 10003] \<and> ctl_sent c' = map (\<lambda>m. (3, m)) bs_config_requests"
proof -
  have h: "hello_bs 3 old_hello = 10003" "full_caps \<subseteq> set (hello_caps old_hello)"
    by (simp_all add: hello_bs_def old_hello_def BS_ID_OFFSET_def hello_caps_def full_caps_def)
  have c: "ctl_inv new_controller" using new_controller_inv by (simp add: inbox_inv_def)
  show ?thesis
    using hello_brings_base_station_online [OF c h(2), of 3 "\<lambda>_. []" 0] h(1)
    by (auto simp: new_controller_def empty_rib_def get_bs_def agent_is_pending_def)
qed

text \<open>A connection that belongs to no base station cannot change the information base by
  anything but a hello or a disconnection: its messages are ignored, except that an echo request
  is answered and a statistics report is answered by the request to stop reporting.\<close>

theorem unknown_connection_ignored:
  assumes "get_agent i (ctl_rib c) = None"
    and "\<forall>h. msg_body m \<noteq> Some (Hello_msg h)" "\<forall>h. msg_body m \<noteq> Some (Disconnect_msg h)"
  shows "dispatch_message pb ep now i m c = Inr (c\<lparr>ctl_sent := ctl_sent c @
     (case msg_body m of
        Some (Echo_request_msg h) \<Rightarrow>
          [(i, message_of SUCCESSFUL_OUTCOME (Echo_reply_msg (Some (mk_header FLPT_ECHO_REPLY (header_xid h)))))]
      | Some (Stats_reply_msg s) \<Rightarrow> [(i, stats_off_request (header_xid (sr_header s)))]
      | _ \<Rightarrow> [])\<rparr>)"
proof -
  have "get_bs_id i (ctl_rib c) = 0" "get_bs_from_agent i (ctl_rib c) = None"
    using assms(1) by (simp_all add: get_bs_id_def get_agent_def get_bs_from_agent_def)
  then show ?thesis
    using assms(2,3)
    by (auto simp: dispatch_message_def simple_handlers send_msg_def with_bs_def handle_ue_state_change_def
        handle_control_delegation_request_def split: option.splits msg_body.splits)
qed

theorem unknown_connection_ignored_witness:
  "dispatch_message plain_pb (\<lambda>_. []) 0 5 (message_of SUCCESSFUL_OUTCOME (Stats_reply_msg
       \<lparr>sr_header = Some (mk_header 4 9), ue_report = [], cell_report = []\<rparr>)) ctl_online =
     Inr (ctl_online\<lparr>ctl_sent := [(5, stats_off_request 9)]\<rparr>)"
proof -
  have "get_agent 5 (ctl_rib ctl_online) = None" by (simp add: ctl_online_def bs_online_state)
  then show ?thesis
    using unknown_connection_ignored [of 5 ctl_online "message_of SUCCESSFUL_OUTCOME (Stats_reply_msg
       \<lparr>sr_header = Some (mk_header 4 9), ue_report = [], cell_report = []\<rparr>)" plain_pb "\<lambda>_. []" 0]
    by (simp add: message_of_def header_xid_def mk_header_def ctl_online_def new_controller_def)
qed

end
