(* ===== verification/App_Common.thy ===== *)
theory App_Common
  imports Updater
begin

text \<open>
  What the applications share: the JSON parser (protobuf's \<open>JsonStringToMessage\<close>, an argument of
  the model), the resolution of the name of a base station in a request, and the
  reconfiguration messages. An application's operation returns the outbox; a request that is
  refused is \<open>Inl (Invalid_argument text)\<close> where the code throws, and \<open>Inr (Inl text)\<close> where it
  returns \<open>false\<close> with a reason.
\<close>

record json =
  js_slice_config :: "string \<Rightarrow> flex_slice_config option"
  js_ue_config :: "string \<Rightarrow> flex_ue_config_reply option"
  js_cell_config :: "string \<Rightarrow> flex_cell_config option"
  js_s1ap :: "string \<Rightarrow> flex_s1ap_config option"
  js_measurement :: "string \<Rightarrow> flex_measurement_info option"
  js_stats_requests :: "string \<Rightarrow> flex_complete_stats_request list option"

type_synonym 'a checked = "(string + 'a) result"

definition refuse :: "string \<Rightarrow> 'a result" where
  "refuse s = Inl (Invalid_argument s)"

definition parser_error :: "'a result" where
  "parser_error = refuse ''Protobuf parser error''"

definition parsed :: "'m option \<Rightarrow> ('m \<Rightarrow> 'a result) \<Rightarrow> 'a result" where
  "parsed x f = (case x of None \<Rightarrow> parser_error | Some m \<Rightarrow> f m)"

text \<open>A dereference of the pointer that \<open>get_bs\<close> returns.\<close>

definition deref_bs :: "u64 \<Rightarrow> rib \<Rightarrow> enb_rib_info result" where
  "deref_bs b r = (case get_bs b r of None \<Rightarrow> Inl (Undefined_behaviour ''null base station'') | Some e \<Rightarrow> Inr e)"

lemma refuse_neq [simp]: "refuse s \<noteq> Inr x" "parser_error \<noteq> Inr x" "is_ok (refuse s) = False" "is_ok parser_error = False"
  by (simp_all add: refuse_def parser_error_def)

lemma parsed_Inr [result_simps]: "parsed x f = Inr y \<longleftrightarrow> (\<exists>m. x = Some m \<and> f m = Inr y)"
  by (auto simp: parsed_def split: option.splits)

section \<open>Names of base stations\<close>

text \<open>
  A resolver turns a name into an identifier; what it promises is that an identifier other than
  0 is that of something that exists, so that a client that tests for 0 may dereference.
\<close>

definition with_target :: "'b::zero result \<Rightarrow> 'a result \<Rightarrow> ('b \<Rightarrow> 'a result) \<Rightarrow> 'a result" where
  "with_target b e f = rbind b (\<lambda>b. if b = 0 then e else f b)"

locale resolver =
  fixes resolve :: "string \<Rightarrow> 's \<Rightarrow> 'b::zero result"
    and lookup :: "'b \<Rightarrow> 's \<Rightarrow> 'x option"
    and invar :: "'s \<Rightarrow> bool"
  assumes resolved: "invar s \<Longrightarrow> resolve name s = Inr b \<Longrightarrow> b \<noteq> 0 \<Longrightarrow> lookup b s \<noteq> None"
begin

lemma with_target_Inr:
  assumes "invar s" "\<And>x. e \<noteq> Inr x" "with_target (resolve name s) e f = Inr y"
  shows "\<exists>b x. resolve name s = Inr b \<and> b \<noteq> 0 \<and> lookup b s = Some x \<and> f b = Inr y"
  using assms resolved [OF assms(1)] by (fastforce simp: with_target_def rbind_Inr_eq split: if_splits)

end

lemma last_bs_id_exists: "last_bs_id r \<noteq> 0 \<Longrightarrow> get_bs (last_bs_id r) r \<noteq> None"
  using sm.find_last_key [of "eNB_configs r"] by (auto simp: last_bs_id_def get_bs_def sm_keys_def split: if_splits)

interpretation bs_name: resolver parse_bs_id get_bs "\<lambda>_. True"
proof
  show "get_bs b s \<noteq> None" if "parse_bs_id name s = Inr b" "b \<noteq> 0" for name s b
    using that last_bs_id_exists [of s]
    by (auto simp: parse_bs_id_def split: if_splits sum.splits exn.splits)
qed

interpretation agent_name: resolver parse_enb_agent_id get_bs rib_inv
proof
  show "get_bs b s \<noteq> None" if "rib_inv s" "parse_enb_agent_id name s = Inr b" "b \<noteq> 0" for name s b
  proof -
    have "get_bs (get_bs_id i s) s \<noteq> None" if "get_bs_id i s \<noteq> 0" for i
      using that rib_invD(5) [OF \<open>rib_inv s\<close>, of i] by (auto simp: get_bs_id_def get_agent_def split: option.splits)
    then show ?thesis
      using that(2,3) last_bs_id_exists [of s]
      by (auto simp: parse_enb_agent_id_def split: if_splits sum.splits exn.splits)
  qed
qed

section \<open>Reconfiguration messages\<close>

definition reconfigure_header :: "flex_header option" where
  "reconfigure_header = Some (mk_header FLPT_RECONFIGURE_AGENT 0)"

definition cell_reconfiguration :: "flex_cell_config \<Rightarrow> flexran_message" where
  "cell_reconfiguration cc = message_of INITIATING_MESSAGE
     (Enb_config_reply_msg (empty_enb_config\<lparr>cell_config := [cc], enb_header := reconfigure_header\<rparr>))"

definition ue_reconfiguration :: "flex_ue_config_reply \<Rightarrow> flexran_message" where
  "ue_reconfiguration ues = message_of INITIATING_MESSAGE (Ue_config_reply_msg (ues\<lparr>uer_header := reconfigure_header\<rparr>))"

definition mme_reconfiguration :: "flex_s1ap_config \<Rightarrow> flexran_message" where
  "mme_reconfiguration s = message_of INITIATING_MESSAGE
     (Enb_config_reply_msg (empty_enb_config\<lparr>s1ap := Some s, enb_header := reconfigure_header\<rparr>))"

section \<open>Ticks\<close>

text \<open>The filter that \<open>event/subscription.cc\<close> puts around a callback of \<open>subscribe_task_tick\<close>.\<close>

definition tick_due :: "u64 \<Rightarrow> u64 \<Rightarrow> u64 \<Rightarrow> bool" where
  "tick_due period start t \<longleftrightarrow> t \<ge> start \<and> (t - start) mod period = 0"

section \<open>Base stations and users\<close>

lemma available_get_bs: "b \<in> set (get_available_base_stations r) \<longleftrightarrow> get_bs b r \<noteq> None"
  unfolding get_available_base_stations_def get_bs_def sm_set_keys by simp

lemma users_known:
  assumes "rib_inv r" "get_bs b r = Some e" "c \<in> set (ue_config (ue_configs e))"
  shows "get_ue_mac_info (rnti_of c) e \<noteq> None"
proof -
  have "enb_inv e" using rib_invD(3) [OF assms(1,2)] by (simp add: bs_ok_def)
  then show ?thesis using assms(3) unfolding enb_inv_def get_ue_mac_info_def by blast
qed

end
