(* ===== verification/Stats_Manager.thy ===== *)
theory Stats_Manager
  imports App_Common
begin

text \<open>
  \<open>app/stats_manager.{h,cc}\<close>: the statistics that the base stations are asked to report. The
  manager keeps, per base station, the requests in force; request number \<open>i\<close> is known to the
  agents as transaction \<open>i\<close>.
\<close>

section \<open>Definitions\<close>

type_synonym stats_requests = "flex_complete_stats_request list"

text \<open>State and outbox.\<close>

type_synonym stats = "(u64, stats_requests) std_map \<times> outbox"

definition FLUST :: "string \<Rightarrow> nat" where
  "FLUST s = (case map_of [(''BSR'', 1), (''PHR'', 2), (''RLC_BS'', 4), (''MAC_CE_BS'', 8), (''DL_CQI'', 16),
     (''PBS'', 32), (''UL_CQI'', 64), (''MAC_STATS'', 128), (''PDCP_STATS'', 1024), (''GTP_STATS'', 2048),
     (''S1AP_STATS'', 4096), (''RRC_MEASUREMENTS'', 65536)] s of None \<Rightarrow> 0 | Some n \<Rightarrow> n)"

definition FLCST_NOISE_INTERFERENCE :: nat where "FLCST_NOISE_INTERFERENCE = 1"

definition default_stats_request :: stats_requests where
  "default_stats_request = [\<lparr>report_frequency = Some FLSRF_PERIODICAL, sf = Some 100,
     cell_report_flags = None, ue_report_flags = None,
     cell_reports = [FLCST_NOISE_INTERFERENCE],
     ue_reports = map FLUST [''PHR'', ''DL_CQI'', ''BSR'', ''RLC_BS'', ''MAC_CE_BS'', ''UL_CQI'',
       ''RRC_MEASUREMENTS'', ''PDCP_STATS'', ''MAC_STATS'', ''GTP_STATS'', ''S1AP_STATS'']\<rparr>]"

definition flags_of :: "nat list \<Rightarrow> u32" where
  "flags_of fs = fold (\<lambda>f w. or w (of_nat f)) fs 0"

text \<open>The request as it is sent: the repeated report types become flags.\<close>

definition wire_request :: "flex_complete_stats_request \<Rightarrow> flex_complete_stats_request" where
  "wire_request q = \<lparr>report_frequency = Some (get_or FLSRF_ONCE (report_frequency q)), sf = Some (get_or 0 (sf q)),
     cell_report_flags = Some (flags_of (cell_reports q)), ue_report_flags = Some (flags_of (ue_reports q)),
     cell_reports = [], ue_reports = []\<rparr>"

definition stats_request_message :: "u32 \<Rightarrow> flex_complete_stats_request \<Rightarrow> flexran_message" where
  "stats_request_message xid q = message_of INITIATING_MESSAGE (Stats_request_msg (Some (mk_header FLPT_STATS_REQUEST xid)) q)"

definition push_complete_stats_request :: "u64 \<Rightarrow> u32 \<Rightarrow> flex_complete_stats_request \<Rightarrow> rib \<Rightarrow> outbox \<Rightarrow> outbox" where
  "push_complete_stats_request b xid q r out = send_message b (stats_request_message xid (wire_request q)) r out"

definition off_request :: flex_complete_stats_request where
  "off_request = empty_complete_request\<lparr>report_frequency := Some FLSRF_OFF\<rparr>"

definition remove_complete_stats_request :: "u64 \<Rightarrow> u32 \<Rightarrow> rib \<Rightarrow> outbox \<Rightarrow> outbox" where
  "remove_complete_stats_request b xid r out = send_message b (stats_request_message xid off_request) r out"

definition stats_bs_add :: "u64 \<Rightarrow> rib \<Rightarrow> stats \<Rightarrow> stats" where
  "stats_bs_add b r = (\<lambda>(lst, out).
     (sm_emplace b default_stats_request lst,
      fold (\<lambda>q. push_complete_stats_request b 0 q r) default_stats_request out))"

definition stats_bs_remove :: "u64 \<Rightarrow> stats \<Rightarrow> stats" where
  "stats_bs_remove b = (\<lambda>(lst, out). (case sm_find b lst of None \<Rightarrow> (lst, out) | Some _ \<Rightarrow> (sm_erase b lst, out)))"

definition get_stats_requests ::
  "(stats_requests \<Rightarrow> string option) \<Rightarrow> string \<Rightarrow> rib \<Rightarrow> (u64, stats_requests) std_map \<Rightarrow> string checked" where
  "get_stats_requests print bs r lst = rbind (parse_enb_agent_id bs r) (\<lambda>b.
     Inr (case sm_find b lst of
       None \<Rightarrow> Inl ''can not find BS''
     | Some rs \<Rightarrow> (case print rs of None \<Rightarrow> Inl ''ProtoBuf parser error'' | Some s \<Rightarrow> Inr s)))"

text \<open>The two loops of \<open>set_stats_requests\<close>; the second writes through an iterator that may be \<open>end()\<close>.\<close>

definition stop_requests :: "u64 \<Rightarrow> rib \<Rightarrow> stats \<Rightarrow> stats" where
  "stop_requests b r = (\<lambda>(lst, out). (case sm_find b lst of
     None \<Rightarrow> (lst, out)
   | Some rs \<Rightarrow> (sm_put b [] lst,
       fold (\<lambda>xid. remove_complete_stats_request b (of_nat xid) r) [0..<length rs] out)))"

definition start_request :: "u64 \<Rightarrow> rib \<Rightarrow> nat \<times> flex_complete_stats_request \<Rightarrow> stats \<Rightarrow> stats result" where
  "start_request b r = (\<lambda>(xid, q) (lst, out).
     (case sm_find b lst of
        None \<Rightarrow> Inl (Undefined_behaviour ''bs_list_.end() dereferenced'')
      | Some rs \<Rightarrow> Inr (sm_put b (rs @ [q]) lst, push_complete_stats_request b (of_nat xid) q r out)))"

definition set_stats_requests :: "json \<Rightarrow> string \<Rightarrow> string \<Rightarrow> rib \<Rightarrow> stats \<Rightarrow> stats checked" where
  "set_stats_requests js bs policy r st = rbind (parse_enb_agent_id bs r) (\<lambda>b.
     if b = 0 then Inr (Inl ''can not find BS'')
     else case js_stats_requests js policy of
       None \<Rightarrow> Inr (Inl ''ProtoBuf parser error'')
     | Some qs \<Rightarrow> rbind (foldR (start_request b r) (enumerate 0 qs) (stop_requests b r st)) (\<lambda>st'. Inr (Inr st')))"

section \<open>Queries\<close>

definition newlines :: "nat \<Rightarrow> string" where
  "newlines n = replicate n (CHR 0x0A)"

definition all_enb_configs_to_string :: "protobuf \<Rightarrow> rib \<Rightarrow> string" where
  "all_enb_configs_to_string pb r =
     ''**************************'' @ newlines 1 @ ''* BS/Cell Configurations *'' @ newlines 1
     @ ''**************************'' @ newlines 1 @ dump_all_enb_configurations_to_string pb r"

definition all_mac_configs_to_string :: "protobuf \<Rightarrow> rib \<Rightarrow> string" where
  "all_mac_configs_to_string pb r =
     ''***************'' @ newlines 1 @ ''UE statistics'' @ newlines 1
     @ ''****************'' @ newlines 1 @ dump_all_mac_stats_to_string pb r"

definition all_stats_to_string :: "protobuf \<Rightarrow> rib \<Rightarrow> string" where
  "all_stats_to_string pb r = all_enb_configs_to_string pb r @ newlines 3 @ all_mac_configs_to_string pb r @ newlines 1"

text \<open>\<open>date_time\<close> is the formatted time of the call.\<close>

definition all_stats_to_json :: "protobuf \<Rightarrow> string \<Rightarrow> rib \<Rightarrow> string" where
  "all_stats_to_json pb date_time r = format_statistics_to_json date_time
     (dump_all_enb_configurations_to_json pb r) (dump_all_mac_stats_to_json pb r)"

definition stats_by_bs_id_to_json :: "protobuf \<Rightarrow> string \<Rightarrow> u64 \<Rightarrow> rib \<Rightarrow> bool \<times> string" where
  "stats_by_bs_id_to_json pb date_time b r =
     (case dump_enb_configurations_by_bs_id pb b r of
        None \<Rightarrow> (False, ''{}'')
      | Some j1 \<Rightarrow> (case dump_mac_stats_by_bs_id pb b r of
          None \<Rightarrow> (False, ''{}'')
        | Some j2 \<Rightarrow> (True, format_statistics_to_json date_time j1 j2)))"

definition all_enb_configs_to_json :: "protobuf \<Rightarrow> string \<Rightarrow> rib \<Rightarrow> string" where
  "all_enb_configs_to_json pb date_time r =
     format_statistics_to_json date_time (dump_all_enb_configurations_to_json pb r) []"

definition enb_configs_by_bs_id_to_json :: "protobuf \<Rightarrow> string \<Rightarrow> u64 \<Rightarrow> rib \<Rightarrow> bool \<times> string" where
  "enb_configs_by_bs_id_to_json pb date_time b r = (let j = dump_enb_configurations_by_bs_id pb b r in
     (j \<noteq> None, format_statistics_to_json date_time (get_or [] j) []))"

definition all_mac_configs_to_json :: "protobuf \<Rightarrow> string \<Rightarrow> rib \<Rightarrow> string" where
  "all_mac_configs_to_json pb date_time r =
     format_statistics_to_json date_time [] (dump_all_mac_stats_to_json pb r)"

definition mac_configs_by_bs_id_to_json :: "protobuf \<Rightarrow> string \<Rightarrow> u64 \<Rightarrow> rib \<Rightarrow> bool \<times> string" where
  "mac_configs_by_bs_id_to_json pb date_time b r = (let j = dump_mac_stats_by_bs_id pb b r in
     (j \<noteq> None, format_statistics_to_json date_time [] (get_or [] j)))"

definition parse_rnti_imsi_at :: "u64 \<Rightarrow> string \<Rightarrow> rib \<Rightarrow> u32 option result" where
  "parse_rnti_imsi_at b s r = rbind (deref_bs b r) (parse_rnti_imsi s)"

primrec find_in_bs :: "string \<Rightarrow> rib \<Rightarrow> u64 list \<Rightarrow> (u64 \<times> u32) option result" where
  "find_in_bs s r [] = Inr None"
| "find_in_bs s r (b # bs) = rbind (parse_rnti_imsi_at b s r) (\<lambda>res. case res of
     Some rnti \<Rightarrow> Inr (Some (b, rnti)) | None \<Rightarrow> find_in_bs s r bs)"

definition parse_rnti_imsi_find_bs :: "string \<Rightarrow> rib \<Rightarrow> (u64 \<times> u32) option result" where
  "parse_rnti_imsi_find_bs s r = find_in_bs s r (get_available_base_stations r)"

section \<open>The view of an agent\<close>

text \<open>
  What the messages an agent received have it report: per transaction the last request, none
  after \<open>FLSRF_OFF\<close>.
\<close>

definition agent_step :: "flexran_message \<Rightarrow> (u32 \<rightharpoonup> flex_complete_stats_request) \<Rightarrow> (u32 \<rightharpoonup> flex_complete_stats_request)" where
  "agent_step m v = (case msg_body m of
     Some (Stats_request_msg h q) \<Rightarrow>
       v(header_xid h := (if report_frequency q = Some FLSRF_OFF then None else Some q))
   | _ \<Rightarrow> v)"

definition agent_view :: "flexran_message list \<Rightarrow> (u32 \<rightharpoonup> flex_complete_stats_request) \<Rightarrow> (u32 \<rightharpoonup> flex_complete_stats_request)" where
  "agent_view ms v = fold agent_step ms v"

text \<open>The view that corresponds to a list of requests.\<close>

definition view_of :: "stats_requests \<Rightarrow> u32 \<rightharpoonup> flex_complete_stats_request" where
  "view_of qs xid = (if unat xid < length qs \<and> get_or FLSRF_ONCE (report_frequency (qs ! unat xid)) \<noteq> FLSRF_OFF
     then Some (wire_request (qs ! unat xid)) else None)"

lemma agent_step_simps [simp]:
  "agent_step (stats_request_message xid off_request) v = v(xid := None)"
  "agent_step (stats_request_message xid (wire_request q)) v =
     v(xid := (if get_or FLSRF_ONCE (report_frequency q) = FLSRF_OFF then None else Some (wire_request q)))"
  by (simp_all add: agent_step_def stats_request_message_def message_of_def header_xid_def mk_header_def
      off_request_def wire_request_def)

lemma view_stop:
  "n \<le> 2 ^ 32 \<Longrightarrow> agent_view (map (\<lambda>xid. stats_request_message (of_nat xid) off_request) [0..<n]) v =
     (\<lambda>xid. if unat xid < n then None else v xid)"
proof (induction n)
  case (Suc n)
  then have "n < 2 ^ 32" by simp
  then have u: "unat (xid :: u32) < Suc n \<longleftrightarrow> unat xid < n \<or> xid = of_nat n" for xid
    by (auto simp: less_Suc_eq word_unat_eq_iff unat_of_nat_small)
  have IH: "fold agent_step (map (\<lambda>xid. stats_request_message (of_nat xid) off_request) [0..<n]) v =
      (\<lambda>xid. if unat xid < n then None else v xid)"
    using Suc by (simp add: agent_view_def)
  show ?case unfolding agent_view_def by (auto simp: IH u)
qed (simp add: agent_view_def)

lemma view_start:
  "length qs \<le> 2 ^ 32 \<Longrightarrow>
     agent_view (map (\<lambda>(xid, q). stats_request_message (of_nat xid) (wire_request q)) (enumerate 0 qs)) v =
     (\<lambda>xid. if unat xid < length qs then view_of qs xid else v xid)"
proof (induction qs rule: rev_induct)
  case (snoc q qs)
  then have n: "length qs < 2 ^ 32" by simp
  then have u: "unat (xid :: u32) < Suc (length qs) \<longleftrightarrow> unat xid < length qs \<or> xid = of_nat (length qs)" for xid
    by (auto simp: less_Suc_eq word_unat_eq_iff unat_of_nat_small)
  have len: "unat (of_nat (length qs) :: u32) = length qs" using n by (simp add: unat_of_nat_small)
  have IH: "fold agent_step (map (\<lambda>(xid, q). stats_request_message (of_nat xid) (wire_request q)) (enumerate 0 qs)) v =
      (\<lambda>xid. if unat xid < length qs then view_of qs xid else v xid)"
    using snoc by (simp add: agent_view_def)
  show ?case
    unfolding agent_view_def enumerate_append_eq
    by (rule ext) (auto simp: IH u len view_of_def nth_append)
qed (simp add: agent_view_def)

section \<open>A change of the requests\<close>

lemma start_requests:
  assumes "sm_find b lst = Some rs"
  shows "foldR (start_request b r) (enumerate n qs) (lst, out) =
     Inr (fold (\<lambda>q l. sm_put b (the (sm_find b l) @ [q]) l) qs lst,
          fold (\<lambda>m. send_message b m r) (map (\<lambda>(xid, q). stats_request_message (of_nat xid) (wire_request q)) (enumerate n qs)) out)"
  using assms
proof (induction qs arbitrary: n lst rs out)
  case (Cons q qs)
  have "sm_find b (sm_put b (rs @ [q]) lst) = Some (rs @ [q])" by simp
  from Cons.IH [OF this] show ?case using Cons.prems by (simp add: start_request_def push_complete_stats_request_def)
qed simp

lemma stored_requests:
  assumes "sm_find b lst = Some rs"
  shows "sm_find k (fold (\<lambda>q l. sm_put b (the (sm_find b l) @ [q]) l) qs lst) =
     (if k = b then Some (rs @ qs) else sm_find k lst)"
  using assms
proof (induction qs arbitrary: lst rs)
  case (Cons q qs)
  have "sm_find b (sm_put b (rs @ [q]) lst) = Some (rs @ [q])" by simp
  from Cons.IH [OF this] show ?case using Cons.prems by simp
qed simp

text \<open>The messages of a change: the old transactions are stopped, then the new ones started.\<close>

definition change_messages :: "stats_requests \<Rightarrow> stats_requests \<Rightarrow> flexran_message list" where
  "change_messages rs qs = map (\<lambda>xid. stats_request_message (of_nat xid) off_request) [0..<length rs]
     @ map (\<lambda>(xid, q). stats_request_message (of_nat xid) (wire_request q)) (enumerate 0 qs)"

lemma change_requests:
  assumes "sm_find b lst = Some rs"
  shows "\<exists>lst'. foldR (start_request b r) (enumerate 0 qs) (stop_requests b r (lst, out)) =
       Inr (lst', fold (\<lambda>m. send_message b m r) (change_messages rs qs) out)
     \<and> (\<forall>k. sm_find k lst' = (if k = b then Some qs else sm_find k lst))"
proof -
  let ?stop = "fold (\<lambda>xid. remove_complete_stats_request b (of_nat xid) r) [0..<length rs] out"
  have stop: "?stop = fold (\<lambda>m. send_message b m r) (map (\<lambda>xid. stats_request_message (of_nat xid) off_request) [0..<length rs]) out"
    unfolding fold_map comp_def
    by (rule fold_cong) (simp_all add: fun_eq_iff remove_complete_stats_request_def)
  have f: "sm_find b (sm_put b [] lst) = Some []" by simp
  show ?thesis
    unfolding stop_requests_def prod.case assms option.case start_requests [OF f] stop change_messages_def fold_append
    using stored_requests [OF f] by simp
qed

lemma change_view:
  assumes "length rs \<le> 2 ^ 32" "length qs \<le> 2 ^ 32"
  shows "agent_view (change_messages rs qs) (view_of rs) = view_of qs"
proof -
  have "agent_view (change_messages rs qs) v =
      agent_view (map (\<lambda>(xid, q). stats_request_message (of_nat xid) (wire_request q)) (enumerate 0 qs))
        (agent_view (map (\<lambda>xid. stats_request_message (of_nat xid) off_request) [0..<length rs]) v)" for v
    by (simp add: agent_view_def change_messages_def)
  then show ?thesis
    unfolding view_stop [OF assms(1)] view_start [OF assms(2)] by (auto simp: view_of_def)
qed

lemma parse_enb_agent_id_Inl: "parse_enb_agent_id s r = Inl e \<Longrightarrow> e = Out_of_range ''stoll''"
  by (auto simp: parse_enb_agent_id_def parse_number_def rbind_Inl_eq stoll_def split: if_splits sum.splits exn.splits option.splits)

text \<open>A base station that is listed can be given requests without touching \<open>end()\<close>.\<close>

lemma set_stats_requests_listed:
  assumes "rib_inv r" "\<And>b. get_bs b r \<noteq> None \<Longrightarrow> sm_find b lst \<noteq> None"
  shows "(\<exists>e. set_stats_requests js bs policy r (lst, out) = Inl (Out_of_range e))
     \<or> (\<exists>e. set_stats_requests js bs policy r (lst, out) = Inr (Inl e))
     \<or> (\<exists>lst' out'. set_stats_requests js bs policy r (lst, out) = Inr (Inr (lst', out'))
          \<and> (\<forall>k. sm_find k lst' = None \<longleftrightarrow> sm_find k lst = None))"
proof (cases "parse_enb_agent_id bs r")
  case (Inl e)
  then show ?thesis using parse_enb_agent_id_Inl [OF Inl] by (simp add: set_stats_requests_def)
next
  case (Inr b)
  show ?thesis
  proof (cases "b = 0 \<or> js_stats_requests js policy = None")
    case False
    then obtain qs where qs: "b \<noteq> 0" "js_stats_requests js policy = Some qs" by auto
    have "sm_find b lst \<noteq> None" using agent_name.resolved [OF assms(1) Inr qs(1)] assms(2) by blast
    then obtain rs where rs: "sm_find b lst = Some rs" by blast
    obtain lst' out' where c: "foldR (start_request b r) (enumerate 0 qs) (stop_requests b r (lst, out)) = Inr (lst', out')"
      "\<And>k. sm_find k lst' = (if k = b then Some qs else sm_find k lst)"
      using change_requests [OF rs, of r qs out] by blast
    have "\<forall>k. sm_find k lst' = None \<longleftrightarrow> sm_find k lst = None" using rs by (simp add: c(2))
    then show ?thesis using c(1) Inr qs by (simp add: set_stats_requests_def)
  qed (auto simp: set_stats_requests_def Inr)
qed

section \<open>Properties\<close>

lemma last_bs_id_online: "last_bs_id bs_online = 7"
proof -
  have ne: "eNB_configs bs_online \<noteq> []"
    using bs_online_state(2) [of 7] by (auto simp: get_bs_def)
  then have "sm_keys (eNB_configs bs_online) \<noteq> []" by (simp add: sm_keys_def)
  from sm.find_last_key [OF this] have "get_bs (last_bs_id bs_online) bs_online \<noteq> None"
    using ne by (simp add: last_bs_id_def get_bs_def)
  then show ?thesis by (simp add: bs_online_state split: if_splits)
qed

definition req_example :: flex_complete_stats_request where
  "req_example = empty_complete_request\<lparr>report_frequency := Some FLSRF_PERIODICAL, sf := Some 50, ue_reports := [1, 2]\<rparr>"

definition stats_json :: json where
  "stats_json = \<lparr>js_slice_config = (\<lambda>_. None), js_ue_config = (\<lambda>_. None), js_cell_config = (\<lambda>_. None),
     js_s1ap = (\<lambda>_. None), js_measurement = (\<lambda>_. None), js_stats_requests = (\<lambda>_. Some [req_example, req_example])\<rparr>"

text \<open>C22. A change of the statistics requests of a base station that was accepted is stored, leaves
  the other base stations alone, and is in force: every agent of the base station that reported
  by the old list reports by exactly the new one afterwards, and nobody else is told anything.\<close>

theorem stats_requests_in_force:
  assumes "rib_inv r" "rib_unique r" "sm_find b lst = Some rs" "parse_enb_agent_id bs r = Inr b"
    and "set_stats_requests js bs policy r (lst, []) = Inr (Inr (lst', out))"
    and "length rs \<le> 2 ^ 32" "length (the (js_stats_requests js policy)) \<le> 2 ^ 32"
  shows "\<exists>qs. js_stats_requests js policy = Some qs \<and> sm_find b lst' = Some qs
     \<and> (\<forall>k. k \<noteq> b \<longrightarrow> sm_find k lst' = sm_find k lst)
     \<and> (\<forall>i. agent_view (map snd (filter (\<lambda>p. fst p = i) out)) (view_of rs) =
           (if i \<in> set (bs_members b r) then view_of qs else view_of rs))"
proof -
  obtain qs where qs: "js_stats_requests js policy = Some qs"
    using assms(4,5) by (auto simp: set_stats_requests_def split: if_splits option.splits)
  obtain l where l: "foldR (start_request b r) (enumerate 0 qs) (stop_requests b r (lst, [])) =
       Inr (l, fold (\<lambda>m. send_message b m r) (change_messages rs qs) [])"
    "\<And>k. sm_find k l = (if k = b then Some qs else sm_find k lst)"
    using change_requests [OF assms(3)] by blast
  have "lst' = l" "out = fold (\<lambda>m. send_message b m r) (change_messages rs qs) []"
    using assms(4,5) qs l(1) by (auto simp: set_stats_requests_def split: if_splits)
  then show ?thesis
    using qs l(2) change_view [OF assms(6), of qs] assms(7)
    by (simp add: mes.send_seen_by [OF bs_members_distinct [OF assms(1,2)]])
       (simp add: agent_view_def)
qed

theorem stats_requests_in_force_witness:
  "\<exists>lst' out. set_stats_requests stats_json ''-1'' [] bs_online ([(7, default_stats_request)], []) = Inr (Inr (lst', out))
     \<and> sm_find 7 lst' = Some [req_example, req_example]
     \<and> agent_view (map snd (filter (\<lambda>p. fst p = 2) out)) (view_of default_stats_request) = view_of [req_example, req_example]"
proof -
  have b: "parse_enb_agent_id ''-1'' bs_online = Inr 7"
    using last_bs_id_online by (simp add: parse_enb_agent_id_def)
  have m: "2 \<in> set (bs_members 7 bs_online)"
    by (simp add: bs_members_def bs_online_state new_enb_def example_agents)
  have f: "sm_find 7 [(7 :: u64, default_stats_request)] = Some default_stats_request" by simp
  obtain l out where r: "set_stats_requests stats_json ''-1'' [] bs_online ([(7, default_stats_request)], []) = Inr (Inr (l, out))"
    using change_requests [OF f, of bs_online "[req_example, req_example]" "[]"] b
    by (auto simp: set_stats_requests_def stats_json_def)
  show ?thesis
    using stats_requests_in_force [OF bs_online_inv f b r] r m
    by (auto simp: stats_json_def default_stats_request_def)
qed

end
