(* ===== verification/Slice_Check.thy ===== *)
theory Slice_Check
  imports App_Common
begin

text \<open>
  The test of a static slice configuration, \<open>rrm_management::verify_static_slice_configuration\<close>:
  resource block groups are claimed one by one in an array of 110 entries, first by the slices of
  the new configuration, then by the existing slices that it does not mention.
\<close>

section \<open>Definitions\<close>

definition has_params :: "flex_slice \<Rightarrow> bool" where
  "has_params s \<longleftrightarrow> slice_id s \<noteq> None \<and> (slice_label s \<noteq> None \<or> slice_scheduler s \<noteq> None \<or> slice_static s \<noteq> None)"

definition sid :: "flex_slice \<Rightarrow> u32" where
  "sid s = get_or 0 (slice_id s)"

definition complete_static :: "flex_slice \<Rightarrow> bool" where
  "complete_static s \<longleftrightarrow> (case slice_static s of None \<Rightarrow> False | Some p \<Rightarrow> posLow p \<noteq> None \<and> posHigh p \<noteq> None)"

definition low :: "flex_slice \<Rightarrow> nat" where
  "low s = (case slice_static s of None \<Rightarrow> 0 | Some p \<Rightarrow> unat (get_or 0 (posLow p)))"

definition high :: "flex_slice \<Rightarrow> nat" where
  "high s = (case slice_static s of None \<Rightarrow> 0 | Some p \<Rightarrow> unat (get_or 0 (posHigh p)))"

definition rbg_size :: nat where "rbg_size = 110"

text \<open>The inner loop, for \<open>i\<close> up to and including \<open>hi\<close>.\<close>

function claim :: "(nat \<Rightarrow> string) \<Rightarrow> nat \<Rightarrow> nat \<Rightarrow> int list \<Rightarrow> int list result" where
  "claim err i hi rbg =
     (if i > hi then Inr rbg
      else if i \<ge> length rbg then Inl (Undefined_behaviour ''rbg index out of range'')
      else if rbg ! i \<noteq> 0 then refuse (err i)
      else claim err (Suc i) hi (rbg[i := 1]))"
  by pat_completeness auto

termination
  by (relation "measure (\<lambda>(_, i, hi, _). Suc hi - i)") auto

declare claim.simps [simp del]

definition overlap_error :: "string \<Rightarrow> flex_slice \<Rightarrow> nat \<Rightarrow> string" where
  "overlap_error what s i = ''overlapping slices at RBG '' @ nat_to_string i @ '' for '' @ what @ u32_to_string (sid s)"

definition claim_new :: "flex_slice \<Rightarrow> int list \<Rightarrow> int list result" where
  "claim_new s rbg = (if slice_static s = None then Inr rbg else claim (overlap_error ''slice '' s) (low s) (high s) rbg)"

definition claim_existing :: "flex_slice list \<Rightarrow> flex_slice \<Rightarrow> int list \<Rightarrow> int list result" where
  "claim_existing new s rbg =
     (if list_ex (\<lambda>cs. sid cs = sid s) new then Inr rbg
      else claim (overlap_error ''existing slice '' s) (low s) (high s) rbg)"

definition verify_static_slice_configuration ::
  "flex_slice_dl_ul_config \<Rightarrow> flex_slice_dl_ul_config \<Rightarrow> unit result" where
  "verify_static_slice_configuration nc exist =
     (if scheduler nc \<noteq> None then refuse ''cannot have a single scheduler''
      else if \<not> list_all has_params (slices nc) then refuse ''all slices need to have an ID and parameters''
      else if \<not> list_all (\<lambda>s. list_ex (\<lambda>es. sid es = sid s) (slices exist) \<or> complete_static s) (slices nc)
      then refuse ''all new slices need to have complete parameters''
      else rbind (foldR claim_new (slices nc) (replicate rbg_size 0)) (\<lambda>rbg.
        rbind (foldR (claim_existing (slices nc)) (slices exist) rbg) (\<lambda>_. Inr ())))"

section \<open>Claims as sets\<close>

definition taken :: "int list \<Rightarrow> nat set" where
  "taken rbg = {i. i < length rbg \<and> rbg ! i \<noteq> 0}"

lemma claim_iff:
  "claim err i hi rbg = Inr rbg' \<Longrightarrow>
     {i..hi} \<inter> taken rbg = {} \<and> {i..hi} \<subseteq> {..<length rbg} \<and> length rbg' = length rbg \<and> taken rbg' = taken rbg \<union> {i..hi}"
  "{i..hi} \<inter> taken rbg = {} \<Longrightarrow> {i..hi} \<subseteq> {..<length rbg} \<Longrightarrow> is_ok (claim err i hi rbg)"
proof -
  have split: "{i..hi} = insert i {Suc i..hi}" if "i \<le> hi" for i hi :: nat using that by auto
  have upd: "taken (rbg[i := 1]) = insert i (taken rbg)" if "i < length rbg" for rbg i
    using that by (auto simp: taken_def nth_list_update)
  show "{i..hi} \<inter> taken rbg = {} \<and> {i..hi} \<subseteq> {..<length rbg} \<and> length rbg' = length rbg \<and> taken rbg' = taken rbg \<union> {i..hi}"
    if "claim err i hi rbg = Inr rbg'"
    using that
  proof (induction err i hi rbg rule: claim.induct)
    case (1 err i hi rbg)
    show ?case
    proof (cases "i > hi")
      case True
      then show ?thesis using 1(2) by (subst (asm) claim.simps) auto
    next
      case False
      then have i: "i < length rbg" "rbg ! i = 0" "claim err (Suc i) hi (rbg[i := 1]) = Inr rbg'"
        using 1(2) by (subst (asm) claim.simps, auto split: if_splits)+
      note IH = 1(1) [OF False _ _ i(3)]
      have "i \<notin> taken rbg" using i(2) by (simp add: taken_def)
      then show ?thesis using IH i split [of i hi] False upd [OF i(1)] by auto
    qed
  qed
  show "is_ok (claim err i hi rbg)" if "{i..hi} \<inter> taken rbg = {}" "{i..hi} \<subseteq> {..<length rbg}"
    using that
  proof (induction err i hi rbg rule: claim.induct)
    case (1 err i hi rbg)
    show ?case
    proof (cases "i > hi")
      case True
      then show ?thesis by (subst claim.simps) simp
    next
      case False
      then have m: "i \<in> {i..hi}" by simp
      then have i: "i < length rbg" using 1(3) by blast
      moreover have "i \<notin> taken rbg" using m 1(2) by blast
      ultimately have i: "i < length rbg" "rbg ! i = 0" by (simp_all add: taken_def)
      have "is_ok (claim err (Suc i) hi (rbg[i := 1]))"
        using 1(1) [OF False] i 1(2,3) upd [OF i(1)] split [of i hi] False by auto
      then show ?thesis using False i by (subst claim.simps) simp
    qed
  qed
qed

text \<open>A list of claims fits when they are in range, pairwise disjoint, and disjoint from \<open>T\<close>.\<close>

definition rng :: "flex_slice \<Rightarrow> nat set" where
  "rng s = {low s..high s}"

definition fits :: "flex_slice list \<Rightarrow> nat set \<Rightarrow> bool" where
  "fits ss T \<longleftrightarrow> sorted_wrt (\<lambda>s s'. rng s \<inter> rng s' = {}) ss \<and> (\<forall>s \<in> set ss. rng s \<subseteq> {..<rbg_size} \<and> rng s \<inter> T = {})"

definition covered :: "flex_slice list \<Rightarrow> nat set" where
  "covered ss = (\<Union>s \<in> set ss. rng s)"

lemma covered_simps [simp]: "covered [] = {}" "covered (s # ss) = rng s \<union> covered ss"
  by (simp_all add: covered_def)

lemma fits_Nil [simp]: "fits [] T"
  by (simp add: fits_def)

lemma fits_Cons: "fits (s # ss) T \<longleftrightarrow> rng s \<subseteq> {..<rbg_size} \<and> rng s \<inter> T = {} \<and> fits ss (T \<union> rng s)"
  unfolding fits_def by auto

lemma fits_append: "fits (xs @ ys) T \<longleftrightarrow> fits xs T \<and> fits ys (T \<union> covered xs)"
  by (induction xs arbitrary: T) (simp_all add: fits_Cons Un_assoc)

text \<open>A loop that claims the ranges of the slices it does not skip.\<close>

lemma foldR_claim:
  assumes "\<And>s rbg. f s rbg = (if skip s then Inr rbg else claim (err s) (low s) (high s) rbg)"
  shows "length rbg = rbg_size \<Longrightarrow> fits (filter (\<lambda>s. \<not> skip s) ss) (taken rbg) \<Longrightarrow>
       \<exists>rbg'. foldR f ss rbg = Inr rbg' \<and> length rbg' = rbg_size
         \<and> taken rbg' = taken rbg \<union> covered (filter (\<lambda>s. \<not> skip s) ss)"
    and "length rbg = rbg_size \<Longrightarrow> \<not> fits (filter (\<lambda>s. \<not> skip s) ss) (taken rbg) \<Longrightarrow> \<not> is_ok (foldR f ss rbg)"
proof -
  have f_skip: "f s rbg = Inr rbg" if "skip s" for s rbg using that by (simp only: assms if_True)
  have f_claim: "f s rbg = claim (err s) (low s) (high s) rbg" if "\<not> skip s" for s rbg using that by (simp only: assms if_False)
  show "\<exists>rbg'. foldR f ss rbg = Inr rbg' \<and> length rbg' = rbg_size
      \<and> taken rbg' = taken rbg \<union> covered (filter (\<lambda>s. \<not> skip s) ss)"
    if "length rbg = rbg_size" "fits (filter (\<lambda>s. \<not> skip s) ss) (taken rbg)"
    using that
  proof (induction ss arbitrary: rbg)
    case (Cons s ss)
    show ?case
    proof (cases "skip s")
      case True
      then show ?thesis using Cons f_skip [OF True] by simp
    next
      case False
      then have fit: "rng s \<subseteq> {..<rbg_size}" "rng s \<inter> taken rbg = {}"
        "fits (filter (\<lambda>s. \<not> skip s) ss) (taken rbg \<union> rng s)"
        using Cons.prems(2) by (simp_all add: fits_Cons)
      obtain r where r: "f s rbg = Inr r"
        using claim_iff(2) [of "low s" "high s" rbg "err s"] fit(1,2) Cons.prems(1) f_claim [OF False]
        by (auto simp: is_ok_iff rng_def)
      then have "length r = rbg_size" "taken r = taken rbg \<union> rng s"
        using claim_iff(1) [of "err s" "low s" "high s" rbg r] f_claim [OF False] Cons.prems(1) by (simp_all add: rng_def)
      then show ?thesis using Cons.IH [of r] fit(3) r False by (simp add: Un_assoc)
    qed
  qed simp
  show "\<not> is_ok (foldR f ss rbg)"
    if "length rbg = rbg_size" "\<not> fits (filter (\<lambda>s. \<not> skip s) ss) (taken rbg)"
    using that
  proof (induction ss arbitrary: rbg)
    case (Cons s ss)
    show ?case
    proof (cases "skip s")
      case True
      then show ?thesis using Cons f_skip [OF True] by simp
    next
      case False
      show ?thesis
      proof
        assume "is_ok (foldR f (s # ss) rbg)"
        then obtain r where r: "f s rbg = Inr r" "is_ok (foldR f ss r)" by (auto simp: is_ok_rbind)
        then have c: "rng s \<inter> taken rbg = {}" "rng s \<subseteq> {..<rbg_size}" "length r = rbg_size" "taken r = taken rbg \<union> rng s"
          using claim_iff(1) [of "err s" "low s" "high s" rbg r] f_claim [OF False] Cons.prems(1) by (simp_all add: rng_def)
        then have "\<not> fits (filter (\<lambda>s. \<not> skip s) ss) (taken r)" using Cons.prems(2) False by (simp add: fits_Cons)
        then show False using Cons.IH [OF c(3)] r(2) by blast
      qed
    qed
  qed simp
qed

text \<open>The slices whose ranges the test compares.\<close>

definition compared_slices :: "flex_slice_dl_ul_config \<Rightarrow> flex_slice_dl_ul_config \<Rightarrow> flex_slice list" where
  "compared_slices nc exist = filter (\<lambda>s. slice_static s \<noteq> None) (slices nc)
     @ filter (\<lambda>s. \<not> list_ex (\<lambda>cs. sid cs = sid s) (slices nc)) (slices exist)"

lemmas claim_loops =
  foldR_claim [of claim_new "\<lambda>s. slice_static s = None" "overlap_error ''slice ''", OF claim_new_def]
  foldR_claim [of "claim_existing new" "\<lambda>s. list_ex (\<lambda>cs. sid cs = sid s) new"
      "overlap_error ''existing slice ''", OF claim_existing_def] for new

lemma claim_both:
  "is_ok (rbind (foldR claim_new (slices nc) (replicate rbg_size 0)) (\<lambda>rbg.
        foldR (claim_existing (slices nc)) (slices exist) rbg)) \<longleftrightarrow> fits (compared_slices nc exist) {}"
proof -
  let ?n = "filter (\<lambda>s. \<not> slice_static s = None) (slices nc)"
  let ?e = "filter (\<lambda>s. \<not> list_ex (\<lambda>cs. sid cs = sid s) (slices nc)) (slices exist)"
  let ?r = "replicate rbg_size (0::int)"
  have t: "taken ?r = {}" "length ?r = rbg_size" by (auto simp: taken_def)
  show ?thesis
  proof (cases "fits ?n {}")
    case True
    then obtain r where r: "foldR claim_new (slices nc) ?r = Inr r" "length r = rbg_size" "taken r = covered ?n"
      using claim_loops(1) [OF t(2), of "slices nc"] t(1) by auto
    have "is_ok (foldR (claim_existing (slices nc)) (slices exist) r) \<longleftrightarrow> fits ?e (covered ?n)"
      using claim_loops(3,4) [OF r(2), where ss = "slices exist" and new = "slices nc"] r(3) by (auto simp: is_ok_iff)
    then show ?thesis using True r(1) by (simp add: compared_slices_def fits_append)
  next
    case False
    then have "\<not> is_ok (foldR claim_new (slices nc) ?r)"
      using claim_loops(2) [OF t(2), of "slices nc"] t(1) by simp
    then show ?thesis using False by (auto simp: compared_slices_def fits_append is_ok_iff rbind_Inr_eq)
  qed
qed

lemma accepted_iff_fits:
  "verify_static_slice_configuration nc exist = Inr () \<longleftrightarrow>
     scheduler nc = None \<and> list_all has_params (slices nc)
     \<and> list_all (\<lambda>s. list_ex (\<lambda>es. sid es = sid s) (slices exist) \<or> complete_static s) (slices nc)
     \<and> fits (compared_slices nc exist) {}"
  unfolding claim_both [symmetric] verify_static_slice_configuration_def
  by (auto simp: is_ok_iff rbind_Inr_eq)

text \<open>Only a range that ends at 110 or above makes a claim leave the array.\<close>

lemma claim_undefined:
  "claim err i hi rbg = Inl (Undefined_behaviour m) \<Longrightarrow> i \<le> hi \<and> length rbg \<le> hi"
proof (induction err i hi rbg rule: claim.induct)
  case (1 err i hi rbg)
  from 1(2) show ?case
    by (subst (asm) claim.simps) (use 1(1) in \<open>auto simp: refuse_def split: if_splits\<close>)
qed

lemma claims_undefined:
  assumes f: "\<And>s rbg. f s rbg = (if skip s then Inr rbg else claim (err s) (low s) (high s) rbg)"
  shows "foldR f ss rbg = Inl (Undefined_behaviour m) \<Longrightarrow>
     \<exists>s \<in> set ss. \<not> skip s \<and> low s \<le> high s \<and> length rbg \<le> high s"
proof (induction ss arbitrary: rbg)
  case (Cons s ss)
  consider "f s rbg = Inl (Undefined_behaviour m)" | r where "f s rbg = Inr r" "foldR f ss r = Inl (Undefined_behaviour m)"
    using Cons.prems by (auto simp: rbind_Inl_eq)
  then show ?case
  proof cases
    case 1
    then show ?thesis using f [of s rbg] claim_undefined [of "err s" "low s" "high s" rbg m] by (auto split: if_splits)
  next
    case 2
    then have "length r = length rbg"
      using f [of s rbg] claim_iff(1) [of "err s" "low s" "high s" rbg r] by (auto split: if_splits)
    then show ?thesis using Cons.IH [OF 2(2)] by auto
  qed
qed simp

lemma accepted_undefined:
  assumes "verify_static_slice_configuration nc exist = Inl (Undefined_behaviour m)"
  shows "\<exists>s \<in> set (compared_slices nc exist). low s \<le> high s \<and> 110 \<le> high s"
proof -
  consider "foldR claim_new (slices nc) (replicate rbg_size 0) = Inl (Undefined_behaviour m)"
    | r where "foldR claim_new (slices nc) (replicate rbg_size 0) = Inr r"
        "foldR (claim_existing (slices nc)) (slices exist) r = Inl (Undefined_behaviour m)"
    using assms by (auto simp: verify_static_slice_configuration_def refuse_def rbind_Inl_eq split: if_splits)
  then show ?thesis
  proof cases
    case 1
    from claims_undefined [of claim_new "\<lambda>s. slice_static s = None" "overlap_error ''slice ''", OF claim_new_def 1]
    show ?thesis by (auto simp: compared_slices_def rbg_size_def)
  next
    case 2
    have "length r = length (replicate rbg_size (0::int))"
      by (rule foldR_invariant [OF 2(1), where I = "\<lambda>r. length r = length (replicate rbg_size (0::int))"])
        (auto simp: claim_new_def dest: claim_iff(1) split: if_splits)
    moreover have "\<exists>s \<in> set (slices exist). \<not> list_ex (\<lambda>cs. sid cs = sid s) (slices nc) \<and> low s \<le> high s \<and> length r \<le> high s"
      using claims_undefined [of "claim_existing (slices nc)" "\<lambda>s. list_ex (\<lambda>cs. sid cs = sid s) (slices nc)"
          "overlap_error ''existing slice ''", OF claim_existing_def 2(2)] by blast
    ultimately show ?thesis by (auto simp: compared_slices_def rbg_size_def)
  qed
qed

lemma range_below: "{a..b} \<subseteq> {..<c} \<longleftrightarrow> (a \<le> b \<longrightarrow> b < (c :: nat))"
  by auto

section \<open>Properties\<close>



text \<open>The range an existing slice keeps is not compared when the configuration mentions it
  without a range: a request that relabels slice \<open>i\<close> and creates slice \<open>j\<close> on the very same
  blocks is accepted.\<close>

theorem relabelled_slice_overlap_accepted:
  assumes "i \<noteq> j" "unat hi < 110"
  shows "verify_static_slice_configuration
     \<lparr>algorithm = Some Alg_Static, slices = [
        \<lparr>slice_id = Some i, slice_label = Some l, slice_scheduler = None, slice_static = None\<rparr>,
        \<lparr>slice_id = Some j, slice_label = None, slice_scheduler = None,
          slice_static = Some \<lparr>posLow = Some lo, posHigh = Some hi\<rparr>\<rparr>], scheduler = None\<rparr>
     \<lparr>algorithm = Some Alg_Static, slices = [
        \<lparr>slice_id = Some i, slice_label = None, slice_scheduler = None,
          slice_static = Some \<lparr>posLow = Some lo, posHigh = Some hi\<rparr>\<rparr>], scheduler = None\<rparr> = Inr ()"
  using assms unfolding accepted_iff_fits fits_def rng_def rbg_size_def list_all_iff list_ex_iff
  by (auto simp: has_params_def complete_static_def compared_slices_def sid_def low_def high_def)

theorem relabelled_slice_overlap_accepted_witness:
  "verify_static_slice_configuration
     \<lparr>algorithm = Some Alg_Static, slices = [
        \<lparr>slice_id = Some 1, slice_label = Some ''x'', slice_scheduler = None, slice_static = None\<rparr>,
        \<lparr>slice_id = Some 2, slice_label = None, slice_scheduler = None,
          slice_static = Some \<lparr>posLow = Some 3, posHigh = Some 7\<rparr>\<rparr>], scheduler = None\<rparr>
     \<lparr>algorithm = Some Alg_Static, slices = [
        \<lparr>slice_id = Some 1, slice_label = None, slice_scheduler = None,
          slice_static = Some \<lparr>posLow = Some 3, posHigh = Some 7\<rparr>\<rparr>], scheduler = None\<rparr> = Inr ()"
  by (rule relabelled_slice_overlap_accepted) simp_all

end
