(* ===== verification/Band_Check.thy ===== *)
theory Band_Check
  imports Prelude
begin

text \<open>
  \<open>app/band_check.{h,cc}\<close>: the E-UTRA operating bands of TS 36.101 and the test that a pair of
  carrier frequencies and a bandwidth fit a band. Frequencies are in Hz.
\<close>

section \<open>The table\<close>

datatype flex_duplex_mode = FLDM_TDD | FLDM_FDD

record eutra_band =
  band_no :: u8
  f_ul_low :: u64
  f_ul_high :: u64
  f_dl_low :: u64
  f_dl_high :: u64
  f_offset :: int
  band_mode :: flex_duplex_mode
  bw_allowed :: "bool list"

definition band ::
  "u8 \<Rightarrow> u64 \<Rightarrow> u64 \<Rightarrow> u64 \<Rightarrow> u64 \<Rightarrow> int \<Rightarrow> flex_duplex_mode \<Rightarrow> bool list \<Rightarrow> eutra_band" where
  "band no ul_lo ul_hi dl_lo dl_hi off m bws = \<lparr>band_no = no, f_ul_low = ul_lo, f_ul_high = ul_hi,
     f_dl_low = dl_lo, f_dl_high = dl_hi, f_offset = off, band_mode = m, bw_allowed = bws\<rparr>"

definition eutra_operating_bands :: "eutra_band list" where
  "eutra_operating_bands = [
    band 1 1920000000 1980000000 2110000000 2170000000 190000000 FLDM_FDD [False, False, True, True, True, True],
    band 2 1850000000 1910000000 1930000000 1990000000 80000000 FLDM_FDD [True, True, True, True, True, True],
    band 3 1710000000 1785000000 1805000000 1880000000 95000000 FLDM_FDD [True, True, True, True, True, True],
    band 4 1710000000 1755000000 2110000000 2155000000 400000000 FLDM_FDD [True, True, True, True, True, True],
    band 5 824000000 849000000 869000000 894000000 45000000 FLDM_FDD [True, True, True, True, False, False],
    band 6 830000000 840000000 875000000 885000000 45000000 FLDM_FDD [False, False, True, True, False, False],
    band 7 2500000000 2570000000 2620000000 2690000000 120000000 FLDM_FDD [False, False, True, True, True, True],
    band 8 880000000 915000000 925000000 960000000 45000000 FLDM_FDD [True, True, True, True, False, False],
    band 9 1749900000 1784900000 1844900000 1879900000 95000000 FLDM_FDD [False, False, True, True, True, True],
    band 11 1710000000 1770000000 2110000000 2170000000 400000000 FLDM_FDD [False, False, True, True, True, True],
    band 11 1427900000 1447900000 1475900000 1495900000 48000000 FLDM_FDD [False, False, True, True, False, False],
    band 12 699000000 716000000 729000000 746000000 30000000 FLDM_FDD [True, True, True, True, False, False],
    band 13 777000000 787000000 746000000 756000000 (-31000000) FLDM_FDD [False, False, True, True, False, False],
    band 14 788000000 798000000 758000000 768000000 (-30000000) FLDM_FDD [False, False, True, True, False, False],
    band 17 704000000 716000000 734000000 746000000 30000000 FLDM_FDD [False, False, True, True, False, False],
    band 18 815000000 830000000 860000000 875000000 45000000 FLDM_FDD [False, False, True, True, True, False],
    band 19 830000000 845000000 875000000 890000000 45000000 FLDM_FDD [False, False, True, True, True, False],
    band 20 832000000 862000000 791000000 821000000 (-41000000) FLDM_FDD [False, False, True, True, True, True],
    band 21 1447900000 1462900000 1495900000 1510900000 48000000 FLDM_FDD [False, False, True, True, True, False],
    band 22 3410000000 3490000000 3510000000 3590000000 100000000 FLDM_FDD [False, False, True, True, True, True],
    band 23 2000000000 2020000000 2180000000 2200000000 180000000 FLDM_FDD [True, True, True, True, True, True],
    band 24 1626500000 1660500000 1525000000 1559000000 (-101500000) FLDM_FDD [False, False, True, True, False, False],
    band 25 1850000000 1915000000 1930000000 1995000000 80000000 FLDM_FDD [True, True, True, True, True, True],
    band 26 814000000 849000000 859000000 894000000 45000000 FLDM_FDD [True, True, True, True, True, False],
    band 27 807000000 824000000 852000000 869000000 45000000 FLDM_FDD [True, True, True, True, False, False],
    band 28 703000000 748000000 758000000 803000000 55000000 FLDM_FDD [False, True, True, True, True, True],
    band 30 2305000000 2315000000 2350000000 2360000000 45000000 FLDM_FDD [False, False, True, True, False, False],
    band 31 452500000 457500000 462500000 467500000 10000000 FLDM_FDD [True, True, True, False, False, False],
    band 33 1900000000 1920000000 1900000000 1920000000 0 FLDM_TDD [False, False, True, True, True, True],
    band 34 2010000000 2025000000 2010000000 2025000000 0 FLDM_TDD [False, False, True, True, True, False],
    band 35 1850000000 1910000000 1850000000 1910000000 0 FLDM_TDD [True, True, True, True, True, True],
    band 36 1930000000 1990000000 1930000000 1990000000 0 FLDM_TDD [True, True, True, True, True, True],
    band 37 1910000000 1930000000 1910000000 1930000000 0 FLDM_TDD [False, False, True, True, True, True],
    band 38 2570000000 2620000000 2570000000 2620000000 0 FLDM_TDD [False, False, True, True, True, True],
    band 39 1880000000 1920000000 1880000000 1920000000 0 FLDM_TDD [False, False, True, True, True, True],
    band 40 2300000000 2400000000 2300000000 2400000000 0 FLDM_TDD [False, False, True, True, True, True],
    band 41 2496000000 2690000000 2496000000 2690000000 0 FLDM_TDD [False, False, True, True, True, True],
    band 42 3400000000 3600000000 3400000000 3600000000 0 FLDM_TDD [False, False, True, True, True, True],
    band 43 3600000000 3800000000 3600000000 3800000000 0 FLDM_TDD [False, False, True, True, True, True],
    band 44 703000000 803000000 703000000 803000000 0 FLDM_TDD [False, True, True, True, True, True],
    band 45 1447000000 1467000000 1447000000 1467000000 0 FLDM_TDD [False, False, True, True, True, True],
    band 46 5150000000 5925000000 5150000000 5925000000 0 FLDM_TDD [False, False, False, True, False, True],
    band 47 5855000000 5925000000 5855000000 5925000000 0 FLDM_TDD [False, False, False, True, False, True],
    band 48 3550000000 3700000000 3550000000 3700000000 0 FLDM_TDD [False, False, True, True, True, True],
    band 65 1920000000 2010000000 2110000000 2200000000 190000000 FLDM_FDD [True, True, True, True, True, True],
    band 66 1710000000 1780000000 2110000000 2200000000 400000000 FLDM_FDD [True, True, True, True, True, True],
    band 68 698000000 728000000 753000000 783000000 55000000 FLDM_FDD [False, False, True, True, True, False],
    band 70 1695000000 1710000000 1995000000 2020000000 300000000 FLDM_FDD [False, False, True, True, True, True]
  ]"

section \<open>Operations\<close>

definition get_eutra_bw_index :: "u8 \<Rightarrow> int" where
  "get_eutra_bw_index bw_rb =
     (if bw_rb = 6 then 0 else if bw_rb = 15 then 1 else if bw_rb = 25 then 2
      else if bw_rb = 50 then 3 else if bw_rb = 75 then 4 else if bw_rb = 100 then 5 else -1)"

primrec band_index_from :: "nat \<Rightarrow> eutra_band list \<Rightarrow> u8 \<Rightarrow> int" where
  "band_index_from i [] b = -1"
| "band_index_from i (e # es) b = (if b = band_no e then int i else band_index_from (Suc i) es b)"

definition get_eutra_band_index :: "u8 \<Rightarrow> int" where
  "get_eutra_band_index b = band_index_from 0 eutra_operating_bands b"

definition u8_to_string :: "u8 \<Rightarrow> string" where
  "u8_to_string w = nat_to_string (unat w)"

definition bandwidth_error :: "u8 \<Rightarrow> string" where
  "bandwidth_error bw = ''illegal E-UTRA bandwidth '' @ u8_to_string bw @ '', must be in (6, 15, 25, 50, 75, 100)''"

text \<open>Both tests return the error text, \<open>None\<close> when there is none.\<close>

definition check_eutra_bandwidth :: "u8 \<Rightarrow> string option" where
  "check_eutra_bandwidth bw = (if get_eutra_bw_index bw < 0 then Some (bandwidth_error bw) else None)"

definition range_error :: "string \<Rightarrow> u64 \<Rightarrow> u64 \<Rightarrow> u64 \<Rightarrow> u8 \<Rightarrow> string" where
  "range_error what f lo hi b = ''illegal '' @ what @ '' '' @ u64_to_string f @ '', must be within [''
     @ u64_to_string lo @ '','' @ u64_to_string hi @ '') for E-UTRA band '' @ u8_to_string b"

definition check_eutra_band :: "u8 \<Rightarrow> u64 \<Rightarrow> u64 \<Rightarrow> u8 \<Rightarrow> bool \<Rightarrow> string option" where
  "check_eutra_band b ul dl bw_rb check_bw =
     (let idx = get_eutra_band_index b in
      if idx < 0 then Some (''illegal E-UTRA band '' @ u8_to_string b)
      else let e = eutra_operating_bands ! nat idx in
        if ul < f_ul_low e \<or> ul \<ge> f_ul_high e then Some (range_error ''ul_freq'' ul (f_ul_low e) (f_ul_high e) b)
        else if dl < f_dl_low e \<or> dl \<ge> f_dl_high e then Some (range_error ''dl_freq'' dl (f_dl_low e) (f_dl_high e) b)
        else if (f_offset e < 0 \<and> ul - dl \<noteq> word_of_int (- f_offset e)) \<or> dl - ul \<noteq> word_of_int (f_offset e)
        then Some (''offset of ul_freq and dl_freq must '' @ int_to_string (f_offset e)
          @ '' for E-UTRA band '' @ u8_to_string (band_no e))
        else if check_bw then
          (let idx_bw = get_eutra_bw_index bw_rb in
           if idx_bw < 0 then Some (bandwidth_error bw_rb)
           else if \<not> bw_allowed e ! nat idx_bw
           then Some (''E-UTRA bandwidth of '' @ u8_to_string bw_rb @ '' not allowed for E-UTRA band '' @ u8_to_string b)
           else None)
        else None)"

section \<open>The table is consistent\<close>

text \<open>
  The downlink range of a band is its uplink range moved by the offset (or longer), and all
  frequencies are far from the limit of the type.
\<close>

definition band_ok :: "eutra_band \<Rightarrow> bool" where
  "band_ok e \<longleftrightarrow> uint (f_dl_low e) = uint (f_ul_low e) + f_offset e
     \<and> uint (f_ul_high e) + f_offset e \<le> uint (f_dl_high e)
     \<and> uint (f_ul_high e) < 2 ^ 40 \<and> uint (f_dl_high e) < 2 ^ 40 \<and> \<bar>f_offset e\<bar> < 2 ^ 40
     \<and> length (bw_allowed e) = 6"

lemma table_ok: "list_all band_ok eutra_operating_bands"
  by (simp add: eutra_operating_bands_def band_def band_ok_def)

lemma band_index_from:
  "band_index_from i es b = (case List.find (\<lambda>e. band_no e = b) es of None \<Rightarrow> -1 | Some _ \<Rightarrow> band_index_from i es b)"
  "List.find (\<lambda>e. band_no e = b) es = Some e \<Longrightarrow>
     \<exists>k. band_index_from i es b = int (i + k) \<and> k < length es \<and> es ! k = e"
proof -
  show "band_index_from i es b = (case List.find (\<lambda>e. band_no e = b) es of None \<Rightarrow> -1 | Some _ \<Rightarrow> band_index_from i es b)"
    by (induction es arbitrary: i) (auto split: option.splits)
  show "\<exists>k. band_index_from i es b = int (i + k) \<and> k < length es \<and> es ! k = e"
    if "List.find (\<lambda>e. band_no e = b) es = Some e"
    using that
  proof (induction es arbitrary: i)
    case (Cons x xs)
    show ?case
    proof (cases "band_no x = b")
      case True
      then show ?thesis using Cons.prems by (intro exI [of _ 0]) auto
    next
      case False
      then obtain k where "band_index_from (Suc i) xs b = int (Suc i + k)" "k < length xs" "xs ! k = e"
        using Cons.IH [of "Suc i"] Cons.prems by auto
      then show ?thesis using False by (intro exI [of _ "Suc k"]) auto
    qed
  qed simp
qed

definition band_entry :: "u8 \<Rightarrow> eutra_band option" where
  "band_entry b = List.find (\<lambda>e. band_no e = b) eutra_operating_bands"

lemma get_eutra_band_index_cases:
  "case band_entry b of None \<Rightarrow> get_eutra_band_index b = -1
   | Some e \<Rightarrow> 0 \<le> get_eutra_band_index b \<and> eutra_operating_bands ! nat (get_eutra_band_index b) = e \<and> band_ok e"
proof (cases "band_entry b")
  case None
  then show ?thesis
    by (simp add: band_entry_def get_eutra_band_index_def band_index_from(1) [of 0 eutra_operating_bands b])
next
  case (Some e)
  then obtain k where k: "get_eutra_band_index b = int k" "k < length eutra_operating_bands" "eutra_operating_bands ! k = e"
    using band_index_from(2) [of b eutra_operating_bands e 0] by (auto simp: band_entry_def get_eutra_band_index_def)
  then have "band_ok e" using table_ok by (auto simp: list_all_length)
  then show ?thesis using Some k by simp
qed

lemma offset_word:
  fixes ul dl :: u64
  assumes "uint ul < 2 ^ 40" "uint dl < 2 ^ 40" "\<bar>off\<bar> < 2 ^ 40"
  shows "dl - ul = word_of_int off \<longleftrightarrow> uint dl = uint ul + off"
    and "ul - dl = word_of_int (- off) \<longleftrightarrow> uint dl = uint ul + off"
proof -
  have inj: "word_of_int x = (word_of_int y :: u64) \<longleftrightarrow> x = y" if "\<bar>x\<bar> < 2 ^ 41" "\<bar>y\<bar> < 2 ^ 41" for x y
  proof
    assume "word_of_int x = (word_of_int y :: u64)"
    then have "sint (word_of_int x :: u64) = sint (word_of_int y :: u64)" by simp
    then have "signed_take_bit 63 x = signed_take_bit 63 y" by (simp add: sint_sbintrunc')
    moreover have "signed_take_bit 63 z = z" if "\<bar>z\<bar> < 2 ^ 41" for z :: int
      using that by (intro signed_take_bit_int_eq_self) simp_all
    ultimately show "x = y" using that by simp
  qed simp
  have near: "\<bar>x - y\<bar> < 2 ^ 41" if "0 \<le> x" "x < 2 ^ 40" "0 \<le> y" "y < 2 ^ 40" for x y :: int
    using that by (simp add: abs_less_iff)
  have e: "dl - ul = word_of_int (uint dl - uint ul)" "ul - dl = word_of_int (uint ul - uint dl)" by simp_all
  have b: "\<bar>uint dl - uint ul\<bar> < 2 ^ 41" "\<bar>uint ul - uint dl\<bar> < 2 ^ 41" "\<bar>off\<bar> < 2 ^ 41" "\<bar>- off\<bar> < 2 ^ 41"
    using near [of "uint dl" "uint ul"] near [of "uint ul" "uint dl"] assms by simp_all
  have "dl - ul = word_of_int off \<longleftrightarrow> uint dl - uint ul = off"
    unfolding e(1) by (rule inj [OF b(1,3)])
  then show "dl - ul = word_of_int off \<longleftrightarrow> uint dl = uint ul + off" by linarith
  have "ul - dl = word_of_int (- off) \<longleftrightarrow> uint ul - uint dl = - off"
    unfolding e(2) by (rule inj [OF b(2,4)])
  then show "ul - dl = word_of_int (- off) \<longleftrightarrow> uint dl = uint ul + off" by linarith
qed

lemma eutra_band_accepted:
  "check_eutra_band b ul dl bw_rb check_bw = None \<longleftrightarrow>
     (\<exists>e. band_entry b = Some e \<and> f_ul_low e \<le> ul \<and> ul < f_ul_high e \<and> uint dl = uint ul + f_offset e
        \<and> (check_bw \<longrightarrow> get_eutra_bw_index bw_rb \<noteq> -1 \<and> bw_allowed e ! nat (get_eutra_bw_index bw_rb)))"
proof (cases "band_entry b")
  case None
  then show ?thesis using get_eutra_band_index_cases [of b] by (simp add: check_eutra_band_def)
next
  case (Some e)
  have idx: "0 \<le> get_eutra_band_index b" "eutra_operating_bands ! nat (get_eutra_band_index b) = e" "band_ok e"
    using get_eutra_band_index_cases [of b] Some by simp_all
  have bw: "get_eutra_bw_index bw_rb < 0 \<longleftrightarrow> get_eutra_bw_index bw_rb = -1" by (simp add: get_eutra_bw_index_def)
  have "f_dl_low e \<le> dl \<and> dl < f_dl_high e \<and> \<not> (f_offset e < 0 \<and> ul - dl \<noteq> word_of_int (- f_offset e))
      \<and> dl - ul = word_of_int (f_offset e) \<longleftrightarrow> uint dl = uint ul + f_offset e"
    if ul: "f_ul_low e \<le> ul" "ul < f_ul_high e"
  proof -
    have ulb: "uint ul < 2 ^ 40" using ul(2) idx(3) by (simp add: band_ok_def word_less_def)
    have dlb: "uint dl < 2 ^ 40" if "dl < f_dl_high e" using that idx(3) by (simp add: band_ok_def word_less_def)
    have off: "\<bar>f_offset e\<bar> < 2 ^ 40" using idx(3) by (simp add: band_ok_def)
    have range: "f_dl_low e \<le> dl \<and> dl < f_dl_high e" if "uint dl = uint ul + f_offset e"
      using that ul idx(3) by (simp add: band_ok_def word_less_def word_le_def)
    show ?thesis using range dlb offset_word [OF ulb _ off, of dl] by blast
  qed
  then show ?thesis
    using idx Some by (auto simp: check_eutra_band_def Let_def bw not_less not_le)
qed

section \<open>Properties\<close>

text \<open>A carrier is accepted exactly when the first entry of its band has the uplink frequency
  in its range, the downlink frequency is the duplex distance away, and, when it is asked for, the
  bandwidth is one of the band: the test of the downlink range adds nothing, and the unsigned
  subtractions of the offset test do not go wrong for any entry of the table. For a given band and
  uplink frequency there is thus at most one downlink frequency.\<close>

theorem check_eutra_band_iff:
  "(check_eutra_band b ul dl bw_rb True = None) =
     (\<exists>e. band_entry b = Some e \<and> f_ul_low e \<le> ul \<and> ul < f_ul_high e \<and> uint dl = uint ul + f_offset e
        \<and> get_eutra_bw_index bw_rb \<noteq> -1 \<and> bw_allowed e ! nat (get_eutra_bw_index bw_rb))
   \<and> (check_eutra_band b ul dl bw_rb False = None) =
     (\<exists>e. band_entry b = Some e \<and> f_ul_low e \<le> ul \<and> ul < f_ul_high e \<and> uint dl = uint ul + f_offset e)
   \<and> \<not> (check_eutra_band b ul dl bw_rb c = None \<and> check_eutra_band b ul dl' bw_rb c = None \<and> dl \<noteq> dl')"
  unfolding eutra_band_accepted by (auto simp: word_uint_eq_iff)

text \<open>The table gives the number 11 to two entries, the first of which is band 10 of the
  standard, so band 10 is always refused and no carrier of the real band 11 (uplink 1427.9 to
  1447.9 MHz) is ever accepted.\<close>

theorem bands_10_and_11_unusable:
  "check_eutra_band 10 ul dl bw_rb c \<noteq> None
     \<and> \<not> (1427900000 \<le> ul \<and> ul < 1447900000 \<and> check_eutra_band 11 ul dl bw_rb c = None)"
proof
  have i10: "get_eutra_band_index 10 = -1"
    by (simp add: get_eutra_band_index_def eutra_operating_bands_def band_def)
  then show "check_eutra_band 10 ul dl bw_rb c \<noteq> None" by (simp add: check_eutra_band_def)
  have i11: "get_eutra_band_index 11 = 9"
    by (simp add: get_eutra_band_index_def eutra_operating_bands_def band_def)
  have "f_ul_low (eutra_operating_bands ! 9) = 1710000000"
    by (simp add: eutra_operating_bands_def band_def)
  then show "\<not> (1427900000 \<le> ul \<and> ul < 1447900000 \<and> check_eutra_band 11 ul dl bw_rb c = None)"
    using i11 by (auto simp: check_eutra_band_def Let_def word_less_def word_le_def split: if_splits)
qed

end
