(* ===== verification/Rrm_Management.thy ===== *)
theory Rrm_Management
  imports Slice_Check Band_Check
begin

text \<open>
  \<open>app/rrm_management.{h,cc}\<close>: configuration of slices, association of users to slices, by hand
  and by the IMSI, and restart of a cell with another carrier. Regular expressions are \<open>std::regex\<close>
  objects, given by a compiler and a matcher.
\<close>

section \<open>Lists of regular expressions\<close>

text \<open>\<open>begin_end_space\<close>: the first loop stops at the last character.\<close>

definition begin_end_space :: "string \<Rightarrow> string" where
  "begin_end_space s =
     (let k = length (takeWhile is_space (butlast s)) in rev (dropWhile is_space (rev (drop k s))))"

definition is_quote :: "char \<Rightarrow> bool" where
  "is_quote c \<longleftrightarrow> c = CHR 0x22"

text \<open>
  The loop of \<open>split\<close> over the text between the brackets. Reading the last character of an empty
  token is out of bounds.
\<close>

function split_tokens :: "string \<Rightarrow> string list \<Rightarrow> string list checked" where
  "split_tokens str acc =
     (let token = begin_end_space (takeWhile (\<lambda>c. c \<noteq> CHR '','') str);
          rest = dropWhile (\<lambda>c. c \<noteq> CHR '','') str in
      if token = [] then Inl (Undefined_behaviour ''last character of an empty token'')
      else if is_quote (hd token) \<noteq> is_quote (last token) then Inr (Inl ''unbalanced \"\"'')
      else let token = (if is_quote (hd token) \<or> is_quote (last token) then butlast (tl token) else token) in
        if list_ex is_alpha token then Inr (Inl ''alpha character detected'')
        else let acc = (if token \<noteq> [] then acc @ [token] else acc) in
          if rest = [] then Inr (Inr acc) else split_tokens (tl rest) acc)"
  by pat_completeness auto

lemma length_rest: "c \<in> set s \<Longrightarrow> length (dropWhile P s) - Suc 0 < length s"
  using length_dropWhile_le [of P s] length_pos_if_in_set [of c s] by linarith

termination split_tokens
  by (relation "measure (\<lambda>(s, _). length s)") (simp_all add: length_rest)

declare split_tokens.simps [simp del]

definition split_list :: "string \<Rightarrow> string list checked" where
  "split_list s =
     (let str = begin_end_space s in
      if str = [] then Inr (Inl ''empty string'')
      else if hd str \<noteq> CHR ''['' then Inr (Inl (''expected '' @ [CHR 0x27] @ ''['' @ [CHR 0x27]))
      else if last str \<noteq> CHR '']'' then Inr (Inl (''expected '' @ [CHR 0x27] @ '']'' @ [CHR 0x27]))
      else split_tokens (butlast (tl str)) [])"

record 'r regex =
  rx_compile :: "string \<Rightarrow> 'r option"
  rx_search :: "string \<Rightarrow> 'r \<Rightarrow> bool"

primrec compile_all :: "'r regex \<Rightarrow> string list \<Rightarrow> string + 'r list" where
  "compile_all rx [] = Inr []"
| "compile_all rx (t # ts) = (case rx_compile rx t of
     None \<Rightarrow> Inl (''bad format of regex '' @ t)
   | Some r \<Rightarrow> (case compile_all rx ts of Inl e \<Rightarrow> Inl e | Inr rs \<Rightarrow> Inr (r # rs)))"

definition parse_imsi_reg :: "'r regex \<Rightarrow> string \<Rightarrow> 'r list checked" where
  "parse_imsi_reg rx s = rbind (split_list s) (\<lambda>res. case res of
     Inl e \<Rightarrow> Inr (Inl e) | Inr ts \<Rightarrow> Inr (compile_all rx ts))"

section \<open>Messages\<close>

definition push_cell_config_reconfiguration :: "u64 \<Rightarrow> flex_cell_config \<Rightarrow> rib \<Rightarrow> outbox \<Rightarrow> outbox" where
  "push_cell_config_reconfiguration b cc r out = send_message b (cell_reconfiguration cc) r out"

definition push_ue_config_reconfiguration :: "u64 \<Rightarrow> flex_ue_config_reply \<Rightarrow> rib \<Rightarrow> outbox \<Rightarrow> outbox" where
  "push_ue_config_reconfiguration b ues r out = send_message b (ue_reconfiguration ues) r out"

definition reconfigure_agent_string :: "u64 \<Rightarrow> string \<Rightarrow> rib \<Rightarrow> outbox \<Rightarrow> outbox" where
  "reconfigure_agent_string b policy r out = send_message b
     (message_of INITIATING_MESSAGE (Agent_reconfiguration_msg
        \<lparr>ar_header = reconfigure_header, ar_policy = Some policy, ar_systems = []\<rparr>)) r out"

definition bs_missing :: "string \<Rightarrow> 'a result" where
  "bs_missing name = refuse (''BS '' @ name @ '' does not exist'')"

section \<open>Slices\<close>

definition algo :: "flex_slice_dl_ul_config \<Rightarrow> flex_slice_algorithm" where
  "algo c = get_or Alg_None (algorithm c)"

definition dir_of :: "flex_slice_dl_ul_config option \<Rightarrow> flex_slice_dl_ul_config" where
  "dir_of x = get_or empty_dl_ul x"

text \<open>One direction of a request: a missing algorithm is the current one.\<close>

definition complete_direction :: "flex_slice_dl_ul_config option \<Rightarrow> flex_slice_dl_ul_config \<Rightarrow> flex_slice_dl_ul_config" where
  "complete_direction x current = (let d = dir_of x in
     if algorithm d = None then d\<lparr>algorithm := Some (algo current)\<rparr> else d)"

definition check_direction :: "flex_slice_dl_ul_config \<Rightarrow> flex_slice_dl_ul_config \<Rightarrow> unit result" where
  "check_direction d current = (if algo d = Alg_Static then verify_static_slice_configuration d current else Inr ())"

definition existing_slice :: "flex_slice_dl_ul_config \<Rightarrow> u32 \<Rightarrow> u32" where
  "existing_slice d i = (if list_ex (\<lambda>s. sid s = i) (slices d) then i else 0)"

text \<open>The users that keep a slice when the algorithm changes.\<close>

definition kept_association :: "flex_slice_dl_ul_config \<Rightarrow> flex_slice_dl_ul_config \<Rightarrow> flex_ue_config list \<Rightarrow> flex_ue_config list" where
  "kept_association dl ul ues = concat (map (\<lambda>ue.
     let did = existing_slice dl (get_or 0 (dl_slice_id ue)); uid = existing_slice ul (get_or 0 (ul_slice_id ue)) in
     if did \<noteq> 0 \<or> uid \<noteq> 0
     then [empty_ue_config\<lparr>ue_rnti := Some (rnti_of ue), dl_slice_id := Some did, ul_slice_id := Some uid\<rparr>]
     else []) ues)"

text \<open>The request once it is parsed and the base station is found.\<close>

definition apply_slice_config :: "u64 \<Rightarrow> flex_slice_config \<Rightarrow> enb_rib_info \<Rightarrow> rib \<Rightarrow> outbox \<Rightarrow> outbox result" where
  "apply_slice_config b sc e r out =
     rbind (cell_config_at 0 e) (\<lambda>cell.
       let current = slice_config_of cell;
           cdl = dir_of (sl_dl current); cul = dir_of (sl_ul current);
           dl = complete_direction (sl_dl sc) cdl; ul = complete_direction (sl_ul sc) cul in
       rbind (check_direction dl cdl) (\<lambda>_.
       rbind (check_direction ul cul) (\<lambda>_.
         if algo dl = algo cdl \<and> algo ul = algo cul \<and> slices dl = [] \<and> slices ul = []
            \<and> scheduler dl = None \<and> scheduler ul = None then Inr out
         else if (algo dl = Alg_None \<and> slices dl \<noteq> []) \<or> (algo ul = Alg_None \<and> slices ul \<noteq> [])
         then refuse ''no slice algorithm, but slices present''
         else
           let algo_change = (algo cdl \<noteq> algo dl \<or> algo cul \<noteq> algo ul);
               out = push_cell_config_reconfiguration b
                 (empty_cell_config\<lparr>slice_config := Some \<lparr>sl_dl = Some dl, sl_ul = Some ul\<rparr>\<rparr>) r out;
               ues = ue_config (ue_configs e) in
           Inr (if \<not> algo_change \<or> ues = [] then out
                else push_ue_config_reconfiguration b
                  (empty_ue_config_reply\<lparr>ue_config := kept_association dl ul ues\<rparr>) r out))))"

definition apply_slice_config_policy :: "json \<Rightarrow> string \<Rightarrow> string \<Rightarrow> rib \<Rightarrow> outbox \<Rightarrow> outbox result" where
  "apply_slice_config_policy js bs policy r out =
     with_target (parse_bs_id bs r) (bs_missing bs) (\<lambda>b.
     parsed (js_slice_config js policy) (\<lambda>sc.
     rbind (deref_bs b r) (\<lambda>e. apply_slice_config b sc e r out)))"

definition strip_slices :: "flex_slice_dl_ul_config option \<Rightarrow> flex_slice_dl_ul_config" where
  "strip_slices x = (dir_of x)\<lparr>algorithm := None, slices := map (\<lambda>s. s\<lparr>slice_static := None\<rparr>) (slices (dir_of x))\<rparr>"

definition remove_slice :: "json \<Rightarrow> string \<Rightarrow> string \<Rightarrow> rib \<Rightarrow> outbox \<Rightarrow> outbox result" where
  "remove_slice js bs policy r out =
     with_target (parse_bs_id bs r) (bs_missing bs) (\<lambda>b.
     parsed (js_slice_config js policy) (\<lambda>sc.
       if \<not> list_all (\<lambda>s. slice_id s \<noteq> None) (slices (dir_of (sl_dl sc)))
          \<or> \<not> list_all (\<lambda>s. slice_id s \<noteq> None) (slices (dir_of (sl_ul sc)))
       then refuse ''all slices must have an ID and no params''
       else Inr (push_cell_config_reconfiguration b (empty_cell_config\<lparr>slice_config :=
         Some \<lparr>sl_dl = Some (strip_slices (sl_dl sc)), sl_ul = Some (strip_slices (sl_ul sc))\<rparr>\<rparr>) r out)))"

section \<open>Association of users to slices\<close>

definition verify_ue_slice_assoc_msg :: "flex_ue_config \<Rightarrow> string option" where
  "verify_ue_slice_assoc_msg c =
     (if ue_rnti c = None \<and> ue_imsi c = None then Some ''Missing RNTI or IMSI''
      else if dl_slice_id c = None \<and> ul_slice_id c = None then Some ''No DL or UL slice ID''
      else None)"

text \<open>The RNTI of a user given by its IMSI is filled in.\<close>

definition verify_rnti_imsi :: "enb_rib_info \<Rightarrow> flex_ue_config \<Rightarrow> string + flex_ue_config" where
  "verify_rnti_imsi e c =
     (if ue_rnti c \<noteq> None \<and> get_ue_mac_info (rnti_of c) e = None
      then Inl (''a UE with RNTI'' @ u32_to_string (rnti_of c) @ '' does not exist'')
      else case ue_imsi c of
        None \<Rightarrow> Inr c
      | Some imsi \<Rightarrow> (case get_rnti imsi e of
            None \<Rightarrow> Inl (''IMSI '' @ u64_to_string imsi @ '' is not present'')
          | Some rnti \<Rightarrow>
              if rnti = 0 then Inl (''found invalid RNTI 0 for IMSI '' @ u64_to_string imsi)
              else if ue_rnti c \<noteq> None \<and> rnti_of c \<noteq> rnti then Inl ''RNTI-IMSI mismatch''
              else Inr (c\<lparr>ue_rnti := Some rnti\<rparr>)))"

definition at_index :: "nat \<Rightarrow> string" where
  "at_index i = '' in UE-slice association at index '' @ nat_to_string i"

definition check_association :: "enb_rib_info \<Rightarrow> nat \<times> flex_ue_config \<Rightarrow> unit \<Rightarrow> unit result" where
  "check_association e = (\<lambda>(i, c) _.
     case verify_ue_slice_assoc_msg c of
       Some err \<Rightarrow> refuse (err @ at_index i)
     | None \<Rightarrow>
         rbind (case dl_slice_id c of None \<Rightarrow> Inr True | Some s \<Rightarrow> has_dl_slice s 0 e) (\<lambda>dl_ok.
         if \<not> dl_ok then refuse (''DL slice '' @ u32_to_string (get_or 0 (dl_slice_id c)) @ '' does not exist'')
         else rbind (case ul_slice_id c of None \<Rightarrow> Inr True | Some s \<Rightarrow> has_ul_slice s 0 e) (\<lambda>ul_ok.
           if \<not> ul_ok then refuse (''UL slice '' @ u32_to_string (get_or 0 (ul_slice_id c)) @ '' does not exist'')
           else Inr ())))"

definition resolve_association :: "enb_rib_info \<Rightarrow> nat \<times> flex_ue_config \<Rightarrow> flex_ue_config list \<Rightarrow> flex_ue_config list result" where
  "resolve_association e = (\<lambda>(i, c) acc. case verify_rnti_imsi e c of
     Inl err \<Rightarrow> refuse (err @ at_index i) | Inr c' \<Rightarrow> Inr (acc @ [c']))"

definition change_ue_slice_association :: "json \<Rightarrow> string \<Rightarrow> string \<Rightarrow> rib \<Rightarrow> outbox \<Rightarrow> outbox result" where
  "change_ue_slice_association js bs policy r out =
     with_target (parse_bs_id bs r) (bs_missing bs) (\<lambda>b.
     parsed (js_ue_config js policy) (\<lambda>ues.
       if ue_config ues = [] then refuse ''missing UE configuration''
       else rbind (deref_bs b r) (\<lambda>e.
         rbind (foldR (check_association e) (enumerate 0 (ue_config ues)) ()) (\<lambda>_.
         rbind (foldR (resolve_association e) (enumerate 0 (ue_config ues)) []) (\<lambda>cs.
           Inr (push_ue_config_reconfiguration b (ues\<lparr>ue_config := cs\<rparr>) r out))))))"

text \<open>The associations that new users get: expression and slice, in the order they were given.\<close>

record 'r rrm =
  dl_ue_slice :: "('r \<times> u32) list"
  ul_ue_slice :: "('r \<times> u32) list"

definition check_slice_arg :: "(u32 \<Rightarrow> nat \<Rightarrow> enb_rib_info \<Rightarrow> bool result) \<Rightarrow> int \<Rightarrow> u64 \<Rightarrow> rib \<Rightarrow> unit result" where
  "check_slice_arg has i b r =
     (if i < 0 then Inr ()
      else rbind (rbind (deref_bs b r) (has (word_of_int i) 0)) (\<lambda>ok.
        if ok then Inr () else refuse (''no slice '' @ int_to_string i @ '' present'')))"

definition set_assoc :: "int \<Rightarrow> 'r list \<Rightarrow> ('r \<times> u32) list \<Rightarrow> ('r \<times> u32) list" where
  "set_assoc i regs as = (if i < 0 then as
     else filter (\<lambda>(_, s). word_of_int i \<noteq> s) as @ map (\<lambda>x. (x, word_of_int i)) regs)"

definition slice_arg :: "int \<Rightarrow> u32 option" where
  "slice_arg i = (if i < 0 then None else Some (word_of_int i))"

definition matching_users :: "'r regex \<Rightarrow> int \<Rightarrow> int \<Rightarrow> flex_ue_config list \<Rightarrow> 'r \<Rightarrow> flex_ue_config list" where
  "matching_users rx dl ul ues x =
     map (\<lambda>ue. empty_ue_config\<lparr>ue_rnti := Some (rnti_of ue), dl_slice_id := slice_arg dl, ul_slice_id := slice_arg ul\<rparr>)
       (filter (\<lambda>ue. case ue_imsi ue of None \<Rightarrow> False | Some imsi \<Rightarrow> rx_search rx (u64_to_string imsi) x) ues)"

definition auto_ue_slice_association ::
  "'r regex \<Rightarrow> string \<Rightarrow> string \<Rightarrow> int \<Rightarrow> int \<Rightarrow> rib \<Rightarrow> 'r rrm \<times> outbox \<Rightarrow> ('r rrm \<times> outbox) result" where
  "auto_ue_slice_association rx bs policy dl ul r = (\<lambda>(st, out).
     with_target (parse_bs_id bs r) (bs_missing bs) (\<lambda>b.
     rbind (check_slice_arg has_dl_slice dl b r) (\<lambda>_.
     rbind (check_slice_arg has_ul_slice ul b r) (\<lambda>_.
     rbind (parse_imsi_reg rx policy) (\<lambda>res. case res of
       Inl err \<Rightarrow> refuse (''error while parsing regex list: '' @ err)
     | Inr regs \<Rightarrow>
         rbind (if regs = [] then Inr [] else rbind (deref_bs b r) (\<lambda>e. Inr (ue_config (ue_configs e)))) (\<lambda>ues.
           let st' = st\<lparr>dl_ue_slice := set_assoc dl regs (dl_ue_slice st), ul_ue_slice := set_assoc ul regs (ul_ue_slice st)\<rparr>;
               cs = concat (map (matching_users rx dl ul ues) regs) in
           Inr (st', if cs = [] then out
                     else push_ue_config_reconfiguration b (empty_ue_config_reply\<lparr>ue_config := cs\<rparr>) r out)))))))"

text \<open>
  \<open>ue_add_update_slice_assoc\<close>, the callback of the event \<open>ue_update\<close>: of the associations that
  match and differ from the current slice the last one is set.
\<close>

definition wanted_slice :: "'r regex \<Rightarrow> string \<Rightarrow> u32 \<Rightarrow> ('r \<times> u32) list \<Rightarrow> u32 option" where
  "wanted_slice rx imsi current as = fold (\<lambda>(x, s) w.
     if \<not> rx_search rx imsi x then w else if current = s then w else Some s) as None"

definition ue_add_update_slice_assoc :: "'r regex \<Rightarrow> 'r rrm \<Rightarrow> u64 \<Rightarrow> u32 \<Rightarrow> rib \<Rightarrow> outbox \<Rightarrow> outbox" where
  "ue_add_update_slice_assoc rx st b rnti r out = (case get_bs b r of
     None \<Rightarrow> out
   | Some e \<Rightarrow> (case List.find (\<lambda>c. rnti_of c = rnti) (ue_config (ue_configs e)) of
       None \<Rightarrow> out
     | Some ue \<Rightarrow> (case ue_imsi ue of
         None \<Rightarrow> out
       | Some imsi \<Rightarrow>
           let want = (\<lambda>cur as. case cur of None \<Rightarrow> None | Some s \<Rightarrow> wanted_slice rx (u64_to_string imsi) s as) in
           push_ue_config_reconfiguration b (empty_ue_config_reply\<lparr>ue_config := [empty_ue_config\<lparr>
             ue_rnti := Some rnti, dl_slice_id := want (dl_slice_id ue) (dl_ue_slice st),
             ul_slice_id := want (ul_slice_id ue) (ul_ue_slice st)\<rparr>]\<rparr>) r out)))"

section \<open>Restart of a cell\<close>

definition unsupported :: "string \<Rightarrow> string" where
  "unsupported s = ''setting '' @ s @ '' not supported''"

text \<open>The tests in the order of the code: the first that holds gives the reason.\<close>

definition restart_tests :: "flex_cell_config \<Rightarrow> (bool \<times> string) list" where
  "restart_tests c = (let has = (\<lambda>f. cell_u32 c f \<noteq> None) in
    [(has phy_cell_id, unsupported ''phy_cell_id''),
     (has pusch_hopping_offset, unsupported ''pusch_hopping_offset''),
     (has hopping_mode, unsupported ''hopping_mode''),
     (has n_sb, unsupported ''n_sb''),
     (has phich_resource, unsupported ''phich_resource''),
     (has phich_duration, ''setting phich_durationnot supported''),
     (has init_nr_PDCCH_OFDM_sym, unsupported ''init_nr_pdcch_ofdm_sym''),
     (si_config c \<noteq> None, unsupported ''si_config''),
     (has ul_cyclic_prefix_length, unsupported ''ul_cyclic_prefix_length''),
     (has dl_cyclic_prefix_length, unsupported ''dl_cyclic_prefix_length''),
     (has antenna_ports_count, unsupported ''antenna_ports_count''),
     (has duplex_mode, unsupported ''duplex_mode''),
     (has subframe_assignment, unsupported ''subframe_assignment''),
     (has special_subframe_patterns, unsupported ''special_subframe_patterns''),
     (mbsfn_subframe_config_rfperiod c \<noteq> [], unsupported ''mbsfn_subframe_config_rfperiod''),
     (mbsfn_subframe_config_rfoffset c \<noteq> [], unsupported ''mbsfn_subframe_config_rfoffset''),
     (mbsfn_subframe_config_sfalloc c \<noteq> [], unsupported ''mbsfn_subframe_config_sfalloc''),
     (has prach_config_index, unsupported ''prach_config_index''),
     (has prach_freq_offset, unsupported ''prach_freq_offset''),
     (has ra_response_window_size, unsupported ''ra_response_window_size''),
     (has mac_contention_resolution_timer, unsupported ''mac_contention_resolution_timer''),
     (has max_HARQ_Msg3Tx, unsupported ''max_harq_msg3tx''),
     (has n1PUCCH_AN, unsupported ''n1pucch_an''),
     (has deltaPUCCH_shift, unsupported ''deltapucch_shift''),
     (has nRB_cqi, unsupported ''nrb_cqi''),
     (has srs_subframe_config, unsupported ''srs_subframe_config''),
     (has srs_bw_config, unsupported ''srs_bw_config''),
     (has srs_mac_up_pts, unsupported ''srs_mac_up_pts''),
     (has enable_64QAM, unsupported ''enable_64qam''),
     (has carrier_index, ''setting not supported yet, defaults to 0''),
     (slice_config c \<noteq> None, ''setting slice_config not supported, use another end point''),
     (\<not> has eutra_band, ''eutra_band must be present''),
     (\<not> has dl_freq \<or> \<not> has ul_freq, ''both dl_freq and ul_freq must be present''),
     (\<not> has dl_bandwidth \<or> \<not> has ul_bandwidth, ''both dl_bandwidth and ul_bandwidth must be present''),
     (cell_u32 c dl_bandwidth \<noteq> cell_u32 c ul_bandwidth,
       ''dl_bandwidth and ul_bandwidth must be the same (6, 15, 25, 50, 100)''),
     (plmn_id c \<noteq> [], unsupported ''PLMNs'')])"

text \<open>Frequencies are in MHz; the product with 1000000 is computed in 32 bits.\<close>

definition verify_cell_config_for_restart :: "flex_cell_config \<Rightarrow> string option" where
  "verify_cell_config_for_restart c =
     (let val = (\<lambda>f. get_or 0 (cell_u32 c f)) in
      case List.find fst (restart_tests c) of
        Some (_, err) \<Rightarrow> Some err
      | None \<Rightarrow> (case check_eutra_bandwidth (ucast (val dl_bandwidth)) of
            Some err \<Rightarrow> Some err
          | None \<Rightarrow> check_eutra_band (ucast (val eutra_band)) (ucast (val ul_freq * 1000000))
              (ucast (val dl_freq * 1000000)) (ucast (val dl_bandwidth)) True))"

definition apply_cell_config_policy :: "json \<Rightarrow> u64 \<Rightarrow> string \<Rightarrow> rib \<Rightarrow> outbox \<Rightarrow> string + outbox" where
  "apply_cell_config_policy js b policy r out =
     (if get_bs b r = None then Inl ''BS does not exist''
      else case js_cell_config js policy of
        None \<Rightarrow> Inl ''ProtoBuf parser error''
      | Some c \<Rightarrow> (case verify_cell_config_for_restart c of
          Some err \<Rightarrow> Inl err
        | None \<Rightarrow> Inr (push_cell_config_reconfiguration b c r out)))"

definition get_last_bs :: "rib \<Rightarrow> u64" where
  "get_last_bs r = (if get_available_base_stations r = [] then 0 else last (get_available_base_stations r))"

definition rrm_parse_rnti_imsi :: "u64 \<Rightarrow> string \<Rightarrow> rib \<Rightarrow> u32 option result" where
  "rrm_parse_rnti_imsi b s r = rbind (deref_bs b r) (parse_rnti_imsi s)"

section \<open>Lists of expressions\<close>

definition plain_token :: "string \<Rightarrow> bool" where
  "plain_token t \<longleftrightarrow> t \<noteq> [] \<and> list_all (\<lambda>c. \<not> is_space c \<and> \<not> is_alpha c \<and> \<not> is_quote c \<and> c \<noteq> CHR '','') t"

text \<open>A token as a client may write it: after a blank, with or without quotes.\<close>

definition render_token :: "bool \<times> string \<Rightarrow> string" where
  "render_token = (\<lambda>(q, t). CHR '' '' # (if q then quoted t else t))"

lemma begin_end_space_id:
  assumes "list_all (\<lambda>c. \<not> is_space c) t" "t \<noteq> []"
  shows "begin_end_space t = t" "begin_end_space (CHR '' '' # t) = t"
proof -
  have b: "list_all (\<lambda>c. \<not> is_space c) (butlast t)" using assms(1) by (auto simp: list_all_iff dest: in_set_butlastD)
  have l: "takeWhile is_space (butlast t) = []"
    using b by (cases "butlast t") auto
  have r: "dropWhile is_space (rev t) = rev t"
    using assms by (cases "rev t") (auto simp: list_all_iff)
  show "begin_end_space t = t" by (simp add: begin_end_space_def l r)
  have "is_space CHR '' ''" by (simp add: is_space_def)
  then show "begin_end_space (CHR '' '' # t) = t" using assms(2) by (simp add: begin_end_space_def l r)
qed

lemma render_body:
  assumes "plain_token t"
  shows "begin_end_space (render_token (q, t)) = (if q then quoted t else t)"
    and "CHR '','' \<notin> set (render_token (q, t))"
proof -
  let ?b = "if q then quoted t else t"
  have t: "\<forall>c \<in> set t. \<not> is_space c" "CHR '','' \<notin> set t" "t \<noteq> []"
    using assms unfolding plain_token_def list_all_iff by blast+
  have "\<not> is_space CHR 0x22" by (simp add: is_space_def)
  then have "\<forall>c \<in> set ?b. \<not> is_space c" using t(1) by (simp add: quoted_def)
  moreover have "?b \<noteq> []" using t(3) by (simp add: quoted_def)
  ultimately have "begin_end_space (CHR '' '' # ?b) = ?b" by (intro begin_end_space_id(2)) (simp_all only: list_all_iff not_False_eq_True)
  then show "begin_end_space (render_token (q, t)) = ?b" by (simp only: render_token_def prod.case)
  show "CHR '','' \<notin> set (render_token (q, t))" using t(2) by (simp add: render_token_def quoted_def)
qed

lemma split_token_step:
  assumes "plain_token t" "rest = [] \<or> hd rest = CHR '',''"
  shows "split_tokens (render_token (q, t) @ rest) acc =
     (if rest = [] then Inr (Inr (acc @ [t])) else split_tokens (tl rest) (acc @ [t]))"
proof -
  let ?P = "\<lambda>c. c \<noteq> CHR '',''"
  have all: "\<forall>c \<in> set (render_token (q, t)). ?P c" using render_body(2) [OF assms(1), of q] by metis
  then have tw: "takeWhile ?P (render_token (q, t) @ rest) = render_token (q, t)"
    "dropWhile ?P (render_token (q, t) @ rest) = rest"
    using assms(2) by (cases rest; simp add: takeWhile_append2 dropWhile_append2)+
  have t: "t \<noteq> []" "\<not> is_quote (hd t)" "\<not> is_quote (last t)" "\<not> list_ex is_alpha t"
    using assms(1) hd_in_set [of t] last_in_set [of t] by (auto simp: plain_token_def list_all_iff list_ex_iff)
  have q: "hd (quoted t) = CHR 0x22" "last (quoted t) = CHR 0x22" "quoted t \<noteq> []" "butlast (tl (quoted t)) = t" "is_quote CHR 0x22"
    by (simp_all add: quoted_def is_quote_def butlast_append)
  show ?thesis
    by (subst split_tokens.simps) (use t q in \<open>simp add: tw render_body(1) [OF assms(1)] Let_def\<close>)
qed

lemma split_tokens_render:
  "ts \<noteq> [] \<Longrightarrow> list_all (\<lambda>(q, t). plain_token t) ts \<Longrightarrow>
     split_tokens (comma_separated (map render_token ts)) acc = Inr (Inr (acc @ map snd ts))"
proof (induction ts arbitrary: acc)
  case (Cons x xs)
  obtain q t where x: "x = (q, t)" by fastforce
  have t: "plain_token t" using Cons.prems(2) x by simp
  show ?case
  proof (cases xs)
    case Nil
    then show ?thesis using split_token_step [OF t, of "[]" q acc] by (simp add: x comma_separated_def)
  next
    case (Cons y ys)
    have "comma_separated (map render_token (x # xs)) =
        render_token (q, t) @ CHR '','' # comma_separated (map render_token xs)"
      by (simp add: x Cons comma_separated_def)
    then show ?thesis
      using split_token_step [OF t, of "CHR '','' # comma_separated (map render_token xs)" q acc]
        Cons.IH [of "acc @ [t]"] Cons.prems(2) Cons by (simp add: x)
  qed
qed simp

text \<open>A list of expressions is taken apart into the expressions that were written, with blanks
  and balanced quotes removed; the empty list \<open>[]\<close> makes the code read before the beginning of an
  empty token.\<close>

theorem split_list_roundtrip:
  assumes "ts \<noteq> []" "\<And>q t. (q, t) \<in> set ts \<Longrightarrow> plain_token t"
  shows "split_list (''['' @ comma_separated (map render_token ts) @ '']'') = Inr (Inr (map snd ts))
     \<and> \<not> is_ok (split_list ''[]'')"
proof
  let ?s = "''['' @ comma_separated (map render_token ts) @ '']''"
  have sp: "\<not> is_space CHR ''[''" "\<not> is_space CHR '']''" by (simp_all add: is_space_def)
  have strip: "begin_end_space ?s = ?s"
    by (simp add: begin_end_space_def sp butlast_append)
  show "split_list ?s = Inr (Inr (map snd ts))"
    using split_tokens_render [OF assms(1), of "[]"] assms(2)
    by (auto simp: split_list_def strip [simplified] butlast_append list_all_iff)
  have "begin_end_space ''[]'' = ''[]''" by (simp add: begin_end_space_def is_space_def)
  then show "\<not> is_ok (split_list ''[]'')"
    by (simp add: split_list_def) (subst split_tokens.simps, simp add: begin_end_space_def)
qed

theorem split_list_roundtrip_witness:
  "split_list (''['' @ comma_separated (map render_token [(True, ''208.*''), (False, ''001'')]) @ '']'') = Inr (Inr [''208.*'', ''001''])"
proof -
  have "plain_token ''208.*''" "plain_token ''001''"
    by (simp_all add: plain_token_def is_space_def is_alpha_def is_quote_def)
  then have "plain_token t" if "(q, t) \<in> set [(True, ''208.*''), (False, ''001'')]" for q t using that by auto
  then show ?thesis using split_list_roundtrip [of "[(True, ''208.*''), (False, ''001'')]"] by simp
qed

section \<open>Slice requests\<close>

text \<open>For the examples: a base station with a cell, a downlink slice and a user.\<close>

definition slice_enb :: enb_rib_info where
  "slice_enb = (new_enb 7 [lower_agent, upper_agent] 0)\<lparr>
     eNB_config := empty_enb_config\<lparr>cell_config := [empty_cell_config\<lparr>slice_config := Some \<lparr>sl_dl =
       Some \<lparr>algorithm = Some Alg_NVS, slices = [\<lparr>slice_id = Some 3, slice_label = None, slice_scheduler = None,
         slice_static = None\<rparr>], scheduler = None\<rparr>, sl_ul = None\<rparr>\<rparr>]\<rparr>,
     ue_configs := empty_ue_config_reply\<lparr>ue_config := [empty_ue_config\<lparr>ue_rnti := Some 70, ue_imsi := Some 208\<rparr>]\<rparr>,
     ue_mac_info := [(70, new_ue_mac 70)]\<rparr>"

definition slice_rib :: rib where
  "slice_rib = set_bs 7 slice_enb bs_online"

definition no_json :: json where
  "no_json = \<lparr>js_slice_config = (\<lambda>_. None), js_ue_config = (\<lambda>_. None), js_cell_config = (\<lambda>_. None),
     js_s1ap = (\<lambda>_. None), js_measurement = (\<lambda>_. None), js_stats_requests = (\<lambda>_. None)\<rparr>"

lemma slice_rib_inv: "rib_inv slice_rib"
  unfolding slice_rib_def
  by (rule set_bs_inv(1) [OF bs_online_inv(1), of 7 "new_enb 7 [lower_agent, upper_agent] 0"])
    (simp_all add: bs_online_state slice_enb_def new_enb_def enb_inv_def empty_ue_config_reply_def
      sm_inv_def new_ue_mac_def)

lemma slice_rib_bs: "get_bs 7 slice_rib = Some slice_enb" "bs_members 7 slice_rib = [1, 2]"
  by (simp_all add: slice_rib_def bs_members_def slice_enb_def new_enb_def)

lemma slice_rib_name: "parse_bs_id (nat_to_string 7) slice_rib = Inr 7"
  using nat_to_string_plain [of 7] by (simp add: parse_bs_id_def parse_number_def stoll_nat_to_string slice_rib_bs)

lemma bs_missing_neq [simp]: "bs_missing n \<noteq> Inr x"
  by (simp add: bs_missing_def)


section \<open>Association of users\<close>

lemma get_rnti_known: "get_rnti imsi e = Some rnti \<Longrightarrow> rnti \<in> rnti_of ` set (ue_config (ue_configs e))"
  by (auto simp: get_rnti_def dest: find_SomeD)

lemma mac_info_known: "enb_inv e \<Longrightarrow> get_ue_mac_info rnti e \<noteq> None \<Longrightarrow> rnti \<in> rnti_of ` set (ue_config (ue_configs e))"
  unfolding enb_inv_def get_ue_mac_info_def by blast

lemma verify_rnti_imsi_sound:
  assumes "enb_inv e" "verify_rnti_imsi e c = Inr c'" "ue_rnti c \<noteq> None \<or> ue_imsi c \<noteq> None"
  shows "ue_rnti c' \<noteq> None \<and> rnti_of c' \<in> rnti_of ` set (ue_config (ue_configs e))
     \<and> dl_slice_id c' = dl_slice_id c \<and> ul_slice_id c' = ul_slice_id c
     \<and> ue_imsi c' = ue_imsi c
     \<and> (\<forall>imsi. ue_imsi c = Some imsi \<longrightarrow> get_rnti imsi e = Some (rnti_of c'))"
  using assms mac_info_known [OF assms(1)] get_rnti_known
  by (auto simp: verify_rnti_imsi_def split: if_splits option.splits)

lemma check_association_sound:
  assumes "check_association e (i, c) u = Inr v"
  shows "(ue_rnti c \<noteq> None \<or> ue_imsi c \<noteq> None) \<and> (dl_slice_id c \<noteq> None \<or> ul_slice_id c \<noteq> None)
     \<and> (\<forall>s. dl_slice_id c = Some s \<longrightarrow> has_dl_slice s 0 e = Inr True)
     \<and> (\<forall>s. ul_slice_id c = Some s \<longrightarrow> has_ul_slice s 0 e = Inr True)"
  using assms
  by (auto simp: check_association_def verify_ue_slice_assoc_msg_def rbind_Inr_eq split: if_splits option.splits)

lemma foldR_check_all: "foldR f xs () = Inr v \<Longrightarrow> x \<in> set xs \<Longrightarrow> f x () = Inr ()"
  by (induction xs) (auto simp: rbind_Inr_eq)

lemma foldR_resolve:
  "foldR (resolve_association e) xs acc = Inr cs \<Longrightarrow>
     \<exists>ys. cs = acc @ ys \<and> list_all2 (\<lambda>(i, c) c'. verify_rnti_imsi e c = Inr c') xs ys"
proof (induction xs arbitrary: acc)
  case (Cons x xs)
  obtain i c where x: "x = (i, c)" by fastforce
  obtain c' where c': "verify_rnti_imsi e c = Inr c'" "foldR (resolve_association e) xs (acc @ [c']) = Inr cs"
    using Cons.prems by (auto simp: x rbind_Inr_eq resolve_association_def split: sum.splits)
  then show ?case using Cons.IH [OF c'(2)] by (auto simp: x)
qed simp

lemma list_all2_rightE: "list_all2 P xs ys \<Longrightarrow> y \<in> set ys \<Longrightarrow> \<exists>x \<in> set xs. P x y"
  by (induction xs ys rule: list_all2_induct) auto


text \<open>C25. Every association that is sent names a user the base station knows (by the RNTI that
  belongs to the IMSI given, if one was), and slices that exist in its first cell.\<close>

theorem slice_association_sound:
  assumes "rib_inv r" "change_ue_slice_association js bs policy r out = Inr out'"
  shows "\<exists>b e ues. get_bs b r = Some e
     \<and> out' = out @ map (\<lambda>i. (i, ue_reconfiguration ues)) (bs_members b r) \<and> ue_config ues \<noteq> []
     \<and> (\<forall>c \<in> set (ue_config ues). ue_rnti c \<noteq> None \<and> rnti_of c \<in> rnti_of ` set (ue_config (ue_configs e))
          \<and> (\<forall>imsi. ue_imsi c = Some imsi \<longrightarrow> get_rnti imsi e = Some (rnti_of c))
          \<and> (dl_slice_id c \<noteq> None \<or> ul_slice_id c \<noteq> None)
          \<and> (\<forall>s. dl_slice_id c = Some s \<longrightarrow> has_dl_slice s 0 e = Inr True)
          \<and> (\<forall>s. ul_slice_id c = Some s \<longrightarrow> has_ul_slice s 0 e = Inr True))"
proof -
  obtain b e where b: "get_bs b r = Some e" and step: "parsed (js_ue_config js policy) (\<lambda>ues.
       if ue_config ues = [] then refuse ''missing UE configuration''
       else rbind (deref_bs b r) (\<lambda>e.
         rbind (foldR (check_association e) (enumerate 0 (ue_config ues)) ()) (\<lambda>_.
         rbind (foldR (resolve_association e) (enumerate 0 (ue_config ues)) []) (\<lambda>cs.
           Inr (push_ue_config_reconfiguration b (ues\<lparr>ue_config := cs\<rparr>) r out))))) = Inr out'"
    using bs_name.with_target_Inr [OF TrueI bs_missing_neq assms(2) [unfolded change_ue_slice_association_def]] by blast
  obtain ues u cs where ues: "ue_config ues \<noteq> []" "foldR (check_association e) (enumerate 0 (ue_config ues)) () = Inr u"
    "foldR (resolve_association e) (enumerate 0 (ue_config ues)) [] = Inr cs"
    "out' = push_ue_config_reconfiguration b (ues\<lparr>ue_config := cs\<rparr>) r out"
    using step b by (auto simp: parsed_Inr deref_bs_def rbind_Inr_eq split: if_splits)
  have inv: "enb_inv e" using rib_invD(3) [OF assms(1) b] by (simp add: bs_ok_def)
  have rel: "list_all2 (\<lambda>(i, c) c'. verify_rnti_imsi e c = Inr c') (enumerate 0 (ue_config ues)) cs"
    using foldR_resolve [OF ues(3)] by simp
  have "ue_rnti c' \<noteq> None \<and> rnti_of c' \<in> rnti_of ` set (ue_config (ue_configs e))
      \<and> (\<forall>imsi. ue_imsi c' = Some imsi \<longrightarrow> get_rnti imsi e = Some (rnti_of c'))
      \<and> (dl_slice_id c' \<noteq> None \<or> ul_slice_id c' \<noteq> None)
      \<and> (\<forall>s. dl_slice_id c' = Some s \<longrightarrow> has_dl_slice s 0 e = Inr True)
      \<and> (\<forall>s. ul_slice_id c' = Some s \<longrightarrow> has_ul_slice s 0 e = Inr True)" if c': "c' \<in> set cs" for c'
  proof -
    obtain i c where c: "(i, c) \<in> set (enumerate 0 (ue_config ues))" "verify_rnti_imsi e c = Inr c'"
      using list_all2_rightE [OF rel c'] by (auto split: prod.splits)
    note chk = check_association_sound [OF foldR_check_all [OF ues(2) c(1)]]
    then show ?thesis using verify_rnti_imsi_sound [OF inv c(2)] by simp
  qed
  moreover have "length cs = length (ue_config ues)" using list_all2_lengthD [OF rel] by simp
  then have "cs \<noteq> []" using ues(1) by auto
  ultimately show ?thesis
    using b ues(4) by (intro exI [of _ b] exI [of _ e] exI [of _ "ues\<lparr>ue_config := cs\<rparr>"])
      (auto simp: push_ue_config_reconfiguration_def mes.send_appends)
qed

section \<open>Updates of users\<close>

theorem slice_association_sound_witness:
  "\<exists>out' ues. change_ue_slice_association (no_json\<lparr>js_ue_config := (\<lambda>_. Some (empty_ue_config_reply\<lparr>ue_config :=
       [empty_ue_config\<lparr>ue_imsi := Some 208, dl_slice_id := Some 3\<rparr>]\<rparr>))\<rparr>) (nat_to_string 7) [] slice_rib [] = Inr out'
     \<and> (\<exists>b. out' = map (\<lambda>i. (i, ue_reconfiguration ues)) (bs_members b slice_rib)) \<and> (\<forall>c \<in> set (ue_config ues). ue_rnti c \<noteq> None)"
proof -
  let ?js = "no_json\<lparr>js_ue_config := (\<lambda>_. Some (empty_ue_config_reply\<lparr>ue_config :=
       [empty_ue_config\<lparr>ue_imsi := Some 208, dl_slice_id := Some 3\<rparr>]\<rparr>))\<rparr>"
  have e: "has_dl_slice 3 0 slice_enb = Inr True" "get_rnti 208 slice_enb = Some 70"
    by (simp_all add: has_dl_slice_def cell_config_at_def slice_enb_def slice_config_of_def get_rnti_def)
  obtain out' where o: "change_ue_slice_association ?js (nat_to_string 7) [] slice_rib [] = Inr out'"
    by (simp add: change_ue_slice_association_def with_target_def slice_rib_name parsed_def deref_bs_def slice_rib_bs
        check_association_def verify_ue_slice_assoc_msg_def resolve_association_def verify_rnti_imsi_def
        empty_ue_config_def e)
  show ?thesis using slice_association_sound [OF slice_rib_inv o] o by fastforce
qed

text \<open>The callback for updated users sends a reconfiguration for every update of a user with an
  IMSI, even when no association matches or the slice is already the wanted one.\<close>

theorem assoc_update_always_sends:
  assumes "get_bs b r = Some e" "List.find (\<lambda>c. rnti_of c = rnti) (ue_config (ue_configs e)) = Some ue"
    and "ue_imsi ue = Some imsi"
  shows "\<exists>c. ue_rnti c = Some rnti
     \<and> ue_add_update_slice_assoc rx st b rnti r out = out @ map (\<lambda>a. (agent_id a,
         ue_reconfiguration (empty_ue_config_reply\<lparr>ue_config := [c]\<rparr>))) (enb_agents e)
     \<and> (dl_ue_slice st = [] \<and> ul_ue_slice st = [] \<longrightarrow> dl_slice_id c = None \<and> ul_slice_id c = None)"
proof -
  let ?want = "\<lambda>cur as. case cur of None \<Rightarrow> None | Some s \<Rightarrow> wanted_slice rx (u64_to_string imsi) s as"
  let ?c = "empty_ue_config\<lparr>ue_rnti := Some rnti, dl_slice_id := ?want (dl_slice_id ue) (dl_ue_slice st),
       ul_slice_id := ?want (ul_slice_id ue) (ul_ue_slice st)\<rparr>"
  have "ue_add_update_slice_assoc rx st b rnti r out = out @ map (\<lambda>a. (agent_id a,
      ue_reconfiguration (empty_ue_config_reply\<lparr>ue_config := [?c]\<rparr>))) (enb_agents e)"
    using assms by (simp add: ue_add_update_slice_assoc_def push_ue_config_reconfiguration_def send_message_def)
  then show ?thesis by (intro exI [of _ ?c]) (auto simp: wanted_slice_def split: option.splits)
qed

theorem assoc_update_always_sends_witness:
  "\<exists>c. ue_rnti c = Some 70 \<and> dl_slice_id c = None
     \<and> ue_add_update_slice_assoc \<lparr>rx_compile = Some, rx_search = (=)\<rparr> \<lparr>dl_ue_slice = [], ul_ue_slice = []\<rparr> 7 70 slice_rib []
       = [(1, ue_reconfiguration (empty_ue_config_reply\<lparr>ue_config := [c]\<rparr>)),
          (2, ue_reconfiguration (empty_ue_config_reply\<lparr>ue_config := [c]\<rparr>))]"
proof -
  have f: "List.find (\<lambda>c. rnti_of c = 70) (ue_config (ue_configs slice_enb)) =
      Some (empty_ue_config\<lparr>ue_rnti := Some 70, ue_imsi := Some 208\<rparr>)"
    by (simp add: slice_enb_def)
  have "map (\<lambda>a. (agent_id a, m)) (enb_agents slice_enb) = [(1, m), (2, m)]" for m :: flexran_message
    by (simp add: slice_enb_def new_enb_def)
  then show ?thesis
    using assoc_update_always_sends [OF slice_rib_bs(1) f, of 208 "\<lparr>rx_compile = Some, rx_search = (=)\<rparr>"
        "\<lparr>dl_ue_slice = [], ul_ue_slice = []\<rparr>" "[]"]
    by auto
qed

text \<open>When two expressions associate the same user with two slices, the user is sent to the one
  it is not in at each update: the association never settles.\<close>

theorem association_oscillates:
  assumes "rx_search rx imsi x" "rx_search rx imsi y" "s \<noteq> t"
  shows "wanted_slice rx imsi s [(x, s), (y, t)] = Some t \<and> wanted_slice rx imsi t [(x, s), (y, t)] = Some s"
  using assms by (simp add: wanted_slice_def)

section \<open>Restart of a cell\<close>

theorem association_oscillates_witness:
  "wanted_slice \<lparr>rx_compile = Some, rx_search = (\<lambda>s x. x = take 3 s)\<rparr> ''20801'' 1 [(''208'', 1), (''208'', 2)] = Some 2"
  using association_oscillates [of "\<lparr>rx_compile = Some, rx_search = (\<lambda>s x. x = take 3 s)\<rparr>" "''20801''" "''208''" "''208''" 1 2]
  by simp

text \<open>A cell configuration is accepted only when it sets nothing but the band, the carriers and
  one bandwidth for both directions (and powers), and then the carriers, as computed in 32 bits,
  fit an entry of the band table.\<close>

theorem restart_config_sound:
  assumes "verify_cell_config_for_restart c = None"
  shows "(\<forall>f. f \<notin> {eutra_band, dl_freq, ul_freq, dl_bandwidth, ul_bandwidth} \<longrightarrow> cell_u32 c f = None)
     \<and> (\<exists>b dl ul bw e. cell_u32 c eutra_band = Some b \<and> cell_u32 c dl_freq = Some dl \<and> cell_u32 c ul_freq = Some ul
          \<and> cell_u32 c dl_bandwidth = Some bw \<and> cell_u32 c ul_bandwidth = Some bw
          \<and> band_entry (ucast b) = Some e
          \<and> f_ul_low e \<le> ucast (ul * 1000000) \<and> ucast (ul * 1000000) < f_ul_high e
          \<and> uint (dl * 1000000) = uint (ul * 1000000) + f_offset e)
     \<and> si_config c = None \<and> slice_config c = None \<and> plmn_id c = []"
proof -
  have find: "List.find fst (restart_tests c) = None"
    using assms by (auto simp: verify_cell_config_for_restart_def Let_def split: option.splits)
  then have all: "\<forall>t \<in> set (restart_tests c). \<not> fst t" by (auto simp: find_None_iff)
  have none: "cell_u32 c f = None" if "f \<notin> {eutra_band, dl_freq, ul_freq, dl_bandwidth, ul_bandwidth}" for f
    using all that by (cases f) (auto simp: restart_tests_def Let_def)
  have some: "cell_u32 c eutra_band \<noteq> None" "cell_u32 c dl_freq \<noteq> None" "cell_u32 c ul_freq \<noteq> None"
    "cell_u32 c dl_bandwidth \<noteq> None" "cell_u32 c dl_bandwidth = cell_u32 c ul_bandwidth"
    "si_config c = None" "slice_config c = None" "plmn_id c = []"
    using all by (simp_all add: restart_tests_def Let_def)
  then obtain b dl ul bw where f: "cell_u32 c eutra_band = Some b" "cell_u32 c dl_freq = Some dl"
    "cell_u32 c ul_freq = Some ul" "cell_u32 c dl_bandwidth = Some bw" "cell_u32 c ul_bandwidth = Some bw"
    by (metis option.exhaust)
  have "check_eutra_band (ucast b) (ucast (ul * 1000000)) (ucast (dl * 1000000)) (ucast bw) True = None"
    using assms f find by (auto simp: verify_cell_config_for_restart_def Let_def split: option.splits)
  then obtain e where "band_entry (ucast b) = Some e" "f_ul_low e \<le> ucast (ul * 1000000)"
    "ucast (ul * 1000000) < f_ul_high e" "uint (ucast (dl * 1000000) :: u64) = uint (ucast (ul * 1000000) :: u64) + f_offset e"
    unfolding eutra_band_accepted by blast
  moreover have "uint (ucast (w :: u32) :: u64) = uint w" for w by (simp add: uint_up_ucast is_up)
  ultimately show ?thesis using none some f by auto
qed

theorem restart_config_sound_witness:
  "let c = empty_cell_config\<lparr>cell_u32 := (\<lambda>_. None)(eutra_band := Some 7, ul_freq := Some 2510, dl_freq := Some 2630,
       ul_bandwidth := Some 25, dl_bandwidth := Some 25)\<rparr>
   in verify_cell_config_for_restart c = None \<and> cell_u32 c phy_cell_id = None \<and> plmn_id c = []"
proof -
  let ?c = "empty_cell_config\<lparr>cell_u32 := (\<lambda>_. None)(eutra_band := Some 7, ul_freq := Some 2510, dl_freq := Some 2630,
       ul_bandwidth := Some 25, dl_bandwidth := Some 25)\<rparr>"
  have "check_eutra_band 7 2510000000 2630000000 25 True = None"
    by (simp add: check_eutra_band_def get_eutra_band_index_def eutra_operating_bands_def band_def get_eutra_bw_index_def)
  then have "verify_cell_config_for_restart ?c = None"
    by (simp add: verify_cell_config_for_restart_def restart_tests_def empty_cell_config_def
        check_eutra_bandwidth_def get_eutra_bw_index_def)
  then show ?thesis using restart_config_sound [of ?c] by simp
qed

text \<open>Because the product is computed in 32 bits, a carrier is accepted or refused like the one
  2^26 MHz higher.\<close>

theorem restart_frequency_wraps:
  "verify_cell_config_for_restart (c\<lparr>cell_u32 := (cell_u32 c)(ul_freq := map_option (\<lambda>u. u + 67108864) (cell_u32 c ul_freq))\<rparr>)
     = verify_cell_config_for_restart c"
proof -
  let ?c = "c\<lparr>cell_u32 := (cell_u32 c)(ul_freq := map_option (\<lambda>u. u + 67108864) (cell_u32 c ul_freq))\<rparr>"
  have "(67108864 :: u32) * 1000000 = of_nat (67108864 * 1000000)" by (simp only: of_nat_mult of_nat_numeral)
  also have "\<dots> = 0" by (simp only: word_of_nat_eq_0_iff) simp
  finally have "(u + 67108864) * 1000000 = u * 1000000" for u :: u32 by (simp only: distrib_right add_0_right)
  then have val: "get_or 0 (map_option (\<lambda>u. u + 67108864) x) * 1000000 = get_or 0 x * 1000000" for x :: "u32 option"
    by (cases x) simp_all
  have "restart_tests ?c = restart_tests c" by (simp add: restart_tests_def Let_def)
  then show ?thesis by (simp add: verify_cell_config_for_restart_def Let_def val split: option.split)
qed

end
