(* ===== verification/Rrc_Triggering.thy ===== *)
theory Rrc_Triggering
  imports App_Common
begin

text \<open>
  \<open>app/rrc_triggering.{h,cc}\<close>: measurement configuration, hand-overs, and the check that the
  physical cell identifiers of the base stations are distinct. A base station that comes online
  has no configuration yet, so the check is put off to a tick, which is subscribed to as long
  as there is something to check.
\<close>

section \<open>Definitions\<close>

text \<open>
  The \<open>unordered_set\<close> is a list without duplicates, \<open>tick_check\<close> the connection to the tick
  (its start) when there is one. The last component of \<open>check_phyCellId\<close> are the warnings.
\<close>

record rrc =
  set_check_phyCellId :: "u64 list"
  map_phyCellId :: "(u64, int) std_map"
  tick_check :: "u64 option"

definition new_rrc :: rrc where
  "new_rrc = \<lparr>set_check_phyCellId = [], map_phyCellId = [], tick_check = None\<rparr>"

definition rrc_bs_added :: "u64 \<Rightarrow> u64 \<Rightarrow> rrc \<Rightarrow> rrc" where
  "rrc_bs_added b last_tick st =
     st\<lparr>set_check_phyCellId := List.insert b (set_check_phyCellId st),
        tick_check := (case tick_check st of None \<Rightarrow> Some last_tick | Some t \<Rightarrow> Some t)\<rparr>"

definition known_phyCellId :: "u64 \<Rightarrow> rib \<Rightarrow> int option" where
  "known_phyCellId b r = (case get_bs b r of
     None \<Rightarrow> None
   | Some e \<Rightarrow> (case cell_config (eNB_config e) of
       [] \<Rightarrow> None
     | cc # _ \<Rightarrow> map_option sint (cell_u32 cc phy_cell_id)))"

definition check_one :: "rib \<Rightarrow> u64 \<Rightarrow> u64 list \<times> (u64, int) std_map \<times> (u64 \<times> int \<times> u64) list
    \<Rightarrow> u64 list \<times> (u64, int) std_map \<times> (u64 \<times> int \<times> u64) list" where
  "check_one r b = (\<lambda>(kept, ids, warn). (case known_phyCellId b r of
     None \<Rightarrow> (kept @ [b], ids, warn)
   | Some p \<Rightarrow> (kept, sm_emplace b p ids, warn @ map (\<lambda>(o', q). (b, p, o')) (filter (\<lambda>(o', q). p = q) ids))))"

definition check_phyCellId :: "rib \<Rightarrow> rrc \<Rightarrow> rrc \<times> (u64 \<times> int \<times> u64) list" where
  "check_phyCellId r st = (case fold (check_one r) (set_check_phyCellId st) ([], map_phyCellId st, []) of
     (kept, ids, warn) \<Rightarrow>
       (st\<lparr>set_check_phyCellId := kept, map_phyCellId := ids,
           tick_check := (if kept = [] then None else tick_check st)\<rparr>, warn))"

definition rrc_bs_removed :: "u64 \<Rightarrow> rrc \<Rightarrow> rrc" where
  "rrc_bs_removed b st = st\<lparr>map_phyCellId := sm_erase b (map_phyCellId st)\<rparr>"

section \<open>Requests\<close>

definition push_config :: "u64 \<Rightarrow> flex_measurement_info \<Rightarrow> rib \<Rightarrow> outbox \<Rightarrow> outbox" where
  "push_config b info r out = send_message b
     (message_of INITIATING_MESSAGE (Rrc_triggering (Some (mk_header FLPT_RRC_TRIGGERING 0)) (Some info))) r out"

definition ho_message :: "u32 \<Rightarrow> u32 \<Rightarrow> flexran_message" where
  "ho_message rnti target = message_of INITIATING_MESSAGE
     (Ho_command (Some (mk_header FLPT_HO_COMMAND 0)) (Some rnti) (Some target))"

definition push_ho :: "u64 \<Rightarrow> u32 \<Rightarrow> u32 \<Rightarrow> rib \<Rightarrow> outbox \<Rightarrow> outbox" where
  "push_ho b rnti target r out = send_message b (ho_message rnti target) r out"

text \<open>The header that the code makes here is never attached to the message.\<close>

definition push_x2_ho_net_control :: "u64 \<Rightarrow> bool \<Rightarrow> rib \<Rightarrow> outbox \<Rightarrow> outbox" where
  "push_x2_ho_net_control b on r out = send_message b
     (message_of INITIATING_MESSAGE (Enb_config_reply_msg
       (empty_enb_config\<lparr>cell_config := [empty_cell_config\<lparr>x2_ho_net_control := Some on\<rparr>]\<rparr>))) r out"

definition rrc_parse_bs_agent_id :: "string \<Rightarrow> rib \<Rightarrow> u64 result" where
  "rrc_parse_bs_agent_id s r = (if s = [] then parse_enb_agent_id ''-1'' r else parse_enb_agent_id s r)"

definition rrc_parse_bs_id :: "string \<Rightarrow> rib \<Rightarrow> u64 result" where
  "rrc_parse_bs_id s r = (if s = [] then parse_enb_agent_id ''-1'' r else parse_bs_id s r)"

definition cell_0 :: "u64 \<Rightarrow> rib \<Rightarrow> flex_cell_config result" where
  "cell_0 b r = rbind (deref_bs b r) (cell_config_at 0)"

primrec find_phyCellId :: "u32 \<Rightarrow> rib \<Rightarrow> u64 list \<Rightarrow> u64 result" where
  "find_phyCellId p r [] = Inr 0"
| "find_phyCellId p r (b # bs) = rbind (cell_0 b r) (\<lambda>cc.
     if p = get_or 0 (cell_u32 cc phy_cell_id) then Inr b else find_phyCellId p r bs)"

definition parse_physical_cell_id :: "string \<Rightarrow> rib \<Rightarrow> u64 result" where
  "parse_physical_cell_id s r = (case stoi s of
     Inl (Invalid_argument _) \<Rightarrow> Inr 0
   | Inl e \<Rightarrow> Inl e
   | Inr v \<Rightarrow> if (word_of_int v :: u32) > 503 then Inr 0
              else find_phyCellId (word_of_int v) r (get_available_base_stations r))"

definition parse_ho_bs :: "string \<Rightarrow> rib \<Rightarrow> u64 result" where
  "parse_ho_bs s r = rbind (parse_bs_id s r) (\<lambda>b. if b = 0 then parse_physical_cell_id s r else Inr b)"

definition rrc_reconf :: "json \<Rightarrow> string \<Rightarrow> string \<Rightarrow> rib \<Rightarrow> outbox \<Rightarrow> outbox checked" where
  "rrc_reconf js bs config r out = rbind (rrc_parse_bs_id bs r) (\<lambda>b.
     if b = 0 then Inr (Inl ''can not find BS'')
     else (case js_measurement js config of
       None \<Rightarrow> Inr (Inl ''ProtoBuf parser error'')
     | Some info \<Rightarrow> Inr (Inr (push_config b info r out))))"

definition rrc_ho :: "string \<Rightarrow> string \<Rightarrow> string \<Rightarrow> rib \<Rightarrow> outbox \<Rightarrow> outbox checked" where
  "rrc_ho sbs ue tbs r out = rbind (parse_ho_bs sbs r) (\<lambda>s.
     if s = 0 then Inr (Inl ''can not find source BS'')
     else rbind (cell_0 s r) (\<lambda>sc.
       if \<not> get_or False (x2_ho_net_control sc) then Inr (Inl ''BS is not under NetControl'')
       else rbind (rbind (deref_bs s r) (parse_rnti_imsi ue)) (\<lambda>found. case found of
         None \<Rightarrow> Inr (Inl ''can not find UE'')
       | Some rnti \<Rightarrow> rbind (parse_ho_bs tbs r) (\<lambda>t.
           if t = 0 then Inr (Inl ''can not find target BS'')
           else if s = t then Inr (Inl ''can not hand over to source BS (target is source)'')
           else rbind (cell_0 t r) (\<lambda>tc.
             Inr (Inr (push_ho s rnti (get_or 0 (cell_u32 tc phy_cell_id)) r out)))))))"

definition rrc_x2_ho_net_control :: "string \<Rightarrow> bool \<Rightarrow> rib \<Rightarrow> outbox \<Rightarrow> outbox checked" where
  "rrc_x2_ho_net_control bs on r out = rbind (parse_enb_agent_id bs r) (\<lambda>b.
     if b = 0 then Inr (Inl ''can not find BS'') else Inr (Inr (push_x2_ho_net_control b on r out)))"

section \<open>The check\<close>

text \<open>
  What the check keeps: a base station that is known to the information base is queued or has
  its identifier recorded, never both, only known ones are recorded, and something queued has a tick.
\<close>

definition rrc_inv :: "(u64 \<Rightarrow> bool) \<Rightarrow> rrc \<Rightarrow> bool" where
  "rrc_inv online st \<longleftrightarrow> distinct (set_check_phyCellId st) \<and> sm_inv (map_phyCellId st)
     \<and> (\<forall>b. online b \<longrightarrow> b \<in> set (set_check_phyCellId st) \<or> sm_find b (map_phyCellId st) \<noteq> None)
     \<and> (\<forall>b. sm_find b (map_phyCellId st) \<noteq> None \<longrightarrow> online b)
     \<and> (\<forall>b \<in> set (set_check_phyCellId st). sm_find b (map_phyCellId st) = None)
     \<and> (set_check_phyCellId st \<noteq> [] \<longrightarrow> tick_check st \<noteq> None)"

lemma rrc_inv_added:
  assumes "rrc_inv P st" "\<not> P b"
  shows "rrc_inv (\<lambda>x. x = b \<or> P x) (rrc_bs_added b t st)"
  using assms by (auto simp: rrc_inv_def rrc_bs_added_def split: option.splits)

lemma rrc_inv_removed:
  assumes "rrc_inv P st"
  shows "rrc_inv (\<lambda>x. x \<noteq> b \<and> P x) (rrc_bs_removed b st)"
  using assms by (auto simp: rrc_inv_def rrc_bs_removed_def split: if_splits)

lemma known_online: "known_phyCellId b r \<noteq> None \<Longrightarrow> get_bs b r \<noteq> None"
  by (auto simp: known_phyCellId_def split: option.splits)

lemma check_one_simp:
  "check_one r b (kept, ids, warn) = (case known_phyCellId b r of
     None \<Rightarrow> (kept @ [b], ids, warn)
   | Some p \<Rightarrow> (kept, sm_emplace b p ids, warn @ map (\<lambda>(o', q). (b, p, o')) (filter (\<lambda>(o', q). p = q) ids)))"
  by (simp add: check_one_def)

lemma check_fold:
  assumes "fold (check_one r) bs (kept, ids, warn) = (kept', ids', warn')" "sm_inv ids"
  shows "kept' = kept @ filter (\<lambda>b. known_phyCellId b r = None) bs \<and> sm_inv ids'
     \<and> (\<forall>k. sm_find k ids' = (if sm_find k ids = None \<and> k \<in> set bs then known_phyCellId k r else sm_find k ids))"
  using assms
proof (induction bs arbitrary: kept ids warn)
  case (Cons b bs)
  show ?case
  proof (cases "known_phyCellId b r")
    case None
    then show ?thesis using Cons.IH [of "kept @ [b]" ids warn] Cons.prems by (auto simp: check_one_simp)
  next
    case (Some p)
    have inv: "sm_inv (sm_emplace b p ids)" using Cons.prems(2) by auto
    show ?thesis using Cons.IH [OF _ inv] Cons.prems(1) Some by (auto simp: check_one_simp)
  qed
qed simp

lemma check_kept:
  "fold (check_one r) bs (kept, ids, warn) = (kept', ids', warn') \<Longrightarrow>
     kept' = kept @ filter (\<lambda>b. known_phyCellId b r = None) bs"
proof (induction bs arbitrary: kept ids warn)
  case (Cons b bs)
  then show ?case
    by (cases "known_phyCellId b r") (fastforce simp: check_one_simp)+
qed simp

lemma check_warnings:
  assumes "fold (check_one r) bs (kept, ids, warn) = (kept', ids', warn')"
    and "sm_inv ids" "distinct bs" "\<forall>b \<in> set bs. sm_find b ids = None"
  shows "set warn \<subseteq> set warn' \<and> (\<forall>b p o'. b \<in> set bs \<longrightarrow> known_phyCellId b r = Some p \<longrightarrow>
     sm_find o' ids = Some p \<longrightarrow> (b, p, o') \<in> set warn')
     \<and> (\<forall>b p o'. (b, p, o') \<in> set warn' \<longrightarrow> (b, p, o') \<in> set warn \<or>
          b \<noteq> o' \<and> b \<in> set bs \<and> known_phyCellId b r = Some p \<and> sm_find o' ids' = Some p)"
  using assms
proof (induction bs arbitrary: kept ids warn)
  case (Cons b bs)
  show ?case
  proof (cases "known_phyCellId b r")
    case None
    have "fold (check_one r) bs (kept @ [b], ids, warn) = (kept', ids', warn')"
      using Cons.prems(1) None by (simp add: check_one_simp)
    note IH = Cons.IH [OF this Cons.prems(2)]
    have fresh: "distinct bs" "\<forall>x \<in> set bs. sm_find x ids = None" using Cons.prems(3,4) by auto
    show ?thesis
    proof (intro conjI allI impI)
      show "set warn \<subseteq> set warn'" using IH [OF fresh] by simp
      show "(x, q, o') \<in> set warn'"
        if "x \<in> set (b # bs)" "known_phyCellId x r = Some q" "sm_find o' ids = Some q" for x q o'
        using that None IH [OF fresh] by auto
      show "(x, q, o') \<in> set warn \<or> x \<noteq> o' \<and> x \<in> set (b # bs) \<and> known_phyCellId x r = Some q \<and> sm_find o' ids' = Some q"
        if "(x, q, o') \<in> set warn'" for x q o'
      proof -
        have "(x, q, o') \<in> set warn \<or> x \<noteq> o' \<and> x \<in> set bs \<and> known_phyCellId x r = Some q \<and> sm_find o' ids' = Some q"
          using that IH [OF fresh] by blast
        then show ?thesis by auto
      qed
    qed
  next
    case (Some p)
    let ?new = "map (\<lambda>(o', q). (b, p, o')) (filter (\<lambda>(o', q). p = q) ids)"
    have inv: "sm_inv (sm_emplace b p ids)" using Cons.prems(2) by auto
    have run: "fold (check_one r) bs (kept, sm_emplace b p ids, warn @ ?new) = (kept', ids', warn')"
      using Cons.prems(1) Some by (simp add: check_one_simp)
    have ids': "\<And>k. sm_find k ids \<noteq> None \<Longrightarrow> sm_find k ids' = sm_find k ids"
      using check_fold [OF run inv] by auto
    have fresh: "\<forall>x \<in> set bs. sm_find x (sm_emplace b p ids) = None" "b \<notin> set bs" "sm_find b ids = None"
      using Cons.prems(3,4) by auto
    have dist: "distinct bs" using Cons.prems(3) by simp
    have new: "(x, q, o') \<in> set ?new \<longleftrightarrow> x = b \<and> q = p \<and> sm_find o' ids = Some p" for x q o'
      using sm_find_set [OF Cons.prems(2), of o' p] by auto
    have IH: "set (warn @ ?new) \<subseteq> set warn'"
      "\<And>x q o'. x \<in> set bs \<Longrightarrow> known_phyCellId x r = Some q \<Longrightarrow> sm_find o' (sm_emplace b p ids) = Some q \<Longrightarrow> (x, q, o') \<in> set warn'"
      "\<And>x q o'. (x, q, o') \<in> set warn' \<Longrightarrow> (x, q, o') \<in> set (warn @ ?new) \<or>
          x \<noteq> o' \<and> x \<in> set bs \<and> known_phyCellId x r = Some q \<and> sm_find o' ids' = Some q"
      using Cons.IH [OF run inv dist fresh(1)] by blast+
    show ?thesis
    proof (intro conjI allI impI)
      show "set warn \<subseteq> set warn'" using IH(1) by simp
      show "(x, q, o') \<in> set warn'"
        if "x \<in> set (b # bs)" "known_phyCellId x r = Some q" "sm_find o' ids = Some q" for x q o'
      proof (cases "x = b")
        case True
        then show ?thesis using that IH(1) new Some by auto
      next
        case False
        then show ?thesis using that IH(2) [of x q o'] fresh(3) by (cases "o' = b") auto
      qed
      show "(x, q, o') \<in> set warn \<or> x \<noteq> o' \<and> x \<in> set (b # bs) \<and> known_phyCellId x r = Some q \<and> sm_find o' ids' = Some q"
        if "(x, q, o') \<in> set warn'" for x q o'
        using IH(3) [OF that] new [of x q o'] Some fresh(3) ids' [of o'] by auto
    qed
  qed
qed auto

lemma check_warnings_new:
  assumes "fold (check_one r) bs (kept, ids, warn) = (kept', ids', warn')"
    and "sm_inv ids" "distinct bs" "\<forall>b \<in> set bs. sm_find b ids = None"
    and "b \<in> set bs" "b' \<in> set bs" "b \<noteq> b'" "known_phyCellId b r = Some p" "known_phyCellId b' r = Some p"
  shows "(b, p, b') \<in> set warn' \<or> (b', p, b) \<in> set warn'"
  using assms
proof (induction bs arbitrary: kept ids warn)
  case (Cons x bs)
  obtain kept1 ids1 warn1 where one: "check_one r x (kept, ids, warn) = (kept1, ids1, warn1)"
    using prod_cases3 by blast
  then have run: "fold (check_one r) bs (kept1, ids1, warn1) = (kept', ids', warn')"
    using Cons.prems(1) by simp
  have inv: "sm_inv ids1" "distinct bs" "\<forall>y \<in> set bs. sm_find y ids1 = None"
    using one Cons.prems(2-4) by (auto simp: check_one_simp split: option.splits)
  have x: "known_phyCellId x r = Some p \<Longrightarrow> sm_find x ids1 = Some p"
    using one Cons.prems(4) by (auto simp: check_one_simp)
  note head = check_warnings [OF run inv]
  show ?case
  proof (cases "b = x \<or> b' = x")
    case True
    then show ?thesis using head x Cons.prems(5-9) by auto
  next
    case False
    then show ?thesis using Cons.IH [OF run inv] Cons.prems(5-9) by auto
  qed
qed simp

lemma check_phyCellId_eq:
  assumes "check_phyCellId r st = (st', warn)" "sm_inv (map_phyCellId st)"
  shows "set_check_phyCellId st' = filter (\<lambda>b. known_phyCellId b r = None) (set_check_phyCellId st)"
    and "sm_inv (map_phyCellId st')"
    and "sm_find k (map_phyCellId st') = (if sm_find k (map_phyCellId st) = None \<and> k \<in> set (set_check_phyCellId st)
           then known_phyCellId k r else sm_find k (map_phyCellId st))"
    and "tick_check st' = (if set_check_phyCellId st' = [] then None else tick_check st)"
proof -
  obtain kept ids w where f: "fold (check_one r) (set_check_phyCellId st) ([], map_phyCellId st, []) = (kept, ids, w)"
    using prod_cases3 by blast
  have st': "st' = st\<lparr>set_check_phyCellId := kept, map_phyCellId := ids,
      tick_check := (if kept = [] then None else tick_check st)\<rparr>"
    using assms(1) f by (simp add: check_phyCellId_def)
  note c = check_fold [OF f assms(2)]
  show "set_check_phyCellId st' = filter (\<lambda>b. known_phyCellId b r = None) (set_check_phyCellId st)"
    and "sm_inv (map_phyCellId st')"
    and "sm_find k (map_phyCellId st') = (if sm_find k (map_phyCellId st) = None \<and> k \<in> set (set_check_phyCellId st)
           then known_phyCellId k r else sm_find k (map_phyCellId st))"
    and "tick_check st' = (if set_check_phyCellId st' = [] then None else tick_check st)"
    using c st' by simp_all
qed

lemma rrc_inv_check:
  assumes "rrc_inv (\<lambda>b. get_bs b r \<noteq> None) st" "check_phyCellId r st = (st', warn)"
  shows "rrc_inv (\<lambda>b. get_bs b r \<noteq> None) st'"
proof -
  have inv: "sm_inv (map_phyCellId st)" using assms(1) by (simp add: rrc_inv_def)
  note c = check_phyCellId_eq [OF assms(2) inv]
  show ?thesis
    using assms(1) c(2) known_online [of _ r]
    unfolding rrc_inv_def c(1,3,4) by (auto split: if_splits)
qed

section \<open>Properties\<close>

text \<open>For the examples: two base stations with one cell each, the first under NetControl.\<close>

definition ho_enb :: "u64 \<Rightarrow> agent_info \<Rightarrow> u32 \<Rightarrow> enb_rib_info" where
  "ho_enb b a p = (new_enb b [a] 0)\<lparr>
     eNB_config := empty_enb_config\<lparr>cell_config := [empty_cell_config\<lparr>
       cell_u32 := (\<lambda>_. None)(phy_cell_id := Some p), x2_ho_net_control := Some True\<rparr>]\<rparr>,
     ue_mac_info := [(5, new_ue_mac 5)]\<rparr>"

definition ho_rib :: rib where
  "ho_rib = empty_rib\<lparr>eNB_configs := [(7, ho_enb 7 lower_agent 3), (8, ho_enb 8 upper_agent 4)]\<rparr>"

lemmas ho_defs = ho_rib_def ho_enb_def empty_rib_def new_enb_def empty_enb_config_def empty_cell_config_def

text \<open>C33. A hand-over that was accepted is between two different base stations the controller knows,
  the source is under NetControl and knows the user, and each agent of the source gets one
  command, with the RNTI of the user and the physical cell identifier of the target.\<close>

theorem rrc_ho_sound:
  assumes "rrc_ho sbs ue tbs r [] = Inr (Inr out)"
  shows "\<exists>s t es et sc tc rnti. parse_ho_bs sbs r = Inr s \<and> parse_ho_bs tbs r = Inr t \<and> s \<noteq> t
     \<and> get_bs s r = Some es \<and> get_bs t r = Some et
     \<and> cell_config_at 0 es = Inr sc \<and> x2_ho_net_control sc = Some True \<and> cell_config_at 0 et = Inr tc
     \<and> parse_rnti_imsi ue es = Inr (Some rnti)
     \<and> out = map (\<lambda>i. (i, ho_message rnti (get_or 0 (cell_u32 tc phy_cell_id)))) (bs_members s r)"
proof -
  obtain s where s: "parse_ho_bs sbs r = Inr s" "s \<noteq> 0"
    using assms by (auto simp: rrc_ho_def rbind_Inr_eq split: if_splits)
  then obtain sc where sc: "cell_0 s r = Inr sc" "get_or False (x2_ho_net_control sc)"
    using assms by (auto simp: rrc_ho_def rbind_Inr_eq split: if_splits)
  then obtain es where es: "get_bs s r = Some es" "cell_config_at 0 es = Inr sc"
    by (auto simp: cell_0_def deref_bs_def split: option.splits)
  then obtain rnti where rnti: "parse_rnti_imsi ue es = Inr (Some rnti)"
    using assms s sc by (auto simp: rrc_ho_def deref_bs_def rbind_Inr_eq split: if_splits option.splits)
  then obtain t tc where t: "parse_ho_bs tbs r = Inr t" "s \<noteq> t" "cell_0 t r = Inr tc"
      "out = push_ho s rnti (get_or 0 (cell_u32 tc phy_cell_id)) r []"
    using assms s sc es by (auto simp: rrc_ho_def deref_bs_def rbind_Inr_eq split: if_splits)
  then obtain et where et: "get_bs t r = Some et" "cell_config_at 0 et = Inr tc"
    by (auto simp: cell_0_def deref_bs_def split: option.splits)
  have "x2_ho_net_control sc = Some True" using sc(2) by (cases "x2_ho_net_control sc") auto
  then show ?thesis
    using s(1) es rnti t et by (auto simp: push_ho_def mes.send_appends)
qed

theorem rrc_ho_sound_witness:
  "rrc_ho ''7'' ''5'' ''-1'' ho_rib [] = Inr (Inr [(1, ho_message 5 4)])
     \<and> (\<exists>s t. parse_ho_bs ''7'' ho_rib = Inr s \<and> parse_ho_bs ''-1'' ho_rib = Inr t \<and> s \<noteq> t)"
proof -
  have num: "strto 10 ''7'' = Some 7" "strto 10 ''5'' = Some 5" by code_simp+
  have src: "parse_ho_bs ''7'' ho_rib = Inr 7"
    by (simp add: parse_ho_bs_def parse_bs_id_def parse_number_def stoll_def num get_bs_def ho_rib_def)
  have tgt: "parse_ho_bs ''-1'' ho_rib = Inr 8"
    by (simp add: parse_ho_bs_def parse_bs_id_def last_bs_id_def sm_keys_def ho_rib_def)
  have bs: "get_bs 7 ho_rib = Some (ho_enb 7 lower_agent 3)" "get_bs 8 ho_rib = Some (ho_enb 8 upper_agent 4)"
    by (simp_all add: get_bs_def ho_rib_def)
  have cells: "cell_config_at 0 (ho_enb b a p) = Inr (empty_cell_config\<lparr>
       cell_u32 := (\<lambda>_. None)(phy_cell_id := Some p), x2_ho_net_control := Some True\<rparr>)" for b a p
    by (simp add: cell_config_at_def ho_enb_def)
  have ue: "parse_rnti_imsi ''5'' (ho_enb b a p) = Inr (Some 5)" for b a p
    by (simp add: parse_rnti_imsi_def RNTI_ID_LENGTH_LIMIT_def stoi_def num ho_enb_def)
  have "push_ho 7 5 4 ho_rib [] = [(1, ho_message 5 4)]"
    by (simp add: push_ho_def send_message_def bs ho_enb_def new_enb_def)
  then have "rrc_ho ''7'' ''5'' ''-1'' ho_rib [] = Inr (Inr [(1, ho_message 5 4)])"
    by (simp add: rrc_ho_def src tgt cell_0_def deref_bs_def bs cells ue)
  from this rrc_ho_sound [OF this] show ?thesis by blast
qed

text \<open>C34. The check reports exactly the conflicts: a warning names two different base stations that
  now have the same recorded identifier, and any two that have it, not both recorded before,
  are named by a warning in one order or the other.\<close>

theorem duplicate_phyCellIds_reported:
  assumes "rrc_inv online st" "check_phyCellId r st = (st', warn)" "b \<noteq> b'"
  shows "(\<exists>q. (b, q, b') \<in> set warn \<or> (b', q, b) \<in> set warn) \<longleftrightarrow>
     (\<exists>p. sm_find b (map_phyCellId st') = Some p \<and> sm_find b' (map_phyCellId st') = Some p
        \<and> (sm_find b (map_phyCellId st) = None \<or> sm_find b' (map_phyCellId st) = None))"
proof -
  have inv: "sm_inv (map_phyCellId st)" "distinct (set_check_phyCellId st)"
    "\<forall>b \<in> set (set_check_phyCellId st). sm_find b (map_phyCellId st) = None"
    using assms(1) by (simp_all add: rrc_inv_def)
  obtain kept ids w where f: "fold (check_one r) (set_check_phyCellId st) ([], map_phyCellId st, []) = (kept, ids, w)"
    using prod_cases3 by blast
  have eq: "warn = w" "map_phyCellId st' = ids" using assms(2) f by (auto simp: check_phyCellId_def)
  have ids: "sm_find k ids = (if k \<in> set (set_check_phyCellId st) then known_phyCellId k r else sm_find k (map_phyCellId st))" for k
    using check_fold [OF f inv(1)] inv(3) by auto
  have warned: "sm_find x ids = Some q \<and> sm_find y ids = Some q \<and> sm_find x (map_phyCellId st) = None"
    if "(x, q, y) \<in> set w" for x q y
  proof -
    have "x \<in> set (set_check_phyCellId st) \<and> known_phyCellId x r = Some q \<and> sm_find y ids = Some q"
      using conjunct2 [OF conjunct2 [OF check_warnings [OF f inv]], rule_format, OF that] by simp
    then show ?thesis using ids [of x] inv(3) by simp
  qed
  have old: "(x, q, y) \<in> set w"
    if "x \<in> set (set_check_phyCellId st)" "known_phyCellId x r = Some q" "sm_find y (map_phyCellId st) = Some q" for x q y
    using check_warnings [OF f inv] that by blast
  note new = check_warnings_new [OF f inv _ _ assms(3)]
  show ?thesis (is "?L \<longleftrightarrow> ?R")
  proof
    assume ?L
    then show ?R using warned unfolding eq by meson
  next
    assume ?R
    then obtain p where p: "sm_find b ids = Some p" "sm_find b' ids = Some p"
      "sm_find b (map_phyCellId st) = None \<or> sm_find b' (map_phyCellId st) = None"
      unfolding eq by auto
    have "(b, p, b') \<in> set w \<or> (b', p, b) \<in> set w"
      using old [of b p b'] old [of b' p b] new [of p] p ids [of b] ids [of b'] by (auto split: if_splits)
    then show ?L unfolding eq by blast
  qed
qed

theorem duplicate_phyCellIds_reported_witness:
  "\<exists>st' warn. check_phyCellId (ho_rib\<lparr>eNB_configs := [(7, ho_enb 7 lower_agent 3), (8, ho_enb 8 upper_agent 3)]\<rparr>)
       (rrc_bs_added 8 0 (rrc_bs_added 7 0 new_rrc)) = (st', warn)
     \<and> (\<exists>q. (7, q, 8) \<in> set warn \<or> (8, q, 7) \<in> set warn)"
proof -
  let ?r = "ho_rib\<lparr>eNB_configs := [(7, ho_enb 7 lower_agent 3), (8, ho_enb 8 upper_agent 3)]\<rparr>"
  let ?st = "rrc_bs_added 8 0 (rrc_bs_added 7 0 new_rrc)"
  have new: "rrc_inv (\<lambda>_. False) new_rrc" by (simp add: rrc_inv_def new_rrc_def)
  have inv: "rrc_inv (\<lambda>x. x = 8 \<or> x = 7 \<or> False) ?st"
    by (rule rrc_inv_added, rule rrc_inv_added, rule new) simp_all
  obtain st' warn where c: "check_phyCellId ?r ?st = (st', warn)" by fastforce
  have known: "known_phyCellId 7 ?r = Some 3" "known_phyCellId 8 ?r = Some 3"
    by (simp_all add: known_phyCellId_def get_bs_def ho_defs)
  have st: "set_check_phyCellId ?st = [8, 7]" "map_phyCellId ?st = []"
    by (simp_all add: rrc_bs_added_def new_rrc_def)
  have "sm_find 7 (map_phyCellId st') = Some 3" "sm_find 8 (map_phyCellId st') = Some 3"
    using check_phyCellId_eq(3) [OF c] known by (simp_all add: st)
  then show ?thesis using duplicate_phyCellIds_reported [OF inv c, of 7 8] c st by auto
qed

text \<open>A base station that goes away before its configuration has arrived stays queued: until it
  comes back with one, every check leaves the queue non-empty, and the tick stays connected for
  good.\<close>

theorem removed_base_station_keeps_tick:
  assumes "b \<in> set (set_check_phyCellId st)" "tick_check st = Some t"
    and "\<forall>r \<in> set rs. known_phyCellId b r = None"
  shows "b \<in> set (set_check_phyCellId (fold (\<lambda>r st. fst (check_phyCellId r st)) rs (rrc_bs_removed b st)))
     \<and> tick_check (fold (\<lambda>r st. fst (check_phyCellId r st)) rs (rrc_bs_removed b st)) = Some t"
proof -
  have step: "b \<in> set (set_check_phyCellId (fst (check_phyCellId r st))) \<and> tick_check (fst (check_phyCellId r st)) = Some t"
    if "b \<in> set (set_check_phyCellId st)" "tick_check st = Some t" "known_phyCellId b r = None" for r st
  proof -
    obtain kept ids w where f: "fold (check_one r) (set_check_phyCellId st) ([], map_phyCellId st, []) = (kept, ids, w)"
      using prod_cases3 by blast
    have "b \<in> set kept" using check_kept [OF f] that by simp
    then show ?thesis using that(2) by (auto simp: check_phyCellId_def f)
  qed
  have "b \<in> set (set_check_phyCellId (fold (\<lambda>r st. fst (check_phyCellId r st)) rs st))
     \<and> tick_check (fold (\<lambda>r st. fst (check_phyCellId r st)) rs st) = Some t"
    if "b \<in> set (set_check_phyCellId st)" "tick_check st = Some t" "\<forall>r \<in> set rs. known_phyCellId b r = None" for st
    using that by (induction rs arbitrary: st) (simp_all add: step)
  then show ?thesis using assms by (simp add: rrc_bs_removed_def)
qed

theorem removed_base_station_keeps_tick_witness:
  "tick_check (fst (check_phyCellId empty_rib (rrc_bs_removed 7 (rrc_bs_added 7 20 new_rrc)))) = Some 20"
  using removed_base_station_keeps_tick [of 7 "rrc_bs_added 7 20 new_rrc" 20 "[empty_rib]"]
  by (simp add: rrc_bs_added_def new_rrc_def known_phyCellId_def get_bs_def empty_rib_def)

end
