(* ===== verification/Rib_Management.thy ===== *)
theory Rib_Management
  imports App_Common
begin

text \<open>
  \<open>app/rib_management.cc\<close>: the periodic request for the configuration of every base station, and
  the watch for base stations that have been silent for 1.5 seconds. The state is the set of
  the silent ones; the clock counts microseconds.
\<close>

section \<open>Definitions\<close>

definition send_enb_config_request :: "u64 \<Rightarrow> rib \<Rightarrow> outbox \<Rightarrow> outbox" where
  "send_enb_config_request b r out = send_message b (message_of INITIATING_MESSAGE
     (Enb_config_request_msg (Some (mk_header FLPT_GET_ENB_CONFIG_REQUEST 0)))) r out"

definition send_ue_config_request :: "u64 \<Rightarrow> rib \<Rightarrow> outbox \<Rightarrow> outbox" where
  "send_ue_config_request b r out = send_message b (message_of INITIATING_MESSAGE
     (Ue_config_request_msg (Some (mk_header FLPT_GET_UE_CONFIG_REQUEST 0)))) r out"

definition send_lc_config_request :: "u64 \<Rightarrow> rib \<Rightarrow> outbox \<Rightarrow> outbox" where
  "send_lc_config_request b r out = send_message b (message_of INITIATING_MESSAGE
     (Lc_config_request_msg (Some (mk_header FLPT_GET_LC_CONFIG_REQUEST 0)))) r out"

definition tick_bs :: "nat \<Rightarrow> rib \<Rightarrow> u64 \<Rightarrow> u64 set \<times> outbox \<Rightarrow> (u64 set \<times> outbox) result" where
  "tick_bs now r b = (\<lambda>(inactive, out).
     let out = send_lc_config_request b r (send_ue_config_request b r (send_enb_config_request b r out)) in
     rbind (deref_bs b r) (\<lambda>e.
       Inr (if now \<ge> last_checked e + 1500000 then insert b inactive else inactive - {b}, out)))"

definition management_tick :: "nat \<Rightarrow> rib \<Rightarrow> u64 set \<times> outbox \<Rightarrow> (u64 set \<times> outbox) result" where
  "management_tick now r st = foldR (tick_bs now r) (get_available_base_stations r) st"

section \<open>Lemmas\<close>

definition config_requests :: "flexran_message list" where
  "config_requests =
     [message_of INITIATING_MESSAGE (Enb_config_request_msg (Some (mk_header FLPT_GET_ENB_CONFIG_REQUEST 0))),
      message_of INITIATING_MESSAGE (Ue_config_request_msg (Some (mk_header FLPT_GET_UE_CONFIG_REQUEST 0))),
      message_of INITIATING_MESSAGE (Lc_config_request_msg (Some (mk_header FLPT_GET_LC_CONFIG_REQUEST 0)))]"

definition silent :: "nat \<Rightarrow> rib \<Rightarrow> u64 \<Rightarrow> bool" where
  "silent now r b = (case get_bs b r of None \<Rightarrow> False | Some e \<Rightarrow> now \<ge> last_checked e + 1500000)"

definition requests_for :: "rib \<Rightarrow> u64 \<Rightarrow> outbox" where
  "requests_for r b = concat (map (\<lambda>m. map (\<lambda>i. (i, m)) (bs_members b r)) config_requests)"

lemma tick_bs_eq:
  "get_bs b r \<noteq> None \<Longrightarrow> tick_bs now r b (inactive, out) =
     Inr (if silent now r b then insert b inactive else inactive - {b}, out @ requests_for r b)"
  by (auto simp: tick_bs_def Let_def deref_bs_def silent_def send_enb_config_request_def send_ue_config_request_def
      send_lc_config_request_def mes.send_appends requests_for_def config_requests_def)

lemma ticks_eq:
  assumes "\<And>b. b \<in> set bs \<Longrightarrow> get_bs b r \<noteq> None"
  shows "\<exists>inactive'. foldR (tick_bs now r) bs (inactive, out) = Inr (inactive', out @ concat (map (requests_for r) bs))
     \<and> (\<forall>b. b \<in> inactive' \<longleftrightarrow> (if b \<in> set bs then silent now r b else b \<in> inactive))"
  using assms
proof (induction bs arbitrary: inactive out)
  case (Cons b bs)
  let ?in = "if silent now r b then insert b inactive else inactive - {b}"
  have "\<And>x. x \<in> set bs \<Longrightarrow> get_bs x r \<noteq> None" using Cons.prems by simp
  from Cons.IH [OF this, of ?in "out @ requests_for r b"]
  obtain inactive' where r: "foldR (tick_bs now r) bs (?in, out @ requests_for r b) =
       Inr (inactive', (out @ requests_for r b) @ concat (map (requests_for r) bs))"
    "\<And>x. x \<in> inactive' \<longleftrightarrow> (if x \<in> set bs then silent now r x else x \<in> ?in)"
    by blast
  have "get_bs b r \<noteq> None" using Cons.prems by simp
  then show ?case using r by (auto simp: tick_bs_eq)
qed simp

section \<open>Properties\<close>

text \<open>A tick never fails: each agent of each base station is sent the three requests, in the
  order of the base stations, and a base station that the controller knows is in the set of
  silent ones afterwards exactly when nothing was heard of it for 1.5 seconds. What is said of
  base stations that have gone is not revised.\<close>

theorem management_tick_watches_all:
  "\<exists>inactive'. management_tick now r (inactive, out) =
       Inr (inactive', out @ concat (map (requests_for r) (get_available_base_stations r)))
     \<and> (\<forall>b. b \<in> inactive' \<longleftrightarrow> (if has_eNB_config_entry b r then silent now r b else b \<in> inactive))"
  using ticks_eq [of "get_available_base_stations r" r now inactive out]
  unfolding management_tick_def available_get_bs has_eNB_config_entry_def by simp

end
