(* ===== verification/Task_Manager.thy ===== *)
theory Task_Manager
  imports Stats_Manager Rrm_Management Rrc_Triggering Rib_Management
begin

text \<open>
  \<open>core/task_manager.cc\<close> and \<open>event/subscription.cc\<close>: the loop that drives the controller. Each
  cycle runs the updater, whose events call the applications that subscribed to them, and then
  signals the tick. The record \<open>system\<close> is the updater together with the applications that
  subscribe to something, in the order in which \<open>core/rt_controller.cc\<close> creates them; their
  messages go to the one outbox of the network interface.
\<close>

section \<open>State\<close>

record 'r system =
  sys_ctl :: controller
  sys_stats :: "(u64, stats_requests) std_map"
  sys_rrm :: "'r rrm"
  sys_rrc :: rrc
  sys_inactive :: "u64 set"
  sys_last_tick :: u64

definition new_system :: "'r rrm \<Rightarrow> 'r system" where
  "new_system rrm = \<lparr>sys_ctl = new_controller, sys_stats = [], sys_rrm = rrm, sys_rrc = new_rrc,
     sys_inactive = {}, sys_last_tick = 0\<rparr>"

section \<open>Signals\<close>

definition set_sent :: "outbox \<Rightarrow> 'r system \<Rightarrow> 'r system" where
  "set_sent out s = s\<lparr>sys_ctl := (sys_ctl s)\<lparr>ctl_sent := out\<rparr>\<rparr>"

definition deliver :: "'r regex \<Rightarrow> event \<Rightarrow> 'r system \<Rightarrow> 'r system" where
  "deliver rx ev s = (let r = ctl_rib (sys_ctl s); out = ctl_sent (sys_ctl s) in (case ev of
     Bs_add b \<Rightarrow> (case stats_bs_add b r (sys_stats s, out) of (lst, out') \<Rightarrow>
       (set_sent out' s)\<lparr>sys_stats := lst, sys_rrc := rrc_bs_added b (sys_last_tick s) (sys_rrc s)\<rparr>)
   | Bs_remove b \<Rightarrow> (case stats_bs_remove b (sys_stats s, out) of (lst, out') \<Rightarrow>
       (set_sent out' s)\<lparr>sys_stats := lst, sys_rrc := rrc_bs_removed b (sys_rrc s)\<rparr>)
   | Ue_update b rnti \<Rightarrow> set_sent (ue_add_update_slice_assoc rx (sys_rrm s) b rnti r out) s
   | _ \<Rightarrow> s))"

definition signal_tick :: "nat \<Rightarrow> u64 \<Rightarrow> 'r system \<Rightarrow> 'r system result" where
  "signal_tick now t s = (let r = ctl_rib (sys_ctl s) in
     rbind (if tick_due 1000 0 t
            then rbind (management_tick now r (sys_inactive s, ctl_sent (sys_ctl s))) (\<lambda>(inactive, out).
                   Inr ((set_sent out s)\<lparr>sys_inactive := inactive\<rparr>))
            else Inr s) (\<lambda>s.
     Inr (case tick_check (sys_rrc s) of
       None \<Rightarrow> s
     | Some start \<Rightarrow> if tick_due 10 start t then s\<lparr>sys_rrc := fst (check_phyCellId r (sys_rrc s))\<rparr> else s)))"

section \<open>The loop\<close>

text \<open>A message is handled, and the events it fires reach the applications.\<close>

definition system_message ::
  "protobuf \<Rightarrow> (int \<Rightarrow> string) \<Rightarrow> 'r regex \<Rightarrow> nat \<Rightarrow> tagged_message \<Rightarrow> 'r system \<Rightarrow> 'r system result" where
  "system_message pb ep rx now tm s = rbind (handle_message pb ep now tm (sys_ctl s)) (\<lambda>c.
     Inr (fold (deliver rx) (drop (length (ctl_events (sys_ctl s))) (ctl_events c)) (s\<lparr>sys_ctl := c\<rparr>)))"

fun system_update ::
  "protobuf \<Rightarrow> (int \<Rightarrow> string) \<Rightarrow> 'r regex \<Rightarrow> (nat \<Rightarrow> nat) \<Rightarrow> nat \<Rightarrow> tagged_message list \<Rightarrow> 'r system \<Rightarrow> 'r system result" where
  "system_update pb ep rx clock rem [] s = Inr (s\<lparr>sys_ctl := (sys_ctl s)\<lparr>ctl_inbox := []\<rparr>\<rparr>)"
| "system_update pb ep rx clock 0 (tm # tms) s = Inr (s\<lparr>sys_ctl := (sys_ctl s)\<lparr>ctl_inbox := tms\<rparr>\<rparr>)"
| "system_update pb ep rx clock (Suc rem) (tm # tms) s =
     rbind (system_message pb ep rx (clock (Suc rem)) tm s) (\<lambda>s'. system_update pb ep rx clock rem tms s')"

text \<open>What a cycle depends on: the messages that have arrived, and the readings of the clock.\<close>

record cycle_input =
  arrived :: "tagged_message list"
  update_clock :: "nat \<Rightarrow> nat"
  tick_clock :: nat

definition cycle ::
  "protobuf \<Rightarrow> (int \<Rightarrow> string) \<Rightarrow> 'r regex \<Rightarrow> cycle_input \<Rightarrow> u64 \<times> 'r system \<Rightarrow> (u64 \<times> 'r system) result" where
  "cycle pb ep rx inp = (\<lambda>(t, s).
     rbind (system_update pb ep rx (update_clock inp) messages_to_check
              (ctl_inbox (sys_ctl s) @ arrived inp) s) (\<lambda>s.
     rbind (signal_tick (tick_clock inp) t s) (\<lambda>s.
     Inr (t + 1, s\<lparr>sys_last_tick := t\<rparr>))))"

text \<open>
  Between two cycles the REST interface may have called an application. The one call that changes
  the state of these applications is \<open>set_stats_requests\<close>; the theory Server_Loop has the others. An
  exception goes to the REST interface, not to the loop; undefined behaviour is everybody's.
\<close>

definition stats_call :: "json \<Rightarrow> string \<Rightarrow> string \<Rightarrow> 'r system \<Rightarrow> 'r system result" where
  "stats_call js bs policy s =
     (case set_stats_requests js bs policy (ctl_rib (sys_ctl s)) (sys_stats s, ctl_sent (sys_ctl s)) of
        Inl (Undefined_behaviour e) \<Rightarrow> Inl (Undefined_behaviour e)
      | Inl _ \<Rightarrow> Inr s
      | Inr (Inl _) \<Rightarrow> Inr s
      | Inr (Inr (lst, out)) \<Rightarrow> Inr ((set_sent out s)\<lparr>sys_stats := lst\<rparr>))"

datatype input = Cycle cycle_input | Stats_call string string

definition system_step ::
  "protobuf \<Rightarrow> json \<Rightarrow> (int \<Rightarrow> string) \<Rightarrow> 'r regex \<Rightarrow> input \<Rightarrow> u64 \<times> 'r system \<Rightarrow> (u64 \<times> 'r system) result" where
  "system_step pb js ep rx i = (\<lambda>(t, s). (case i of
     Cycle inp \<Rightarrow> cycle pb ep rx inp (t, s)
   | Stats_call bs policy \<Rightarrow> rbind (stats_call js bs policy s) (\<lambda>s'. Inr (t, s'))))"

definition manage_rt_tasks ::
  "protobuf \<Rightarrow> json \<Rightarrow> (int \<Rightarrow> string) \<Rightarrow> 'r regex \<Rightarrow> input list \<Rightarrow> 'r system \<Rightarrow> (u64 \<times> 'r system) result" where
  "manage_rt_tasks pb js ep rx inps s = foldR (system_step pb js ep rx) inps (0, s)"

section \<open>Invariant\<close>

text \<open>
  The applications agree with the information base: the statistics manager has exactly the base
  stations that are online, and the check of the cell identifiers accounts for each of them.
\<close>

definition agree :: "(u64 \<Rightarrow> bool) \<Rightarrow> 'r system \<Rightarrow> bool" where
  "agree online s \<longleftrightarrow> (\<forall>b. sm_find b (sys_stats s) \<noteq> None \<longleftrightarrow> online b) \<and> rrc_inv online (sys_rrc s)"

definition sys_inv :: "protobuf \<Rightarrow> 'r system \<Rightarrow> bool" where
  "sys_inv pb s \<longleftrightarrow> inbox_inv pb (sys_ctl s) \<and> agree (\<lambda>b. get_bs b (ctl_rib (sys_ctl s)) \<noteq> None) s"

lemma set_sent_simps [simp]:
  "ctl_rib (sys_ctl (set_sent out s)) = ctl_rib (sys_ctl s)" "ctl_events (sys_ctl (set_sent out s)) = ctl_events (sys_ctl s)"
  "ctl_inbox (sys_ctl (set_sent out s)) = ctl_inbox (sys_ctl s)" "sys_stats (set_sent out s) = sys_stats s"
  "sys_rrc (set_sent out s) = sys_rrc s" "sys_inactive (set_sent out s) = sys_inactive s"
  "sys_last_tick (set_sent out s) = sys_last_tick s"
  by (simp_all add: set_sent_def)

text \<open>Delivering an event changes neither the information base nor the history.\<close>

lemma deliver_ctl:
  "ctl_rib (sys_ctl (deliver rx ev s)) = ctl_rib (sys_ctl s) \<and> ctl_events (sys_ctl (deliver rx ev s)) = ctl_events (sys_ctl s)
     \<and> ctl_inbox (sys_ctl (deliver rx ev s)) = ctl_inbox (sys_ctl s)"
  by (cases ev) (auto simp: deliver_def Let_def split: prod.splits)

lemma deliver_all_ctl:
  "ctl_rib (sys_ctl (fold (deliver rx) evs s)) = ctl_rib (sys_ctl s)
     \<and> ctl_events (sys_ctl (fold (deliver rx) evs s)) = ctl_events (sys_ctl s)
     \<and> ctl_inbox (sys_ctl (fold (deliver rx) evs s)) = ctl_inbox (sys_ctl s)"
  by (induction evs arbitrary: s) (simp_all add: deliver_ctl)

lemma deliver_agree:
  assumes "agree (\<lambda>b. b \<in> B) s" "view_step ev B = Some B'"
  shows "agree (\<lambda>b. b \<in> B') (deliver rx ev s)"
proof (cases ev)
  case (Bs_add b)
  then have "b \<notin> B" "B' = insert b B" using assms(2) by (auto split: if_splits)
  then show ?thesis
    using assms(1) rrc_inv_added [of "\<lambda>b. b \<in> B" "sys_rrc s" b "sys_last_tick s"] Bs_add
    by (auto simp: agree_def deliver_def Let_def stats_bs_add_def)
next
  case (Bs_remove b)
  then have b: "b \<in> B" "B' = B - {b}" using assms(2) by (auto split: if_splits)
  then obtain rs where "sm_find b (sys_stats s) = Some rs" using assms(1) by (auto simp: agree_def)
  then show ?thesis
    using assms(1) rrc_inv_removed [of "\<lambda>b. b \<in> B" "sys_rrc s" b] Bs_remove b
    by (auto simp: agree_def deliver_def Let_def stats_bs_remove_def conj_commute)
qed (use assms in \<open>auto simp: agree_def deliver_def Let_def split: if_splits\<close>)

lemma deliver_all_agree:
  "agree (\<lambda>b. b \<in> B) s \<Longrightarrow> view evs B = Some B' \<Longrightarrow> agree (\<lambda>b. b \<in> B') (fold (deliver rx) evs s)"
proof (induction evs arbitrary: B s)
  case (Cons ev evs)
  then obtain B1 where "view_step ev B = Some B1" "view evs B1 = Some B'" by (auto simp: bind_eq_Some_conv)
  then show ?case using Cons.IH [of B1 "deliver rx ev s"] deliver_agree [OF Cons.prems(1)] by simp
qed simp

lemma with_bs_events: "with_bs i f c = Inr c' \<Longrightarrow> ctl_events c' = ctl_events c"
  by (auto simp: with_bs_def rbind_Inr_eq split: option.splits)

text \<open>The history only grows.\<close>

lemma dispatch_appends:
  assumes "dispatch_message pb ep now i m c = Inr c'"
  shows "\<exists>evs. ctl_events c' = ctl_events c @ evs"
proof (cases "msg_body m")
  case (Some b)
  then show ?thesis
    using assms
    by (cases b)
      (auto simp: dispatch_message_def simple_handlers handle_hello_def handle_disconnect_def handle_ue_state_change_def
        handle_control_delegation_request_def rbind_Inr_eq Let_def dest!: with_bs_events
        split: if_splits option.splits prod.splits bool.splits)
qed (use assms in \<open>simp add: dispatch_message_def\<close>)

lemma handle_message_appends:
  assumes "handle_message pb ep now tm c = Inr c'"
  shows "\<exists>evs. ctl_events c' = ctl_events c @ evs"
  using assms dispatch_appends
  by (fastforce simp: handle_message_def handle_new_connection_def rbind_Inr_eq split: if_splits)

lemma system_message_ok:
  assumes "merge_ue_ok pb" "ctl_inv (sys_ctl s)" "agree (\<lambda>b. get_bs b (ctl_rib (sys_ctl s)) \<noteq> None) s" "delivered_ok pb tm"
  shows "\<exists>s'. system_message pb ep rx now tm s = Inr s' \<and> ctl_inv (sys_ctl s')
     \<and> agree (\<lambda>b. get_bs b (ctl_rib (sys_ctl s')) \<noteq> None) s'"
proof -
  let ?c = "sys_ctl s"
  obtain c where c: "handle_message pb ep now tm ?c = Inr c" "ctl_inv c"
    using handle_message_handled [OF assms(1,2,4)] unfolding handled_def by blast
  obtain evs where evs: "ctl_events c = ctl_events ?c @ evs" using handle_message_appends [OF c(1)] by blast
  have "view evs (bs_set (ctl_rib ?c)) = Some (bs_set (ctl_rib c))"
    using assms(2) c(2) by (simp add: ctl_inv_def evs view_append)
  moreover have "agree (\<lambda>b. b \<in> bs_set (ctl_rib ?c)) (s\<lparr>sys_ctl := c\<rparr>)"
    using assms(3) by (simp add: agree_def bs_set_def)
  ultimately have "agree (\<lambda>b. b \<in> bs_set (ctl_rib c)) (fold (deliver rx) evs (s\<lparr>sys_ctl := c\<rparr>))"
    by (rule deliver_all_agree [rotated])
  then show ?thesis
    using c deliver_all_ctl [of rx evs "s\<lparr>sys_ctl := c\<rparr>"]
    by (simp add: system_message_def evs ctl_inv_def bs_set_def)
qed

lemma system_update_ok:
  assumes "merge_ue_ok pb" "ctl_inv (sys_ctl s)" "agree (\<lambda>b. get_bs b (ctl_rib (sys_ctl s)) \<noteq> None) s"
    and "list_all (delivered_ok pb) tms"
  shows "\<exists>s'. system_update pb ep rx clock rem tms s = Inr s' \<and> sys_inv pb s'"
  using assms
proof (induction pb ep rx clock rem tms s rule: system_update.induct)
  case (3 pb ep rx clock rem tm tms s)
  have tm: "delivered_ok pb tm" using 3(5) by simp
  obtain s' where s': "system_message pb ep rx (clock (Suc rem)) tm s = Inr s'" "ctl_inv (sys_ctl s')"
    "agree (\<lambda>b. get_bs b (ctl_rib (sys_ctl s')) \<noteq> None) s'"
    using system_message_ok [OF 3(2-4) tm] by blast
  then show ?case using "3.IH" [OF s'(1)] "3.prems" by simp
qed (simp_all add: sys_inv_def inbox_inv_def agree_def)

lemma signal_tick_ok:
  assumes "sys_inv pb s"
  shows "\<exists>s'. signal_tick now t s = Inr s' \<and> sys_inv pb s'"
proof -
  let ?r = "ctl_rib (sys_ctl s)"
  obtain s1 where s1: "(if tick_due 1000 0 t
            then rbind (management_tick now ?r (sys_inactive s, ctl_sent (sys_ctl s))) (\<lambda>(inactive, out).
                   Inr ((set_sent out s)\<lparr>sys_inactive := inactive\<rparr>))
            else Inr s) = Inr s1" "ctl_rib (sys_ctl s1) = ?r" "sys_rrc s1 = sys_rrc s" "sys_inv pb s1"
  proof (cases "tick_due 1000 0 t")
    case True
    obtain inactive out where m: "management_tick now ?r (sys_inactive s, ctl_sent (sys_ctl s)) = Inr (inactive, out)"
      using ticks_eq [of "get_available_base_stations ?r" ?r now "sys_inactive s" "ctl_sent (sys_ctl s)"]
      unfolding management_tick_def available_get_bs by blast
    have "sys_inv pb ((set_sent out s)\<lparr>sys_inactive := inactive\<rparr>)"
      using assms by (simp add: sys_inv_def inbox_inv_def ctl_inv_def agree_def)
    then show ?thesis using that [of "(set_sent out s)\<lparr>sys_inactive := inactive\<rparr>"] True m by simp
  qed (use assms that in simp)
  have "rrc_inv (\<lambda>b. get_bs b ?r \<noteq> None) (sys_rrc s)" using assms by (simp add: sys_inv_def agree_def)
  then have "rrc_inv (\<lambda>b. get_bs b ?r \<noteq> None) (fst (check_phyCellId ?r (sys_rrc s)))"
    using rrc_inv_check [of ?r "sys_rrc s"] by (metis prod.collapse)
  then have "sys_inv pb (s1\<lparr>sys_rrc := fst (check_phyCellId ?r (sys_rrc s))\<rparr>)"
    using s1 by (simp add: sys_inv_def agree_def)
  then show ?thesis
    using s1 by (auto simp: signal_tick_def Let_def split: option.splits)
qed

lemma cycle_ok:
  assumes "merge_ue_ok pb" "sys_inv pb s" "list_all (delivered_ok pb) (arrived inp)"
  shows "\<exists>s'. cycle pb ep rx inp (t, s) = Inr (t + 1, s') \<and> sys_inv pb s'"
proof -
  have "ctl_inv (sys_ctl s)" "agree (\<lambda>b. get_bs b (ctl_rib (sys_ctl s)) \<noteq> None) s"
    "list_all (delivered_ok pb) (ctl_inbox (sys_ctl s) @ arrived inp)"
    using assms by (simp_all add: sys_inv_def inbox_inv_def)
  from system_update_ok [OF assms(1) this]
  obtain s1 where s1: "system_update pb ep rx (update_clock inp) messages_to_check
      (ctl_inbox (sys_ctl s) @ arrived inp) s = Inr s1" "sys_inv pb s1"
    by blast
  obtain s2 where s2: "signal_tick (tick_clock inp) t s1 = Inr s2" "sys_inv pb s2"
    using signal_tick_ok [OF s1(2)] by blast
  then show ?thesis using s1 by (simp add: cycle_def sys_inv_def agree_def)
qed

lemma stats_call_ok:
  assumes "sys_inv pb s"
  shows "\<exists>s'. stats_call js bs policy s = Inr s' \<and> sys_inv pb s'"
proof -
  let ?r = "ctl_rib (sys_ctl s)"
  have "rib_inv ?r" "\<And>b. get_bs b ?r \<noteq> None \<Longrightarrow> sm_find b (sys_stats s) \<noteq> None"
    using assms by (simp_all add: sys_inv_def inbox_inv_def ctl_inv_def agree_def)
  from set_stats_requests_listed [OF this, of js bs policy "ctl_sent (sys_ctl s)"]
  consider e where "set_stats_requests js bs policy ?r (sys_stats s, ctl_sent (sys_ctl s)) = Inl (Out_of_range e)"
    | e where "set_stats_requests js bs policy ?r (sys_stats s, ctl_sent (sys_ctl s)) = Inr (Inl e)"
    | lst out where "set_stats_requests js bs policy ?r (sys_stats s, ctl_sent (sys_ctl s)) = Inr (Inr (lst, out))"
        "\<forall>k. sm_find k lst = None \<longleftrightarrow> sm_find k (sys_stats s) = None"
    by blast
  then show ?thesis
  proof cases
    case 3
    have "sm_find k lst \<noteq> None \<longleftrightarrow> sm_find k (sys_stats s) \<noteq> None" for k using 3(2) by simp
    then have "sys_inv pb ((set_sent out s)\<lparr>sys_stats := lst\<rparr>)"
      using assms unfolding sys_inv_def agree_def by (simp add: inbox_inv_def ctl_inv_def)
    then show ?thesis using 3(1) by (simp add: stats_call_def)
  qed (use assms in \<open>simp_all add: stats_call_def\<close>)
qed

fun input_ok :: "protobuf \<Rightarrow> input \<Rightarrow> bool" where
  "input_ok pb (Cycle inp) \<longleftrightarrow> list_all (delivered_ok pb) (arrived inp)"
| "input_ok pb (Stats_call _ _) \<longleftrightarrow> True"

interpretation sys: safe_system "system_step pb js ep rx" "\<lambda>(t, s). merge_ue_ok pb \<and> sys_inv pb s" "\<lambda>inp _. input_ok pb inp"
  for pb js ep rx
proof unfold_locales
  fix st :: "u64 \<times> 'a system" and st' inp
  assume a: "case st of (t, s) \<Rightarrow> merge_ue_ok pb \<and> sys_inv pb s" "input_ok pb inp"
  obtain t s where st: "st = (t, s)" by fastforce
  have "\<exists>t' s'. system_step pb js ep rx inp st = Inr (t', s') \<and> sys_inv pb s'"
  proof (cases inp)
    case (Cycle ci)
    then show ?thesis using cycle_ok [of pb s ci ep rx t] a st by (auto simp: system_step_def)
  next
    case (Stats_call bs policy)
    obtain s' where "stats_call js bs policy s = Inr s'" "sys_inv pb s'"
      using stats_call_ok a(1) st by blast
    then show ?thesis using st Stats_call by (simp add: system_step_def)
  qed
  then show "is_ok (system_step pb js ep rx inp st)"
    and "system_step pb js ep rx inp st = Inr st' \<Longrightarrow> case st' of (t, s) \<Rightarrow> merge_ue_ok pb \<and> sys_inv pb s"
    using a(1) st by auto
qed

lemma new_system_inv: "sys_inv pb (new_system rrm)"
  using new_controller_inv [of pb]
  by (simp add: sys_inv_def new_system_def agree_def rrc_inv_def new_rrc_def)
     (simp add: new_controller_def get_bs_def empty_rib_def)

section \<open>Properties\<close>



end
