(* ===== verification/Plmn_Management.thy ===== *)
theory Plmn_Management
  imports App_Common
begin

text \<open>
  \<open>app/plmn_management.{h,cc}\<close>: requests that add or remove the MME of a base station and that set
  its list of PLMNs.
\<close>

section \<open>Definitions\<close>

definition cannot_find_bs :: "string \<Rightarrow> 'a result" where
  "cannot_find_bs bs = refuse (''cannot find BS '' @ bs)"

definition push_mme_config :: "u64 \<Rightarrow> flex_s1ap_config \<Rightarrow> rib \<Rightarrow> outbox \<Rightarrow> outbox" where
  "push_mme_config b s r out = send_message b (mme_reconfiguration s) r out"

definition push_cell_config :: "u64 \<Rightarrow> flex_cell_config \<Rightarrow> rib \<Rightarrow> outbox \<Rightarrow> outbox" where
  "push_cell_config b cc r out = send_message b (cell_reconfiguration cc) r out"

text \<open>\<open>s1ap()\<close> of the configuration of the base station, and the address of an MME (empty if absent).\<close>

definition current_mmes :: "enb_rib_info \<Rightarrow> flex_s1ap_mme list" where
  "current_mmes e = mme (get_or empty_s1ap (s1ap (eNB_config e)))"

definition ip_present :: "string \<Rightarrow> enb_rib_info \<Rightarrow> bool" where
  "ip_present ip e \<longleftrightarrow> list_ex (\<lambda>m. get_or [] (s1_ip m) = ip) (current_mmes e)"

definition clear_s1ap :: "flex_s1ap_config \<Rightarrow> flex_s1ap_config" where
  "clear_s1ap s = s\<lparr>s1ap_pending := None, s1ap_connected := None, enb_s1_ip := None, enb_name := None\<rparr>"

text \<open>The loop over the MMEs of a request, one of which is left when it runs.\<close>

definition each_mme :: "(flex_s1ap_mme \<Rightarrow> flex_s1ap_mme result) \<Rightarrow> flex_s1ap_config \<Rightarrow> flex_s1ap_config result" where
  "each_mme f s = rbind (foldR (\<lambda>m acc. rbind (f m) (\<lambda>m'. Inr (acc @ [m']))) (mme s) []) (\<lambda>ms. Inr (s\<lparr>mme := ms\<rparr>))"

definition one_mme :: "flex_s1ap_config \<Rightarrow> 'a result \<Rightarrow> 'a result" where
  "one_mme s f = (if length (mme s) = 0 then refuse ''no MME present''
     else if length (mme s) > 1 then refuse ''only one MME allowed'' else f)"

definition add_one :: "u64 \<Rightarrow> rib \<Rightarrow> flex_s1ap_mme \<Rightarrow> flex_s1ap_mme result" where
  "add_one b r m = (case s1_ip m of
     None \<Rightarrow> refuse ''no S1Ip for MME''
   | Some ip \<Rightarrow> rbind (deref_bs b r) (\<lambda>e.
       if ip_present ip e then refuse (''MME at IP '' @ ip @ '' already present'')
       else if requested_plmns m \<noteq> [] then refuse ''requested PLMNs not supported yet''
       else Inr (m\<lparr>mme_state := None, served_gummeis := [], rel_capacity := None\<rparr>)))"

definition add_mme :: "json \<Rightarrow> string \<Rightarrow> string \<Rightarrow> rib \<Rightarrow> outbox \<Rightarrow> outbox result" where
  "add_mme js bs config r out =
     with_target (parse_bs_id bs r) (cannot_find_bs bs) (\<lambda>b.
     parsed (js_s1ap js config) (\<lambda>s.
       let s = clear_s1ap s in
       one_mme s (rbind (each_mme (add_one b r) s) (\<lambda>s'. Inr (push_mme_config b s' r out)))))"

definition FLMMES_DISCONNECTED :: nat where "FLMMES_DISCONNECTED = 0"

definition remove_one :: "u64 \<Rightarrow> rib \<Rightarrow> flex_s1ap_mme \<Rightarrow> flex_s1ap_mme result" where
  "remove_one b r m = (case s1_ip m of
     None \<Rightarrow> refuse ''no S1Ip for MME''
   | Some ip \<Rightarrow> rbind (deref_bs b r) (\<lambda>e.
       if \<not> ip_present ip e then refuse (''no MME at IP '' @ ip @ '' present'')
       else Inr (m\<lparr>mme_state := Some FLMMES_DISCONNECTED, served_gummeis := [], requested_plmns := [], rel_capacity := None\<rparr>)))"

definition remove_mme :: "json \<Rightarrow> string \<Rightarrow> string \<Rightarrow> rib \<Rightarrow> outbox \<Rightarrow> outbox result" where
  "remove_mme js bs config r out =
     with_target (parse_bs_id bs r) (cannot_find_bs bs) (\<lambda>b.
     parsed (js_s1ap js config) (\<lambda>s.
       let s = clear_s1ap s in
       one_mme s (rbind (each_mme (remove_one b r) s) (\<lambda>s'. Inr (push_mme_config b s' r out)))))"

text \<open>Two of the texts do not name the limit that is tested.\<close>

definition check_plmn :: "flex_plmn \<Rightarrow> unit result" where
  "check_plmn p =
     (let len = get_or 0 (mnc_length p) in
      if mcc p = None \<or> mnc p = None \<or> len = 0 then refuse ''Need MCC, MNC, and MNC length''
      else if get_or 0 (mcc p) > 999 then refuse ''MCC cannot be greater than 99''
      else if len < 2 \<or> len > 3 then refuse ''MNC length can only be in range [2,3]''
      else if len = 2 \<and> get_or 0 (mnc p) > 99 then refuse ''MNC cannot be greater than 99 for MNC length 2''
      else if len = 3 \<and> get_or 0 (mnc p) > 999 then refuse ''MNC cannot be greater than 999 for MNC length 2''
      else Inr ())"

definition add_plmn :: "flex_plmn \<Rightarrow> flex_cell_config \<Rightarrow> flex_cell_config result" where
  "add_plmn p ncc = rbind (check_plmn p) (\<lambda>_. Inr (ncc\<lparr>plmn_id := plmn_id ncc @ [p]\<rparr>))"

definition change_plmn :: "json \<Rightarrow> string \<Rightarrow> string \<Rightarrow> rib \<Rightarrow> outbox \<Rightarrow> outbox result" where
  "change_plmn js bs config r out =
     with_target (parse_bs_id bs r) (cannot_find_bs bs) (\<lambda>b.
     parsed (js_cell_config js config) (\<lambda>cc.
       if length (plmn_id cc) < 1 \<or> length (plmn_id cc) > 6 then refuse ''length of PLMN list must be within [1,6]''
       else rbind (foldR add_plmn (plmn_id cc) empty_cell_config) (\<lambda>ncc. Inr (push_cell_config b ncc r out))))"

section \<open>Lemmas\<close>

lemma cannot_find_bs_neq [simp]: "cannot_find_bs n \<noteq> Inr x"
  by (simp add: cannot_find_bs_def)

lemma foldR_each:
  "foldR (\<lambda>m acc. rbind (f m) (\<lambda>m'. Inr (acc @ [m']))) ms acc = Inr ms' \<Longrightarrow>
     \<exists>ys. ms' = acc @ ys \<and> list_all2 (\<lambda>m m'. f m = Inr m') ms ys"
proof (induction ms arbitrary: acc)
  case (Cons m ms)
  obtain m' where m': "f m = Inr m'" "foldR (\<lambda>m acc. rbind (f m) (\<lambda>m'. Inr (acc @ [m']))) ms (acc @ [m']) = Inr ms'"
    using Cons.prems by (auto simp: rbind_Inr_eq)
  then show ?case using Cons.IH [OF m'(2)] by auto
qed simp

text \<open>The one MME of an accepted request.\<close>

lemma one_each_mme:
  assumes "one_mme s (rbind (each_mme f s) g) = Inr y"
  shows "\<exists>m m'. mme s = [m] \<and> f m = Inr m' \<and> g (s\<lparr>mme := [m']\<rparr>) = Inr y"
proof -
  obtain m where m: "mme s = [m]"
    using assms by (cases "mme s"; cases "tl (mme s)") (auto simp: one_mme_def)
  then show ?thesis using assms by (auto simp: one_mme_def each_mme_def rbind_Inr_eq)
qed

definition plmn_ok :: "flex_plmn \<Rightarrow> bool" where
  "plmn_ok p \<longleftrightarrow> (\<exists>c n l. mcc p = Some c \<and> mnc p = Some n \<and> mnc_length p = Some l
     \<and> c \<le> 999 \<and> (l = 2 \<and> n \<le> 99 \<or> l = 3 \<and> n \<le> 999))"

lemma len_2_3: "\<not> (l :: u32) < 2 \<Longrightarrow> \<not> l > 3 \<Longrightarrow> l = 2 \<or> l = 3"
  by (simp add: word_less_nat_alt word_unat_eq_iff) linarith

lemma check_plmn_ok: "check_plmn p = Inr () \<longleftrightarrow> plmn_ok p"
proof (cases "mcc p = None \<or> mnc p = None \<or> mnc_length p = None")
  case True
  then show ?thesis by (auto simp: check_plmn_def plmn_ok_def Let_def)
next
  case False
  then obtain c n l where f: "mcc p = Some c" "mnc p = Some n" "mnc_length p = Some l" by auto
  have "l = 2 \<or> l = 3 \<or> l < 2 \<or> l > 3" using len_2_3 [of l] by blast
  then show ?thesis using f by (auto simp: check_plmn_def plmn_ok_def Let_def not_less)
qed

lemma mme_request:
  assumes "with_target (parse_bs_id bs r) (cannot_find_bs bs) (\<lambda>b. parsed (js_s1ap js config) (\<lambda>s.
       let s = clear_s1ap s in
       one_mme s (rbind (each_mme (f b r) s) (\<lambda>s'. Inr (push_mme_config b s' r out))))) = Inr out'"
  shows "\<exists>b e m m'. parse_bs_id bs r = Inr b \<and> get_bs b r = Some e \<and> f b r m = Inr m'
     \<and> out' = out @ map (\<lambda>i. (i, mme_reconfiguration (empty_s1ap\<lparr>mme := [m']\<rparr>))) (bs_members b r)"
proof -
  have clear: "(clear_s1ap s)\<lparr>mme := ms\<rparr> = empty_s1ap\<lparr>mme := ms\<rparr>" for s ms
    by (cases s) (simp add: clear_s1ap_def empty_s1ap_def)
  obtain b e where b: "parse_bs_id bs r = Inr b" "get_bs b r = Some e" and "parsed (js_s1ap js config) (\<lambda>s.
       let s = clear_s1ap s in
       one_mme s (rbind (each_mme (f b r) s) (\<lambda>s'. Inr (push_mme_config b s' r out)))) = Inr out'"
    using bs_name.with_target_Inr [OF TrueI cannot_find_bs_neq assms] by blast
  then obtain s m m' where "f b r m = Inr m'"
    "Inr (push_mme_config b ((clear_s1ap s)\<lparr>mme := [m']\<rparr>) r out) = (Inr out' :: outbox result)"
    by (auto simp: parsed_Inr Let_def dest!: one_each_mme)
  then show ?thesis using b by (auto simp: clear push_mme_config_def mes.send_appends)
qed

lemma add_plmn_Inr: "add_plmn p ncc = Inr x \<longleftrightarrow> plmn_ok p \<and> x = ncc\<lparr>plmn_id := plmn_id ncc @ [p]\<rparr>"
  using check_plmn_ok [of p] by (auto simp: add_plmn_def rbind_Inr_eq)

lemma foldR_add_plmn:
  "foldR add_plmn ps ncc = Inr ncc' \<longleftrightarrow> (\<forall>p \<in> set ps. plmn_ok p) \<and> ncc' = ncc\<lparr>plmn_id := plmn_id ncc @ ps\<rparr>"
proof (induction ps arbitrary: ncc)
  case (Cons p ps)
  have "foldR add_plmn (p # ps) ncc = Inr ncc' \<longleftrightarrow>
      plmn_ok p \<and> foldR add_plmn ps (ncc\<lparr>plmn_id := plmn_id ncc @ [p]\<rparr>) = Inr ncc'"
    by (auto simp: rbind_Inr_eq add_plmn_Inr)
  then show ?case by (simp add: Cons.IH)
qed auto

section \<open>Properties\<close>



text \<open>An MME that a request adds is new to the base station, one that it removes is present, and
  the message that is sent names only its address: none of the state a client might have put into
  the request gets through.\<close>

theorem mme_requests_checked:
  "(add_mme js bs config r out = Inr out' \<longrightarrow>
      (\<exists>b e ip. parse_bs_id bs r = Inr b \<and> get_bs b r = Some e \<and> \<not> ip_present ip e
         \<and> out' = out @ map (\<lambda>i. (i, mme_reconfiguration (empty_s1ap\<lparr>mme := [\<lparr>s1_ip = Some ip,
             requested_plmns = [], served_gummeis = [], rel_capacity = None, mme_state = None\<rparr>]\<rparr>))) (bs_members b r)))
   \<and> (remove_mme js bs config r out = Inr out' \<longrightarrow>
      (\<exists>b e ip. parse_bs_id bs r = Inr b \<and> get_bs b r = Some e \<and> ip_present ip e
         \<and> out' = out @ map (\<lambda>i. (i, mme_reconfiguration (empty_s1ap\<lparr>mme := [\<lparr>s1_ip = Some ip,
             requested_plmns = [], served_gummeis = [], rel_capacity = None, mme_state = Some FLMMES_DISCONNECTED\<rparr>]\<rparr>)))
             (bs_members b r)))"
proof (intro conjI impI)
  assume "add_mme js bs config r out = Inr out'"
  then obtain b e m m' where "parse_bs_id bs r = Inr b" "get_bs b r = Some e" "add_one b r m = Inr m'"
    "out' = out @ map (\<lambda>i. (i, mme_reconfiguration (empty_s1ap\<lparr>mme := [m']\<rparr>))) (bs_members b r)"
    unfolding add_mme_def using mme_request by blast
  then show "\<exists>b e ip. parse_bs_id bs r = Inr b \<and> get_bs b r = Some e \<and> \<not> ip_present ip e
         \<and> out' = out @ map (\<lambda>i. (i, mme_reconfiguration (empty_s1ap\<lparr>mme := [\<lparr>s1_ip = Some ip,
             requested_plmns = [], served_gummeis = [], rel_capacity = None, mme_state = None\<rparr>]\<rparr>))) (bs_members b r)"
    by (cases m) (auto simp: add_one_def deref_bs_def split: option.splits if_splits)
next
  assume "remove_mme js bs config r out = Inr out'"
  then obtain b e m m' where "parse_bs_id bs r = Inr b" "get_bs b r = Some e" "remove_one b r m = Inr m'"
    "out' = out @ map (\<lambda>i. (i, mme_reconfiguration (empty_s1ap\<lparr>mme := [m']\<rparr>))) (bs_members b r)"
    unfolding remove_mme_def using mme_request by blast
  then show "\<exists>b e ip. parse_bs_id bs r = Inr b \<and> get_bs b r = Some e \<and> ip_present ip e
         \<and> out' = out @ map (\<lambda>i. (i, mme_reconfiguration (empty_s1ap\<lparr>mme := [\<lparr>s1_ip = Some ip,
             requested_plmns = [], served_gummeis = [], rel_capacity = None, mme_state = Some FLMMES_DISCONNECTED\<rparr>]\<rparr>)))
             (bs_members b r)"
    by (cases m) (auto simp: remove_one_def deref_bs_def split: option.splits if_splits)
qed

theorem mme_requests_checked_witness:
  "\<exists>out'. add_mme \<lparr>js_slice_config = (\<lambda>_. None), js_ue_config = (\<lambda>_. None), js_cell_config = (\<lambda>_. None),
       js_s1ap = (\<lambda>_. Some (empty_s1ap\<lparr>s1ap_pending := Some 3, mme := [\<lparr>s1_ip = Some ''10.0.0.1'', requested_plmns = [],
         served_gummeis = [[1]], rel_capacity = None, mme_state = Some 2\<rparr>]\<rparr>)),
       js_measurement = (\<lambda>_. None), js_stats_requests = (\<lambda>_. None)\<rparr> (nat_to_string 7) [] bs_online [] = Inr out'
     \<and> (\<exists>ip. (1, mme_reconfiguration (empty_s1ap\<lparr>mme := [\<lparr>s1_ip = Some ip, requested_plmns = [],
         served_gummeis = [], rel_capacity = None, mme_state = None\<rparr>]\<rparr>)) \<in> set out')"
proof -
  let ?js = "\<lparr>js_slice_config = (\<lambda>_. None), js_ue_config = (\<lambda>_. None), js_cell_config = (\<lambda>_. None),
       js_s1ap = (\<lambda>_. Some (empty_s1ap\<lparr>s1ap_pending := Some 3, mme := [\<lparr>s1_ip = Some ''10.0.0.1'', requested_plmns = [],
         served_gummeis = [[1]], rel_capacity = None, mme_state = Some 2\<rparr>]\<rparr>)),
       js_measurement = (\<lambda>_. None), js_stats_requests = (\<lambda>_. None)\<rparr>"
  have name: "parse_bs_id (nat_to_string 7) bs_online = Inr 7"
    using nat_to_string_plain [of 7] by (simp add: parse_bs_id_def parse_number_def stoll_nat_to_string bs_online_state)
  have mem: "bs_members 7 bs_online = [1, 2]" by (simp add: bs_members_def bs_online_state new_enb_def)
  obtain out' where o: "add_mme ?js (nat_to_string 7) [] bs_online [] = Inr out'"
    by (simp add: add_mme_def with_target_def name parsed_def one_mme_def each_mme_def add_one_def deref_bs_def
        bs_online_state ip_present_def current_mmes_def new_enb_def empty_enb_config_def empty_s1ap_def clear_s1ap_def)
  then show ?thesis using mme_requests_checked [of ?js "nat_to_string 7" "[]" bs_online "[]" out'] name mem by force
qed

end
