(* ===== verification/Record_Format.thy ===== *)
theory Record_Format
  imports App_Common
begin

text \<open>
  The files of \<open>app/recorder.cc\<close>: snapshots of the base stations (\<open>bs_dump\<close>), their binary form
  and its reader, their JSON form, and the comparison of snapshots. Serialisation and parsing of
  a protobuf message are arguments of the model; a stream is the list of its bytes, and the
  machine is little-endian with 64-bit \<open>long\<close> and \<open>size_t\<close>.
\<close>

section \<open>Snapshots\<close>

type_synonym mac_harq_info = "flex_ue_stats_report \<times> bool list"

record bs_dump =
  dump_time :: u64
  dump_enb :: flex_enb_config_reply
  dump_ue :: flex_ue_config_reply
  dump_lc :: flex_lc_config_reply
  dump_macs :: "mac_harq_info list"

type_synonym chunk = "(u64, bs_dump) std_map"

text \<open>What the code uses of a generated message class.\<close>

record 'm message_io =
  byte_size :: "'m \<Rightarrow> nat"
  serialize :: "'m \<Rightarrow> bytes option"
  parse_from :: "bytes \<Rightarrow> bool \<times> 'm"

record record_io =
  enb_io :: "flex_enb_config_reply message_io"
  ue_io :: "flex_ue_config_reply message_io"
  lc_io :: "flex_lc_config_reply message_io"
  report_io :: "flex_ue_stats_report message_io"

text \<open>The message is initialised, its size is announced correctly, and it is parsed back.\<close>

definition io_ok :: "'m message_io \<Rightarrow> 'm \<Rightarrow> bool" where
  "io_ok io m \<longleftrightarrow> (\<exists>bs. serialize io m = Some bs \<and> byte_size io m = length bs
     \<and> length bs < 2 ^ 64 \<and> parse_from io bs = (True, m))"

section \<open>Comparison\<close>

text \<open>
  The loop over the users compares the HARQ arrays and then the serialised report of the left
  hand side with itself: both calls of \<open>SerializeToString\<close> go to \<open>it\<close>.
\<close>

definition same_user :: "record_io \<Rightarrow> mac_harq_info \<times> mac_harq_info \<Rightarrow> bool" where
  "same_user io = (\<lambda>(it, oit).
     if snd it \<noteq> snd oit then False
     else case serialize (report_io io) (fst it) of None \<Rightarrow> False
     | Some ss1 \<Rightarrow> (case serialize (report_io io) (fst it) of None \<Rightarrow> False
        | Some ss2 \<Rightarrow> ss1 = ss2))"

definition same_message :: "'m message_io \<Rightarrow> 'm \<Rightarrow> 'm \<Rightarrow> bool" where
  "same_message io a b = (case (serialize io a, serialize io b) of (Some x, Some y) \<Rightarrow> x = y | _ \<Rightarrow> False)"

definition dump_equal :: "record_io \<Rightarrow> bs_dump \<Rightarrow> bs_dump \<Rightarrow> bool" where
  "dump_equal io a b =
     (if dump_time a \<noteq> dump_time b then False
      else if length (dump_macs a) \<noteq> length (dump_macs b) then False
      else if \<not> list_all (same_user io) (zip (dump_macs a) (dump_macs b)) then False
      else same_message (enb_io io) (dump_enb a) (dump_enb b)
         \<and> same_message (ue_io io) (dump_ue a) (dump_ue b)
         \<and> same_message (lc_io io) (dump_lc a) (dump_lc b))"

section \<open>Binary output\<close>

fun le_bytes :: "nat \<Rightarrow> nat \<Rightarrow> bytes" where
  "le_bytes 0 n = []"
| "le_bytes (Suc k) n = word_of_nat n # le_bytes k (n div 256)"

definition write_flexran_message :: "'m message_io \<Rightarrow> 'm \<Rightarrow> bytes \<Rightarrow> bool \<times> bytes" where
  "write_flexran_message io m s =
     (let s = s @ le_bytes 8 (byte_size io m) in
      case serialize io m of None \<Rightarrow> (False, s) | Some bs \<Rightarrow> (True, s @ bs))"

unbundle bit_operations_syntax

definition harq_byte :: "bool list \<Rightarrow> u8" where
  "harq_byte harq = fold (\<lambda>i h. h OR push_bit i (if harq ! i then 1 else 0)) [0..<8] 0"

primrec write_users :: "record_io \<Rightarrow> mac_harq_info list \<Rightarrow> bytes \<Rightarrow> bytes" where
  "write_users io [] s = s"
| "write_users io (x # xs) s = (case write_flexran_message (report_io io) (fst x) s of
      (False, s') \<Rightarrow> s'
    | (True, s') \<Rightarrow> write_users io xs (s' @ [harq_byte (snd x)]))"

text \<open>The number of users is cut to 16 bits.\<close>

definition write_binary_ue_configs :: "record_io \<Rightarrow> mac_harq_info list \<Rightarrow> bytes \<Rightarrow> bytes" where
  "write_binary_ue_configs io xs s = write_users io xs (s @ le_bytes 2 (length xs))"

primrec write_dumps :: "record_io \<Rightarrow> chunk \<Rightarrow> bytes \<Rightarrow> bytes" where
  "write_dumps io [] s = s"
| "write_dumps io (p # ps) s =
     (let bd = snd p; s = (s @ le_bytes 8 (unat (fst p))) @ le_bytes 8 (unat (dump_time bd)) in
      case write_flexran_message (enb_io io) (dump_enb bd) s of (False, s) \<Rightarrow> s | (True, s) \<Rightarrow>
     (case write_flexran_message (ue_io io) (dump_ue bd) s of (False, s) \<Rightarrow> s | (True, s) \<Rightarrow>
     (case write_flexran_message (lc_io io) (dump_lc bd) s of (False, s) \<Rightarrow> s | (True, s) \<Rightarrow>
      write_dumps io ps (write_binary_ue_configs io (dump_macs bd) s))))"

definition write_binary_chunk :: "record_io \<Rightarrow> chunk \<Rightarrow> bytes \<Rightarrow> bytes" where
  "write_binary_chunk io c s = write_dumps io c (s @ le_bytes 2 (length c))"

text \<open>The contents of the file.\<close>

definition write_binary :: "record_io \<Rightarrow> chunk list \<Rightarrow> bytes" where
  "write_binary io dump = fold (write_binary_chunk io) dump (le_bytes 8 (length dump))"

section \<open>Binary input\<close>

text \<open>
  A read past the end sets the state of the stream to failed, and leaves an integer
  uninitialised, whose use is undefined; the buffer of a message is filled with zeros before.
  \<open>avail\<close> is the largest string that can be allocated.
\<close>

record istream =
  in_rest :: bytes
  in_failed :: bool

type_synonym 'a reader = "istream \<Rightarrow> ('a \<times> istream) result"

primrec le_value :: "bytes \<Rightarrow> nat" where
  "le_value [] = 0"
| "le_value (b # bs) = unat b + 256 * le_value bs"

definition read_int :: "nat \<Rightarrow> nat reader" where
  "read_int k s = (if in_failed s \<or> length (in_rest s) < k then Inl (Undefined_behaviour ''uninitialised value'')
     else Inr (le_value (take k (in_rest s)), s\<lparr>in_rest := drop k (in_rest s)\<rparr>))"

definition read_block :: "nat \<Rightarrow> istream \<Rightarrow> bytes \<times> istream" where
  "read_block n s = (if in_failed s then (replicate n 0, s)
     else if length (in_rest s) < n
     then (in_rest s @ replicate (n - length (in_rest s)) 0, s\<lparr>in_rest := [], in_failed := True\<rparr>)
     else (take n (in_rest s), s\<lparr>in_rest := drop n (in_rest s)\<rparr>))"

definition read_flexran_message :: "nat \<Rightarrow> 'm message_io \<Rightarrow> (bool \<times> 'm) reader" where
  "read_flexran_message avail io s = rbind (read_int 8 s) (\<lambda>(n, s).
     if n > avail then Inl Bad_alloc
     else case read_block n s of (bs, s) \<Rightarrow> Inr (parse_from io bs, s))"

primrec read_times :: "nat \<Rightarrow> 'a reader \<Rightarrow> 'a list reader" where
  "read_times 0 rd s = Inr ([], s)"
| "read_times (Suc n) rd s = rbind (rd s) (\<lambda>(x, s). rbind (read_times n rd s) (\<lambda>(xs, s). Inr (x # xs, s)))"

text \<open>When a message cannot be parsed the code goes on with what there is of it.\<close>

definition read_user :: "nat \<Rightarrow> record_io \<Rightarrow> mac_harq_info reader" where
  "read_user avail io s = rbind (read_flexran_message avail (report_io io) s) (\<lambda>((_, m), s).
     rbind (read_int 1 s) (\<lambda>(b, s). Inr ((m, map (\<lambda>j. bit b j) [0..<8]), s)))"

definition read_binary_ue_configs :: "nat \<Rightarrow> record_io \<Rightarrow> mac_harq_info list reader" where
  "read_binary_ue_configs avail io s = rbind (read_int 2 s) (\<lambda>(n, s). read_times n (read_user avail io) s)"

definition read_dump :: "nat \<Rightarrow> record_io \<Rightarrow> (u64 \<times> bs_dump) reader" where
  "read_dump avail io s =
     rbind (read_int 8 s) (\<lambda>(b, s).
     rbind (read_int 8 s) (\<lambda>(ns, s).
     rbind (read_flexran_message avail (enb_io io) s) (\<lambda>((_, enb), s).
     rbind (read_flexran_message avail (ue_io io) s) (\<lambda>((_, ue), s).
     rbind (read_flexran_message avail (lc_io io) s) (\<lambda>((_, lc), s).
     rbind (read_binary_ue_configs avail io s) (\<lambda>(macs, s).
       Inr ((word_of_nat b, \<lparr>dump_time = word_of_nat ns, dump_enb = enb, dump_ue = ue, dump_lc = lc, dump_macs = macs\<rparr>), s)))))))"

definition read_binary_chunk :: "nat \<Rightarrow> record_io \<Rightarrow> chunk reader" where
  "read_binary_chunk avail io s = rbind (read_int 2 s) (\<lambda>(n, s).
     rbind (read_times n (read_dump avail io) s) (\<lambda>(ps, s).
       Inr (fold (\<lambda>(k, v). sm_emplace k v) ps [], s)))"

definition read_binary :: "nat \<Rightarrow> record_io \<Rightarrow> bytes \<Rightarrow> chunk list result" where
  "read_binary avail io file = rbind (read_int 8 \<lparr>in_rest = file, in_failed = False\<rparr>) (\<lambda>(n, s).
     rbind (read_times n (read_binary_chunk avail io) s) (\<lambda>(cs, _). Inr cs))"

section \<open>JSON output\<close>

datatype job_type = Job_all | Job_enb | Job_stats | Job_bin

definition get_ue_stats :: "protobuf \<Rightarrow> mac_harq_info list \<Rightarrow> string list" where
  "get_ue_stats pb macs = map (\<lambda>(rep, harq). format_stats_to_json (get_or 0 (r_rnti rep)) (report_json pb rep)
     (map (\<lambda>i. quoted (if harq ! i then ''ACK'' else ''NACK'')) [0..<8])) macs"

text \<open>The first identifier met that is not 0 is the one whose time is taken; the date is formatted by \<open>fmt\<close>.\<close>

definition first_id :: "chunk \<Rightarrow> u64 \<Rightarrow> u64" where
  "first_id c b = fold (\<lambda>(k, _) b. if b = 0 then k else b) c b"

definition write_json_chunk :: "protobuf \<Rightarrow> (u64 \<Rightarrow> string) \<Rightarrow> job_type \<Rightarrow> chunk \<Rightarrow> string result" where
  "write_json_chunk pb fmt ty c =
     (if c = [] then Inr []
      else let (b, confs) = (if ty \<noteq> Job_stats
             then (first_id c 0, format_enb_configurations_to_json (map (\<lambda>(k, bd).
                     format_configs_to_json k (quoted ''null'') (enb_json pb (dump_enb bd))
                       (ue_json pb (dump_ue bd)) (lc_json pb (dump_lc bd))) c))
             else (0, []));
           (b, st) = (if ty \<noteq> Job_enb
             then (first_id c b, format_mac_stats_to_json (map (\<lambda>(k, bd).
                     enb_format_mac_stats_to_json k (get_ue_stats pb (dump_macs bd))) c))
             else (b, []))
      in case sm_find b c of None \<Rightarrow> Inl (Out_of_range ''map::at'')
         | Some bd \<Rightarrow> Inr (format_statistics_to_json (fmt (dump_time bd)) confs st))"

definition write_json :: "protobuf \<Rightarrow> (u64 \<Rightarrow> string) \<Rightarrow> job_type \<Rightarrow> chunk list \<Rightarrow> string result" where
  "write_json pb fmt ty dump = rbind (foldR (\<lambda>(i, c) s.
       rbind (write_json_chunk pb fmt ty c) (\<lambda>t. Inr ((if i \<noteq> 0 then s @ '','' else s) @ t)))
     (enumerate 0 dump) ''['') (\<lambda>s. Inr (s @ '']''))"

section \<open>Codecs on streams\<close>

abbreviation stream :: "bytes \<Rightarrow> istream" where
  "stream bs \<equiv> \<lparr>in_rest = bs, in_failed = False\<rparr>"

text \<open>A reader that takes the encoding of a value off the front of a stream, whatever follows.\<close>

locale stream_codec =
  fixes put :: "'a \<Rightarrow> bytes"
    and get :: "'a reader"
    and ok :: "'a \<Rightarrow> bool"
  assumes get_put: "ok x \<Longrightarrow> get (stream (put x @ rest)) = Inr (x, stream rest)"
begin

lemma times_put:
  "list_all ok xs \<Longrightarrow> read_times (length xs) get (stream (concat (map put xs) @ rest)) = Inr (xs, stream rest)"
  by (induction xs) (simp_all add: get_put)

end

lemma length_le_bytes [simp]: "length (le_bytes k n) = k"
  by (induction k arbitrary: n) simp_all

lemma le_value_le_bytes: "n < 256 ^ k \<Longrightarrow> le_value (le_bytes k n) = n"
proof (induction k arbitrary: n)
  case (Suc k)
  have "n div 256 < 256 ^ k" using Suc.prems by (simp add: div_less_iff_less_mult)
  moreover have "unat (word_of_nat n :: u8) = n mod 256" by (simp add: unsigned_of_nat take_bit_eq_mod)
  ultimately show ?case using Suc.IH by simp
qed simp

interpretation le: stream_codec "le_bytes k" "read_int k" "\<lambda>n. n < 256 ^ k" for k
  by unfold_locales (simp add: read_int_def le_value_le_bytes)

definition message_bytes :: "'m message_io \<Rightarrow> 'm \<Rightarrow> bytes" where
  "message_bytes io m = le_bytes 8 (byte_size io m) @ get_or [] (serialize io m)"

definition storable :: "nat \<Rightarrow> 'm message_io \<Rightarrow> 'm \<Rightarrow> bool" where
  "storable avail io m \<longleftrightarrow> io_ok io m \<and> byte_size io m \<le> avail"

lemma write_message_eq: "io_ok io m \<Longrightarrow> write_flexran_message io m s = (True, s @ message_bytes io m)"
  by (auto simp: write_flexran_message_def message_bytes_def io_ok_def Let_def get_or_def)

interpretation msg: stream_codec "\<lambda>(_, m). message_bytes io m" "read_flexran_message avail io"
    "\<lambda>(b, m). b \<and> storable avail io m" for avail and io :: "'m message_io"
proof
  fix x :: "bool \<times> 'm" and rest
  assume "case x of (b, m) \<Rightarrow> b \<and> storable avail io m"
  then obtain m where x: "x = (True, m)" "storable avail io m" by (cases x) auto
  then obtain bs where bs: "serialize io m = Some bs" "byte_size io m = length bs" "length bs < 256 ^ 8"
    "parse_from io bs = (True, m)" "length bs \<le> avail"
    by (auto simp: storable_def io_ok_def)
  have "read_int 8 (stream (le_bytes 8 (length bs) @ bs @ rest)) = Inr (length bs, stream (bs @ rest))"
    using le.get_put [of "length bs" 8 "bs @ rest"] bs(3) by simp
  then show "read_flexran_message avail io (stream ((case x of (_, m) \<Rightarrow> message_bytes io m) @ rest)) = Inr (x, stream rest)"
    using bs x by (simp add: read_flexran_message_def message_bytes_def get_or_def read_block_def)
qed

lemma read_message:
  "storable avail io m \<Longrightarrow> read_flexran_message avail io (stream (message_bytes io m @ rest)) = Inr ((True, m), stream rest)"
  using msg.get_put [where x = "(True, m)" and avail = avail and io = io] by simp

lemma bit_harq_fold:
  "n < 8 \<Longrightarrow> bit (fold (\<lambda>i h. h OR push_bit i (if harq ! i then 1 else 0)) is (h :: u8)) n
     \<longleftrightarrow> bit h n \<or> (n \<in> set is \<and> harq ! n)"
proof (induction "is" arbitrary: h)
  case (Cons i "is")
  have "bit (h OR push_bit i (if harq ! i then 1 else 0)) n \<longleftrightarrow> bit h n \<or> n = i \<and> harq ! n"
    using Cons.prems by (auto simp: bit_or_iff bit_push_bit_iff bit_1_iff)
  then show ?case using Cons by auto
qed simp

lemma bit_harq_byte: "i < 8 \<Longrightarrow> bit (harq_byte harq) i = harq ! i"
  using bit_harq_fold [of i harq "[0..<8]" 0] by (simp add: harq_byte_def)

lemma harq_bits: "length harq = 8 \<Longrightarrow> map (\<lambda>j. bit (le_value [harq_byte harq]) j) [0..<8] = harq"
  by (rule nth_equalityI) (simp_all add: bit_unsigned_iff bit_harq_byte)

text \<open>Users, base stations and chunks are put one after the other.\<close>

definition user_ok :: "nat \<Rightarrow> record_io \<Rightarrow> mac_harq_info \<Rightarrow> bool" where
  "user_ok avail io x \<longleftrightarrow> storable avail (report_io io) (fst x) \<and> length (snd x) = 8"

definition user_bytes :: "record_io \<Rightarrow> mac_harq_info \<Rightarrow> bytes" where
  "user_bytes io x = message_bytes (report_io io) (fst x) @ [harq_byte (snd x)]"

interpretation user: stream_codec "user_bytes io" "read_user avail io" "user_ok avail io" for avail io
proof
  fix x rest
  assume "user_ok avail io x"
  then have ok: "storable avail (report_io io) (fst x)" "length (snd x) = 8" by (simp_all add: user_ok_def)
  have "read_int 1 (stream (harq_byte (snd x) # rest)) = Inr (le_value [harq_byte (snd x)], stream rest)"
    by (simp add: read_int_def)
  then show "read_user avail io (stream (user_bytes io x @ rest)) = Inr (x, stream rest)"
    using read_message [OF ok(1), of "harq_byte (snd x) # rest"] harq_bits [OF ok(2)]
    by (simp add: read_user_def user_bytes_def)
qed

definition users_ok :: "nat \<Rightarrow> record_io \<Rightarrow> mac_harq_info list \<Rightarrow> bool" where
  "users_ok avail io xs \<longleftrightarrow> list_all (user_ok avail io) xs \<and> length xs < 65536"

definition users_bytes :: "record_io \<Rightarrow> mac_harq_info list \<Rightarrow> bytes" where
  "users_bytes io xs = le_bytes 2 (length xs) @ concat (map (user_bytes io) xs)"

interpretation users: stream_codec "users_bytes io" "read_binary_ue_configs avail io" "users_ok avail io" for avail io
proof
  fix xs rest
  assume "users_ok avail io xs"
  then have ok: "list_all (user_ok avail io) xs" "length xs < 256 ^ 2" by (simp_all add: users_ok_def)
  show "read_binary_ue_configs avail io (stream (users_bytes io xs @ rest)) = Inr (xs, stream rest)"
    using le.get_put [OF ok(2)] user.times_put [OF ok(1)]
    by (simp add: read_binary_ue_configs_def users_bytes_def)
qed

lemma write_users_eq:
  "list_all (user_ok avail io) xs \<Longrightarrow> write_users io xs s = s @ concat (map (user_bytes io) xs)"
  by (induction xs arbitrary: s)
    (simp_all add: user_ok_def storable_def write_message_eq user_bytes_def)

definition dump_ok :: "nat \<Rightarrow> record_io \<Rightarrow> bs_dump \<Rightarrow> bool" where
  "dump_ok avail io bd \<longleftrightarrow> storable avail (enb_io io) (dump_enb bd) \<and> storable avail (ue_io io) (dump_ue bd)
     \<and> storable avail (lc_io io) (dump_lc bd) \<and> users_ok avail io (dump_macs bd)"

definition dump_bytes :: "record_io \<Rightarrow> u64 \<times> bs_dump \<Rightarrow> bytes" where
  "dump_bytes io p = le_bytes 8 (unat (fst p)) @ le_bytes 8 (unat (dump_time (snd p)))
     @ message_bytes (enb_io io) (dump_enb (snd p)) @ message_bytes (ue_io io) (dump_ue (snd p))
     @ message_bytes (lc_io io) (dump_lc (snd p)) @ users_bytes io (dump_macs (snd p))"

lemma read_u64: "read_int 8 (stream (le_bytes 8 (unat (w :: u64)) @ rest)) = Inr (unat w, stream rest)"
  using le.get_put [of "unat w" 8 rest] unsigned_less [of w] by simp

interpretation dump: stream_codec "dump_bytes io" "read_dump avail io" "\<lambda>p. dump_ok avail io (snd p)" for avail io
proof
  fix p :: "u64 \<times> bs_dump" and rest
  obtain b bd where p: "p = (b, bd)" by fastforce
  assume "dump_ok avail io (snd p)"
  then have ok: "storable avail (enb_io io) (dump_enb bd)" "storable avail (ue_io io) (dump_ue bd)"
    "storable avail (lc_io io) (dump_lc bd)" "users_ok avail io (dump_macs bd)"
    by (simp_all add: dump_ok_def p)
  show "read_dump avail io (stream (dump_bytes io p @ rest)) = Inr (p, stream rest)"
    by (simp add: read_dump_def dump_bytes_def p read_u64 read_message [OF ok(1)]
        read_message [OF ok(2)] read_message [OF ok(3)] users.get_put [OF ok(4)])
qed

lemma write_dumps_eq:
  "list_all (\<lambda>p. dump_ok avail io (snd p)) ps \<Longrightarrow> write_dumps io ps s = s @ concat (map (dump_bytes io) ps)"
proof (induction ps arbitrary: s)
  case (Cons p ps)
  have ok: "io_ok (enb_io io) (dump_enb (snd p))" "io_ok (ue_io io) (dump_ue (snd p))" "io_ok (lc_io io) (dump_lc (snd p))"
    "list_all (user_ok avail io) (dump_macs (snd p))"
    using Cons.prems by (simp_all add: dump_ok_def storable_def users_ok_def)
  show ?case
    using Cons.IH Cons.prems
    by (simp add: write_message_eq [OF ok(1)] write_message_eq [OF ok(2)] write_message_eq [OF ok(3)]
        write_binary_ue_configs_def write_users_eq [OF ok(4)] dump_bytes_def users_bytes_def Let_def)
qed simp

text \<open>A chunk is read into the map entry by entry; the entries are sorted already.\<close>

lemma sm_put_greatest: "\<forall>x \<in> set m. fst x < k \<Longrightarrow> sm_put k v m = m @ [(k, v)]"
  by (induction m) auto

lemma sm_find_greatest: "\<forall>x \<in> set m. fst x < (k :: 'k::linorder) \<Longrightarrow> sm_find k m = None"
  by (induction m) auto

lemma emplace_sorted: "sm_inv (m @ ps) \<Longrightarrow> fold (\<lambda>(k, v). sm_emplace k v) ps m = m @ ps"
proof (induction ps arbitrary: m)
  case (Cons p ps)
  have "\<forall>x \<in> set m. fst x < fst p" using Cons.prems by (auto simp: sm_inv_def sorted_wrt_append)
  then have "(\<lambda>(k, v). sm_emplace k v) p m = m @ [p]"
    using sm_put_greatest [of m "fst p" "snd p"] sm_find_greatest [of m "fst p"]
    by (cases p) (simp add: sm_emplace_def)
  then show ?case using Cons.IH [of "m @ [p]"] Cons.prems by simp
qed simp

definition chunk_ok :: "nat \<Rightarrow> record_io \<Rightarrow> chunk \<Rightarrow> bool" where
  "chunk_ok avail io c \<longleftrightarrow> sm_inv c \<and> length c < 65536 \<and> list_all (\<lambda>p. dump_ok avail io (snd p)) c"

definition chunk_bytes :: "record_io \<Rightarrow> chunk \<Rightarrow> bytes" where
  "chunk_bytes io c = le_bytes 2 (length c) @ concat (map (dump_bytes io) c)"

interpretation chunk: stream_codec "chunk_bytes io" "read_binary_chunk avail io" "chunk_ok avail io" for avail io
proof
  fix c rest
  assume "chunk_ok avail io c"
  then have ok: "length c < 256 ^ 2" "list_all (\<lambda>p. dump_ok avail io (snd p)) c" "sm_inv ([] @ c)"
    by (simp_all add: chunk_ok_def)
  show "read_binary_chunk avail io (stream (chunk_bytes io c @ rest)) = Inr (c, stream rest)"
    using le.get_put [OF ok(1)] dump.times_put [OF ok(2)] emplace_sorted [OF ok(3)]
    by (simp add: read_binary_chunk_def chunk_bytes_def)
qed

lemma write_chunk_eq: "chunk_ok avail io c \<Longrightarrow> write_binary_chunk io c s = s @ chunk_bytes io c"
  using write_dumps_eq [of avail io c] by (simp add: chunk_ok_def write_binary_chunk_def chunk_bytes_def)

lemma write_chunks_eq:
  "list_all (chunk_ok avail io) cs \<Longrightarrow> fold (write_binary_chunk io) cs s = s @ concat (map (chunk_bytes io) cs)"
  by (induction cs arbitrary: s) (simp_all add: write_chunk_eq [of avail])

lemma same_message_iff: "io_ok i x \<Longrightarrow> io_ok i y \<Longrightarrow> same_message i x y \<longleftrightarrow> x = y"
  by (auto simp: same_message_def io_ok_def)

section \<open>JSON\<close>

lemma first_id_in: "first_id c b \<in> insert b (fst ` set c)"
  unfolding first_id_def by (induction c arbitrary: b) force+

lemma first_id_keep: "b \<noteq> 0 \<Longrightarrow> first_id c b = b"
  unfolding first_id_def by (induction c arbitrary: b) auto

lemma first_id_key:
  assumes "c \<noteq> []" "b = 0 \<or> b \<in> fst ` set c"
  shows "first_id c b \<in> fst ` set c"
proof (cases "b = 0")
  case True
  obtain k v c' where c: "c = (k, v) # c'" using assms(1) by (cases c) auto
  then have "first_id c b = first_id c' k" using True by (simp add: first_id_def)
  then show ?thesis using first_id_in [of c' k] c by auto
qed (use assms(2) first_id_keep [of b c] in simp)

lemma write_json_chunk_total:
  "\<exists>t. write_json_chunk pb fmt ty c = Inr t \<and> (t = [] \<longleftrightarrow> c = [])"
proof (cases "c = []")
  case False
  have key: "\<exists>bd. sm_find k c = Some bd" if "k \<in> fst ` set c" for k
    using that sm_set_keys [of c] by (auto simp: sm_keys_def)
  have fst: "first_id c 0 \<in> fst ` set c" by (rule first_id_key) (use False in simp_all)
  have snd: "first_id c (first_id c 0) \<in> fst ` set c" by (rule first_id_key) (use False fst in simp_all)
  show ?thesis
    using False key [OF fst] key [OF snd]
    by (cases ty) (auto simp: write_json_chunk_def format_statistics_to_json_def)
qed (simp add: write_json_chunk_def)

lemma write_json_loop:
  assumes "\<And>c. f c = Inr (g c)"
  shows "foldR (\<lambda>(i, c) s. rbind (f c) (\<lambda>t. Inr ((if i \<noteq> 0 then s @ '','' else s) @ t))) (enumerate n cs) s
     = Inr (s @ (if n = 0 then comma_separated (map g cs) else concat (map (\<lambda>c. CHR '','' # g c) cs)))"
proof (induction cs arbitrary: n s)
  case (Cons c cs)
  show ?case using Cons.IH [of "Suc n"] by (simp add: assms comma_separated_def comp_def)
qed (simp add: comma_separated_def)

lemma write_json_eq:
  "\<exists>g. write_json pb fmt ty dump = Inr (''['' @ comma_separated (map g dump) @ '']'') \<and> (\<forall>c. g c = [] \<longleftrightarrow> c = [])"
proof -
  obtain g where g: "\<And>c. write_json_chunk pb fmt ty c = Inr (g c)" "\<And>c. g c = [] \<longleftrightarrow> c = []"
    using write_json_chunk_total [of pb fmt ty] by metis
  have "write_json pb fmt ty dump = Inr (''['' @ comma_separated (map g dump) @ '']'')"
    unfolding write_json_def write_json_loop [of _ g, OF g(1)] by simp
  then show ?thesis using g(2) by blast
qed

lemma read_written:
  assumes "list_all (chunk_ok avail io) dump" "length dump < 2 ^ 64"
  shows "read_binary avail io (write_binary io dump) = Inr dump"
proof -
  have "length dump < 256 ^ 8" using assms(2) by simp
  from le.get_put [OF this, of "concat (map (chunk_bytes io) dump)"] chunk.times_put [OF assms(1), of "[]"]
  show ?thesis by (simp add: read_binary_def write_binary_def write_chunks_eq [OF assms(1)])
qed

section \<open>Properties\<close>

text \<open>C15. A recording that is written in binary form is read back as it was, as long as every message
  can be serialised and fits into memory, there are at most 65535 base stations in a chunk and
  65535 users at each, and every HARQ array has its eight entries.\<close>

theorem recording_roundtrip:
  assumes "list_all (chunk_ok avail io) dump" "length dump < 2 ^ 64"
  shows "read_binary avail io (write_binary io dump) = Inr dump"
  by (rule read_written [OF assms])

definition plain_io :: "'m \<Rightarrow> 'm message_io" where
  "plain_io m = \<lparr>byte_size = (\<lambda>_. 1), serialize = (\<lambda>_. Some [7]), parse_from = (\<lambda>_. (True, m))\<rparr>"

definition example_io :: record_io where
  "example_io = \<lparr>enb_io = plain_io empty_enb_config, ue_io = plain_io empty_ue_config_reply,
     lc_io = plain_io empty_lc_config_reply, report_io = plain_io empty_ue_report\<rparr>"

definition example_dump :: bs_dump where
  "example_dump = \<lparr>dump_time = 1234, dump_enb = empty_enb_config, dump_ue = empty_ue_config_reply,
     dump_lc = empty_lc_config_reply,
     dump_macs = [(empty_ue_report, [True, False, False, True, True, True, False, True])]\<rparr>"

lemma example_dump_ok: "dump_ok 100 example_io example_dump"
  by (simp add: dump_ok_def users_ok_def user_ok_def storable_def io_ok_def example_io_def example_dump_def plain_io_def)

theorem recording_roundtrip_witness:
  "read_binary 100 example_io (write_binary example_io [[(7, example_dump), (9, example_dump)], []])
     = Inr [[(7, example_dump), (9, example_dump)], []]"
proof -
  have "list_all (chunk_ok 100 example_io) [[(7, example_dump), (9, example_dump)], []]"
    by (simp add: chunk_ok_def example_dump_ok sm_inv_def)
  from recording_roundtrip [OF this] show ?thesis by simp
qed

text \<open>Writing a recording as JSON never throws; the text has one element for each tick, and the
  element of a tick at which there was no base station is empty, so that the text is not JSON
  when there are other ticks.\<close>

theorem recording_json:
  "\<exists>ts. write_json pb fmt ty dump = Inr (''['' @ comma_separated ts @ '']'') \<and> length ts = length dump
     \<and> (\<forall>i < length dump. ts ! i = [] \<longleftrightarrow> dump ! i = [])"
proof -
  obtain g where "write_json pb fmt ty dump = Inr (''['' @ comma_separated (map g dump) @ '']'')" "\<And>c. g c = [] \<longleftrightarrow> c = []"
    using write_json_eq [of pb fmt ty dump] by blast
  then show ?thesis by (intro exI [of _ "map g dump"]) simp
qed

theorem recording_json_witness:
  "write_json plain_pb (\<lambda>_. []) Job_all [[], []] = Inr ''[,]''"
proof -
  obtain ts where ts: "write_json plain_pb (\<lambda>_. []) Job_all [[], []] = Inr (''['' @ comma_separated ts @ '']'')"
    "length ts = 2" "ts ! 0 = []" "ts ! 1 = []"
    using recording_json [of plain_pb "\<lambda>_. []" Job_all "[[], []]"] by auto
  then have "ts = [[], []]" by (auto simp: length_Suc_conv numeral_2_eq_2)
  then show ?thesis using ts(1) by (simp add: comma_separated_def)
qed

text \<open>The comparison of two snapshots does not look at the reports of the users at all: beyond
  whether the reports of the left hand side can be serialised, it is decided by the time, the
  HARQ arrays and the configurations.\<close>

theorem comparison_ignores_reports:
  assumes "list_all (\<lambda>x. io_ok (report_io io) (fst x)) (dump_macs a)"
    and "io_ok (enb_io io) (dump_enb a)" "io_ok (enb_io io) (dump_enb b)"
    and "io_ok (ue_io io) (dump_ue a)" "io_ok (ue_io io) (dump_ue b)"
    and "io_ok (lc_io io) (dump_lc a)" "io_ok (lc_io io) (dump_lc b)"
  shows "dump_equal io a b \<longleftrightarrow> dump_time a = dump_time b \<and> map snd (dump_macs a) = map snd (dump_macs b)
     \<and> dump_enb a = dump_enb b \<and> dump_ue a = dump_ue b \<and> dump_lc a = dump_lc b"
proof -
  have user: "same_user io (x, y) \<longleftrightarrow> snd x = snd y" if "io_ok (report_io io) (fst x)" for x y
    using that by (auto simp: same_user_def io_ok_def)
  have users: "length xs = length ys \<and> list_all (same_user io) (zip xs ys) \<longleftrightarrow> map snd xs = map snd ys"
    if "list_all (\<lambda>x. io_ok (report_io io) (fst x)) xs" for xs ys
    using that
  proof (induction xs arbitrary: ys)
    case (Cons x xs)
    then show ?case by (cases ys) (auto simp: user)
  qed auto
  show ?thesis
    using users [OF assms(1), of "dump_macs b"] assms(2-7) by (auto simp: dump_equal_def same_message_iff)
qed

theorem comparison_ignores_reports_witness:
  "dump_equal example_io example_dump (example_dump\<lparr>dump_macs :=
     [(empty_ue_report\<lparr>phr := Some 40\<rparr>, [True, False, False, True, True, True, False, True])]\<rparr>)"
proof -
  let ?b = "example_dump\<lparr>dump_macs :=
     [(empty_ue_report\<lparr>phr := Some 40\<rparr>, [True, False, False, True, True, True, False, True])]\<rparr>"
  have "dump_equal example_io example_dump ?b \<longleftrightarrow> map snd (dump_macs example_dump) = map snd (dump_macs ?b)"
    using comparison_ignores_reports [of example_io example_dump ?b]
    by (simp add: example_io_def example_dump_def plain_io_def io_ok_def)
  then show ?thesis by (simp add: example_dump_def)
qed

end
