(* ===== verification/Recorder.thy ===== *)
theory Recorder
  imports Record_Format
begin

text \<open>
  \<open>app/recorder.cc\<close>: jobs that record the state of all base stations at every tick for a given
  time, and the threads that write the recordings to files. A job is started by a REST call;
  it subscribes to the tick with the connection passed to the callback, which the callback
  disconnects when the job is complete. The record has the members of the class, the starts of
  the live tick connections, the threads that write, and the files.
\<close>

section \<open>State\<close>

record job_info =
  ms_start :: u64
  ms_end :: u64
  filename :: string
  job_kind :: job_type

datatype content = Text string | Binary bytes

record recorder =
  current_job :: "job_info option"
  rec_dump :: "chunk list option"
  finished_jobs :: "job_info list"
  tick_slots :: "u64 list"
  writers :: "(job_info \<times> chunk list) list"
  files :: "string \<Rightarrow> content option"

definition new_recorder :: recorder where
  "new_recorder = \<lparr>current_job = None, rec_dump = None, finished_jobs = [], tick_slots = [], writers = [],
     files = (\<lambda>_. None)\<rparr>"

section \<open>Snapshots\<close>

definition record_user :: "enb_rib_info \<Rightarrow> flex_ue_config \<Rightarrow> mac_harq_info list \<Rightarrow> mac_harq_info list result" where
  "record_user e c acc = (case get_ue_mac_info (rnti_of c) e of
     None \<Rightarrow> Inl (Undefined_behaviour ''null UE MAC information'')
   | Some u \<Rightarrow> Inr (acc @ [(mac_stats_report u, map (\<lambda>i. harq_stats u 0 i 0 = FLHS_ACK) [0..<8])]))"

definition record_chunk :: "u64 \<Rightarrow> u64 \<Rightarrow> rib \<Rightarrow> bs_dump result" where
  "record_chunk now b r =
     rbind (deref_bs b r) (\<lambda>e.
     rbind (foldR (record_user e) (ue_config (ue_configs e)) []) (\<lambda>macs.
       Inr \<lparr>dump_time = now, dump_enb = eNB_config e, dump_ue = ue_configs e, dump_lc = lc_configs e, dump_macs = macs\<rparr>))"

definition record_all :: "u64 \<Rightarrow> rib \<Rightarrow> chunk result" where
  "record_all now r = foldR (\<lambda>b m. rbind (record_chunk now b r) (\<lambda>bd. Inr (sm_emplace b bd m)))
     (get_available_base_stations r) []"

section \<open>Jobs\<close>

definition job_type_of :: "string \<Rightarrow> job_type option" where
  "job_type_of ty = (if ty = ''all'' then Some Job_all else if ty = ''enb'' then Some Job_enb
     else if ty = ''stats'' then Some Job_stats else if ty = ''bin'' then Some Job_bin else None)"

text \<open>The snapshots that are to fill the caches are dropped.\<close>

definition fill_caches :: "rib \<Rightarrow> unit result" where
  "fill_caches r = foldR (\<lambda>b _. rbind (record_chunk 0 b r) (\<lambda>_. rbind (record_chunk 0 b r) (\<lambda>_. Inr ())))
     (get_available_base_stations r) ()"

text \<open>
  The result is the id, or nothing if the request is refused; \<open>tick0\<close> is the last tick,
  \<open>can_open\<close> says which files can be opened (opening truncates), and \<open>room\<close> how many chunks can
  be reserved. The old recording is dropped before \<open>reserve\<close> may throw.
\<close>

definition start_meas ::
  "(string \<Rightarrow> bool) \<Rightarrow> nat \<Rightarrow> u64 \<Rightarrow> rib \<Rightarrow> u64 \<Rightarrow> string \<Rightarrow> recorder \<Rightarrow> string option result \<times> recorder" where
  "start_meas can_open room tick0 r duration ty s = (case job_type_of ty of
     None \<Rightarrow> (Inr None, s)
   | Some jt \<Rightarrow>
       if duration < 1 then (Inr None, s)
       else (case fill_caches r of Inl e \<Rightarrow> (Inl e, s) | Inr _ \<Rightarrow>
         let start = (case current_job s of Some j \<Rightarrow> ms_end j | None \<Rightarrow> tick0 + 2);
             id = u64_to_string start;
             path = ''/tmp/record.'' @ id @ ''.json'' @ (if jt = Job_bin then ''.bin'' else '''') in
         if \<not> can_open path then (Inr None, s)
         else let s = s\<lparr>files := (files s)(path \<mapsto> Text ''''), rec_dump := Some []\<rparr> in
           if unat duration > room then (Inl Bad_alloc, s)
           else (Inr (Some id), s\<lparr>current_job := Some \<lparr>ms_start = start, ms_end = start + duration,
                   filename = path, job_kind = jt\<rparr>, tick_slots := tick_slots s @ [start]\<rparr>)))"

definition get_job_info :: "string \<Rightarrow> recorder \<Rightarrow> job_info option" where
  "get_job_info i s = List.find (\<lambda>j. i = u64_to_string (ms_start j)) (finished_jobs s)"

text \<open>The callback; the result says whether it disconnects its connection.\<close>

definition recorder_tick :: "u64 \<Rightarrow> rib \<Rightarrow> u64 \<Rightarrow> recorder \<Rightarrow> (bool \<times> recorder) result" where
  "recorder_tick now r ms s = (case current_job s of
     None \<Rightarrow> Inr (True, s)
   | Some j \<Rightarrow> rbind (record_all now r) (\<lambda>m. case rec_dump s of
       None \<Rightarrow> Inl (Undefined_behaviour ''null dump'')
     | Some d \<Rightarrow>
         if ms = ms_end j - 1
         then Inr (True, s\<lparr>current_job := None, rec_dump := None, writers := writers s @ [(j, d @ [m])]\<rparr>)
         else Inr (False, s\<lparr>rec_dump := Some (d @ [m])\<rparr>)))"

text \<open>The signal calls the connections in their order; \<open>now\<close> has the readings of the clock.\<close>

definition recorder_signal :: "(nat \<Rightarrow> u64) \<Rightarrow> rib \<Rightarrow> u64 \<Rightarrow> recorder \<Rightarrow> recorder result" where
  "recorder_signal now r ms s =
     rbind (foldR (\<lambda>(i, start) (kept, s).
         if tick_due 1 start ms
         then rbind (recorder_tick (now i) r ms s) (\<lambda>(gone, s). Inr (if gone then kept else kept @ [start], s))
         else Inr (kept @ [start], s)) (enumerate 0 (tick_slots s)) ([], s))
       (\<lambda>(kept, s). Inr (s\<lparr>tick_slots := kept\<rparr>))"

primrec recorder_ticks :: "((nat \<Rightarrow> u64) \<times> rib) list \<Rightarrow> u64 \<Rightarrow> recorder \<Rightarrow> recorder result" where
  "recorder_ticks [] ms s = Inr s"
| "recorder_ticks (x # xs) ms s = rbind (recorder_signal (fst x) (snd x) ms s) (recorder_ticks xs (ms + 1))"

text \<open>A thread that writes: the job counts as finished even when the file cannot be opened.\<close>

definition writer_method ::
  "protobuf \<Rightarrow> record_io \<Rightarrow> (u64 \<Rightarrow> string) \<Rightarrow> (string \<Rightarrow> bool) \<Rightarrow> job_info \<times> chunk list \<Rightarrow> recorder \<Rightarrow> recorder result" where
  "writer_method pb io fmt can_open = (\<lambda>(j, dump) s.
     rbind (if \<not> can_open (filename j) then Inr s
            else if job_kind j = Job_bin then Inr (s\<lparr>files := (files s)(filename j \<mapsto> Binary (write_binary io dump))\<rparr>)
            else rbind (write_json pb fmt (job_kind j) dump) (\<lambda>t. Inr (s\<lparr>files := (files s)(filename j \<mapsto> Text t)\<rparr>)))
       (\<lambda>s. Inr (s\<lparr>finished_jobs := finished_jobs s @ [j]\<rparr>)))"

text \<open>The \<open>k\<close>-th of the running threads comes to its end.\<close>

definition writer_done ::
  "protobuf \<Rightarrow> record_io \<Rightarrow> (u64 \<Rightarrow> string) \<Rightarrow> (string \<Rightarrow> bool) \<Rightarrow> nat \<Rightarrow> recorder \<Rightarrow> recorder result" where
  "writer_done pb io fmt can_open k s = (if k < length (writers s)
     then writer_method pb io fmt can_open (writers s ! k) (s\<lparr>writers := take k (writers s) @ drop (Suc k) (writers s)\<rparr>)
     else Inr s)"

section \<open>Snapshots succeed\<close>

definition snapshot :: "u64 \<Rightarrow> enb_rib_info \<Rightarrow> bs_dump" where
  "snapshot now e = \<lparr>dump_time = now, dump_enb = eNB_config e, dump_ue = ue_configs e, dump_lc = lc_configs e,
     dump_macs = map (\<lambda>c. let u = the (get_ue_mac_info (rnti_of c) e)
       in (mac_stats_report u, map (\<lambda>i. harq_stats u 0 i 0 = FLHS_ACK) [0..<8])) (ue_config (ue_configs e))\<rparr>"

definition chunk_of :: "u64 \<Rightarrow> rib \<Rightarrow> chunk" where
  "chunk_of now r = map (\<lambda>(b, e). (b, snapshot now e)) (eNB_configs r)"

lemma record_users_eq:
  assumes "\<forall>c \<in> set cs. get_ue_mac_info (rnti_of c) e \<noteq> None"
  shows "foldR (record_user e) cs acc = Inr (acc @ map (\<lambda>c. let u = the (get_ue_mac_info (rnti_of c) e)
       in (mac_stats_report u, map (\<lambda>i. harq_stats u 0 i 0 = FLHS_ACK) [0..<8])) cs)"
  using assms by (induction cs arbitrary: acc) (auto simp: record_user_def Let_def)

lemma record_chunk_eq:
  assumes "get_bs b r = Some e" "enb_inv e"
  shows "record_chunk now b r = Inr (snapshot now e)"
proof -
  have "\<forall>c \<in> set (ue_config (ue_configs e)). get_ue_mac_info (rnti_of c) e \<noteq> None"
    using assms(2) unfolding enb_inv_def get_ue_mac_info_def by blast
  from record_users_eq [OF this] show ?thesis
    using assms(1) by (simp add: record_chunk_def deref_bs_def snapshot_def)
qed

lemma entries_ok:
  assumes "rib_inv r" "(b, e) \<in> set (eNB_configs r)"
  shows "get_bs b r = Some e" "enb_inv e"
proof -
  show bs: "get_bs b r = Some e"
    using assms sm_find_set [OF rib_invD(1) [OF assms(1)]] by (simp add: get_bs_def)
  show "enb_inv e" using rib_invD(3) [OF assms(1) bs] by (simp add: bs_ok_def)
qed

lemma record_all_eq:
  assumes "rib_inv r"
  shows "record_all now r = Inr (chunk_of now r)"
proof -
  let ?f = "\<lambda>b m. rbind (record_chunk now b r) (\<lambda>bd. Inr (sm_emplace b bd m))"
  have loop: "foldR ?f (map fst ps) m = Inr (fold (\<lambda>(k, v). sm_emplace k v) (map (\<lambda>(b, e). (b, snapshot now e)) ps) m)"
    if "set ps \<subseteq> set (eNB_configs r)" for ps m
    using that
  proof (induction ps arbitrary: m)
    case (Cons p ps)
    obtain b e where p: "p = (b, e)" by fastforce
    then have "record_chunk now b r = Inr (snapshot now e)"
      using Cons.prems entries_ok [OF assms, of b e] record_chunk_eq by simp
    then show ?case using Cons p by simp
  qed simp
  have "map fst (chunk_of now r) = map fst (eNB_configs r)"
    by (simp add: chunk_of_def comp_def case_prod_beta)
  then have "sm_inv ([] @ chunk_of now r)"
    using rib_invD(1) [OF assms] by (simp add: sm_inv_def)
  from emplace_sorted [OF this] loop [of "eNB_configs r" "[]"] show ?thesis
    by (simp add: record_all_def get_available_base_stations_def sm_keys_def chunk_of_def)
qed

lemma fill_caches_ok:
  assumes "rib_inv r"
  shows "fill_caches r = Inr ()"
proof -
  have "is_ok (fill_caches r)"
    unfolding fill_caches_def
  proof (rule foldR_is_ok)
    fix b u
    assume "b \<in> set (get_available_base_stations r)"
    then obtain e where "(b, e) \<in> set (eNB_configs r)"
      by (auto simp: get_available_base_stations_def sm_keys_def)
    then show "is_ok (rbind (record_chunk 0 b r) (\<lambda>_. rbind (record_chunk 0 b r) (\<lambda>_. Inr ())))"
      using entries_ok [OF assms, of b e] record_chunk_eq by simp
  qed
  then show ?thesis by (simp add: is_ok_iff)
qed

section \<open>Invariant\<close>

definition recorder_inv :: "recorder \<Rightarrow> bool" where
  "recorder_inv s \<longleftrightarrow> (current_job s \<noteq> None \<longrightarrow> rec_dump s \<noteq> None)"

lemma recorder_tick_eq:
  assumes "rib_inv r"
  shows "current_job s = None \<Longrightarrow> recorder_tick now r ms s = Inr (True, s)"
    and "current_job s = Some j \<Longrightarrow> rec_dump s = Some d \<Longrightarrow> ms = ms_end j - 1 \<Longrightarrow>
       recorder_tick now r ms s = Inr (True, s\<lparr>current_job := None, rec_dump := None, writers := writers s @ [(j, d @ [chunk_of now r])]\<rparr>)"
    and "current_job s = Some j \<Longrightarrow> rec_dump s = Some d \<Longrightarrow> ms \<noteq> ms_end j - 1 \<Longrightarrow>
       recorder_tick now r ms s = Inr (False, s\<lparr>rec_dump := Some (d @ [chunk_of now r])\<rparr>)"
  by (simp_all add: recorder_tick_def record_all_eq [OF assms])

lemma recorder_tick_ok:
  assumes "rib_inv r" "recorder_inv s"
  shows "\<exists>gone s'. recorder_tick now r ms s = Inr (gone, s') \<and> recorder_inv s'"
proof (cases "current_job s")
  case None
  then show ?thesis using recorder_tick_eq(1) [OF assms(1)] assms(2) by blast
next
  case (Some j)
  then obtain d where d: "rec_dump s = Some d" using assms(2) by (auto simp: recorder_inv_def)
  show ?thesis
  proof (cases "ms = ms_end j - 1")
    case True
    show ?thesis by (intro exI conjI, rule recorder_tick_eq(2) [OF assms(1) Some d True]) (simp add: recorder_inv_def)
  next
    case False
    show ?thesis by (intro exI conjI, rule recorder_tick_eq(3) [OF assms(1) Some d False]) (simp add: recorder_inv_def)
  qed
qed

lemma recorder_signal_ok:
  assumes "rib_inv r" "recorder_inv s"
  shows "\<exists>s'. recorder_signal now r ms s = Inr s' \<and> recorder_inv s'"
proof -
  let ?f = "\<lambda>(i, start) (kept, s). if tick_due 1 start ms
      then rbind (recorder_tick (now i) r ms s) (\<lambda>(gone, s). Inr (if gone then kept else kept @ [start], s))
      else Inr (kept @ [start], s)"
  have "\<exists>kept' s'. foldR ?f xs (kept, s) = Inr (kept', s') \<and> recorder_inv s'" if "recorder_inv s" for xs kept s
    using that
  proof (induction xs arbitrary: kept s)
    case (Cons x xs)
    obtain i start where x: "x = (i, start)" by fastforce
    obtain gone s' where t: "recorder_tick (now i) r ms s = Inr (gone, s')" "recorder_inv s'"
      using recorder_tick_ok [OF assms(1) Cons.prems] by blast
    show ?case
    proof (cases "tick_due 1 start ms")
      case True
      then show ?thesis using Cons.IH [OF t(2)] t(1) by (simp add: x)
    next
      case False
      then show ?thesis using Cons.IH [OF Cons.prems] by (simp add: x)
    qed
  qed simp
  from this [OF assms(2), of "enumerate 0 (tick_slots s)" "[]"]
  show ?thesis unfolding recorder_signal_def by (fastforce simp: recorder_inv_def)
qed

lemma start_meas_ok:
  assumes "rib_inv r" "recorder_inv s" "start_meas can_open room tick0 r duration ty s = (res, s')"
  shows "recorder_inv s' \<and> (res = Inl Bad_alloc \<or> is_ok res)"
  using assms fill_caches_ok [OF assms(1)]
  by (auto simp: start_meas_def recorder_inv_def Let_def split: option.splits if_splits)

lemma start_meas_accepted:
  assumes "start_meas can_open room tick0 r duration ty s = (Inr (Some i), s1)"
  obtains jt start path where "job_type_of ty = Some jt" "duration \<noteq> 0" "i = u64_to_string start"
    "start = (case current_job s of Some j \<Rightarrow> ms_end j | None \<Rightarrow> tick0 + 2)"
    "s1 = s\<lparr>files := (files s)(path \<mapsto> Text ''''), rec_dump := Some [], current_job := Some \<lparr>ms_start = start,
       ms_end = start + duration, filename = path, job_kind = jt\<rparr>, tick_slots := tick_slots s @ [start]\<rparr>"
proof -
  obtain jt where jt: "job_type_of ty = Some jt" using assms by (cases "job_type_of ty") (auto simp: start_meas_def)
  have caches: "fill_caches r = Inr ()" using assms jt by (auto simp: start_meas_def split: if_splits sum.splits)
  show ?thesis
    by (rule that [OF jt, of _ "''/tmp/record.'' @ i @ ''.json'' @ (if jt = Job_bin then ''.bin'' else '''')"])
      (use assms jt caches in \<open>auto simp: start_meas_def Let_def split: option.splits if_splits\<close>)
qed

lemma writer_done_ok:
  assumes "recorder_inv s"
  shows "\<exists>s'. writer_done pb io fmt can_open k s = Inr s' \<and> recorder_inv s'"
proof (cases "k < length (writers s)")
  case True
  obtain j dump where w: "writers s ! k = (j, dump)" by fastforce
  obtain t where "write_json pb fmt (job_kind j) dump = Inr t"
    using write_json_eq by blast
  then show ?thesis using True w assms by (auto simp: writer_done_def writer_method_def recorder_inv_def)
qed (use assms in \<open>simp add: writer_done_def\<close>)

section \<open>Runs of ticks\<close>

lemma tick_due_1 [simp]: "tick_due 1 start ms \<longleftrightarrow> start \<le> ms"
  by (simp add: tick_due_def)

lemma minus_1_iff:
  fixes ms e :: u64
  assumes "unat ms < unat e"
  shows "ms = e - 1 \<longleftrightarrow> Suc (unat ms) = unat e"
proof -
  have "e \<noteq> 0" using assms by auto
  then have "unat (e - 1) = unat e - 1" by (simp add: unat_minus_one)
  then show ?thesis using assms by (auto simp: word_unat_eq_iff)
qed

lemma unat_Suc_small:
  fixes ms e :: u64
  assumes "unat ms < unat e"
  shows "unat (ms + 1) = Suc (unat ms)" "x \<le> ms \<Longrightarrow> x \<le> ms + 1"
proof -
  show s: "unat (ms + 1) = Suc (unat ms)"
  proof -
    have "unat e < 2 ^ 64" using unsigned_less [of e] by simp
    then show ?thesis using assms by (simp add: unat_word_ariths)
  qed
  show "x \<le> ms \<Longrightarrow> x \<le> ms + 1" using s by (simp add: word_le_nat_alt)
qed

text \<open>One connection: a chunk for each tick until the job ends.\<close>

lemma signal_single:
  assumes "rib_inv r" "tick_slots s = [start]" "start \<le> ms" "current_job s = Some j" "rec_dump s = Some d"
    and "unat ms < unat (ms_end j)"
  shows "recorder_signal now r ms s = Inr
     (if Suc (unat ms) = unat (ms_end j)
      then s\<lparr>current_job := None, rec_dump := None, tick_slots := [], writers := writers s @ [(j, d @ [chunk_of (now 0) r])]\<rparr>
      else s\<lparr>rec_dump := Some (d @ [chunk_of (now 0) r])\<rparr>)"
  using assms(2,3) recorder_tick_eq(2,3) [OF assms(1,4,5), of ms "now 0"] minus_1_iff [OF assms(6)]
  by (auto simp: recorder_signal_def)

lemma ticks_single:
  assumes "\<forall>x \<in> set xs. rib_inv (snd x)" "tick_slots s = [start]" "start \<le> ms" "current_job s = Some j" "rec_dump s = Some d"
    and "unat ms + length xs = unat (ms_end j)" "xs \<noteq> []"
  shows "recorder_ticks xs ms s = Inr (s\<lparr>current_job := None, rec_dump := None, tick_slots := [],
     writers := writers s @ [(j, d @ map (\<lambda>(now, r). chunk_of (now 0) r) xs)]\<rparr>)"
  using assms
proof (induction xs arbitrary: ms s d)
  case (Cons x xs)
  obtain now r where x: "x = (now, r)" by fastforce
  have lt: "unat ms < unat (ms_end j)" using Cons.prems(6) by simp
  have r: "rib_inv r" using Cons.prems(1) x by simp
  note sig = signal_single [OF r Cons.prems(2-5) lt, of now]
  show ?case
  proof (cases "xs = []")
    case True
    then show ?thesis using sig Cons.prems(6) by (simp add: x)
  next
    case False
    let ?s = "s\<lparr>rec_dump := Some (d @ [chunk_of (now 0) r])\<rparr>"
    have "Suc (unat ms) \<noteq> unat (ms_end j)" using False Cons.prems(6) by (cases xs) auto
    then have "recorder_signal now r ms s = Inr ?s" using sig by simp
    moreover have "recorder_ticks xs (ms + 1) ?s = Inr (?s\<lparr>current_job := None, rec_dump := None, tick_slots := [],
       writers := writers ?s @ [(j, (d @ [chunk_of (now 0) r]) @ map (\<lambda>(now, r). chunk_of (now 0) r) xs)]\<rparr>)"
      by (rule Cons.IH) (use Cons.prems False unat_Suc_small [OF lt] in auto)
    ultimately show ?thesis by (simp add: x)
  qed
qed simp

text \<open>A tick before the job starts.\<close>

lemma signal_early:
  assumes "\<forall>start \<in> set (tick_slots s). ms < start"
  shows "recorder_signal now r ms s = Inr s"
proof -
  have "foldR (\<lambda>(i, start) (kept, s). if tick_due 1 start ms
      then rbind (recorder_tick (now i) r ms s) (\<lambda>(gone, s). Inr (if gone then kept else kept @ [start], s))
      else Inr (kept @ [start], s)) (enumerate n xs) (kept, s) = Inr (kept @ xs, s)"
    if "\<forall>start \<in> set xs. ms < start" for n xs kept
    using that by (induction xs arbitrary: n kept) auto
  from this [OF assms, of 0 "[]"] show ?thesis by (simp add: recorder_signal_def)
qed

text \<open>Two connections whose job is that of the second: two chunks for each tick, and at the last
  one the second connection finds no job.\<close>

definition both :: "(nat \<Rightarrow> u64) \<times> rib \<Rightarrow> chunk list" where
  "both = (\<lambda>(now, r). [chunk_of (now 0) r, chunk_of (now 1) r])"

lemma signal_double:
  assumes "rib_inv r" "tick_slots s = [a, b]" "a \<le> ms" "b \<le> ms" "current_job s = Some j" "rec_dump s = Some d"
    and "unat ms < unat (ms_end j)"
  shows "recorder_signal now r ms s = Inr
     (if Suc (unat ms) = unat (ms_end j)
      then s\<lparr>current_job := None, rec_dump := None, tick_slots := [], writers := writers s @ [(j, d @ [chunk_of (now 0) r])]\<rparr>
      else s\<lparr>rec_dump := Some (d @ both (now, r))\<rparr>)"
proof (cases "Suc (unat ms) = unat (ms_end j)")
  case True
  then have "ms = ms_end j - 1" using minus_1_iff [OF assms(7)] by simp
  then show ?thesis
    using True assms(2-4) recorder_tick_eq(2) [OF assms(1,5,6), of ms] recorder_tick_eq(1) [OF assms(1)]
    by (simp add: recorder_signal_def)
next
  case False
  then have ms: "ms \<noteq> ms_end j - 1" using minus_1_iff [OF assms(7)] by simp
  let ?s = "s\<lparr>rec_dump := Some (d @ [chunk_of (now 0) r])\<rparr>"
  have "recorder_tick (now 1) r ms ?s = Inr (False, s\<lparr>rec_dump := Some (d @ both (now, r))\<rparr>)"
    using recorder_tick_eq(3) [of r ?s j "d @ [chunk_of (now 0) r]" ms "now 1"] assms(1,5) ms by (simp add: both_def)
  then show ?thesis
    using False assms(2-4) recorder_tick_eq(3) [OF assms(1,5,6) ms, of "now 0"]
    by (simp add: recorder_signal_def)
qed

lemma ticks_double:
  assumes "\<forall>x \<in> set xs. rib_inv (snd x)" "tick_slots s = [a, b]" "a \<le> ms" "b \<le> ms"
    and "current_job s = Some j" "rec_dump s = Some d" "unat ms + length xs = unat (ms_end j)" "xs \<noteq> []"
  shows "recorder_ticks xs ms s = Inr (s\<lparr>current_job := None, rec_dump := None, tick_slots := [],
     writers := writers s @ [(j, d @ concat (map both (butlast xs)) @ [(\<lambda>(now, r). chunk_of (now 0) r) (last xs)])]\<rparr>)"
  using assms
proof (induction xs arbitrary: ms s d)
  case (Cons x xs)
  obtain now r where x: "x = (now, r)" by fastforce
  have lt: "unat ms < unat (ms_end j)" using Cons.prems(7) by simp
  have r: "rib_inv r" using Cons.prems(1) x by simp
  note sig = signal_double [OF r Cons.prems(2-6) lt, of now]
  show ?case
  proof (cases "xs = []")
    case True
    then show ?thesis using sig Cons.prems(7) by (simp add: x)
  next
    case False
    let ?s = "s\<lparr>rec_dump := Some (d @ both (now, r))\<rparr>"
    have "Suc (unat ms) \<noteq> unat (ms_end j)" using False Cons.prems(7) by (cases xs) auto
    then have "recorder_signal now r ms s = Inr ?s" using sig by simp
    moreover have "recorder_ticks xs (ms + 1) ?s = Inr (?s\<lparr>current_job := None, rec_dump := None, tick_slots := [],
       writers := writers ?s @ [(j, (d @ both (now, r)) @ concat (map both (butlast xs))
         @ [(\<lambda>(now, r). chunk_of (now 0) r) (last xs)])]\<rparr>)"
      by (rule Cons.IH) (use Cons.prems False unat_Suc_small [OF lt] in auto)
    ultimately show ?thesis using False by (simp add: x)
  qed
qed simp

lemma recorder_ticks_append: "recorder_ticks (xs @ ys) ms s = rbind (recorder_ticks xs ms s) (recorder_ticks ys (ms + of_nat (length xs)))"
proof (induction xs arbitrary: ms s)
  case (Cons x xs)
  have "recorder_ticks (xs @ ys) (ms + 1) = (\<lambda>u. rbind (recorder_ticks xs (ms + 1) u) (recorder_ticks ys (ms + 1 + of_nat (length xs))))"
    using Cons.IH by (rule ext)
  then show ?case by (simp add: rbind_assoc add.assoc)
qed simp

text \<open>The second connection waits for the end of the first job, which is the start of its own.\<close>

lemma ticks_waiting:
  assumes "\<forall>x \<in> set xs. rib_inv (snd x)" "tick_slots s = [a, b]" "a \<le> ms" "unat ms + length xs \<le> unat b"
    and "current_job s = Some j" "rec_dump s = Some d" "unat b < unat (ms_end j)"
  shows "recorder_ticks xs ms s = Inr (s\<lparr>rec_dump := Some (d @ map (\<lambda>(now, r). chunk_of (now 0) r) xs)\<rparr>)"
  using assms
proof (induction xs arbitrary: ms s d)
  case (Cons x xs)
  obtain now r where x: "x = (now, r)" by fastforce
  have lt: "unat ms < unat b" using Cons.prems(4) by simp
  then have "\<not> b \<le> ms" by (simp add: word_le_nat_alt)
  moreover have "ms \<noteq> ms_end j - 1" using minus_1_iff [of ms "ms_end j"] lt Cons.prems(7) by simp
  moreover have "rib_inv r" using Cons.prems(1) x by simp
  ultimately have "recorder_signal now r ms s = Inr (s\<lparr>rec_dump := Some (d @ [chunk_of (now 0) r])\<rparr>)"
    using recorder_tick_eq(3) [of r s j d ms "now 0"] Cons.prems(2,3,5,6) by (simp add: recorder_signal_def)
  moreover have "recorder_ticks xs (ms + 1) (s\<lparr>rec_dump := Some (d @ [chunk_of (now 0) r])\<rparr>) =
      Inr (s\<lparr>rec_dump := Some (d @ [chunk_of (now 0) r])\<rparr>\<lparr>rec_dump := Some ((d @ [chunk_of (now 0) r]) @ map (\<lambda>(now, r). chunk_of (now 0) r) xs)\<rparr>)"
    by (rule Cons.IH) (use Cons.prems unat_Suc_small [OF lt] in auto)
  ultimately show ?case by (simp add: x)
qed simp

section \<open>Properties\<close>

text \<open>C16. A job that is started while none is running records every tick of its time, in order and
  once, whatever happens to the base stations meanwhile, and nothing else: when the time is over
  the recording is handed to a writer thread, the connection to the tick is gone and the recorder
  is free again.\<close>

theorem job_records_every_tick:
  assumes "current_job s = None" "tick_slots s = []" "start_meas can_open room tick0 r duration ty s = (Inr (Some i), s1)"
    and "\<forall>x \<in> set xs. rib_inv (snd x)" "length xs = Suc (unat duration)" "unat tick0 + 2 + unat duration < 2 ^ 64"
  shows "\<exists>s2 j. recorder_ticks xs (tick0 + 1) s1 = Inr s2 \<and> current_job s2 = None \<and> tick_slots s2 = []
     \<and> writers s2 = writers s @ [(j, map (\<lambda>(now, r). chunk_of (now 0) r) (tl xs))]
     \<and> i = u64_to_string (ms_start j) \<and> ms_start j = tick0 + 2 \<and> ms_end j = tick0 + 2 + duration
     \<and> job_type_of ty = Some (job_kind j)"
proof -
  obtain jt start path where st: "job_type_of ty = Some jt" "duration \<noteq> 0" "i = u64_to_string start" "start = tick0 + 2"
    "s1 = s\<lparr>files := (files s)(path \<mapsto> Text ''''), rec_dump := Some [], current_job := Some \<lparr>ms_start = start,
       ms_end = start + duration, filename = path, job_kind = jt\<rparr>, tick_slots := tick_slots s @ [start]\<rparr>"
    by (rule start_meas_accepted [OF assms(3)]) (use assms(1) in simp)
  define j where "j = \<lparr>ms_start = start, ms_end = start + duration, filename = path, job_kind = jt\<rparr>"
  have j: "current_job s1 = Some j" "rec_dump s1 = Some []" "tick_slots s1 = [tick0 + 2]" "writers s1 = writers s"
    "i = u64_to_string (ms_start j)" "ms_start j = tick0 + 2" "ms_end j = tick0 + 2 + duration" "job_type_of ty = Some (job_kind j)"
    using st assms(2) by (simp_all add: j_def)
  obtain x ys where xs: "xs = x # ys" "length ys = unat duration" using assms(5) by (cases xs) auto
  have u: "unat (tick0 + 1) = unat tick0 + 1" "unat (tick0 + 2) = unat tick0 + 2"
    "unat (tick0 + 2 + duration) = unat tick0 + 2 + unat duration"
    using assms(6) by (simp_all add: unat_word_ariths)
  have "tick0 + 1 < tick0 + 2" using u by (simp add: word_less_nat_alt)
  then have early: "recorder_signal (fst x) (snd x) (tick0 + 1) s1 = Inr s1"
    using signal_early [of s1 "tick0 + 1"] j(3) by simp
  have ne: "ys \<noteq> []" using xs(2) st(2) unat_gt_0 [of duration] by auto
  have "recorder_ticks ys (tick0 + 2) s1 = Inr (s1\<lparr>current_job := None, rec_dump := None, tick_slots := [],
     writers := writers s1 @ [(j, [] @ map (\<lambda>(now, r). chunk_of (now 0) r) ys)]\<rparr>)"
    by (rule ticks_single [OF _ j(3) order.refl j(1,2) _ ne]) (use assms(4) xs u j(7) in auto)
  then show ?thesis using early j xs by (auto simp: add.assoc)
qed

theorem job_records_every_tick_witness:
  "\<exists>s1 s2 j. start_meas (\<lambda>_. True) 1000 41 bs_online 2 ''all'' new_recorder = (Inr (Some (u64_to_string 43)), s1)
     \<and> recorder_ticks (replicate 3 (\<lambda>_. 5, bs_online)) 42 s1 = Inr s2 \<and> current_job s2 = None
     \<and> writers s2 = [(j, replicate 2 (chunk_of 5 bs_online))]"
proof -
  obtain s1 where s1: "start_meas (\<lambda>_. True) 1000 41 bs_online 2 ''all'' new_recorder = (Inr (Some (u64_to_string 43)), s1)"
    by (simp add: start_meas_def job_type_of_def fill_caches_ok [OF bs_online_inv(1)] new_recorder_def Let_def)
  obtain s2 j where "recorder_ticks (replicate 3 (\<lambda>_. 5, bs_online)) (41 + 1) s1 = Inr s2" "current_job s2 = None"
    "writers s2 = writers new_recorder @ [(j, map (\<lambda>(now, r). chunk_of (now 0) r) (tl (replicate 3 (\<lambda>_. 5, bs_online))))]"
    using job_records_every_tick [OF _ _ s1, of "replicate 3 (\<lambda>_. 5, bs_online)"] bs_online_inv(1)
    by (auto simp: new_recorder_def)
  then show ?thesis using s1 by (simp add: new_recorder_def numeral_3_eq_3 numeral_2_eq_2)
qed



end
