(* ===== verification/Netstore_Loader.thy ===== *)
theory Netstore_Loader
  imports App_Common
begin

text \<open>
  \<open>app/netstore_loader.cc\<close>: applications for the agents are fetched from a store over HTTP and
  pushed to the base stations. A request first fetches the list of the objects, looks the name up
  in the buffer, and then fetches the object itself; both transfers are driven by callbacks of the
  tick. The record has the file's global buffer, the members of the class, the requests handed to
  libcurl, the transfers that libcurl has finished and nobody has looked at, and the live tick
  connections. What libcurl does in one call of \<open>curl_multi_perform\<close> is an input.
\<close>

section \<open>State\<close>

definition BUFSIZE :: nat where
  "BUFSIZE = 10000000"

datatype transfer_task =
    List_task string u32 flex_control_delegation_type
  | Retrieve_task string u32 flex_control_delegation_type

record netstore =
  buf :: "nat \<Rightarrow> char"
  bufpos :: nat
  curl_requests :: "string list"
  curl_done :: "nat list"
  net_ticks :: "(nat \<times> transfer_task) list"
  next_conn :: nat
  tick_list :: "nat option"
  tick_retrieve :: "nat option"

definition new_netstore :: netstore where
  "new_netstore = \<lparr>buf = (\<lambda>_. CHR 0x00), bufpos = 0, curl_requests = [], curl_done = [], net_ticks = [],
     next_conn = 0, tick_list = None, tick_retrieve = None\<rparr>"

section \<open>The buffer\<close>

text \<open>\<open>memcpy\<close> of a string to a position.\<close>

definition copy_to :: "nat \<Rightarrow> string \<Rightarrow> (nat \<Rightarrow> char) \<Rightarrow> nat \<Rightarrow> char" where
  "copy_to off cs m = (\<lambda>i. if off \<le> i \<and> i < off + length cs then cs ! (i - off) else m i)"

text \<open>The callback for received data; the result less than the number of bytes makes libcurl give up.\<close>

definition callback :: "string \<Rightarrow> netstore \<Rightarrow> nat \<times> netstore" where
  "callback p s =
     (let n = (if length p + bufpos s + 1 > BUFSIZE then BUFSIZE - bufpos s - 1 else length p);
          pos = bufpos s + n
      in (n, s\<lparr>buf := (copy_to (bufpos s) (take n p) (buf s))(pos := CHR 0x00), bufpos := pos\<rparr>))"

text \<open>The search for the end of a line stops at nothing but a newline.\<close>

function find_newline :: "(nat \<Rightarrow> char) \<Rightarrow> nat \<Rightarrow> nat result" where
  "find_newline m p =
     (if p \<ge> BUFSIZE then Inl (Undefined_behaviour ''read past the end of buf'')
      else if m p = CHR 0x0A then Inr p else find_newline m (p + 1))"
  by pat_completeness auto
termination find_newline
  by (relation "measure (\<lambda>(m, p). BUFSIZE - p)") auto

declare find_newline.simps [simp del]

definition c_string :: "string \<Rightarrow> string" where
  "c_string = takeWhile (\<lambda>c. c \<noteq> CHR 0x00)"

lemma find_newline_ge: "find_newline m p = Inr q \<Longrightarrow> p \<le> q \<and> q < BUFSIZE \<and> m q = CHR 0x0A"
proof (induction m p rule: find_newline.induct)
  case (1 m p)
  then show ?case using find_newline.simps [of m p] by (auto split: if_splits)
qed

text \<open>Pointers are compared by their addresses, also in front of the buffer.\<close>

function check_lines :: "string \<Rightarrow> nat \<Rightarrow> nat \<Rightarrow> (nat \<Rightarrow> char) \<Rightarrow> (bool \<times> (nat \<Rightarrow> char)) result" where
  "check_lines name used pos m =
     (if int pos \<le> int used - 1 - int (length name)
      then rbind (find_newline m pos) (\<lambda>newpos.
        let m = m(newpos := CHR 0x00) in
        if newpos - pos = length name \<and> c_string (map m [pos..<newpos]) = c_string name then Inr (True, m)
        else check_lines name used (newpos + 1) m)
      else Inr (False, m))"
  by pat_completeness auto
termination check_lines
  by (relation "measure (\<lambda>(name, used, pos, m). used - pos)") (auto dest: find_newline_ge)

declare check_lines.simps [simp del]

definition check_list :: "string \<Rightarrow> netstore \<Rightarrow> (bool \<times> netstore) result" where
  "check_list name s = rbind (check_lines name (bufpos s) 0 (buf s)) (\<lambda>(b, m). Inr (b, s\<lparr>buf := m\<rparr>))"

section \<open>Messages to the agents\<close>

definition push_code ::
  "u64 \<Rightarrow> u32 \<Rightarrow> string \<Rightarrow> string \<Rightarrow> flex_control_delegation_type \<Rightarrow> rib \<Rightarrow> outbox \<Rightarrow> outbox" where
  "push_code b xid name dat ty r out = send_message b (message_of INITIATING_MESSAGE (Control_delegation_msg
     \<lparr>cd_header = Some (mk_header FLPT_DELEGATE_CONTROL xid), cd_type = Some ty,
      cd_payload = (if dat \<noteq> [] then Some dat else None), cd_name = Some name\<rparr>)) r out"

text \<open>The header is created and never attached.\<close>

definition app_reconfiguration ::
  "string \<Rightarrow> string \<Rightarrow> (string \<Rightarrow> flex_agent_reconfiguration_param option) \<Rightarrow> flexran_message" where
  "app_reconfiguration name action params = message_of INITIATING_MESSAGE (Agent_reconfiguration_msg
     \<lparr>ar_header = None, ar_policy = None, ar_systems = [\<lparr>sys_name = Some ''app'',
        subsystems = [\<lparr>sub_name = Some name, sub_behavior = Some action, sub_params = params\<rparr>]\<rparr>]\<rparr>)"

definition push_app_reconfiguration ::
  "u64 \<Rightarrow> string \<Rightarrow> string \<Rightarrow> (string \<Rightarrow> flex_agent_reconfiguration_param option) \<Rightarrow> rib \<Rightarrow> outbox \<Rightarrow> outbox" where
  "push_app_reconfiguration b name action params r out = send_message b (app_reconfiguration name action params) r out"

section \<open>Transfers\<close>

definition send_rest_request :: "string \<Rightarrow> netstore \<Rightarrow> netstore" where
  "send_rest_request addr s = s\<lparr>curl_requests := curl_requests s @ [addr]\<rparr>"

text \<open>
  A call of \<open>curl_multi_perform\<close>: the data it gives to the callback, the response codes of the
  transfers it finishes, and whether it succeeds.
\<close>

record curl_step =
  curl_received :: "string list"
  curl_codes :: "nat list"
  curl_ok :: bool

definition curl_perform :: "curl_step \<Rightarrow> netstore \<Rightarrow> netstore" where
  "curl_perform c s = (let s = fold (\<lambda>p s. snd (callback p s)) (curl_received c) s
     in s\<lparr>curl_done := curl_done s @ curl_codes c\<rparr>)"

definition disconnect :: "nat option \<Rightarrow> netstore \<Rightarrow> netstore" where
  "disconnect c s = (case c of None \<Rightarrow> s | Some i \<Rightarrow> s\<lparr>net_ticks := filter (\<lambda>x. fst x \<noteq> i) (net_ticks s)\<rparr>)"

definition subscribe :: "transfer_task \<Rightarrow> netstore \<Rightarrow> nat \<times> netstore" where
  "subscribe t s = (next_conn s, s\<lparr>net_ticks := net_ticks s @ [(next_conn s, t)], next_conn := next_conn s + 1\<rparr>)"

text \<open>The period of each task; both start at 0.\<close>

primrec task_period :: "transfer_task \<Rightarrow> u64" where
  "task_period (List_task _ _ _) = 10"
| "task_period (Retrieve_task _ _ _) = 1"

definition ask_list :: "string \<Rightarrow> u32 \<Rightarrow> flex_control_delegation_type \<Rightarrow> netstore \<Rightarrow> netstore" where
  "ask_list name xid ty s = (case subscribe (List_task name xid ty) (send_rest_request ''localhost:8080/list'' s) of
     (c, s) \<Rightarrow> s\<lparr>tick_list := Some c\<rparr>)"

definition ask_object :: "string \<Rightarrow> u32 \<Rightarrow> flex_control_delegation_type \<Rightarrow> netstore \<Rightarrow> netstore" where
  "ask_object name xid ty s =
     (case subscribe (Retrieve_task name xid ty) (send_rest_request (''localhost:8080/retrieve/'' @ name) s) of
        (c, s) \<Rightarrow> s\<lparr>tick_retrieve := Some c\<rparr>)"

text \<open>The loops over the finished transfers; a response other than 200 leaves the rest for the next call.\<close>

primrec list_done :: "string \<Rightarrow> u32 \<Rightarrow> flex_control_delegation_type \<Rightarrow> nat list \<Rightarrow> netstore \<Rightarrow> netstore result" where
  "list_done name xid ty [] s = Inr (s\<lparr>curl_done := []\<rparr>)"
| "list_done name xid ty (code # codes) s =
     (let s = disconnect (tick_list s) s in
      if code \<noteq> 200 then Inr (s\<lparr>bufpos := 0, curl_done := codes\<rparr>)
      else rbind (check_list name s) (\<lambda>(b, s). let s = s\<lparr>bufpos := 0\<rparr> in
        list_done name xid ty codes (if b then ask_object name xid ty s else s)))"

definition process_list ::
  "curl_step \<Rightarrow> string \<Rightarrow> u32 \<Rightarrow> flex_control_delegation_type \<Rightarrow> netstore \<Rightarrow> netstore result" where
  "process_list c name xid ty s = (let s = curl_perform c s in
     if \<not> curl_ok c then Inr (disconnect (tick_list s) s) else list_done name xid ty (curl_done s) s)"

text \<open>The object in the buffer goes to each base station, an agent application is started.\<close>

definition push_object :: "string \<Rightarrow> u32 \<Rightarrow> flex_control_delegation_type \<Rightarrow> string \<Rightarrow> rib \<Rightarrow> outbox \<Rightarrow> outbox" where
  "push_object name xid ty dat r out = fold (\<lambda>b out. let out = push_code b xid name dat ty r out in
       if ty = FLCDT_AGENT_CONTROL_APP then push_app_reconfiguration b name ''start'' Map.empty r out else out)
     (get_available_base_stations r) out"

primrec retrieve_done ::
  "string \<Rightarrow> u32 \<Rightarrow> flex_control_delegation_type \<Rightarrow> rib \<Rightarrow> nat list \<Rightarrow> netstore \<times> outbox \<Rightarrow> netstore \<times> outbox" where
  "retrieve_done name xid ty r [] so = ((fst so)\<lparr>curl_done := []\<rparr>, snd so)"
| "retrieve_done name xid ty r (code # codes) so =
     (let s = disconnect (tick_retrieve (fst so)) (fst so) in
      if code \<noteq> 200 then (s\<lparr>bufpos := 0, curl_done := codes\<rparr>, snd so)
      else retrieve_done name xid ty r codes
        (s\<lparr>bufpos := 0\<rparr>, push_object name xid ty (map (buf s) [0..<bufpos s]) r (snd so)))"

definition process_retrieve ::
  "curl_step \<Rightarrow> string \<Rightarrow> u32 \<Rightarrow> flex_control_delegation_type \<Rightarrow> rib \<Rightarrow> netstore \<times> outbox \<Rightarrow> netstore \<times> outbox" where
  "process_retrieve c name xid ty r so = (let s = curl_perform c (fst so) in
     if \<not> curl_ok c then (disconnect (tick_retrieve s) s, snd so)
     else retrieve_done name xid ty r (curl_done s) (s, snd so))"

section \<open>Requests\<close>

definition trigger_app_request :: "string \<Rightarrow> netstore \<Rightarrow> netstore" where
  "trigger_app_request name s = ask_list name 0 FLCDT_AGENT_CONTROL_APP s"

definition trigger_app_stop :: "string \<Rightarrow> rib \<Rightarrow> outbox \<Rightarrow> outbox" where
  "trigger_app_stop name r out = fold (\<lambda>b out.
       push_code b 0 name [] FLCDT_AGENT_CONTROL_APP r (push_app_reconfiguration b name ''stop'' Map.empty r out))
     (get_available_base_stations r) out"

definition trigger_app_reconfig ::
  "(string \<Rightarrow> flex_agent_reconfiguration_subsystem option) \<Rightarrow> string \<Rightarrow> string \<Rightarrow> rib \<Rightarrow> outbox \<Rightarrow> outbox result" where
  "trigger_app_reconfig js name policy r out = parsed (js policy) (\<lambda>sub.
     Inr (fold (\<lambda>b. push_app_reconfiguration b name ''reconfig'' (sub_params sub) r) (get_available_base_stations r) out))"

definition process_control_del_req :: "flex_control_delegation_request \<Rightarrow> netstore \<Rightarrow> netstore" where
  "process_control_del_req m s = ask_list (get_or [] (cdr_name m)) (header_xid (cdr_header m))
     (get_or FLCDT_MAC_DL_UE_SCHEDULER (cdr_type m)) s"

text \<open>
  The tick: the callbacks that were connected when the signal started and still are, in the
  order of connection.
\<close>

definition run_task :: "curl_step \<Rightarrow> transfer_task \<Rightarrow> rib \<Rightarrow> netstore \<times> outbox \<Rightarrow> (netstore \<times> outbox) result" where
  "run_task c t r so = (case t of
     List_task name xid ty \<Rightarrow> rbind (process_list c name xid ty (fst so)) (\<lambda>s. Inr (s, snd so))
   | Retrieve_task name xid ty \<Rightarrow> Inr (process_retrieve c name xid ty r so))"

definition netstore_signal :: "(nat \<Rightarrow> curl_step) \<Rightarrow> rib \<Rightarrow> u64 \<Rightarrow> netstore \<times> outbox \<Rightarrow> (netstore \<times> outbox) result" where
  "netstore_signal curl r t so = foldR (\<lambda>(i, c, task) so.
       if c \<in> fst ` set (net_ticks (fst so)) \<and> tick_due (task_period task) 0 t then run_task (curl i) task r so
       else Inr so)
     (enumerate 0 (net_ticks (fst so))) so"

primrec netstore_ticks :: "(curl_step \<times> rib) list \<Rightarrow> u64 \<Rightarrow> netstore \<times> outbox \<Rightarrow> (netstore \<times> outbox) result" where
  "netstore_ticks [] t so = Inr so"
| "netstore_ticks (x # xs) t so = rbind (netstore_signal (\<lambda>_. fst x) (snd x) t so) (netstore_ticks xs (t + 1))"

section \<open>The contents of the buffer\<close>

definition contents :: "netstore \<Rightarrow> string" where
  "contents s = map (buf s) [0..<bufpos s]"

lemma length_contents [simp]: "length (contents s) = bufpos s"
  by (simp add: contents_def)

lemma callback_contents:
  assumes "bufpos s < BUFSIZE"
  shows "bufpos (snd (callback p s)) < BUFSIZE"
    and "contents (snd (callback p s)) = take (BUFSIZE - 1) (contents s @ p)"
proof -
  let ?n = "if length p + bufpos s + 1 > BUFSIZE then BUFSIZE - bufpos s - 1 else length p"
  have n: "?n \<le> length p" "bufpos s + ?n < BUFSIZE" using assms by auto
  then show "bufpos (snd (callback p s)) < BUFSIZE" by (simp add: callback_def Let_def)
  have "contents (snd (callback p s)) = contents s @ take ?n p"
    using n by (intro nth_equalityI) (auto simp: callback_def Let_def contents_def copy_to_def nth_append)
  also have "\<dots> = take (BUFSIZE - 1) (contents s @ p)" using assms by auto
  finally show "contents (snd (callback p s)) = take (BUFSIZE - 1) (contents s @ p)" .
qed

lemma callback_rest:
  "snd (callback p s)\<lparr>buf := b, bufpos := n\<rparr> = s\<lparr>buf := b, bufpos := n\<rparr>"
  by (simp add: callback_def Let_def)

lemma callbacks:
  assumes "bufpos s < BUFSIZE"
  shows "bufpos (fold (\<lambda>p s. snd (callback p s)) ps s) < BUFSIZE
     \<and> contents (fold (\<lambda>p s. snd (callback p s)) ps s) = take (BUFSIZE - 1) (contents s @ concat ps)
     \<and> (\<exists>b n. fold (\<lambda>p s. snd (callback p s)) ps s = s\<lparr>buf := b, bufpos := n\<rparr>)"
  using assms
proof (induction ps arbitrary: s)
  case Nil
  have "s = s\<lparr>buf := buf s, bufpos := bufpos s\<rparr>" by simp
  then have "\<exists>b n. s = s\<lparr>buf := b, bufpos := n\<rparr>" by blast
  then show ?case using Nil by simp
next
  case (Cons p ps)
  let ?s = "snd (callback p s)"
  note c = callback_contents [OF Cons.prems, of p]
  obtain b n where "fold (\<lambda>p s. snd (callback p s)) ps ?s = ?s\<lparr>buf := b, bufpos := n\<rparr>"
    using Cons.IH [OF c(1)] by blast
  then have "fold (\<lambda>p s. snd (callback p s)) (p # ps) s = s\<lparr>buf := b, bufpos := n\<rparr>"
    by (simp add: callback_rest)
  moreover have "take (BUFSIZE - 1) (take (BUFSIZE - 1) (contents s @ p) @ concat ps) = take (BUFSIZE - 1) (contents s @ p @ concat ps)"
    by (simp add: take_append [symmetric] del: take_append) (simp add: min_def)
  ultimately show ?case using Cons.IH [OF c(1)] c(2) by auto
qed

lemma curl_perform_spec:
  assumes "bufpos s < BUFSIZE"
  obtains b n where "curl_perform c s = s\<lparr>buf := b, bufpos := n, curl_done := curl_done s @ curl_codes c\<rparr>"
    "n < BUFSIZE" "contents (curl_perform c s) = take (BUFSIZE - 1) (contents s @ concat (curl_received c))"
proof -
  obtain b n where f: "fold (\<lambda>p s. snd (callback p s)) (curl_received c) s = s\<lparr>buf := b, bufpos := n\<rparr>"
    using callbacks [OF assms] by blast
  show ?thesis
    by (rule that [where b = b and n = n]) (use callbacks [OF assms, of "curl_received c"] f in \<open>simp_all add: curl_perform_def contents_def\<close>)
qed

section \<open>Lists\<close>

definition plain_name :: "string \<Rightarrow> bool" where
  "plain_name n \<longleftrightarrow> CHR 0x00 \<notin> set n \<and> CHR 0x0A \<notin> set n"

definition lines_text :: "string list \<Rightarrow> string" where
  "lines_text ls = concat (map (\<lambda>l. l @ [CHR 0x0A]) ls)"

lemma find_newline_at:
  assumes "p \<le> q" "q < BUFSIZE" "m q = CHR 0x0A" "\<And>i. p \<le> i \<Longrightarrow> i < q \<Longrightarrow> m i \<noteq> CHR 0x0A"
  shows "find_newline m p = Inr q"
  using assms
proof (induction "q - p" arbitrary: p)
  case 0
  then show ?case by (subst find_newline.simps) simp
next
  case (Suc k)
  then have "p < q" by simp
  then have "find_newline m (p + 1) = Inr q" using Suc.hyps(1) [of "p + 1"] Suc.hyps(2) Suc.prems by simp
  then show ?case using Suc.prems \<open>p < q\<close> by (subst find_newline.simps) simp
qed

lemma c_string_plain: "plain_name n \<Longrightarrow> c_string n = n"
  by (simp add: c_string_def plain_name_def takeWhile_eq_all_conv) blast

lemma check_lines_iff:
  assumes "map m [pos..<used] = lines_text ls" "pos \<le> used" "used \<le> BUFSIZE" "plain_name name" "\<forall>l \<in> set ls. plain_name l"
  shows "\<exists>m'. check_lines name used pos m = Inr (name \<in> set ls, m')"
  using assms
proof (induction ls arbitrary: pos m)
  case Nil
  then have "used \<le> pos" by (auto simp: lines_text_def)
  then show ?case by (subst check_lines.simps) simp
next
  case (Cons l ls)
  let ?q = "pos + length l"
  have m: "map m [pos..<used] = l @ CHR 0x0A # lines_text ls" using Cons.prems(1) by (simp add: lines_text_def)
  have used: "used = ?q + 1 + length (lines_text ls)" using arg_cong [OF m, of length] Cons.prems(2) by simp
  have at: "m (pos + i) = (l @ CHR 0x0A # lines_text ls) ! i" if "pos + i < used" for i
    using arg_cong [OF m, of "\<lambda>xs. xs ! i"] that by simp
  show ?case
  proof (cases "int pos \<le> int used - 1 - int (length name)")
    case True
    have "m i \<noteq> CHR 0x0A" if "pos \<le> i" "i < ?q" for i
    proof -
      have "i - pos < length l" using that by arith
      then have "m i = l ! (i - pos)" using at [of "i - pos"] that used by (simp add: nth_append)
      moreover have "l ! (i - pos) \<in> set l" by (rule nth_mem [OF \<open>i - pos < length l\<close>])
      moreover have "CHR 0x0A \<notin> set l" using Cons.prems(5) by (simp add: plain_name_def)
      ultimately show ?thesis by metis
    qed
    then have q: "find_newline m pos = Inr ?q"
      using at [of "length l"] used Cons.prems(3) by (intro find_newline_at) (auto simp: nth_append)
    have l: "map m [pos..<?q] = l"
      using at used by (intro nth_equalityI) (auto simp: nth_append)
    let ?m = "m(?q := CHR 0x00)"
    have rest: "map ?m [?q + 1..<used] = lines_text ls"
    proof (rule nth_equalityI)
      fix i assume "i < length (map ?m [?q + 1..<used])"
      then show "map ?m [?q + 1..<used] ! i = lines_text ls ! i"
        using at [of "length l + 1 + i"] by (simp add: nth_append add.assoc)
    qed (unfold length_map length_upt used, simp)
    have "?q + 1 \<le> used" "\<forall>l \<in> set ls. plain_name l" using used Cons.prems(5) by auto
    then obtain m' where "check_lines name used (?q + 1) ?m = Inr (name \<in> set ls, m')"
      using Cons.IH [OF rest _ Cons.prems(3,4)] by blast
    then show ?thesis
      using True q l Cons.prems(4,5) by (subst check_lines.simps) (auto simp: Let_def c_string_plain)
  next
    case False
    have "length x < length (lines_text (l # ls))" if "x \<in> set (l # ls)" for x
      using that by (induction ls) (auto simp: lines_text_def)
    moreover have "used = pos + length (lines_text (l # ls))" using used by (simp add: lines_text_def)
    ultimately have "name \<notin> set (l # ls)" using False by fastforce
    then show ?thesis using False by (subst check_lines.simps) auto
  qed
qed

lemma check_list_eq:
  assumes "contents s = lines_text ls" "bufpos s < BUFSIZE" "plain_name name" "\<forall>l \<in> set ls. plain_name l"
  shows "\<exists>m. check_list name s = Inr (name \<in> set ls, s\<lparr>buf := m\<rparr>)"
  using check_lines_iff [of "buf s" 0 "bufpos s" ls name] assms by (auto simp: check_list_def contents_def)

section \<open>Transfers that run\<close>

text \<open>The connection numbers in use are below the next one.\<close>

definition one_task :: "nat \<Rightarrow> transfer_task \<Rightarrow> netstore \<Rightarrow> bool" where
  "one_task c t s \<longleftrightarrow> net_ticks s = [(c, t)] \<and> curl_done s = [] \<and> bufpos s < BUFSIZE
     \<and> (case t of List_task _ _ _ \<Rightarrow> tick_list s = Some c | Retrieve_task _ _ _ \<Rightarrow> tick_retrieve s = Some c)"

lemma signal_one:
  "net_ticks s = [(c, t)] \<Longrightarrow> netstore_signal curl r n (s, out) =
     (if tick_due (task_period t) 0 n then run_task (curl 0) t r (s, out) else Inr (s, out))"
  by (simp add: netstore_signal_def rbind_def split: sum.splits)

text \<open>A transfer that does not finish only fills the buffer.\<close>

lemma signal_waits:
  assumes "one_task c t s" "curl_ok (curl 0)" "curl_codes (curl 0) = []" "tick_due (task_period t) 0 n"
    and "bufpos s + length (concat (curl_received (curl 0))) < BUFSIZE"
  shows "\<exists>b k. netstore_signal curl r n (s, out) = Inr (s\<lparr>buf := b, bufpos := k\<rparr>, out)
     \<and> one_task c t (s\<lparr>buf := b, bufpos := k\<rparr>)
     \<and> contents (s\<lparr>buf := b, bufpos := k\<rparr>) = contents s @ concat (curl_received (curl 0))"
proof -
  have idle: "curl_done s = []" and lt: "bufpos s < BUFSIZE" and ticks: "net_ticks s = [(c, t)]"
    using assms(1) by (simp_all add: one_task_def)
  obtain b k where p: "curl_perform (curl 0) s = s\<lparr>buf := b, bufpos := k, curl_done := curl_done s @ curl_codes (curl 0)\<rparr>"
    "k < BUFSIZE" "contents (curl_perform (curl 0) s) = take (BUFSIZE - 1) (contents s @ concat (curl_received (curl 0)))"
    by (rule curl_perform_spec [OF lt])
  let ?s = "s\<lparr>buf := b, bufpos := k\<rparr>"
  have s': "curl_perform (curl 0) s = ?s" using p(1) idle assms(3) by simp
  have "contents ?s = contents s @ concat (curl_received (curl 0))" using p(3) assms(5) by (simp add: s')
  moreover have "one_task c t ?s" using assms(1) p(2) by (simp add: one_task_def split: transfer_task.splits)
  moreover have "netstore_signal curl r n (s, out) = Inr (?s, out)"
    using idle assms(2,4)
    by (cases t) (simp_all add: signal_one [OF ticks] run_task_def process_list_def process_retrieve_def s')
  ultimately show ?thesis by blast
qed

lemma list_finishes:
  assumes "one_task c (List_task name xid ty) s" "curl_ok (curl 0)" "curl_codes (curl 0) = [200]" "tick_due 10 0 n"
    and "contents s @ concat (curl_received (curl 0)) = lines_text ls" "length (lines_text ls) < BUFSIZE"
    and "plain_name name" "\<forall>l \<in> set ls. plain_name l"
  shows "\<exists>b. netstore_signal curl r n (s, out) = Inr
     (let s' = s\<lparr>buf := b, bufpos := 0, net_ticks := []\<rparr> in if name \<in> set ls then ask_object name xid ty s' else s', out)"
proof -
  have idle: "curl_done s = []" and lt: "bufpos s < BUFSIZE" and ticks: "net_ticks s = [(c, List_task name xid ty)]"
    and conn: "tick_list s = Some c"
    using assms(1) by (simp_all add: one_task_def)
  obtain b k where p: "curl_perform (curl 0) s = s\<lparr>buf := b, bufpos := k, curl_done := curl_done s @ curl_codes (curl 0)\<rparr>"
    "k < BUFSIZE" "contents (curl_perform (curl 0) s) = take (BUFSIZE - 1) (contents s @ concat (curl_received (curl 0)))"
    by (rule curl_perform_spec [OF lt])
  let ?s = "s\<lparr>buf := b, bufpos := k, curl_done := [200]\<rparr>"
  have s': "curl_perform (curl 0) s = ?s" using p(1) idle assms(3) by simp
  let ?d = "?s\<lparr>net_ticks := []\<rparr>"
  have d: "disconnect (tick_list ?s) ?s = ?d" by (simp add: disconnect_def conn ticks)
  have "contents ?d = lines_text ls"
    using p(3) assms(6) unfolding assms(5) by (simp add: s' contents_def)
  then obtain m where m: "check_list name ?d = Inr (name \<in> set ls, ?d\<lparr>buf := m\<rparr>)"
    using check_list_eq [of ?d ls name] p(2) assms(7,8) by auto
  have same: "(f (?d\<lparr>buf := m, bufpos := 0\<rparr>))\<lparr>curl_done := []\<rparr> = f (s\<lparr>buf := m, bufpos := 0, net_ticks := []\<rparr>)"
    if "f = (\<lambda>s. s) \<or> f = ask_object name xid ty" for f
    by (rule netstore.equality)
      (use that idle in \<open>auto simp: ask_object_def subscribe_def send_rest_request_def\<close>)
  have "netstore_signal curl r n (s, out) = Inr
     (let s' = s\<lparr>buf := m, bufpos := 0, net_ticks := []\<rparr> in if name \<in> set ls then ask_object name xid ty s' else s', out)"
    using assms(2,4) d m same [of "\<lambda>s. s"] same [of "ask_object name xid ty"]
    by (simp add: signal_one [OF ticks] run_task_def process_list_def s' Let_def)
  then show ?thesis by blast
qed

lemma retrieve_finishes:
  assumes "one_task c (Retrieve_task name xid ty) s" "curl_ok (curl 0)" "curl_codes (curl 0) = [200]"
  shows "\<exists>b. netstore_signal curl r n (s, out) = Inr (s\<lparr>buf := b, bufpos := 0, net_ticks := []\<rparr>,
     push_object name xid ty (take (BUFSIZE - 1) (contents s @ concat (curl_received (curl 0)))) r out)"
proof -
  have idle: "curl_done s = []" and lt: "bufpos s < BUFSIZE" and ticks: "net_ticks s = [(c, Retrieve_task name xid ty)]"
    and conn: "tick_retrieve s = Some c"
    using assms(1) by (simp_all add: one_task_def)
  obtain b k where p: "curl_perform (curl 0) s = s\<lparr>buf := b, bufpos := k, curl_done := curl_done s @ curl_codes (curl 0)\<rparr>"
    "k < BUFSIZE" "contents (curl_perform (curl 0) s) = take (BUFSIZE - 1) (contents s @ concat (curl_received (curl 0)))"
    by (rule curl_perform_spec [OF lt])
  have s': "curl_perform (curl 0) s = s\<lparr>buf := b, bufpos := k, curl_done := [200]\<rparr>" using p(1) idle assms(3) by simp
  have "tick_due 1 0 n" by (simp add: tick_due_def)
  then show ?thesis
    using assms(2) p(3) idle conn ticks
    by (intro exI [of _ b]) (auto simp: signal_one [OF ticks] run_task_def process_retrieve_def s' disconnect_def contents_def)
qed

text \<open>The ticks at which a task is due, and what libcurl receives at them.\<close>

primrec quiet :: "transfer_task \<Rightarrow> u64 \<Rightarrow> (curl_step \<times> rib) list \<Rightarrow> bool" where
  "quiet t n [] \<longleftrightarrow> True"
| "quiet t n (x # xs) \<longleftrightarrow> (tick_due (task_period t) 0 n \<longrightarrow> curl_ok (fst x) \<and> curl_codes (fst x) = []) \<and> quiet t (n + 1) xs"

primrec received :: "transfer_task \<Rightarrow> u64 \<Rightarrow> (curl_step \<times> rib) list \<Rightarrow> string" where
  "received t n [] = []"
| "received t n (x # xs) = (if tick_due (task_period t) 0 n then concat (curl_received (fst x)) else []) @ received t (n + 1) xs"

lemma net_ticks_append:
  "netstore_ticks (xs @ ys) n so = rbind (netstore_ticks xs n so) (netstore_ticks ys (n + of_nat (length xs)))"
proof (induction xs arbitrary: n so)
  case (Cons x xs)
  have "netstore_ticks (xs @ ys) (n + 1) = (\<lambda>so. rbind (netstore_ticks xs (n + 1) so) (netstore_ticks ys (n + 1 + of_nat (length xs))))"
    using Cons.IH by (intro ext)
  then show ?case by (simp add: rbind_assoc add.assoc)
qed simp

lemma ticks_wait:
  assumes "one_task c t s" "quiet t n xs" "bufpos s + length (received t n xs) < BUFSIZE"
  shows "\<exists>b k. netstore_ticks xs n (s, out) = Inr (s\<lparr>buf := b, bufpos := k\<rparr>, out)
     \<and> one_task c t (s\<lparr>buf := b, bufpos := k\<rparr>)
     \<and> contents (s\<lparr>buf := b, bufpos := k\<rparr>) = contents s @ received t n xs"
  using assms
proof (induction xs arbitrary: s n)
  case Nil
  then show ?case by (intro exI [of _ "buf s"] exI [of _ "bufpos s"]) simp
next
  case (Cons x xs)
  let ?d = "if tick_due (task_period t) 0 n then concat (curl_received (fst x)) else []"
  obtain b k where 1: "netstore_signal (\<lambda>_. fst x) (snd x) n (s, out) = Inr (s\<lparr>buf := b, bufpos := k\<rparr>, out)"
    "one_task c t (s\<lparr>buf := b, bufpos := k\<rparr>)" "contents (s\<lparr>buf := b, bufpos := k\<rparr>) = contents s @ ?d"
  proof (cases "tick_due (task_period t) 0 n")
    case True
    then show ?thesis
      using signal_waits [OF Cons.prems(1) _ _ True, of "\<lambda>_. fst x" "snd x" out] Cons.prems(2,3) that by auto
  next
    case False
    have "s\<lparr>buf := buf s, bufpos := bufpos s\<rparr> = s" by simp
    moreover have "netstore_signal (\<lambda>_. fst x) (snd x) n (s, out) = Inr (s, out)"
      using Cons.prems(1) False by (simp add: signal_one [of s c t] one_task_def)
    ultimately show ?thesis using that [where b = "buf s" and k = "bufpos s"] Cons.prems(1) False by simp
  qed
  have "k = bufpos s + length ?d" using arg_cong [OF 1(3), of length] by simp
  then have "\<exists>b' k'. netstore_ticks xs (n + 1) (s\<lparr>buf := b, bufpos := k\<rparr>, out) = Inr (s\<lparr>buf := b', bufpos := k'\<rparr>, out)
     \<and> one_task c t (s\<lparr>buf := b', bufpos := k'\<rparr>)
     \<and> contents (s\<lparr>buf := b', bufpos := k'\<rparr>) = (contents s @ ?d) @ received t (n + 1) xs"
    using Cons.IH [OF 1(2), of "n + 1"] Cons.prems(2,3) 1(3) by simp
  then show ?case using 1(1) by simp
qed

section \<open>Properties\<close>

lemma fold_sends:
  assumes "\<And>b out. f b out = out @ g b"
  shows "fold f bs out = out @ concat (map g bs)"
  by (induction bs arbitrary: out) (simp_all add: assms)

text \<open>What each base station gets: the messages, each to all of its connections.\<close>

definition to_each :: "flexran_message list \<Rightarrow> rib \<Rightarrow> outbox" where
  "to_each ms r = concat (map (\<lambda>b. concat (map (\<lambda>m. map (\<lambda>i. (i, m)) (bs_members b r)) ms)) (get_available_base_stations r))"

definition code_message :: "string \<Rightarrow> u32 \<Rightarrow> flex_control_delegation_type \<Rightarrow> string option \<Rightarrow> flexran_message" where
  "code_message name xid ty dat = message_of INITIATING_MESSAGE (Control_delegation_msg
     \<lparr>cd_header = Some (mk_header FLPT_DELEGATE_CONTROL xid), cd_type = Some ty, cd_payload = dat, cd_name = Some name\<rparr>)"

lemma push_object_eq:
  "push_object name xid ty dat r out = out @ to_each (code_message name xid ty (if dat = [] then None else Some dat)
     # (if ty = FLCDT_AGENT_CONTROL_APP then [app_reconfiguration name ''start'' Map.empty] else [])) r"
  unfolding push_object_def to_each_def
  by (rule fold_sends) (simp add: push_code_def push_app_reconfiguration_def mes.send_appends code_message_def)

lemma list_phase:
  assumes "net_ticks s = []" "curl_done s = []" "bufpos s = 0" "plain_name name" "\<forall>l \<in> set ls. plain_name l"
    and "quiet (List_task name xid ty) t xs" "tick_due 10 0 (t + of_nat (length xs))" "curl_ok l" "curl_codes l = [200]"
    and "received (List_task name xid ty) t xs @ concat (curl_received l) = lines_text ls" "length (lines_text ls) < BUFSIZE"
  obtains s2 where "net_ticks s2 = []" "curl_done s2 = []" "bufpos s2 = 0"
    "curl_requests s2 = curl_requests s @ [''localhost:8080/list'']"
    "netstore_ticks (xs @ [(l, r1)]) t (ask_list name xid ty s, out)
       = Inr (if name \<in> set ls then ask_object name xid ty s2 else s2, out)"
proof -
  let ?L = "List_task name xid ty" and ?s = "ask_list name xid ty s"
  have s: "one_task (next_conn s) ?L ?s" "bufpos ?s = 0" "contents ?s = []"
    "curl_requests ?s = curl_requests s @ [''localhost:8080/list'']"
    using assms(1-3) by (simp_all add: one_task_def ask_list_def subscribe_def send_rest_request_def contents_def BUFSIZE_def)
  have len: "length (received ?L t xs) < BUFSIZE"
    using assms(11) arg_cong [OF assms(10), of length] by simp
  obtain b k where w: "netstore_ticks xs t (?s, out) = Inr (?s\<lparr>buf := b, bufpos := k\<rparr>, out)"
    "one_task (next_conn s) ?L (?s\<lparr>buf := b, bufpos := k\<rparr>)" "contents (?s\<lparr>buf := b, bufpos := k\<rparr>) = received ?L t xs"
    using ticks_wait [OF s(1) assms(6), of out] s(2,3) len by auto
  obtain m where f: "netstore_signal (\<lambda>_. l) r1 (t + of_nat (length xs)) (?s\<lparr>buf := b, bufpos := k\<rparr>, out) = Inr
     (let s' = ?s\<lparr>buf := m, bufpos := 0, net_ticks := []\<rparr> in if name \<in> set ls then ask_object name xid ty s' else s', out)"
    using list_finishes [OF w(2), of "\<lambda>_. l" "t + of_nat (length xs)" ls r1 out] assms(4,5,7-11) w(3) by auto
  show ?thesis
    by (rule that [of "?s\<lparr>buf := m, bufpos := 0, net_ticks := []\<rparr>"])
      (use s(1,4) w(1) f in \<open>simp_all add: net_ticks_append Let_def one_task_def\<close>)
qed

lemma retrieve_phase:
  assumes "net_ticks s = []" "curl_done s = []" "bufpos s = 0"
    and "quiet (Retrieve_task name xid ty) t ys" "curl_ok obj" "curl_codes obj = [200]"
    and "received (Retrieve_task name xid ty) t ys @ concat (curl_received obj) = dat"
    and "length (received (Retrieve_task name xid ty) t ys) < BUFSIZE"
  obtains s' where "net_ticks s' = []" "curl_done s' = []" "bufpos s' = 0"
    "curl_requests s' = curl_requests s @ [''localhost:8080/retrieve/'' @ name]"
    "netstore_ticks (ys @ [(obj, r)]) t (ask_object name xid ty s, out)
       = Inr (s', push_object name xid ty (take (BUFSIZE - 1) dat) r out)"
proof -
  let ?R = "Retrieve_task name xid ty" and ?o = "ask_object name xid ty s"
  have o: "one_task (next_conn s) ?R ?o" "bufpos ?o = 0" "contents ?o = []"
    "curl_requests ?o = curl_requests s @ [''localhost:8080/retrieve/'' @ name]"
    using assms(1-3) by (simp_all add: one_task_def ask_object_def subscribe_def send_rest_request_def contents_def BUFSIZE_def)
  obtain b k where w: "netstore_ticks ys t (?o, out) = Inr (?o\<lparr>buf := b, bufpos := k\<rparr>, out)"
    "one_task (next_conn s) ?R (?o\<lparr>buf := b, bufpos := k\<rparr>)" "contents (?o\<lparr>buf := b, bufpos := k\<rparr>) = received ?R t ys"
    using ticks_wait [OF o(1) assms(4), of out] o(2,3) assms(8) by auto
  obtain m where r: "netstore_signal (\<lambda>_. obj) r (t + of_nat (length ys)) (?o\<lparr>buf := b, bufpos := k\<rparr>, out) =
      Inr (?o\<lparr>buf := m, bufpos := 0, net_ticks := []\<rparr>, push_object name xid ty (take (BUFSIZE - 1) dat) r out)"
    using retrieve_finishes [OF w(2), of "\<lambda>_. obj" r "t + of_nat (length ys)" out] assms(5-7) w(3) by auto
  show ?thesis
    by (rule that [of "?o\<lparr>buf := m, bufpos := 0, net_ticks := []\<rparr>"])
      (use o(1,4) w(1) r in \<open>simp_all add: net_ticks_append one_task_def\<close>)
qed

text \<open>C17. A request for an object that the store lists brings it to every base station: the ticks at
  which the task is due collect the list, however it is cut and however long it takes, the name is
  found, the object is collected in the same way, and then each connection of each base station
  gets the object under its name, followed by the start of an application; no task is left.
  An object that is not listed ends the request with nothing sent.\<close>

theorem listed_object_is_deployed:
  assumes "net_ticks s = []" "curl_done s = []" "bufpos s = 0" "plain_name name" "\<forall>l \<in> set ls. plain_name l"
    and "quiet (List_task name xid ty) t xs" "tick_due 10 0 (t + of_nat (length xs))" "curl_ok l" "curl_codes l = [200]"
    and "received (List_task name xid ty) t xs @ concat (curl_received l) = lines_text ls" "length (lines_text ls) < BUFSIZE"
  shows "(name \<in> set ls \<and> quiet (Retrieve_task name xid ty) (t + of_nat (length xs) + 1) ys \<and> curl_ok obj \<and> curl_codes obj = [200]
        \<and> received (Retrieve_task name xid ty) (t + of_nat (length xs) + 1) ys @ concat (curl_received obj) = dat \<and> length dat < BUFSIZE \<longrightarrow>
      (\<exists>s'. netstore_ticks (xs @ (l, r1) # ys @ [(obj, r)]) t (ask_list name xid ty s, out)
        = Inr (s', out @ to_each (code_message name xid ty (if dat = [] then None else Some dat)
            # (if ty = FLCDT_AGENT_CONTROL_APP then [app_reconfiguration name ''start'' Map.empty] else [])) r)
      \<and> net_ticks s' = [] \<and> curl_done s' = [] \<and> bufpos s' = 0
      \<and> curl_requests s' = curl_requests s @ [''localhost:8080/list'', ''localhost:8080/retrieve/'' @ name]))
    \<and> (name \<notin> set ls \<longrightarrow> (\<exists>s'. netstore_ticks (xs @ [(l, r1)]) t (ask_list name xid ty s, out) = Inr (s', out)
      \<and> net_ticks s' = [] \<and> curl_done s' = [] \<and> bufpos s' = 0 \<and> curl_requests s' = curl_requests s @ [''localhost:8080/list'']))"
proof -
  let ?t = "t + of_nat (length xs) + 1" and ?R = "Retrieve_task name xid ty"
  obtain s2 where s2: "net_ticks s2 = []" "curl_done s2 = []" "bufpos s2 = 0"
    "curl_requests s2 = curl_requests s @ [''localhost:8080/list'']"
    "netstore_ticks (xs @ [(l, r1)]) t (ask_list name xid ty s, out)
       = Inr (if name \<in> set ls then ask_object name xid ty s2 else s2, out)"
    by (rule list_phase [OF assms])
  have "\<exists>s'. netstore_ticks (xs @ (l, r1) # ys @ [(obj, r)]) t (ask_list name xid ty s, out)
        = Inr (s', push_object name xid ty dat r out)
      \<and> net_ticks s' = [] \<and> curl_done s' = [] \<and> bufpos s' = 0
      \<and> curl_requests s' = curl_requests s @ [''localhost:8080/list'', ''localhost:8080/retrieve/'' @ name]"
    if a: "name \<in> set ls" "quiet ?R ?t ys" "curl_ok obj" "curl_codes obj = [200]"
      "received ?R ?t ys @ concat (curl_received obj) = dat" "length dat < BUFSIZE"
  proof -
    have len: "length (received ?R ?t ys) < BUFSIZE" using a(6) arg_cong [OF a(5), of length] by simp
    obtain s' where "net_ticks s' = []" "curl_done s' = []" "bufpos s' = 0"
      "curl_requests s' = curl_requests s2 @ [''localhost:8080/retrieve/'' @ name]"
      "netstore_ticks (ys @ [(obj, r)]) ?t (ask_object name xid ty s2, out)
         = Inr (s', push_object name xid ty (take (BUFSIZE - 1) dat) r out)"
      by (rule retrieve_phase [OF s2(1-3) a(2-5) len])
    moreover have "netstore_ticks ((xs @ [(l, r1)]) @ ys @ [(obj, r)]) t (ask_list name xid ty s, out)
        = netstore_ticks (ys @ [(obj, r)]) ?t (ask_object name xid ty s2, out)"
      unfolding net_ticks_append [of "xs @ [(l, r1)]"] s2(5) using a(1) by (simp add: ac_simps)
    ultimately show ?thesis using a(6) s2(4) by simp
  qed
  then show ?thesis using s2 by (auto simp: push_object_eq)
qed

theorem listed_object_is_deployed_witness:
  "\<exists>s'. netstore_ticks [(\<lparr>curl_received = [''a'', ''b'' @ [CHR 0x0A]], curl_codes = [200], curl_ok = True\<rparr>, bs_online),
       (\<lparr>curl_received = [''xy''], curl_codes = [], curl_ok = True\<rparr>, bs_online),
       (\<lparr>curl_received = [''z''], curl_codes = [200], curl_ok = True\<rparr>, bs_online)] 20
       (trigger_app_request ''ab'' new_netstore, [])
     = Inr (s', to_each [code_message ''ab'' 0 FLCDT_AGENT_CONTROL_APP (Some ''xyz''), app_reconfiguration ''ab'' ''start'' Map.empty] bs_online)"
proof -
  let ?l = "\<lparr>curl_received = [''a'', ''b'' @ [CHR 0x0A]], curl_codes = [200], curl_ok = True\<rparr>"
  let ?y = "\<lparr>curl_received = [''xy''], curl_codes = [], curl_ok = True\<rparr>"
  let ?o = "\<lparr>curl_received = [''z''], curl_codes = [200], curl_ok = True\<rparr>"
  show ?thesis
    using listed_object_is_deployed [of new_netstore "''ab''" "[''ab'']" 0 FLCDT_AGENT_CONTROL_APP 20 "[]" ?l "[(?y, bs_online)]" ?o
        "''xyz''" bs_online bs_online "[]"]
    by (simp add: new_netstore_def plain_name_def lines_text_def BUFSIZE_def tick_due_def trigger_app_request_def) blast
qed

text \<open>The result code of a transfer is not looked at, only the response code of the server: an
  object that does not fit the buffer, whose transfer libcurl breaks off, is pushed cut off to
  all base stations and started.\<close>

theorem oversized_object_is_pushed_truncated:
  assumes "net_ticks s = []" "curl_done s = []" "bufpos s = 0" "curl_ok obj" "curl_codes obj = [200]"
    and "BUFSIZE \<le> length (concat (curl_received obj))"
  shows "\<exists>s' dat. netstore_ticks [(obj, r)] t (ask_object name xid FLCDT_AGENT_CONTROL_APP s, out)
       = Inr (s', out @ to_each [code_message name xid FLCDT_AGENT_CONTROL_APP (Some dat),
           app_reconfiguration name ''start'' Map.empty] r)
     \<and> length dat = BUFSIZE - 1 \<and> dat \<noteq> concat (curl_received obj)"
proof -
  let ?d = "concat (curl_received obj)"
  obtain s' where "netstore_ticks ([] @ [(obj, r)]) t (ask_object name xid FLCDT_AGENT_CONTROL_APP s, out)
       = Inr (s', push_object name xid FLCDT_AGENT_CONTROL_APP (take (BUFSIZE - 1) ?d) r out)"
    by (rule retrieve_phase [OF assms(1-3), where ys = "[]" and t = t and name = name and xid = xid and ty = FLCDT_AGENT_CONTROL_APP])
      (use assms(4,5) in \<open>auto simp: BUFSIZE_def\<close>)
  moreover have n: "length (take (BUFSIZE - 1) ?d) = BUFSIZE - 1" using assms(6) by simp
  moreover have "0 < length (take (BUFSIZE - 1) ?d)" unfolding n by (simp add: BUFSIZE_def)
  moreover have "length (take (BUFSIZE - 1) ?d) < length ?d" unfolding n using assms(6) by (simp add: BUFSIZE_def)
  ultimately show ?thesis
    by (intro exI [of _ s'] exI [of _ "take (BUFSIZE - 1) ?d"]) (auto simp: push_object_eq simp del: length_take take_eq_Nil)
qed

theorem oversized_object_is_pushed_truncated_witness:
  "\<exists>s' dat. netstore_ticks [(\<lparr>curl_received = [replicate BUFSIZE CHR ''x''], curl_codes = [200], curl_ok = True\<rparr>, bs_online)] 0
       (ask_object ''app'' 0 FLCDT_AGENT_CONTROL_APP new_netstore, [])
     = Inr (s', to_each [code_message ''app'' 0 FLCDT_AGENT_CONTROL_APP (Some dat), app_reconfiguration ''app'' ''start'' Map.empty] bs_online)
     \<and> length dat = BUFSIZE - 1"
  using oversized_object_is_pushed_truncated [of new_netstore "\<lparr>curl_received = [replicate BUFSIZE CHR ''x''], curl_codes = [200], curl_ok = True\<rparr>"
      bs_online 0 "''app''" 0 "[]"]
  by (auto simp: new_netstore_def)

text \<open>A list whose last line is not ended makes the search run on behind the data; in a buffer that
  has not held more, up to its end and beyond.\<close>

lemma find_newline_none: "p \<le> BUFSIZE \<Longrightarrow> \<forall>i. p \<le> i \<and> i < BUFSIZE \<longrightarrow> m i \<noteq> CHR 0x0A \<Longrightarrow>
   find_newline m p = Inl (Undefined_behaviour ''read past the end of buf'')"
proof (induction m p rule: find_newline.induct)
  case (1 m p)
  then show ?case using find_newline.simps [of m p] by (cases "p \<ge> BUFSIZE") auto
qed

theorem unterminated_list_runs_off:
  assumes "bufpos s < BUFSIZE" "length name < bufpos s" "CHR 0x0A \<notin> set (contents s)"
    and "\<forall>i. bufpos s \<le> i \<and> i < BUFSIZE \<longrightarrow> buf s i = CHR 0x00"
  shows "check_list name s = Inl (Undefined_behaviour ''read past the end of buf'')"
proof -
  have "buf s i \<noteq> CHR 0x0A" if "i < BUFSIZE" for i
  proof (cases "i < bufpos s")
    case True
    then have "buf s i \<in> set (contents s)" by (simp add: contents_def)
    then show ?thesis using assms(3) by metis
  qed (use assms(4) that in simp)
  then have "find_newline (buf s) 0 = Inl (Undefined_behaviour ''read past the end of buf'')"
    by (intro find_newline_none) auto
  then show ?thesis using assms(2) by (simp add: check_list_def check_lines.simps [of name])
qed

theorem unterminated_list_runs_off_witness:
  "check_list ''a'' (snd (callback ''a,b'' new_netstore)) = Inl (Undefined_behaviour ''read past the end of buf'')"
proof (rule unterminated_list_runs_off)
  show "CHR 0x0A \<notin> set (contents (snd (callback ''a,b'' new_netstore)))"
    using callback_contents(2) [of new_netstore "''a,b''"] by (simp add: new_netstore_def contents_def BUFSIZE_def)
qed (simp_all add: callback_def new_netstore_def BUFSIZE_def copy_to_def Let_def)

section \<open>Requests that overlap\<close>

primrec task_name :: "transfer_task \<Rightarrow> string" where
  "task_name (List_task n _ _) = n"
| "task_name (Retrieve_task n _ _) = n"

definition wanted :: "netstore \<Rightarrow> string set" where
  "wanted s = task_name ` snd ` set (net_ticks s)"

text \<open>From a state on, only the names in \<open>N\<close> are worked on and fetched.\<close>

definition only_names :: "string set \<Rightarrow> netstore \<Rightarrow> netstore \<Rightarrow> bool" where
  "only_names N s s' \<longleftrightarrow> (wanted s \<subseteq> N \<longrightarrow> wanted s' \<subseteq> N \<and>
     set (curl_requests s') \<subseteq> set (curl_requests s) \<union> (@) ''localhost:8080/retrieve/'' ` N)"

lemma only_names_refl [simp]: "only_names N s s"
  by (simp add: only_names_def)

lemma only_names_trans: "only_names N s s' \<Longrightarrow> only_names N s' s'' \<Longrightarrow> only_names N s s''"
  unfolding only_names_def by blast

lemma only_names_same: "net_ticks s' = net_ticks s \<Longrightarrow> curl_requests s' = curl_requests s \<Longrightarrow> only_names N s s'"
  by (simp add: only_names_def wanted_def)

lemma curl_perform_names: "only_names N s (curl_perform c s)"
proof -
  have "net_ticks (fold (\<lambda>p s. snd (callback p s)) ps s) = net_ticks s
      \<and> curl_requests (fold (\<lambda>p s. snd (callback p s)) ps s) = curl_requests s" for ps
    by (induction ps arbitrary: s) (simp_all add: callback_def Let_def)
  then show ?thesis by (intro only_names_same) (simp_all add: curl_perform_def Let_def)
qed

lemma disconnect_names: "only_names N s (disconnect c s)"
  by (auto simp: only_names_def wanted_def disconnect_def split: option.splits)

lemma check_list_names: "check_list name s = Inr (b, s') \<Longrightarrow> only_names N s s'"
  by (intro only_names_same) (auto simp: check_list_def rbind_Inr_eq)

lemma ask_object_names: "name \<in> N \<Longrightarrow> only_names N s (ask_object name xid ty s)"
  by (auto simp: only_names_def wanted_def ask_object_def subscribe_def send_rest_request_def)

lemma list_done_names:
  "list_done name xid ty codes s = Inr s' \<Longrightarrow> name \<in> N \<Longrightarrow> only_names N s s'"
proof (induction codes arbitrary: s)
  case Nil
  then show ?case by (auto intro: only_names_same)
next
  case (Cons code codes)
  let ?s = "disconnect (tick_list s) s"
  have d: "only_names N s ?s" by (rule disconnect_names)
  show ?case
  proof (cases "code = 200")
    case False
    then have "only_names N ?s s'" using Cons.prems(1) by (auto simp: Let_def intro: only_names_same)
    then show ?thesis using d only_names_trans by blast
  next
    case True
    then obtain b s1 where c: "check_list name ?s = Inr (b, s1)"
      and l: "list_done name xid ty codes (if b then ask_object name xid ty (s1\<lparr>bufpos := 0\<rparr>) else s1\<lparr>bufpos := 0\<rparr>) = Inr s'"
      using Cons.prems(1) by (auto simp: Let_def rbind_Inr_eq)
    let ?s2 = "s1\<lparr>bufpos := 0\<rparr>"
    have 1: "only_names N s ?s2"
      using only_names_trans [OF only_names_trans [OF d check_list_names [OF c]], of ?s2] only_names_same [of ?s2 s1] by simp
    have "only_names N ?s2 (if b then ask_object name xid ty ?s2 else ?s2)"
      using Cons.prems(2) ask_object_names by simp
    then show ?thesis using Cons.IH [OF l Cons.prems(2)] 1 only_names_trans by blast
  qed
qed

lemma retrieve_done_names: "only_names N (fst so) (fst (retrieve_done name xid ty r codes so))"
proof (induction codes arbitrary: so)
  case (Cons code codes)
  let ?s = "disconnect (tick_retrieve (fst so)) (fst so)"
  have "only_names N ?s (?s\<lparr>bufpos := 0, curl_done := codes\<rparr>)" "only_names N ?s (?s\<lparr>bufpos := 0\<rparr>)"
    by (simp_all add: only_names_same)
  then have "only_names N (fst so) (?s\<lparr>bufpos := 0, curl_done := codes\<rparr>)" "only_names N (fst so) (?s\<lparr>bufpos := 0\<rparr>)"
    using only_names_trans [OF disconnect_names] by blast+
  then show ?case using Cons.IH only_names_trans by (fastforce simp: Let_def)
qed (simp add: only_names_same)

lemma run_task_names:
  assumes "run_task c t r so = Inr so'" "task_name t \<in> N"
  shows "only_names N (fst so) (fst so')"
proof (cases t)
  case (List_task name xid ty)
  then show ?thesis
    using assms only_names_trans [OF curl_perform_names disconnect_names] only_names_trans [OF curl_perform_names list_done_names]
    by (auto simp: run_task_def process_list_def rbind_Inr_eq Let_def split: if_splits)
next
  case (Retrieve_task name xid ty)
  let ?s = "curl_perform c (fst so)"
  have "only_names N (fst so) (disconnect (tick_retrieve ?s) ?s)"
    "only_names N (fst so) (fst (retrieve_done name xid ty r (curl_done ?s) (?s, snd so)))"
    using only_names_trans [OF curl_perform_names disconnect_names]
      only_names_trans [OF curl_perform_names] retrieve_done_names [of N "(?s, snd so)"] unfolding fst_conv by blast+
  then show ?thesis using Retrieve_task assms(1) by (auto simp: run_task_def process_retrieve_def Let_def)
qed

lemma signal_names:
  assumes "netstore_signal curl r t so = Inr so'" "wanted (fst so) \<subseteq> N"
  shows "only_names N (fst so) (fst so')"
  using assms(1) unfolding netstore_signal_def
proof (rule foldR_invariant [where I = "\<lambda>x. only_names N (fst so) (fst x)"])
  fix x s s'
  assume x: "x \<in> set (enumerate 0 (net_ticks (fst so)))" and s: "only_names N (fst so) (fst s)"
    and f: "(case x of (i, c, task) \<Rightarrow> \<lambda>so. if c \<in> fst ` set (net_ticks (fst so)) \<and> tick_due (task_period task) 0 t
       then run_task (curl i) task r so else Inr so) s = Inr s'"
  obtain i c task where i: "x = (i, c, task)" by (cases x)
  have "(c, task) \<in> set (net_ticks (fst so))"
    using x i nth_mem [of i "net_ticks (fst so)"] by (auto simp: in_set_enumerate_eq)
  then have "task_name task \<in> N" using assms(2) by (force simp: wanted_def)
  then have "only_names N (fst s) (fst s')"
    using f run_task_names [of "curl i" task r s s' N] by (simp add: i split: if_splits)
  then show "only_names N (fst so) (fst s')" by (rule only_names_trans [OF s])
qed simp

lemma ticks_names:
  "netstore_ticks xs t so = Inr so' \<Longrightarrow> wanted (fst so) \<subseteq> N \<Longrightarrow> only_names N (fst so) (fst so')"
proof (induction xs arbitrary: t so)
  case (Cons x xs)
  obtain so1 where 1: "netstore_signal (\<lambda>_. fst x) (snd x) t so = Inr so1" "netstore_ticks xs (t + 1) so1 = Inr so'"
    using Cons.prems(1) by (auto simp: rbind_Inr_eq)
  note s = signal_names [OF 1(1) Cons.prems(2)]
  then have "wanted (fst so1) \<subseteq> N" using Cons.prems(2) by (simp add: only_names_def)
  then show ?case using Cons.IH [OF 1(2)] s only_names_trans by blast
qed simp

text \<open>C36. A second request that arrives while the list of the first is being fetched is lost: the
  member \<open>tick_list_\<close> has only the later connection, so the end of the transfer disconnects the
  callback of the second request, and that of the first goes on. Whatever happens in later ticks,
  the object of the second is never fetched.\<close>

theorem overlapping_request_is_lost:
  assumes "net_ticks s = []" "curl_done s = []" "bufpos s = 0" "plain_name a" "\<forall>l \<in> set ls. plain_name l" "a \<noteq> b"
    and "tick_due 10 0 t" "curl_ok l" "curl_codes l = [200]" "concat (curl_received l) = lines_text ls"
    and "length (lines_text ls) < BUFSIZE" "a \<in> set ls"
  shows "\<exists>s1. netstore_ticks [(l, r)] t (ask_list b xid' ty' (ask_list a xid ty s), out) = Inr (s1, out)
     \<and> net_ticks s1 = [(next_conn s, List_task a xid ty), (next_conn s + 2, Retrieve_task a xid ty)]
     \<and> (\<forall>xs s2 out2. netstore_ticks xs (t + 1) (s1, out) = Inr (s2, out2) \<longrightarrow> wanted s2 \<subseteq> {a}
          \<and> set (curl_requests s2) \<subseteq> set (curl_requests s) \<union> {''localhost:8080/list'', ''localhost:8080/retrieve/'' @ a})"
proof -
  let ?n = "next_conn s" and ?s = "ask_list b xid' ty' (ask_list a xid ty s)"
  have s: "net_ticks ?s = [(?n, List_task a xid ty), (?n + 1, List_task b xid' ty')]" "tick_list ?s = Some (?n + 1)"
    "curl_done ?s = []" "bufpos ?s = 0" "contents ?s = []" "next_conn ?s = ?n + 2"
    "curl_requests ?s = curl_requests s @ [''localhost:8080/list'', ''localhost:8080/list'']"
    using assms(1-3) by (simp_all add: ask_list_def subscribe_def send_rest_request_def contents_def)
  then have "bufpos ?s < BUFSIZE" by (simp add: BUFSIZE_def)
  from curl_perform_spec [OF this, of l] obtain m k where
    p: "curl_perform l ?s = ?s\<lparr>buf := m, bufpos := k, curl_done := curl_done ?s @ curl_codes l\<rparr>" "k < BUFSIZE"
    "contents (curl_perform l ?s) = take (BUFSIZE - 1) (contents ?s @ concat (curl_received l))" by metis
  let ?d = "?s\<lparr>buf := m, bufpos := k, curl_done := [200], net_ticks := [(?n, List_task a xid ty)]\<rparr>"
  have d: "disconnect (tick_list (curl_perform l ?s)) (curl_perform l ?s) = ?d"
    using p(1) s assms(9) by (simp add: disconnect_def)
  have "contents ?d = lines_text ls"
    using p(3) assms(10,11) unfolding p(1) by (simp add: contents_def s(4))
  then obtain m' where "check_list a ?d = Inr (a \<in> set ls, ?d\<lparr>buf := m'\<rparr>)"
    using check_list_eq [of ?d ls a] p(2) assms(4,5) by auto
  moreover define s1 where "s1 = (ask_object a xid ty (?d\<lparr>buf := m', bufpos := 0\<rparr>))\<lparr>curl_done := []\<rparr>"
  ultimately have run: "process_list l a xid ty ?s = Inr s1"
    using d assms(8,9,12) s(3) by (simp add: process_list_def Let_def p(1))
  have s1: "net_ticks s1 = [(?n, List_task a xid ty), (?n + 2, Retrieve_task a xid ty)]"
    "curl_requests s1 = curl_requests s @ [''localhost:8080/list'', ''localhost:8080/list'', ''localhost:8080/retrieve/'' @ a]"
    using s by (simp_all add: s1_def ask_object_def subscribe_def send_rest_request_def)
  have step: "netstore_ticks [(l, r)] t (?s, out) = Inr (s1, out)"
    using run assms(7) s1(1) s(1) by (simp add: netstore_signal_def run_task_def)
  have "wanted s1 \<subseteq> {a}" using s1(1) by (simp add: wanted_def)
  then have "wanted s2 \<subseteq> {a} \<and> set (curl_requests s2) \<subseteq> set (curl_requests s) \<union> {''localhost:8080/list'', ''localhost:8080/retrieve/'' @ a}"
    if "netstore_ticks xs (t + 1) (s1, out) = Inr (s2, out2)" for xs s2 out2
    using ticks_names [OF that, of "{a}"] s1(2) unfolding only_names_def by auto
  then show ?thesis using step s1(1) by blast
qed

theorem overlapping_request_is_lost_witness:
  "\<exists>s1. netstore_ticks [(\<lparr>curl_received = [''a'' @ [CHR 0x0A], ''b'' @ [CHR 0x0A]], curl_codes = [200], curl_ok = True\<rparr>, bs_online)] 10
       (trigger_app_request ''b'' (trigger_app_request ''a'' new_netstore), []) = Inr (s1, [])
     \<and> net_ticks s1 = [(0, List_task ''a'' 0 FLCDT_AGENT_CONTROL_APP), (2, Retrieve_task ''a'' 0 FLCDT_AGENT_CONTROL_APP)]"
  using overlapping_request_is_lost [of new_netstore "''a''" "[''a'', ''b'']" "''b''" 10
      "\<lparr>curl_received = [''a'' @ [CHR 0x0A], ''b'' @ [CHR 0x0A]], curl_codes = [200], curl_ok = True\<rparr>"
      bs_online 0 FLCDT_AGENT_CONTROL_APP 0 FLCDT_AGENT_CONTROL_APP "[]"]
  by (simp add: new_netstore_def plain_name_def lines_text_def BUFSIZE_def tick_due_def trigger_app_request_def numeral_2_eq_2) blast

text \<open>Stopping an application tells every connection of every base station to stop it and to delete
  its file; a reconfiguration whose policy parses goes to all of them with its parameters, and one
  that does not parse is refused with nothing sent.\<close>

theorem app_requests_reach_all:
  "trigger_app_stop name r out = out @ to_each [app_reconfiguration name ''stop'' Map.empty,
       code_message name 0 FLCDT_AGENT_CONTROL_APP None] r
   \<and> trigger_app_reconfig js name policy r out = (case js policy of
       None \<Rightarrow> Inl (Invalid_argument ''Protobuf parser error'')
     | Some sub \<Rightarrow> Inr (out @ to_each [app_reconfiguration name ''reconfig'' (sub_params sub)] r))"
proof -
  have "trigger_app_stop name r out = out @ to_each [app_reconfiguration name ''stop'' Map.empty,
       code_message name 0 FLCDT_AGENT_CONTROL_APP None] r"
    unfolding trigger_app_stop_def to_each_def
    by (rule fold_sends) (simp add: push_code_def push_app_reconfiguration_def mes.send_appends code_message_def)
  moreover have "fold (\<lambda>b. push_app_reconfiguration b name ''reconfig'' ps r) (get_available_base_stations r) out
      = out @ to_each [app_reconfiguration name ''reconfig'' ps] r" for ps
    unfolding to_each_def by (rule fold_sends) (simp add: push_app_reconfiguration_def mes.send_appends)
  ultimately show ?thesis
    by (simp add: trigger_app_reconfig_def parsed_def parser_error_def refuse_def split: option.splits)
qed

end
