(* ===== verification/Northbound.thy ===== *)
theory Northbound
  imports Task_Manager Plmn_Management Recorder Netstore_Loader
begin

text \<open>
  The handlers of the REST interface, \<open>src/src/north_api/*_calls.cc\<close>. A handler gets the
  parameters of the route (\<open>None\<close> when an optional one is absent) and the body, calls an
  application and sends a response; the model returns the list of the responses that it sends. An
  exception that a handler does not catch is \<open>Inl\<close>; Pistache answers it. Pistache itself and the
  conversion of parameters to integers and booleans are parameters.
\<close>

section \<open>Responses\<close>

datatype http_code = Http_Ok | Http_Bad_Request | Http_Not_Found | Http_Conflict

record response =
  rsp_code :: http_code
  rsp_body :: string
  rsp_length :: "nat option"

definition respond :: "http_code \<Rightarrow> string \<Rightarrow> response" where
  "respond c body = \<lparr>rsp_code = c, rsp_body = body, rsp_length = None\<rparr>"

definition newline :: string where
  "newline = [CHR 0x0A]"

definition error_json :: "string \<Rightarrow> string" where
  "error_json e = ''{ '' @ quoted ''error'' @ '': '' @ quoted e @ '' }''"

definition empty_body :: response where
  "empty_body = respond Http_Bad_Request (error_json ''empty request body'' @ newline)"

definition invalid_json :: "string \<Rightarrow> string" where
  "invalid_json e = ''{ '' @ quoted ''error:'' @ '': '' @ quoted e @ ''}'' @ newline"

definition status_ok :: response where
  "status_ok = respond Http_Ok (''{ '' @ quoted ''status'' @ '': '' @ quoted ''Ok'' @ '' }'' @ newline)"

type_synonym 's reply = "(response list \<times> 's) result"

text \<open>The \<open>try\<close> block of a handler: only \<open>std::invalid_argument\<close> is caught.\<close>

definition catch_invalid :: "'s \<Rightarrow> response \<Rightarrow> 's result \<Rightarrow> 's reply" where
  "catch_invalid s ok m = (case m of
     Inr s' \<Rightarrow> Inr ([ok], s')
   | Inl (Invalid_argument e) \<Rightarrow> Inr ([respond Http_Bad_Request (invalid_json e)], s)
   | Inl e \<Rightarrow> Inl e)"

text \<open>A call that returns \<open>false\<close> and a reason.\<close>

definition answer_checked :: "'s \<Rightarrow> (string \<Rightarrow> string) \<Rightarrow> 's checked \<Rightarrow> 's reply" where
  "answer_checked s text m = rbind m (\<lambda>x. case x of
     Inl e \<Rightarrow> Inr ([respond Http_Bad_Request (text e)], s)
   | Inr s' \<Rightarrow> Inr ([respond Http_Ok []], s'))"

section \<open>Slices and cells (rrm_calls.cc)\<close>

definition policy_call :: "(string \<Rightarrow> string \<Rightarrow> 's \<Rightarrow> 's result) \<Rightarrow> string option \<Rightarrow> string \<Rightarrow> 's \<Rightarrow> 's reply" where
  "policy_call f bs policy s = (if policy = [] then Inr ([empty_body], s)
     else catch_invalid s status_ok (f (get_or ''-1'' bs) policy s))"

definition apply_slice_config_call :: "json \<Rightarrow> string option \<Rightarrow> string \<Rightarrow> rib \<Rightarrow> outbox \<Rightarrow> outbox reply" where
  "apply_slice_config_call js bs policy r = policy_call (\<lambda>bs p. apply_slice_config_policy js bs p r) bs policy"

definition remove_slice_config :: "json \<Rightarrow> string option \<Rightarrow> string \<Rightarrow> rib \<Rightarrow> outbox \<Rightarrow> outbox reply" where
  "remove_slice_config js bs policy r = policy_call (\<lambda>bs p. remove_slice js bs p r) bs policy"

definition change_ue_slice_assoc :: "json \<Rightarrow> string option \<Rightarrow> string \<Rightarrow> rib \<Rightarrow> outbox \<Rightarrow> outbox reply" where
  "change_ue_slice_assoc js bs policy r = policy_call (\<lambda>bs p. change_ue_slice_association js bs p r) bs policy"

text \<open>The base station of a call that resolves it before it looks at the body.\<close>

definition target_bs :: "string option \<Rightarrow> rib \<Rightarrow> u64 result" where
  "target_bs bs r = (case bs of None \<Rightarrow> Inr (get_last_bs r) | Some b \<Rightarrow> parse_enb_agent_id b r)"

definition yaml_compat :: "string option \<Rightarrow> string \<Rightarrow> rib \<Rightarrow> outbox \<Rightarrow> outbox reply" where
  "yaml_compat bs body r out = rbind (target_bs bs r) (\<lambda>b.
     if b = 0 then Inr ([respond Http_Not_Found (''Policy not set (no such BS)'' @ newline)], out)
     else if body = [] then Inr ([respond Http_Not_Found (''Policy not set (body is empty)'' @ newline)], out)
     else Inr ([respond Http_Ok (''Set the policy to BS '' @ u64_to_string b @ newline)], reconfigure_agent_string b body r out))"

definition cell_reconfiguration_call :: "json \<Rightarrow> string option \<Rightarrow> string \<Rightarrow> rib \<Rightarrow> outbox \<Rightarrow> outbox reply" where
  "cell_reconfiguration_call js bs policy r out = rbind (target_bs bs r) (\<lambda>b.
     if b = 0 then Inr ([respond Http_Bad_Request (error_json ''can not find BS'')], out)
     else if policy = [] then Inr ([respond Http_Bad_Request (error_json ''empty request body'')], out)
     else answer_checked out error_json (Inr (apply_cell_config_policy js b policy r out)))"

text \<open>
  The slice becomes a signed integer, and the handler does not return after the response for an
  unknown direction.
\<close>

definition auto_ue_slice_assoc ::
  "'r regex \<Rightarrow> (string \<Rightarrow> u32 result) \<Rightarrow> string option \<Rightarrow> string \<Rightarrow> string option \<Rightarrow> string \<Rightarrow> rib \<Rightarrow>
   'r rrm \<times> outbox \<Rightarrow> ('r rrm \<times> outbox) reply" where
  "auto_ue_slice_assoc rx as_u32 bs slice_par dir policy r st = rbind (as_u32 slice_par) (\<lambda>sid.
     let dir = get_or ''both'' dir;
         dl = (if dir = ''both'' \<or> dir = ''dl'' then sint sid else - 1);
         ul = (if dir = ''both'' \<or> dir = ''ul'' then sint sid else - 1);
         first = (if dir \<in> {''both'', ''dl'', ''ul''} then []
                  else [respond Http_Bad_Request (error_json (''unrecognized direction '' @ [CHR 0x27] @ dir @ [CHR 0x27]))])
     in rbind (if policy = [] then Inr ([respond Http_Bad_Request (error_json ''empty request body'')], st)
               else catch_invalid st status_ok (auto_ue_slice_association rx (get_or ''-1'' bs) policy dl ul r st))
          (\<lambda>(rs, st). Inr (first @ rs, st)))"

section \<open>MMEs and PLMNs (plmn_calls.cc)\<close>

definition add_mme_call :: "json \<Rightarrow> string option \<Rightarrow> string \<Rightarrow> rib \<Rightarrow> outbox \<Rightarrow> outbox reply" where
  "add_mme_call js bs policy r = policy_call (\<lambda>bs p. add_mme js bs p r) bs policy"

definition remove_mme_call :: "json \<Rightarrow> string option \<Rightarrow> string \<Rightarrow> rib \<Rightarrow> outbox \<Rightarrow> outbox reply" where
  "remove_mme_call js bs policy r = policy_call (\<lambda>bs p. remove_mme js bs p r) bs policy"

definition change_plmn_call :: "json \<Rightarrow> string option \<Rightarrow> string \<Rightarrow> rib \<Rightarrow> outbox \<Rightarrow> outbox reply" where
  "change_plmn_call js bs policy r = policy_call (\<lambda>bs p. change_plmn js bs p r) bs policy"

section \<open>Mobility (rrc_triggering_calls.cc)\<close>

definition error_line :: "string \<Rightarrow> string" where
  "error_line e = error_json e @ newline"

definition rrc_reconf_call :: "json \<Rightarrow> string option \<Rightarrow> string \<Rightarrow> rib \<Rightarrow> outbox \<Rightarrow> outbox reply" where
  "rrc_reconf_call js bs policy r out = (if policy = [] then Inr ([empty_body], out)
     else answer_checked out error_line (rrc_reconf js (get_or [] bs) policy r out))"

definition rrc_ho_call :: "string \<Rightarrow> string \<Rightarrow> string \<Rightarrow> rib \<Rightarrow> outbox \<Rightarrow> outbox reply" where
  "rrc_ho_call senb ue tenb r out = answer_checked out error_line (rrc_ho senb ue tenb r out)"

definition rrc_x2_ho_net_control_call :: "(string \<Rightarrow> bool result) \<Rightarrow> string \<Rightarrow> string \<Rightarrow> rib \<Rightarrow> outbox \<Rightarrow> outbox reply" where
  "rrc_x2_ho_net_control_call as_bool enb on r out = rbind (as_bool on) (\<lambda>on.
     answer_checked out error_line (rrc_x2_ho_net_control enb on r out))"

section \<open>Statistics (stats_manager_calls.cc)\<close>

definition obtain_stats :: "protobuf \<Rightarrow> string option \<Rightarrow> rib \<Rightarrow> response list" where
  "obtain_stats pb ty r = (let ty = get_or ''all'' ty in
     if ty = ''all'' then [respond Http_Ok (all_stats_to_string pb r)]
     else if ty = ''enb_config'' then [respond Http_Ok (all_enb_configs_to_string pb r)]
     else if ty = ''mac_stats'' then [respond Http_Ok (all_mac_configs_to_string pb r)]
     else [respond Http_Bad_Request (''invalid statistics type'' @ newline)])"

definition obtain_json_stats :: "protobuf \<Rightarrow> string \<Rightarrow> string option \<Rightarrow> rib \<Rightarrow> response list" where
  "obtain_json_stats pb date_time ty r = (let ty = get_or ''all'' ty in
     if ty = ''all'' then [respond Http_Ok (all_stats_to_json pb date_time r)]
     else if ty = ''enb_config'' then [respond Http_Ok (all_enb_configs_to_json pb date_time r)]
     else if ty = ''mac_stats'' then [respond Http_Ok (all_mac_configs_to_json pb date_time r)]
     else [respond Http_Bad_Request (''{ '' @ quoted ''error'' @ '': '' @ quoted ''invalid statistics type'' @ ''}'')])"

text \<open>Whether the applications find the base station is not looked at here.\<close>

definition obtain_json_stats_enb :: "protobuf \<Rightarrow> string \<Rightarrow> string \<Rightarrow> string option \<Rightarrow> rib \<Rightarrow> response list result" where
  "obtain_json_stats_enb pb date_time bs ty r = rbind (parse_enb_agent_id bs r) (\<lambda>b.
     if b = 0 then Inr [respond Http_Bad_Request (error_json ''can not find agent'')]
     else (let ty = get_or ''all'' ty in
       if ty = ''all'' then Inr [respond Http_Ok (snd (stats_by_bs_id_to_json pb date_time b r))]
       else if ty = ''enb_config'' then Inr [respond Http_Ok (snd (enb_configs_by_bs_id_to_json pb date_time b r))]
       else if ty = ''mac_stats'' then Inr [respond Http_Ok (snd (mac_configs_by_bs_id_to_json pb date_time b r))]
       else Inr [respond Http_Bad_Request (error_json ''invalid statistics type'')]))"

definition obtain_json_stats_ue :: "protobuf \<Rightarrow> string option \<Rightarrow> string \<Rightarrow> rib \<Rightarrow> response list result" where
  "obtain_json_stats_ue pb bs ue r =
     (let invalid = [respond Http_Bad_Request (error_json ''invalid UE ID'')];
          stats = (\<lambda>b rnti. [respond Http_Ok (get_or [] (dump_ue_by_rnti_by_bs_id pb rnti b r))]) in
      case bs of
        Some bs \<Rightarrow> rbind (parse_enb_agent_id bs r) (\<lambda>b.
          if b = 0 then Inr [respond Http_Bad_Request (error_json ''can not find BS'')]
          else rbind (parse_rnti_imsi_at b ue r) (\<lambda>found. Inr (case found of None \<Rightarrow> invalid | Some rnti \<Rightarrow> stats b rnti)))
      | None \<Rightarrow> rbind (parse_rnti_imsi_find_bs ue r) (\<lambda>found.
          Inr (case found of None \<Rightarrow> invalid | Some (b, rnti) \<Rightarrow> stats b rnti)))"

definition get_stats_req ::
  "(stats_requests \<Rightarrow> string option) \<Rightarrow> string option \<Rightarrow> rib \<Rightarrow> (u64, stats_requests) std_map \<Rightarrow> response list result" where
  "get_stats_req print bs r lst = rbind (get_stats_requests print (get_or ''-1'' bs) r lst) (\<lambda>x. Inr (case x of
     Inl e \<Rightarrow> [respond Http_Bad_Request (error_json e)]
   | Inr body \<Rightarrow> [respond Http_Ok body]))"

definition set_stats_req :: "json \<Rightarrow> string option \<Rightarrow> string \<Rightarrow> rib \<Rightarrow> stats \<Rightarrow> stats reply" where
  "set_stats_req js bs policy r st = (if policy = [] then Inr ([empty_body], st)
     else answer_checked st error_line (set_stats_requests js (get_or ''-1'' bs) policy r st))"

section \<open>Recorder (recorder_calls.cc)\<close>

text \<open>The response to a new job carries an explicit length, that of the id alone.\<close>

definition start_meas_call ::
  "(string \<Rightarrow> u32 result) \<Rightarrow> (string \<Rightarrow> bool) \<Rightarrow> nat \<Rightarrow> u64 \<Rightarrow> rib \<Rightarrow> string option \<Rightarrow> string option \<Rightarrow> recorder \<Rightarrow>
   response list result \<times> recorder" where
  "start_meas_call as_u32 can_open room tick0 r ty duration s =
     (case (case duration of None \<Rightarrow> Inr 1000 | Some d \<Rightarrow> as_u32 d) of
        Inl e \<Rightarrow> (Inl e, s)
      | Inr d \<Rightarrow> (case start_meas can_open room tick0 r (ucast d) (get_or ''all'' ty) s of
            (Inl e, s') \<Rightarrow> (Inl e, s')
          | (Inr None, s') \<Rightarrow> (Inr [respond Http_Conflict
              (''{'' @ quoted ''error'' @ '':'' @ quoted ''Can not handle request at the moment'' @ ''}'')], s')
          | (Inr (Some i), s') \<Rightarrow> (Inr [(respond Http_Ok (''{'' @ quoted ''id'' @ '':'' @ i @ ''}''))\<lparr>rsp_length := Some (length i)\<rparr>], s')))"

primrec file_text :: "content \<Rightarrow> string" where
  "file_text (Text t) = t"
| "file_text (Binary bs) = map (\<lambda>b. char_of (unat b)) bs"

definition obtain_recording :: "string \<Rightarrow> recorder \<Rightarrow> response list" where
  "obtain_recording i s = (case get_job_info i s of
     None \<Rightarrow> [respond Http_Bad_Request (''{'' @ quoted ''error'' @ '':'' @ quoted ''Invalid ID (no such job)'' @ ''}'')]
   | Some j \<Rightarrow> (case files s (filename j) of
       None \<Rightarrow> [respond Http_Bad_Request
         (''{'' @ quoted ''error'' @ '':'' @ quoted (''Corresponding file '' @ filename j @ '' could not be opened'') @ ''}'')]
     | Some c \<Rightarrow> [(respond Http_Ok (file_text c))\<lparr>rsp_length := Some (length (file_text c))\<rparr>]))"

section \<open>Netstore (netstore_loader_calls.cc)\<close>

definition app_name :: "string \<Rightarrow> string" where
  "app_name i = CHR 0x27 # i @ CHR 0x27 # newline"

definition app_dl_trigger :: "string \<Rightarrow> netstore \<Rightarrow> response list \<times> netstore" where
  "app_dl_trigger i s = ([respond Http_Ok (''requested '' @ app_name i)], trigger_app_request i s)"

definition app_rm_trigger :: "string \<Rightarrow> rib \<Rightarrow> outbox \<Rightarrow> response list \<times> outbox" where
  "app_rm_trigger i r out = ([respond Http_Ok (''requested removal of app '' @ app_name i)], trigger_app_stop i r out)"

definition app_conf_trigger ::
  "(string \<Rightarrow> flex_agent_reconfiguration_subsystem option) \<Rightarrow> string \<Rightarrow> string \<Rightarrow> rib \<Rightarrow> outbox \<Rightarrow> outbox reply" where
  "app_conf_trigger js i policy r out = catch_invalid out (respond Http_Ok (''requested reconfiguration of app '' @ app_name i))
     (trigger_app_reconfig js i policy r out)"

section \<open>The list of the calls (call_manager.cc)\<close>

definition list_api :: "string \<Rightarrow> string \<Rightarrow> (string \<times> (string \<times> string) list) list \<Rightarrow> response list" where
  "list_api title version paths =
     (let method = (\<lambda>(m, d). quoted m @ '':'' @ ''{'' @ quoted ''description'' @ '':'' @ quoted d @ ''}'');
          path = (\<lambda>(p, ms). quoted p @ '':{'' @ comma_separated (map method ms) @ ''}'') in
      [respond Http_Ok (''{'' @ quoted ''info'' @ '':{'' @ quoted ''title'' @ '':'' @ quoted title @ '','' @ quoted ''version''
         @ '':'' @ quoted version @ ''},'' @ quoted ''paths'' @ '':{'' @ comma_separated (map path paths) @ ''}}'' @ newline)])"

section \<open>The server\<close>

text \<open>The applications behind the interface, and one request for each route that is registered.\<close>

record 'r server =
  srv_sys :: "'r system"
  srv_rec :: recorder
  srv_net :: netstore

datatype rest_request =
    Post_slice "string option" string
  | Delete_slice "string option" string
  | Post_ue_slice "string option" string
  | Post_auto_slice "string option" string "string option" string
  | Post_conf "string option" string
  | Post_yaml "string option" string
  | Post_mme "string option" string
  | Delete_mme "string option" string
  | Post_plmn "string option" string
  | Post_rrc_reconf "string option" string
  | Post_ho string string string
  | Post_x2 string string
  | Get_stats_text "string option"
  | Get_stats "string option"
  | Get_stats_enb string "string option"
  | Get_stats_ue "string option" string
  | Get_stats_conf "string option"
  | Post_stats_conf "string option" string
  | Post_record "string option" "string option"
  | Get_record string
  | Get_app string
  | Delete_app string
  | Post_app string string
  | Get_capabilities

text \<open>What a call depends on: libraries, the file system, the clock, the registered routes.\<close>

record 'r rest_env =
  env_pb :: protobuf
  env_js :: json
  env_sub :: "string \<Rightarrow> flex_agent_reconfiguration_subsystem option"
  env_rx :: "'r regex"
  env_u32 :: "string \<Rightarrow> u32 result"
  env_bool :: "string \<Rightarrow> bool result"
  env_print :: "stats_requests \<Rightarrow> string option"
  env_open :: "string \<Rightarrow> bool"
  env_room :: nat
  env_now :: string
  env_title :: string
  env_version :: string
  env_paths :: "(string \<times> (string \<times> string) list) list"

type_synonym 'r outcome = "response list result \<times> 'r server"

definition on_result :: "'r server \<Rightarrow> ('s \<Rightarrow> 'r server) \<Rightarrow> 's reply \<Rightarrow> 'r outcome" where
  "on_result s put m = (case m of Inl e \<Rightarrow> (Inl e, s) | Inr (rs, x) \<Rightarrow> (Inr rs, put x))"

definition srv_rib :: "'r server \<Rightarrow> rib" where
  "srv_rib s = ctl_rib (sys_ctl (srv_sys s))"

definition srv_out :: "'r server \<Rightarrow> outbox" where
  "srv_out s = ctl_sent (sys_ctl (srv_sys s))"

definition set_out :: "outbox \<Rightarrow> 'r server \<Rightarrow> 'r server" where
  "set_out out s = s\<lparr>srv_sys := set_sent out (srv_sys s)\<rparr>"

definition on_outbox :: "'r server \<Rightarrow> (rib \<Rightarrow> outbox \<Rightarrow> outbox reply) \<Rightarrow> 'r outcome" where
  "on_outbox s f = on_result s (\<lambda>out. set_out out s) (f (srv_rib s) (srv_out s))"

definition serve :: "'r rest_env \<Rightarrow> rest_request \<Rightarrow> 'r server \<Rightarrow> 'r outcome" where
  "serve env rq s = (let r = srv_rib s; sys = srv_sys s in (case rq of
     Post_slice bs p \<Rightarrow> on_outbox s (apply_slice_config_call (env_js env) bs p)
   | Delete_slice bs p \<Rightarrow> on_outbox s (remove_slice_config (env_js env) bs p)
   | Post_ue_slice bs p \<Rightarrow> on_outbox s (change_ue_slice_assoc (env_js env) bs p)
   | Post_auto_slice bs sl dir p \<Rightarrow> on_result s (\<lambda>(rrm, out). set_out out (s\<lparr>srv_sys := sys\<lparr>sys_rrm := rrm\<rparr>\<rparr>))
       (auto_ue_slice_assoc (env_rx env) (env_u32 env) bs sl dir p r (sys_rrm sys, srv_out s))
   | Post_conf bs p \<Rightarrow> on_outbox s (cell_reconfiguration_call (env_js env) bs p)
   | Post_yaml bs p \<Rightarrow> on_outbox s (yaml_compat bs p)
   | Post_mme bs p \<Rightarrow> on_outbox s (add_mme_call (env_js env) bs p)
   | Delete_mme bs p \<Rightarrow> on_outbox s (remove_mme_call (env_js env) bs p)
   | Post_plmn bs p \<Rightarrow> on_outbox s (change_plmn_call (env_js env) bs p)
   | Post_rrc_reconf bs p \<Rightarrow> on_outbox s (rrc_reconf_call (env_js env) bs p)
   | Post_ho senb ue tenb \<Rightarrow> on_outbox s (rrc_ho_call senb ue tenb)
   | Post_x2 enb on \<Rightarrow> on_outbox s (rrc_x2_ho_net_control_call (env_bool env) enb on)
   | Get_stats_text ty \<Rightarrow> (Inr (obtain_stats (env_pb env) ty r), s)
   | Get_stats ty \<Rightarrow> (Inr (obtain_json_stats (env_pb env) (env_now env) ty r), s)
   | Get_stats_enb bs ty \<Rightarrow> (obtain_json_stats_enb (env_pb env) (env_now env) bs ty r, s)
   | Get_stats_ue bs ue \<Rightarrow> (obtain_json_stats_ue (env_pb env) bs ue r, s)
   | Get_stats_conf bs \<Rightarrow> (get_stats_req (env_print env) bs r (sys_stats sys), s)
   | Post_stats_conf bs p \<Rightarrow> on_result s (\<lambda>(lst, out). set_out out (s\<lparr>srv_sys := sys\<lparr>sys_stats := lst\<rparr>\<rparr>))
       (set_stats_req (env_js env) bs p r (sys_stats sys, srv_out s))
   | Post_record ty d \<Rightarrow> (case start_meas_call (env_u32 env) (env_open env) (env_room env) (sys_last_tick sys) r ty d (srv_rec s) of
       (rs, rec) \<Rightarrow> (rs, s\<lparr>srv_rec := rec\<rparr>))
   | Get_record i \<Rightarrow> (Inr (obtain_recording i (srv_rec s)), s)
   | Get_app i \<Rightarrow> (case app_dl_trigger i (srv_net s) of (rs, net) \<Rightarrow> (Inr rs, s\<lparr>srv_net := net\<rparr>))
   | Delete_app i \<Rightarrow> (case app_rm_trigger i r (srv_out s) of (rs, out) \<Rightarrow> (Inr rs, set_out out s))
   | Post_app i p \<Rightarrow> on_outbox s (app_conf_trigger (env_sub env) i p)
   | Get_capabilities \<Rightarrow> (Inr (list_api (env_title env) (env_version env) (env_paths env)), s)))"

section \<open>Refused requests\<close>

text \<open>A reply keeps the rule if it has one response and leaves the state alone unless that is \<open>Ok\<close>.\<close>

definition accepted :: "response list \<Rightarrow> bool" where
  "accepted rs \<longleftrightarrow> list_all (\<lambda>x. rsp_code x = Http_Ok) rs"

definition one_reply :: "'s \<Rightarrow> 's reply \<Rightarrow> bool" where
  "one_reply s m \<longleftrightarrow> (\<forall>rs s'. m = Inr (rs, s') \<longrightarrow> (\<exists>x. rs = [x]) \<and> (accepted rs \<or> s' = s))"

lemma one_reply_Inl [simp]: "one_reply s (Inl e)"
  by (simp add: one_reply_def)

lemma one_reply_refused [simp]: "one_reply s (Inr ([respond c body], s))"
  by (simp add: one_reply_def)

lemma one_reply_ok [simp]: "one_reply s (Inr ([respond Http_Ok body], s'))"
  by (simp add: one_reply_def accepted_def respond_def)

lemma one_reply_rbind [intro]: "(\<And>x. m = Inr x \<Longrightarrow> one_reply s (f x)) \<Longrightarrow> one_reply s (rbind m f)"
  by (cases m) simp_all

lemma one_reply_catch: "one_reply s (catch_invalid s (respond Http_Ok body) m)"
  by (simp add: catch_invalid_def split: sum.splits exn.splits)

lemma one_reply_checked [simp]: "one_reply s (answer_checked s text m)"
  unfolding answer_checked_def by (rule one_reply_rbind) (simp split: sum.splits)

lemma one_reply_policy [simp]: "one_reply s (policy_call f bs p s)"
  by (simp add: policy_call_def empty_body_def one_reply_catch status_ok_def)

lemma one_reply_calls:
  "one_reply out (apply_slice_config_call js bs p r out)" "one_reply out (remove_slice_config js bs p r out)"
  "one_reply out (change_ue_slice_assoc js bs p r out)" "one_reply out (add_mme_call js bs p r out)"
  "one_reply out (remove_mme_call js bs p r out)" "one_reply out (change_plmn_call js bs p r out)"
  "one_reply out (rrc_reconf_call js bs p r out)" "one_reply out (rrc_ho_call a b c r out)"
  "one_reply out (rrc_x2_ho_net_control_call as_bool a b r out)" "one_reply st (set_stats_req js bs p r st)"
  "one_reply out (yaml_compat bs p r out)" "one_reply out (cell_reconfiguration_call js bs p r out)"
  "one_reply out (app_conf_trigger sub i p r out)"
  by (auto simp: apply_slice_config_call_def remove_slice_config_def change_ue_slice_assoc_def add_mme_call_def
    remove_mme_call_def change_plmn_call_def rrc_reconf_call_def rrc_ho_call_def rrc_x2_ho_net_control_call_def
    set_stats_req_def yaml_compat_def cell_reconfiguration_call_def app_conf_trigger_def empty_body_def one_reply_catch)

lemma set_out_same [simp]: "set_out (srv_out s) s = s"
  by (simp add: set_out_def srv_out_def set_sent_def)

lemma on_result_rule:
  assumes "one_reply x m" "put x = s" "on_result s put m = (Inr rs, s')"
  shows "length rs = 1 \<and> (accepted rs \<or> s' = s)"
  using assms by (auto simp: on_result_def one_reply_def split: sum.splits)

lemma on_outbox_rule:
  assumes "\<And>r out. one_reply out (f r out)" "on_outbox s f = (Inr rs, s')"
  shows "length rs = 1 \<and> (accepted rs \<or> s' = s)"
  by (rule on_result_rule [OF assms(1) _ assms(2) [unfolded on_outbox_def]]) simp

lemmas outbox_rules = on_outbox_rule [OF one_reply_calls(1)] on_outbox_rule [OF one_reply_calls(2)]
  on_outbox_rule [OF one_reply_calls(3)] on_outbox_rule [OF one_reply_calls(4)] on_outbox_rule [OF one_reply_calls(5)]
  on_outbox_rule [OF one_reply_calls(6)] on_outbox_rule [OF one_reply_calls(7)] on_outbox_rule [OF one_reply_calls(8)]
  on_outbox_rule [OF one_reply_calls(9)] on_outbox_rule [OF one_reply_calls(11)] on_outbox_rule [OF one_reply_calls(12)]
  on_outbox_rule [OF one_reply_calls(13)]

lemma one_response:
  "length (obtain_stats pb ty r) = 1" "length (obtain_json_stats pb now ty r) = 1" "length (obtain_recording i rec) = 1"
  "obtain_json_stats_enb pb now bs ty r = Inr rs \<Longrightarrow> length rs = 1"
  "obtain_json_stats_ue pb ob ue r = Inr rs \<Longrightarrow> length rs = 1"
  "get_stats_req print ob r lst = Inr rs \<Longrightarrow> length rs = 1"
  by (auto simp: obtain_stats_def obtain_json_stats_def obtain_recording_def obtain_json_stats_enb_def obtain_json_stats_ue_def
    get_stats_req_def rbind_def Let_def split: if_splits option.splits sum.splits)

lemma start_meas_call_rule:
  "start_meas_call u opn room t r ty d rec = (Inr rs, rec') \<Longrightarrow> length rs = 1 \<and> (accepted rs \<or> rec' = rec)"
  "start_meas_call u opn room t r ty d rec = (Inl e, rec') \<Longrightarrow> e = Bad_alloc \<or> rec' = rec"
  by (auto simp: start_meas_call_def start_meas_def accepted_def respond_def Let_def
    split: option.splits sum.splits if_splits)

definition known_direction :: "rest_request \<Rightarrow> bool" where
  "known_direction rq = (case rq of Post_auto_slice _ _ (Some d) _ \<Rightarrow> d \<in> {''both'', ''dl'', ''ul''} | _ \<Rightarrow> True)"

lemma auto_one_reply:
  assumes "case dir of None \<Rightarrow> True | Some d \<Rightarrow> d \<in> {''both'', ''dl'', ''ul''}"
  shows "one_reply st (auto_ue_slice_assoc rx u bs sl dir p r st)"
proof -
  have "get_or ''both'' dir \<in> {''both'', ''dl'', ''ul''}" using assms by (auto simp: get_or_def split: option.splits)
  then have nil: "(if get_or ''both'' dir \<in> {''both'', ''dl'', ''ul''} then [] else xs) = []" for xs :: "response list"
    by (rule if_P)
  have same: "rbind m (\<lambda>(rs, st). Inr ([] @ rs, st)) = m" for m :: "('a rrm \<times> outbox) reply"
    by (cases m) auto
  show ?thesis
    unfolding auto_ue_slice_assoc_def Let_def nil same
    by (rule one_reply_rbind) (simp add: status_ok_def one_reply_catch)
qed

section \<open>Properties\<close>


text \<open>For the examples: a server with one base station, and an environment.\<close>

definition example_server :: "string server" where
  "example_server = \<lparr>srv_sys = (new_system \<lparr>dl_ue_slice = [], ul_ue_slice = []\<rparr>)\<lparr>sys_ctl := new_controller\<lparr>ctl_rib := slice_rib\<rparr>\<rparr>,
     srv_rec = new_recorder, srv_net = new_netstore\<rparr>"

definition example_env :: "string rest_env" where
  "example_env = \<lparr>env_pb = plain_pb, env_js = no_json, env_sub = (\<lambda>_. None), env_rx = \<lparr>rx_compile = Some, rx_search = (=)\<rparr>,
     env_u32 = (\<lambda>s. if s = ''3'' then Inr 3 else Inl (Runtime_error ''Bad lexical cast'')), env_bool = (\<lambda>_. Inr True),
     env_print = (\<lambda>_. None), env_open = (\<lambda>_. True), env_room = 100000, env_now = [], env_title = [], env_version = [], env_paths = []\<rparr>"


text \<open>An automatic association with an unknown direction is answered twice: after the refusal the
  handler goes on. When the base station is found and the patterns parse, the second response
  is \<open>Ok\<close>, the associations stay as they are, and a configuration without any slice goes out
  for each user that matches.\<close>

theorem unknown_direction_answered_twice:
  assumes "u sl = Inr v" "d \<notin> {''both'', ''dl'', ''ul''}"
    and "auto_ue_slice_assoc rx u bs sl (Some d) p r (st, out) = Inr (rs, st', out')"
  shows "length rs = 2 \<and> rsp_code (rs ! 0) = Http_Bad_Request \<and> st' = st
     \<and> (if rsp_code (rs ! 1) = Http_Ok
        then \<exists>b e regs cs. parse_bs_id (get_or ''-1'' bs) r = Inr b \<and> get_bs b r = Some e \<and> parse_imsi_reg rx p = Inr (Inr regs)
          \<and> cs = concat (map (matching_users rx (- 1) (- 1) (ue_config (ue_configs e))) regs)
          \<and> out' = (if cs = [] then out else out @ map (\<lambda>i. (i, ue_reconfiguration (empty_ue_config_reply\<lparr>ue_config := cs\<rparr>))) (bs_members b r))
        else out' = out)"
proof -
  let ?first = "respond Http_Bad_Request (error_json (''unrecognized direction '' @ [CHR 0x27] @ d @ [CHR 0x27]))"
  let ?m = "if p = [] then Inr ([respond Http_Bad_Request (error_json ''empty request body'')], (st, out))
     else catch_invalid (st, out) status_ok (auto_ue_slice_association rx (get_or ''-1'' bs) p (- 1) (- 1) r (st, out))"
  have d: "get_or ''both'' (Some d) = d" "(d = ''both'' \<or> d = ''dl'') = False" "(d = ''both'' \<or> d = ''ul'') = False"
    "(d \<in> {''both'', ''dl'', ''ul''}) = False"
    using assms(2) by (simp_all add: get_or_def)
  obtain rs2 where rs: "rs = ?first # rs2" "?m = Inr (rs2, st', out')"
    using assms(1,3) unfolding auto_ue_slice_assoc_def Let_def d if_False by (auto simp: rbind_Inr_eq)
  show ?thesis
  proof (cases "\<exists>so. p \<noteq> [] \<and> auto_ue_slice_association rx (get_or ''-1'' bs) p (- 1) (- 1) r (st, out) = Inr so")
    case False
    then have "(\<exists>c body. rs2 = [respond c body] \<and> c \<noteq> Http_Ok) \<and> st' = st \<and> out' = out"
      using rs(2) by (auto simp: catch_invalid_def split: if_splits sum.splits exn.splits)
    then show ?thesis using rs(1) by (auto simp: respond_def)
  next
    case True
    then have a: "auto_ue_slice_association rx (get_or ''-1'' bs) p (- 1) (- 1) r (st, out) = Inr (st', out')" "rs2 = [status_ok]"
      using rs(2) by (auto simp: catch_invalid_def)
    then obtain b where b: "parse_bs_id (get_or ''-1'' bs) r = Inr b" "b \<noteq> 0"
      by (auto simp: auto_ue_slice_association_def with_target_def bs_missing_def refuse_def rbind_Inr_eq split: if_splits)
    then obtain e where e: "get_bs b r = Some e" using bs_name.resolved [OF _ b] by auto
    obtain regs where regs: "parse_imsi_reg rx p = Inr (Inr regs)"
      using a(1) b by (cases "parse_imsi_reg rx p"; cases "projr (parse_imsi_reg rx p)")
        (simp_all add: auto_ue_slice_association_def with_target_def check_slice_arg_def refuse_def)
    have "(st', out') = (st, if concat (map (matching_users rx (- 1) (- 1) (ue_config (ue_configs e))) regs) = [] then out
       else push_ue_config_reconfiguration b (empty_ue_config_reply\<lparr>ue_config :=
         concat (map (matching_users rx (- 1) (- 1) (ue_config (ue_configs e))) regs)\<rparr>) r out)"
      using a(1) b e regs
      by (auto simp: auto_ue_slice_association_def with_target_def check_slice_arg_def set_assoc_def deref_bs_def Let_def
          split: if_splits)
    then show ?thesis
      using rs(1) a(2) b e regs by (auto simp: respond_def status_ok_def push_ue_config_reconfiguration_def mes.send_appends)
  qed
qed

theorem unknown_direction_answered_twice_witness:
  "\<exists>rs. auto_ue_slice_assoc \<lparr>rx_compile = Some, rx_search = (\<lambda>_ _. True)\<rparr> (\<lambda>_. Inr 3) (Some (nat_to_string 7)) ''3'' (Some ''up'')
       ''[208]'' slice_rib
       (\<lparr>dl_ue_slice = [], ul_ue_slice = []\<rparr>, []) = Inr (rs, \<lparr>dl_ue_slice = [], ul_ue_slice = []\<rparr>,
         map (\<lambda>i. (i, ue_reconfiguration (empty_ue_config_reply\<lparr>ue_config := [empty_ue_config\<lparr>ue_rnti := Some 70\<rparr>]\<rparr>))) [1, 2])
     \<and> length rs = 2"
proof -
  let ?rx = "\<lparr>rx_compile = Some, rx_search = (\<lambda>_ _. True)\<rparr> :: string regex"
  have tok: "split_tokens ''208'' [] = Inr (Inr [''208''])"
    by (subst split_tokens.simps) (simp add: begin_end_space_def is_space_def is_quote_def is_alpha_def)
  have regs: "parse_imsi_reg ?rx ''[208]'' = Inr (Inr [''208''])"
    by (simp add: parse_imsi_reg_def split_list_def begin_end_space_def is_space_def tok)
  let ?st = "\<lparr>dl_ue_slice = [], ul_ue_slice = []\<rparr> :: string rrm"
  let ?cs = "[empty_ue_config\<lparr>ue_rnti := Some 70\<rparr>]"
  have cs: "concat (map (matching_users ?rx (- 1) (- 1) (ue_config (ue_configs slice_enb))) [''208'']) = ?cs"
    by (simp add: matching_users_def slice_enb_def slice_arg_def empty_ue_config_def)
  have ok: "auto_ue_slice_association ?rx (nat_to_string 7) ''[208]'' (- 1) (- 1) slice_rib (?st, [])
      = Inr (?st, push_ue_config_reconfiguration 7 (empty_ue_config_reply\<lparr>ue_config := ?cs\<rparr>) slice_rib [])"
    using cs by (simp add: auto_ue_slice_association_def with_target_def slice_rib_name check_slice_arg_def regs deref_bs_def
        slice_rib_bs set_assoc_def)
  define first where "first = respond Http_Bad_Request (error_json (''unrecognized direction '' @ [CHR 0x27] @ ''up'' @ [CHR 0x27]))"
  have run: "auto_ue_slice_assoc ?rx (\<lambda>_. Inr 3) (Some (nat_to_string 7)) ''3'' (Some ''up'') ''[208]'' slice_rib (?st, [])
      = Inr ([first, status_ok], ?st, push_ue_config_reconfiguration 7 (empty_ue_config_reply\<lparr>ue_config := ?cs\<rparr>) slice_rib [])"
    by (simp add: auto_ue_slice_assoc_def get_or_def catch_invalid_def ok first_def)
  have "length [first, status_ok] = 2" using unknown_direction_answered_twice [OF _ _ run] by simp
  then show ?thesis using run by (simp add: push_ue_config_reconfiguration_def mes.send_appends slice_rib_bs)
qed

text \<open>The response to a new recording announces the length of its id, seven characters less than
  the body has.\<close>

theorem recording_response_length:
  assumes "start_meas_call u opn room t r ty d rec = (Inr rs, rec')" "accepted rs"
  shows "\<exists>i. rs = [\<lparr>rsp_code = Http_Ok, rsp_body = ''{'' @ quoted ''id'' @ '':'' @ i @ ''}'', rsp_length = Some (length i)\<rparr>]
     \<and> length (rsp_body (hd rs)) = the (rsp_length (hd rs)) + 7"
  using assms by (auto simp: start_meas_call_def accepted_def respond_def quoted_def split: sum.splits option.splits prod.splits)

theorem recording_response_length_witness:
  "\<exists>rec'. start_meas_call (\<lambda>_. Inr 5) (\<lambda>_. True) 100 41 slice_rib (Some ''bin'') (Some ''5'') new_recorder
      = (Inr [\<lparr>rsp_code = Http_Ok, rsp_body = ''{'' @ quoted ''id'' @ '':'' @ u64_to_string 43 @ ''}'',
           rsp_length = Some (length (u64_to_string 43))\<rparr>], rec')
     \<and> length (''{'' @ quoted ''id'' @ '':'' @ u64_to_string 43 @ ''}'') = length (u64_to_string 43) + 7"
proof -
  obtain rec' where r: "start_meas_call (\<lambda>_. Inr 5) (\<lambda>_. True) 100 41 slice_rib (Some ''bin'') (Some ''5'') new_recorder
      = (Inr [\<lparr>rsp_code = Http_Ok, rsp_body = ''{'' @ quoted ''id'' @ '':'' @ u64_to_string 43 @ ''}'',
           rsp_length = Some (length (u64_to_string 43))\<rparr>], rec')"
    by (simp add: start_meas_call_def start_meas_def get_or_def job_type_of_def fill_caches_ok [OF slice_rib_inv] new_recorder_def
        respond_def Let_def)
  show ?thesis using r recording_response_length [OF r] by (simp add: accepted_def)
qed

end
