(* ===== verification/Server_Loop.thy ===== *)
theory Server_Loop
  imports Northbound
begin

text \<open>
  The whole controller: the cycles of the loop with the applications that are driven by ticks, the
  requests of the REST interface between the cycles, and the threads that write recordings. The
  theory shows what can go wrong in it: four accesses outside their bounds, and nothing else.
\<close>

section \<open>Steps\<close>

text \<open>The event of a request for delegated control goes to the netstore loader.\<close>

definition net_event_delivered :: "event \<Rightarrow> netstore \<Rightarrow> netstore" where
  "net_event_delivered ev s = (case ev of Control_del_req _ m \<Rightarrow> process_control_del_req m s | _ \<Rightarrow> s)"

text \<open>
  A cycle. The callbacks of the loader and of the recorder are connected after the ones of
  \<open>cycle\<close>, with which they share nothing but the outbox.
\<close>

definition server_cycle ::
  "protobuf \<Rightarrow> (int \<Rightarrow> string) \<Rightarrow> 'r regex \<Rightarrow> cycle_input \<Rightarrow> (nat \<Rightarrow> u64) \<Rightarrow> (nat \<Rightarrow> curl_step) \<Rightarrow>
   u64 \<times> 'r server \<Rightarrow> (u64 \<times> 'r server) result" where
  "server_cycle pb ep rx inp clock curl = (\<lambda>(t, s).
     rbind (cycle pb ep rx inp (t, srv_sys s)) (\<lambda>(t', sys).
       let ctl = sys_ctl sys;
           evs = drop (length (ctl_events (sys_ctl (srv_sys s)))) (ctl_events ctl) in
       rbind (netstore_signal curl (ctl_rib ctl) t (fold net_event_delivered evs (srv_net s), ctl_sent ctl)) (\<lambda>(net, out).
       rbind (recorder_signal clock (ctl_rib ctl) t (srv_rec s)) (\<lambda>rec.
         Inr (t', \<lparr>srv_sys = set_sent out sys, srv_rec = rec, srv_net = net\<rparr>)))))"

datatype 'r server_input =
    Server_cycle cycle_input "nat \<Rightarrow> u64" "nat \<Rightarrow> curl_step"
  | Server_request "'r rest_env" rest_request
  | Server_writer record_io "u64 \<Rightarrow> string" "string \<Rightarrow> bool" nat

text \<open>An exception of a handler is answered by Pistache and the server goes on.\<close>

definition server_step ::
  "protobuf \<Rightarrow> (int \<Rightarrow> string) \<Rightarrow> 'r regex \<Rightarrow> 'r server_input \<Rightarrow> u64 \<times> 'r server \<Rightarrow> (u64 \<times> 'r server) result" where
  "server_step pb ep rx i = (\<lambda>(t, s). (case i of
     Server_cycle inp clock curl \<Rightarrow> server_cycle pb ep rx inp clock curl (t, s)
   | Server_request env rq \<Rightarrow> (case serve env rq s of
         (Inl (Undefined_behaviour e), _) \<Rightarrow> Inl (Undefined_behaviour e)
       | (_, s') \<Rightarrow> Inr (t, s'))
   | Server_writer io fmt opn k \<Rightarrow> rbind (writer_done pb io fmt opn k (srv_rec s)) (\<lambda>rec. Inr (t, s\<lparr>srv_rec := rec\<rparr>))))"

definition server_run ::
  "protobuf \<Rightarrow> (int \<Rightarrow> string) \<Rightarrow> 'r regex \<Rightarrow> 'r server_input list \<Rightarrow> 'r server \<Rightarrow> (u64 \<times> 'r server) result" where
  "server_run pb ep rx inps s = foldR (server_step pb ep rx) inps (0, s)"

definition new_server :: "'r rrm \<Rightarrow> 'r server" where
  "new_server rrm = \<lparr>srv_sys = new_system rrm, srv_rec = new_recorder, srv_net = new_netstore\<rparr>"

section \<open>The four causes\<close>

definition ub_causes :: "string set" where
  "ub_causes = {''cell_config index out of range'', ''rbg index out of range'',
     ''last character of an empty token'', ''read past the end of buf''}"

definition guarded :: "'a result \<Rightarrow> bool" where
  "guarded m \<longleftrightarrow> (\<forall>e. m = Inl (Undefined_behaviour e) \<longrightarrow> e \<in> ub_causes)"

named_theorems guards

lemma guarded_basic [simp]:
  "guarded (Inr x)" "guarded (refuse e)" "guarded parser_error" "guarded (bs_missing e)" "guarded (cannot_find_bs e)"
  "guarded (Inl (Out_of_range e))" "guarded (Inl (Invalid_argument e))" "guarded (Inl Bad_alloc)" "guarded (Inl (Runtime_error e))"
  by (simp_all add: guarded_def refuse_def parser_error_def bs_missing_def cannot_find_bs_def)

lemma guarded_rbind [guards]: "guarded m \<Longrightarrow> (\<And>x. m = Inr x \<Longrightarrow> guarded (f x)) \<Longrightarrow> guarded (rbind m f)"
  by (cases m) (auto simp: guarded_def)

lemma guarded_foldR [guards]: "(\<And>x s. x \<in> set xs \<Longrightarrow> guarded (f x s)) \<Longrightarrow> guarded (foldR f xs s)"
  by (induction xs arbitrary: s) (simp_all add: guarded_rbind)

lemma guarded_parsed [guards]: "(\<And>m. guarded (f m)) \<Longrightarrow> guarded (parsed x f)"
  by (simp add: parsed_def split: option.splits)

lemma guarded_ok: "is_ok m \<Longrightarrow> guarded m"
  by (auto simp: is_ok_iff)

lemma guarded_deref: "get_bs b r \<noteq> None \<Longrightarrow> guarded (deref_bs b r)"
  by (auto simp: deref_bs_def)

lemma guarded_cell [simp]: "guarded (cell_config_at i e)"
  by (simp add: cell_config_at_def guarded_def ub_causes_def)

lemma guarded_names [simp]:
  "guarded (parse_bs_id s r)" "guarded (parse_enb_agent_id s r)" "guarded (parse_rnti_imsi s e)" "guarded (stoi s)"
  by (auto simp: guarded_def parse_bs_id_def parse_enb_agent_id_def parse_number_def parse_rnti_imsi_def stoll_def stoi_def rbind_def
      split: if_splits sum.splits exn.splits option.splits)

lemma guarded_target:
  assumes "guarded e" "\<And>b x. b \<noteq> 0 \<Longrightarrow> get_bs b r = Some x \<Longrightarrow> guarded (f b)"
  shows "guarded (with_target (parse_bs_id name r) e f)"
  unfolding with_target_def
proof (rule guarded_rbind)
  fix b assume b: "parse_bs_id name r = Inr b"
  show "guarded (if b = 0 then e else f b)"
    using assms bs_name.resolved [OF _ b] by auto
qed simp

section \<open>The applications\<close>

lemma guarded_claim [simp]: "guarded (claim err i hi rbg)"
proof (induction err i hi rbg rule: claim.induct)
  case (1 err i hi rbg)
  then show ?case using claim.simps [of err i hi rbg] by (simp add: guarded_def ub_causes_def refuse_def)
qed

lemma guarded_slices [simp]: "guarded (verify_static_slice_configuration nc ex)" "guarded (check_direction d c)"
proof -
  show v: "guarded (verify_static_slice_configuration nc ex)" for nc ex
    unfolding verify_static_slice_configuration_def
    by (auto simp: claim_new_def claim_existing_def intro!: guards)
  show "guarded (check_direction d c)" by (simp add: check_direction_def v)
qed

lemma guarded_slice_config [simp]: "guarded (apply_slice_config b sc e r out)"
  unfolding apply_slice_config_def Let_def by (intro guards) auto

lemma guarded_tokens [simp]: "guarded (split_tokens str acc)"
proof (induction str acc rule: split_tokens.induct)
  case (1 str acc)
  then show ?case
    by (subst split_tokens.simps) (simp add: Let_def guarded_def ub_causes_def)
qed

lemma guarded_regs [simp]: "guarded (parse_imsi_reg rx s)"
  unfolding parse_imsi_reg_def by (intro guarded_rbind) (auto simp: split_list_def Let_def split: sum.splits)

lemma guarded_slice_tests [simp]: "guarded (has_dl_slice i c e)" "guarded (has_ul_slice i c e)"
  by (auto simp: has_dl_slice_def has_ul_slice_def intro!: guards)

lemma guarded_rrm:
  "guarded (apply_slice_config_policy js bs p r out)" "guarded (remove_slice js bs p r out)"
  "guarded (change_ue_slice_association js bs p r out)"
  unfolding apply_slice_config_policy_def remove_slice_def change_ue_slice_association_def
  by (auto intro!: guarded_target guards guarded_deref simp: check_association_def resolve_association_def
    split: option.splits sum.splits)

lemma guarded_auto: "guarded (auto_ue_slice_association rx bs p dl ul r st)"
  unfolding auto_ue_slice_association_def
  by (cases st) (auto intro!: guarded_target guards guarded_deref simp: check_slice_arg_def Let_def split: sum.splits)

lemma guarded_mme:
  assumes "get_bs b r \<noteq> None"
  shows "guarded (each_mme (add_one b r) s)" "guarded (each_mme (remove_one b r) s)"
proof -
  have "guarded (add_one b r m)" "guarded (remove_one b r m)" for m
    unfolding add_one_def remove_one_def by (auto intro!: guarded_rbind guarded_deref assms split: option.split)
  then show "guarded (each_mme (add_one b r) s)" "guarded (each_mme (remove_one b r) s)"
    unfolding each_mme_def by (intro guards guarded_basic; blast)+
qed

lemma guarded_add_plmn [simp]: "guarded (add_plmn p ncc)"
  unfolding add_plmn_def by (intro guarded_rbind) (simp_all add: check_plmn_def Let_def)

lemma guarded_one_mme: "guarded f \<Longrightarrow> guarded (one_mme s f)"
  by (simp add: one_mme_def)

lemma guarded_plmn:
  "guarded (add_mme js bs p r out)" "guarded (remove_mme js bs p r out)" "guarded (change_plmn js bs p r out)"
proof -
  show "guarded (add_mme js bs p r out)" "guarded (remove_mme js bs p r out)"
    unfolding add_mme_def remove_mme_def Let_def
    by (intro guarded_target guarded_parsed guarded_one_mme guarded_rbind guarded_mme guarded_basic; simp)+
  show "guarded (change_plmn js bs p r out)"
    unfolding change_plmn_def
    by (intro guarded_target guarded_parsed) (simp_all add: guarded_rbind guarded_foldR)
qed

lemma available_known: "b \<in> set (get_available_base_stations r) \<Longrightarrow> get_bs b r \<noteq> None"
  by (metis available_get_bs)

lemma guarded_cell_0: "get_bs b r \<noteq> None \<Longrightarrow> guarded (cell_0 b r)"
  unfolding cell_0_def by (intro guarded_rbind guarded_deref) simp_all

lemma guarded_find_phyCellId: "(\<And>b. b \<in> set bs \<Longrightarrow> get_bs b r \<noteq> None) \<Longrightarrow> guarded (find_phyCellId p r bs)"
  by (induction bs) (auto intro!: guards guarded_cell_0)

lemma guarded_ho_bs [simp]: "guarded (parse_ho_bs s r)"
proof -
  have "guarded (case stoi s of Inl (Invalid_argument _) \<Rightarrow> Inr 0 | Inl e \<Rightarrow> Inl e
     | Inr v \<Rightarrow> if (word_of_int v :: u32) > 503 then Inr 0 else find_phyCellId (word_of_int v) r (get_available_base_stations r))"
    using guarded_names(4) [of s] guarded_find_phyCellId [OF available_known]
    by (auto simp: guarded_def split: sum.splits exn.splits)
  then show ?thesis
    unfolding parse_ho_bs_def parse_physical_cell_id_def by (intro guarded_rbind) simp_all
qed

lemma find_phyCellId_known:
  "find_phyCellId p r bs = Inr b \<Longrightarrow> b \<noteq> 0 \<Longrightarrow> b \<in> set bs"
  by (induction bs) (auto simp: rbind_Inr_eq split: if_splits)

lemma ho_bs_known:
  assumes "parse_ho_bs s r = Inr b" "b \<noteq> 0"
  shows "get_bs b r \<noteq> None"
proof -
  obtain b' where b': "parse_bs_id s r = Inr b'" "(if b' = 0 then parse_physical_cell_id s r else Inr b') = Inr b"
    using assms(1) by (auto simp: parse_ho_bs_def rbind_Inr_eq)
  show ?thesis
  proof (cases "b' = 0")
    case True
    then have "b \<in> set (get_available_base_stations r)"
      using b'(2) assms(2) find_phyCellId_known
      by (fastforce simp: parse_physical_cell_id_def split: sum.splits exn.splits if_splits)
    then show ?thesis by (rule available_known)
  next
    case False
    then show ?thesis using b' bs_name.resolved [OF _ b'(1)] by simp
  qed
qed

lemma guarded_rrc:
  assumes "rib_inv r"
  shows "guarded (rrc_reconf js bs p r out)" "guarded (rrc_ho a b c r out)" "guarded (rrc_x2_ho_net_control e on r out)"
proof -
  show "guarded (rrc_reconf js bs p r out)"
    unfolding rrc_reconf_def rrc_parse_bs_id_def by (intro guarded_rbind) (auto split: option.splits)
  show "guarded (rrc_x2_ho_net_control e on r out)"
    unfolding rrc_x2_ho_net_control_def by (intro guarded_rbind) auto
  have cell: "guarded (cell_0 b r)" "guarded (deref_bs b r)" if "parse_ho_bs s r = Inr b" "b \<noteq> 0" for s b
    using guarded_cell_0 guarded_deref ho_bs_known [OF that] by blast+
  show "guarded (rrc_ho a b c r out)"
    unfolding rrc_ho_def by (auto intro!: guards cell split: option.splits)
qed

lemma guarded_stats:
  assumes "rib_inv r"
  shows "guarded (obtain_json_stats_enb pb now bs ty r)" "guarded (obtain_json_stats_ue pb ob ue r)"
    "guarded (get_stats_req print ob r lst)"
proof -
  show "guarded (obtain_json_stats_enb pb now bs ty r)"
    unfolding obtain_json_stats_enb_def Let_def by (intro guarded_rbind) auto
  show "guarded (get_stats_req print ob r lst)"
    unfolding get_stats_req_def get_stats_requests_def by (intro guarded_rbind) auto
  have at: "guarded (parse_rnti_imsi_at b ue r)" if "get_bs b r \<noteq> None" for b
    unfolding parse_rnti_imsi_at_def by (intro guarded_rbind guarded_deref that) simp
  have "guarded (find_in_bs ue r bs)" if "\<And>b. b \<in> set bs \<Longrightarrow> get_bs b r \<noteq> None" for bs
    using that by (induction bs) (auto intro!: guarded_rbind at split: option.splits)
  then have find: "guarded (parse_rnti_imsi_find_bs ue r)"
    unfolding parse_rnti_imsi_find_bs_def using available_known by blast
  show "guarded (obtain_json_stats_ue pb ob ue r)"
  proof (cases ob)
    case None
    then show ?thesis using find by (auto simp: obtain_json_stats_ue_def Let_def intro!: guarded_rbind)
  next
    case (Some name)
    have "get_bs b r \<noteq> None" if "parse_enb_agent_id name r = Inr b" "b \<noteq> 0" for b
      by (rule agent_name.resolved [OF assms that])
    then show ?thesis
      unfolding obtain_json_stats_ue_def Let_def Some option.case by (intro guarded_rbind) (auto intro!: guarded_rbind at)
  qed
qed

lemma guarded_set_stats:
  assumes "rib_inv r" "\<And>b. get_bs b r \<noteq> None \<Longrightarrow> sm_find b lst \<noteq> None"
  shows "guarded (set_stats_requests js bs p r (lst, out))"
  using set_stats_requests_listed [OF assms, of js bs p out] by auto

section \<open>The interface\<close>

lemma guarded_catch: "guarded m \<Longrightarrow> guarded (catch_invalid s ok m)"
  by (auto simp: catch_invalid_def guarded_def split: sum.splits exn.splits)

lemma guarded_checked: "guarded m \<Longrightarrow> guarded (answer_checked s text m)"
  unfolding answer_checked_def by (intro guarded_rbind) (auto split: sum.splits)

lemma guarded_policy: "(\<And>bs p s. guarded (f bs p s)) \<Longrightarrow> guarded (policy_call f bs p s)"
  by (simp add: policy_call_def guarded_catch)

lemma guarded_calls:
  "guarded (apply_slice_config_call js bs p r out)" "guarded (remove_slice_config js bs p r out)"
  "guarded (change_ue_slice_assoc js bs p r out)" "guarded (add_mme_call js bs p r out)"
  "guarded (remove_mme_call js bs p r out)" "guarded (change_plmn_call js bs p r out)"
  "guarded (yaml_compat bs p r out)" "guarded (cell_reconfiguration_call js bs p r out)"
  "guarded (app_conf_trigger sub i p r out)"
  unfolding apply_slice_config_call_def remove_slice_config_def change_ue_slice_assoc_def add_mme_call_def
    remove_mme_call_def change_plmn_call_def
  by (auto intro!: guarded_policy guarded_rrm guarded_plmn guarded_rbind guarded_catch guarded_checked guards
    simp: yaml_compat_def cell_reconfiguration_call_def target_bs_def app_conf_trigger_def trigger_app_reconfig_def split: option.splits)

lemma guarded_state_calls:
  assumes "rib_inv r"
  shows "guarded (rrc_reconf_call js bs p r out)" "guarded (rrc_ho_call a b c r out)"
    "(\<And>x. guarded (as_bool x)) \<Longrightarrow> guarded (rrc_x2_ho_net_control_call as_bool e on r out)"
    "(\<And>x. guarded (u x)) \<Longrightarrow> guarded (auto_ue_slice_assoc rx u bs sl dir p r st)"
    "(\<And>b. get_bs b r \<noteq> None \<Longrightarrow> sm_find b lst \<noteq> None) \<Longrightarrow> guarded (set_stats_req js bs p r (lst, out))"
proof -
  show "guarded (rrc_reconf_call js bs p r out)"
    by (simp add: rrc_reconf_call_def guarded_checked guarded_rrc [OF assms])
  show "guarded (rrc_ho_call a b c r out)"
    by (simp add: rrc_ho_call_def guarded_checked guarded_rrc [OF assms])
  show "guarded (rrc_x2_ho_net_control_call as_bool e on r out)" if "\<And>x. guarded (as_bool x)"
    unfolding rrc_x2_ho_net_control_call_def by (intro guarded_rbind that guarded_checked guarded_rrc [OF assms])
  show "guarded (auto_ue_slice_assoc rx u bs sl dir p r st)" if "\<And>x. guarded (u x)"
    unfolding auto_ue_slice_assoc_def Let_def
    by (intro guarded_rbind that) (auto intro!: guarded_catch guarded_auto)
  show "guarded (set_stats_req js bs p r (lst, out))" if "\<And>b. get_bs b r \<noteq> None \<Longrightarrow> sm_find b lst \<noteq> None"
    by (simp add: set_stats_req_def guarded_checked guarded_set_stats [OF assms that])
qed

section \<open>The invariant\<close>

definition srv_inv :: "protobuf \<Rightarrow> 'r server \<Rightarrow> bool" where
  "srv_inv pb s \<longleftrightarrow> sys_inv pb (srv_sys s) \<and> recorder_inv (srv_rec s)"

text \<open>What Pistache's conversions of parameters do: they convert or throw.\<close>

definition env_converts :: "'r rest_env \<Rightarrow> bool" where
  "env_converts env \<longleftrightarrow> (\<forall>s. guarded (env_u32 env s)) \<and> (\<forall>s. guarded (env_bool env s))"

lemma srv_inv_rib: "srv_inv pb s \<Longrightarrow> rib_inv (srv_rib s)"
  by (simp add: srv_inv_def sys_inv_def inbox_inv_def ctl_inv_def srv_rib_def)

lemma srv_inv_stats: "srv_inv pb s \<Longrightarrow> get_bs b (srv_rib s) \<noteq> None \<Longrightarrow> sm_find b (sys_stats (srv_sys s)) \<noteq> None"
  by (simp add: srv_inv_def sys_inv_def agree_def srv_rib_def)

lemma srv_inv_out [simp]: "srv_inv pb (set_out out s) = srv_inv pb s"
  by (simp add: srv_inv_def set_out_def sys_inv_def agree_def inbox_inv_def ctl_inv_def)

lemma srv_inv_net [simp]: "srv_inv pb (s\<lparr>srv_net := n\<rparr>) = srv_inv pb s"
  by (simp add: srv_inv_def)

lemma on_outbox_guarded:
  assumes "guarded (f (srv_rib s) (srv_out s))" "srv_inv pb s" "on_outbox s f = (res, s')"
  shows "guarded res \<and> srv_inv pb s'"
  using assms by (auto simp: on_outbox_def on_result_def guarded_def split: sum.splits)

lemma set_stats_req_domain:
  assumes "rib_inv r" "\<And>b. get_bs b r \<noteq> None \<Longrightarrow> sm_find b lst \<noteq> None"
    and "set_stats_req js bs p r (lst, out) = Inr (rs, lst', out')"
  shows "sm_find k lst' = None \<longleftrightarrow> sm_find k lst = None"
  using assms(3) set_stats_requests_listed [OF assms(1,2), of js "get_or ''-1'' bs" p out]
  by (auto simp: set_stats_req_def answer_checked_def split: if_splits)

lemma serve_guarded:
  assumes "srv_inv pb s" "env_converts env" "serve env rq s = (res, s')"
  shows "guarded res \<and> srv_inv pb s'"
proof -
  note r = srv_inv_rib [OF assms(1)]
  note outbox = on_outbox_guarded [OF _ assms(1)]
  have u: "\<And>x. guarded (env_u32 env x)" "\<And>x. guarded (env_bool env x)" using assms(2) by (simp_all add: env_converts_def)
  show ?thesis
  proof (cases rq)
    case (Post_auto_slice bs sl dir p)
    have "srv_inv pb (s\<lparr>srv_sys := srv_sys s\<lparr>sys_rrm := rrm\<rparr>\<rparr>)" for rrm
      using assms(1) by (simp add: srv_inv_def sys_inv_def agree_def)
    then show ?thesis
      using assms(1,3) guarded_state_calls(4) [OF r u(1), where rx = "env_rx env" and bs = bs and sl = sl and dir = dir
          and p = p and st = "(sys_rrm (srv_sys s), srv_out s)"]
      by (auto simp: serve_def Post_auto_slice on_result_def guarded_def Let_def split: sum.splits)
  next
    case (Post_stats_conf bs p)
    let ?m = "set_stats_req (env_js env) bs p (srv_rib s) (sys_stats (srv_sys s), srv_out s)"
    have g: "guarded ?m" by (rule guarded_state_calls(5) [OF r srv_inv_stats [OF assms(1)]])
    have "srv_inv pb (s\<lparr>srv_sys := srv_sys s\<lparr>sys_stats := lst\<rparr>\<rparr>)" if "?m = Inr (rs, lst, out)" for rs lst out
      using assms(1) set_stats_req_domain [OF r srv_inv_stats [OF assms(1)] that]
      by (simp add: srv_inv_def sys_inv_def agree_def)
    then show ?thesis
      using assms(1,3) g
      by (cases ?m) (auto simp: serve_def Post_stats_conf on_result_def guarded_def Let_def)
  next
    case (Post_record ty d)
    obtain res' rec' where m: "start_meas_call (env_u32 env) (env_open env) (env_room env) (sys_last_tick (srv_sys s)) (srv_rib s) ty d (srv_rec s)
        = (res', rec')" by fastforce
    have "guarded res' \<and> recorder_inv rec'"
      using m u(1) assms(1) start_meas_ok [OF r, of "srv_rec s" "env_open env" "env_room env" "sys_last_tick (srv_sys s)"]
      by (fastforce simp: start_meas_call_def srv_inv_def guarded_def split: option.splits sum.splits prod.splits)
    then show ?thesis using assms(1,3) m by (auto simp: serve_def Post_record Let_def srv_inv_def)
  next
    case (Post_rrc_reconf bs p)
    show ?thesis
      by (rule outbox [where f = "rrc_reconf_call (env_js env) bs p", OF guarded_state_calls(1) [OF r]])
        (use assms(3) in \<open>simp add: serve_def Post_rrc_reconf\<close>)
  next
    case (Post_ho a b c)
    show ?thesis
      by (rule outbox [where f = "rrc_ho_call a b c", OF guarded_state_calls(2) [OF r]])
        (use assms(3) in \<open>simp add: serve_def Post_ho\<close>)
  next
    case (Post_x2 e b)
    show ?thesis
      by (rule outbox [where f = "rrc_x2_ho_net_control_call (env_bool env) e b", OF guarded_state_calls(3) [OF r u(2)]])
        (use assms(3) in \<open>simp add: serve_def Post_x2\<close>)
  qed (use assms(1,3) in \<open>auto simp: serve_def Let_def app_dl_trigger_def app_rm_trigger_def
      intro!: guarded_stats intro: srv_inv_rib dest!: outbox [OF guarded_calls(1)] outbox [OF guarded_calls(2)] outbox [OF guarded_calls(3)] outbox [OF guarded_calls(4)]
        outbox [OF guarded_calls(5)] outbox [OF guarded_calls(6)] outbox [OF guarded_calls(7)] outbox [OF guarded_calls(8)]
        outbox [OF guarded_calls(9)]\<close>)
qed

section \<open>The loop\<close>

text \<open>The loader throws nothing but the one access outside its buffer.\<close>

definition strict :: "'a result \<Rightarrow> bool" where
  "strict m \<longleftrightarrow> (\<forall>x. m = Inl x \<longrightarrow> x = Undefined_behaviour ''read past the end of buf'')"

lemma strict_Inr [simp]: "strict (Inr x)"
  by (simp add: strict_def)

lemma strict_rbind: "strict m \<Longrightarrow> (\<And>x. m = Inr x \<Longrightarrow> strict (f x)) \<Longrightarrow> strict (rbind m f)"
  by (cases m) (auto simp: strict_def)

lemma strict_foldR: "(\<And>x s. x \<in> set xs \<Longrightarrow> strict (f x s)) \<Longrightarrow> strict (foldR f xs s)"
  by (induction xs arbitrary: s) (simp_all add: strict_rbind)

lemma strict_find_newline: "strict (find_newline m p)"
proof (induction m p rule: find_newline.induct)
  case (1 m p)
  then show ?case using find_newline.simps [of m p] by (simp add: strict_def)
qed

lemma strict_check_lines: "strict (check_lines name used pos m)"
proof (induction name used pos m rule: check_lines.induct)
  case (1 name used pos m)
  show ?case
  proof (cases "int pos \<le> int used - 1 - int (length name)")
    case True
    show ?thesis
      unfolding check_lines.simps [of name used pos m] if_P [OF True]
    proof (rule strict_rbind [OF strict_find_newline])
      fix q assume "find_newline m pos = Inr q"
      note IH = "1.IH" [OF True this refl]
      let ?c = "q - pos = length name \<and> c_string (map (m(q := CHR 0x00)) [pos..<q]) = c_string name"
      show "strict (let m = m(q := CHR 0x00) in
        if q - pos = length name \<and> c_string (map m [pos..<q]) = c_string name then Inr (True, m)
        else check_lines name used (q + 1) m)"
      proof (cases ?c)
        case True
        then show ?thesis by (simp add: Let_def)
      next
        case False
        show ?thesis unfolding Let_def if_not_P [OF False] by (rule IH [OF False])
      qed
    qed
  next
    case False
    then show ?thesis by (subst check_lines.simps) simp
  qed
qed

lemma strict_list_done: "strict (list_done name xid ty codes s)"
  by (induction codes arbitrary: s)
    (auto simp: Let_def check_list_def intro!: strict_rbind strict_check_lines)

lemma strict_netstore: "strict (netstore_signal curl r t so)"
  unfolding netstore_signal_def
  by (intro strict_foldR)
    (auto simp: run_task_def process_list_def Let_def intro!: strict_rbind strict_list_done split: transfer_task.splits)

lemma server_cycle_guarded:
  assumes "merge_ue_ok pb" "srv_inv pb s" "list_all (delivered_ok pb) (arrived inp)"
  shows "(\<exists>t' s'. server_cycle pb ep rx inp clock curl (t, s) = Inr (t', s') \<and> srv_inv pb s')
     \<or> server_cycle pb ep rx inp clock curl (t, s) = Inl (Undefined_behaviour ''read past the end of buf'')"
proof -
  have "sys_inv pb (srv_sys s)" using assms(2) by (simp add: srv_inv_def)
  from cycle_ok [OF assms(1) this assms(3)] obtain sys where
    c: "cycle pb ep rx inp (t, srv_sys s) = Inr (t + 1, sys)" "sys_inv pb sys" by blast
  let ?r = "ctl_rib (sys_ctl sys)"
  let ?net = "fold net_event_delivered (drop (length (ctl_events (sys_ctl (srv_sys s)))) (ctl_events (sys_ctl sys))) (srv_net s)"
  have r: "rib_inv ?r" using c(2) by (simp add: sys_inv_def inbox_inv_def ctl_inv_def)
  have "recorder_inv (srv_rec s)" using assms(2) by (simp add: srv_inv_def)
  then obtain rec where rec: "recorder_signal clock ?r t (srv_rec s) = Inr rec" "recorder_inv rec"
    using recorder_signal_ok [OF r] by blast
  show ?thesis
  proof (cases "netstore_signal curl ?r t (?net, ctl_sent (sys_ctl sys))")
    case (Inl x)
    then have "x = Undefined_behaviour ''read past the end of buf''" using strict_netstore strict_def by metis
    then show ?thesis using c(1) Inl by (simp add: server_cycle_def Let_def)
  next
    case (Inr no)
    have "srv_inv pb \<lparr>srv_sys = set_sent (snd no) sys, srv_rec = rec, srv_net = fst no\<rparr>"
      using c(2) rec(2) by (simp add: srv_inv_def sys_inv_def agree_def inbox_inv_def ctl_inv_def)
    then show ?thesis using c(1) Inr rec(1) by (simp add: server_cycle_def Let_def case_prod_beta)
  qed
qed

fun server_input_ok :: "protobuf \<Rightarrow> 'r server_input \<Rightarrow> bool" where
  "server_input_ok pb (Server_cycle inp _ _) \<longleftrightarrow> list_all (delivered_ok pb) (arrived inp)"
| "server_input_ok pb (Server_request env _) \<longleftrightarrow> env_converts env"
| "server_input_ok pb (Server_writer _ _ _ _) \<longleftrightarrow> True"

lemma server_step_guarded:
  assumes "merge_ue_ok pb" "srv_inv pb s" "server_input_ok pb i"
  shows "(\<exists>t' s'. server_step pb ep rx i (t, s) = Inr (t', s') \<and> srv_inv pb s')
     \<or> (\<exists>e \<in> ub_causes. server_step pb ep rx i (t, s) = Inl (Undefined_behaviour e))"
proof (cases i)
  case (Server_cycle inp clock curl)
  have "''read past the end of buf'' \<in> ub_causes" by (simp add: ub_causes_def)
  then show ?thesis
    using server_cycle_guarded [OF assms(1,2), of inp ep rx clock curl t] assms(3) Server_cycle
    unfolding server_step_def by auto
next
  case (Server_request env rq)
  obtain res s' where r: "serve env rq s = (res, s')" by fastforce
  have g: "guarded res" "srv_inv pb s'" using serve_guarded [OF assms(2) _ r] assms(3) Server_request by simp_all
  then show ?thesis
    using r Server_request by (auto simp: server_step_def guarded_def split: sum.splits exn.splits)
next
  case (Server_writer io fmt opn k)
  have "recorder_inv (srv_rec s)" using assms(2) by (simp add: srv_inv_def)
  from writer_done_ok [OF this, of pb io fmt opn k] obtain rec where
    "writer_done pb io fmt opn k (srv_rec s) = Inr rec" "recorder_inv rec" by blast
  then show ?thesis using assms(2) Server_writer by (simp add: server_step_def srv_inv_def)
qed

interpretation srv: guarded_system "server_step pb ep rx" "\<lambda>(t, s). merge_ue_ok pb \<and> srv_inv pb s"
    "\<lambda>i _. server_input_ok pb i" "\<lambda>x. x \<in> Undefined_behaviour ` ub_causes" for pb ep rx
proof unfold_locales
  fix st :: "u64 \<times> 'a server" and i :: "'a server_input" and st' x
  assume a: "case st of (t, s) \<Rightarrow> merge_ue_ok pb \<and> srv_inv pb s" "server_input_ok pb i"
  obtain t s where st: "st = (t, s)" by fastforce
  note g = server_step_guarded [of pb s i ep rx t]
  show "case st' of (t, s) \<Rightarrow> merge_ue_ok pb \<and> srv_inv pb s" if "server_step pb ep rx i st = Inr st'"
    using g a that st by auto
  show "x \<in> Undefined_behaviour ` ub_causes" if "server_step pb ep rx i st = Inl x"
    using g a that st by auto
qed

lemma new_server_inv: "srv_inv pb (new_server rrm)"
  by (simp add: srv_inv_def new_server_def new_system_inv recorder_inv_def new_recorder_def)

section \<open>Properties\<close>



end
