(* ===== verification/Elastic_Search.thy ===== *)
theory Elastic_Search
  imports App_Common
begin

text \<open>
  \<open>app/elastic_search.{h,cc}\<close>: the client that logs statistics and configurations to ElasticSearch.
  Callbacks of the tick collect records in two batches; a full batch is posted to every endpoint
  by libcurl, whose transfers go on in another callback. What libcurl does in a call is a
  parameter. The connections to the signals are numbers; a member that holds one may be left
  behind by its signal. \<open>int\<close> is an integer whose operations must not overflow.
\<close>

section \<open>State\<close>

datatype es_task = Stats_task | Config_task | Curl_task

record elastic =
  elastic_search_ep :: "string list"
  active_since :: u64
  sent_packets :: int
  freq_stats :: int
  freq_config :: int
  batch_stats_max_no :: int
  batch_stats_current_no :: "int option"
  batch_stats_data :: string
  batch_config_max_no :: int
  batch_config_current_no :: "int option"
  batch_config_data :: string
  curl_transfers :: "(string \<times> string) list"
  curl_finished :: "nat list"
  es_ticks :: "(nat \<times> es_task \<times> u64 \<times> u64) list"
  es_disconnects :: "nat list"
  es_next :: nat
  es_tick_stats :: "nat option"
  es_ue_disconnect :: "nat option"
  es_tick_config :: "nat option"
  es_tick_curl :: "nat option"

text \<open>The counters of the batches are not initialised by the constructor.\<close>

definition new_elastic :: "u64 \<Rightarrow> elastic" where
  "new_elastic now = \<lparr>elastic_search_ep = [''localhost:9200''], active_since = now, sent_packets = 0,
     freq_stats = 100, freq_config = 5000,
     batch_stats_max_no = 100, batch_stats_current_no = None, batch_stats_data = [],
     batch_config_max_no = 5, batch_config_current_no = None, batch_config_data = [],
     curl_transfers = [], curl_finished = [], es_ticks = [], es_disconnects = [], es_next = 0,
     es_tick_stats = None, es_ue_disconnect = None, es_tick_config = None, es_tick_curl = None\<rparr>"

definition int32 :: "int \<Rightarrow> int result" where
  "int32 i = (if - (2 ^ 31) \<le> i \<and> i < 2 ^ 31 then Inr i else Inl (Undefined_behaviour ''signed overflow''))"

section \<open>Connections\<close>

definition tick_connected :: "nat option \<Rightarrow> elastic \<Rightarrow> bool" where
  "tick_connected c s = (case c of None \<Rightarrow> False | Some i \<Rightarrow> i \<in> fst ` set (es_ticks s))"

definition tick_disconnect :: "nat option \<Rightarrow> elastic \<Rightarrow> elastic" where
  "tick_disconnect c s = (if tick_connected c s then s\<lparr>es_ticks := filter (\<lambda>x. Some (fst x) \<noteq> c) (es_ticks s)\<rparr> else s)"

definition ue_disconnected :: "elastic \<Rightarrow> elastic" where
  "ue_disconnected s = s\<lparr>es_disconnects := filter (\<lambda>x. Some x \<noteq> es_ue_disconnect s) (es_disconnects s)\<rparr>"

definition es_subscribe :: "es_task \<Rightarrow> u64 \<Rightarrow> u64 \<Rightarrow> elastic \<Rightarrow> nat \<times> elastic" where
  "es_subscribe task period start s =
     (es_next s, s\<lparr>es_ticks := es_ticks s @ [(es_next s, task, period, start)], es_next := es_next s + 1\<rparr>)"

definition subscribe_stats :: "es_task \<Rightarrow> u64 \<Rightarrow> elastic \<Rightarrow> elastic" where
  "subscribe_stats task start s = (case es_subscribe task (word_of_int (freq_stats s)) start s of
     (c, s) \<Rightarrow> s\<lparr>es_tick_stats := Some c\<rparr>)"

definition subscribe_config :: "u64 \<Rightarrow> elastic \<Rightarrow> elastic" where
  "subscribe_config start s = (case es_subscribe Config_task (word_of_int (freq_config s)) start s of
     (c, s) \<Rightarrow> s\<lparr>es_tick_config := Some c\<rparr>)"

definition subscribe_curl :: "elastic \<Rightarrow> elastic" where
  "subscribe_curl s = (case es_subscribe Curl_task 20 0 s of (c, s) \<Rightarrow> s\<lparr>es_tick_curl := Some c\<rparr>)"

definition subscribe_ue :: "elastic \<Rightarrow> elastic" where
  "subscribe_ue s = s\<lparr>es_disconnects := es_disconnects s @ [es_next s], es_ue_disconnect := Some (es_next s), es_next := es_next s + 1\<rparr>"

definition is_active :: "elastic \<Rightarrow> bool" where
  "is_active s \<longleftrightarrow> tick_connected (es_tick_config s) s \<or> tick_connected (es_tick_stats s) s"

section \<open>Batches\<close>

definition bulk_create_index :: "string \<Rightarrow> string \<Rightarrow> string" where
  "bulk_create_index idx dat = ''{'' @ quoted ''index'' @ '':{'' @ quoted ''_index'' @ '':'' @ quoted idx
     @ '','' @ quoted ''_type'' @ '':'' @ quoted ''json'' @ ''}}'' @ [CHR 0x0A] @ dat @ [CHR 0x0A]"

definition trigger_send :: "string \<Rightarrow> elastic \<Rightarrow> elastic" where
  "trigger_send dat s = s\<lparr>curl_transfers := curl_transfers s @ map (\<lambda>ep. (ep @ ''/_bulk'', dat)) (elastic_search_ep s)\<rparr>"

text \<open>The number of users of all base stations.\<close>

definition user_count :: "rib \<Rightarrow> int result" where
  "user_count r = foldR (\<lambda>b n. rbind (deref_bs b r) (\<lambda>e. int32 (n + int (length (ue_config (ue_configs e))))))
     (get_available_base_stations r) 0"

text \<open>The estimates of the sizes are computed in \<open>int\<close>; the memory itself is taken for granted.\<close>

definition initialise_batch_stats :: "rib \<Rightarrow> elastic \<Rightarrow> elastic result" where
  "initialise_batch_stats r s = rbind (user_count r) (\<lambda>n.
     let s = s\<lparr>batch_stats_current_no := Some 0, batch_stats_data := []\<rparr> in
     rbind (int32 (1400 * n)) (\<lambda>x. rbind (int32 (x * batch_stats_max_no s)) (\<lambda>_. Inr s)))"

definition bs_count :: "rib \<Rightarrow> int" where
  "bs_count r = sint (of_nat (length (get_available_base_stations r)) :: u32)"

definition initialise_batch_config :: "rib \<Rightarrow> elastic \<Rightarrow> elastic result" where
  "initialise_batch_config r s =
     (let s = s\<lparr>batch_config_current_no := Some 0, batch_config_data := []\<rparr> in
      rbind (int32 (2400 * bs_count r)) (\<lambda>x. rbind (int32 (x * batch_config_max_no s)) (\<lambda>_. Inr s)))"

section \<open>Callbacks\<close>

definition current :: "int option \<Rightarrow> int result" where
  "current n = (case n of None \<Rightarrow> Inl (Undefined_behaviour ''uninitialised value'') | Some n \<Rightarrow> Inr n)"

text \<open>The record of a user; \<open>now\<close> has the readings of the clock, as they are printed.\<close>

definition stats_of_user ::
  "protobuf \<Rightarrow> (nat \<Rightarrow> string) \<Rightarrow> enb_rib_info \<Rightarrow> flex_ue_config \<Rightarrow> nat \<times> string \<Rightarrow> (nat \<times> string) result" where
  "stats_of_user pb now e c = (\<lambda>(k, dat). case get_ue_mac_info (rnti_of c) e of
     None \<Rightarrow> Inl (Undefined_behaviour ''null UE MAC information'')
   | Some u \<Rightarrow> Inr (k + 1, dat @ bulk_create_index ''mac_stats''
       (format_statistics_to_json (now k) [] (ue_dump_stats_to_json (report_json pb) u))))"

definition stats_of_bs ::
  "protobuf \<Rightarrow> (nat \<Rightarrow> string) \<Rightarrow> rib \<Rightarrow> u64 \<Rightarrow> int \<times> nat \<times> string \<Rightarrow> (int \<times> nat \<times> string) result" where
  "stats_of_bs pb now r b = (\<lambda>(n, k, dat). rbind (deref_bs b r) (\<lambda>e.
     rbind (int32 (n + int (length (ue_config (ue_configs e))))) (\<lambda>n.
     rbind (foldR (stats_of_user pb now e) (ue_config (ue_configs e)) (k, dat)) (\<lambda>(k, dat). Inr (n, k, dat)))))"

definition process_stats :: "protobuf \<Rightarrow> (nat \<Rightarrow> string) \<Rightarrow> rib \<Rightarrow> elastic \<Rightarrow> elastic result" where
  "process_stats pb now r s =
     rbind (foldR (stats_of_bs pb now r) (get_available_base_stations r) (0, 0, batch_stats_data s)) (\<lambda>(n, _, dat).
     rbind (current (batch_stats_current_no s)) (\<lambda>c.
     rbind (int32 (c + n)) (\<lambda>c.
       let s = s\<lparr>batch_stats_current_no := Some c, batch_stats_data := dat\<rparr> in
       if c \<ge> batch_stats_max_no s then initialise_batch_stats r (trigger_send (batch_stats_data s) s) else Inr s)))"

definition process_config :: "protobuf \<Rightarrow> (nat \<Rightarrow> string) \<Rightarrow> rib \<Rightarrow> elastic \<Rightarrow> elastic result" where
  "process_config pb now r s =
     (let rec = bulk_create_index ''enb_config'' (format_statistics_to_json (now 0) (dump_all_enb_configurations_to_json pb r) []);
          s = s\<lparr>batch_config_data := batch_config_data s @ rec\<rparr> in
      rbind (current (batch_config_current_no s)) (\<lambda>c.
      rbind (int32 (c + 1)) (\<lambda>c.
        let s = s\<lparr>batch_config_current_no := Some c\<rparr> in
        if c \<ge> batch_config_max_no s then initialise_batch_config r (trigger_send (batch_config_data s) s) else Inr s)))"

text \<open>The last user is gone: the batch is sent off.\<close>

definition last_ue_disconnect :: "rib \<Rightarrow> elastic \<Rightarrow> elastic result" where
  "last_ue_disconnect r s = rbind (user_count r) (\<lambda>n.
     if n = 0 then initialise_batch_stats r (trigger_send (batch_stats_data s) s) else Inr s)"

section \<open>Transfers\<close>

text \<open>
  A call of \<open>curl_multi_perform\<close>: whether it succeeds, the transfers that still run, the response
  codes of those that it finishes, and whether the \<open>curl_multi_wait\<close> after it succeeds.
\<close>

record curl_round =
  round_ok :: bool
  round_running :: nat
  round_codes :: "nat list"
  round_wait_ok :: bool

definition es_perform :: "curl_round \<Rightarrow> elastic \<Rightarrow> elastic" where
  "es_perform c s = s\<lparr>curl_finished := curl_finished s @ round_codes c\<rparr>"

definition curl_release_handles :: "elastic \<Rightarrow> elastic result" where
  "curl_release_handles s = rbind (foldR (\<lambda>code s.
       if code = 200 then rbind (int32 (sent_packets s + 1)) (\<lambda>n. Inr (s\<lparr>sent_packets := n\<rparr>)) else Inr s) (curl_finished s) s)
     (\<lambda>s. Inr (s\<lparr>curl_finished := []\<rparr>))"

text \<open>The loop goes on while transfers run; nothing else bounds it.\<close>

definition wait_stops :: "curl_round \<Rightarrow> bool" where
  "wait_stops c \<longleftrightarrow> \<not> round_ok c \<or> \<not> round_wait_ok c \<or> round_running c = 0"

partial_function (option) wait_loop :: "(nat \<Rightarrow> curl_round) \<Rightarrow> nat \<Rightarrow> elastic \<Rightarrow> elastic option" where
  [code]: "wait_loop curl k s = (let s = es_perform (curl k) s in
     if \<not> round_ok (curl k) then Some s
     else if \<not> round_wait_ok (curl k) then Some s
     else if round_running (curl k) \<noteq> 0 then wait_loop curl (k + 1) s
     else Some s)"

definition wait_curl_end :: "(nat \<Rightarrow> curl_round) \<Rightarrow> elastic \<Rightarrow> elastic run" where
  "wait_curl_end curl s = map_option curl_release_handles (wait_loop curl 0 s)"

definition disable_logging :: "(nat \<Rightarrow> curl_round) \<Rightarrow> elastic \<Rightarrow> elastic run" where
  "disable_logging curl s = (let
     s = tick_disconnect (es_tick_config s) s;
     s = tick_disconnect (es_tick_stats s) s;
     s = ue_disconnected s;
     s = tick_disconnect (es_tick_curl s) s in wait_curl_end curl s)"

definition process_curl :: "curl_round \<Rightarrow> (nat \<Rightarrow> curl_round) \<Rightarrow> elastic \<Rightarrow> elastic run" where
  "process_curl c curl s = (let s = es_perform c s in
     obind (if \<not> round_ok c then disable_logging curl s else Some (Inr s)) (\<lambda>s. Some (curl_release_handles s)))"

section \<open>Endpoints and settings\<close>

text \<open>\<open>std::regex_match\<close> with \<open>^(?:[0-9]+\.[0-9]+\.[0-9]+\.[0-9]+|[a-zA-Z0-9-]+):\d+$\<close>.\<close>

definition is_digit :: "char \<Rightarrow> bool" where
  "is_digit c \<longleftrightarrow> (let n = of_char c :: nat in 48 \<le> n \<and> n \<le> 57)"

definition digits1 :: "string \<Rightarrow> bool" where
  "digits1 s \<longleftrightarrow> s \<noteq> [] \<and> list_all is_digit s"

fun dotted :: "nat \<Rightarrow> string \<Rightarrow> bool" where
  "dotted 0 s \<longleftrightarrow> digits1 s"
| "dotted (Suc n) s \<longleftrightarrow> (let d = takeWhile (\<lambda>c. c \<noteq> CHR ''.'') s; rest = drop (length d) s in
     digits1 d \<and> rest \<noteq> [] \<and> dotted n (tl rest))"

definition host_ok :: "string \<Rightarrow> bool" where
  "host_ok h \<longleftrightarrow> dotted 3 h \<or> (h \<noteq> [] \<and> list_all (\<lambda>c. is_alpha c \<or> is_digit c \<or> c = CHR ''-'') h)"

definition endpoint_ok :: "string \<Rightarrow> bool" where
  "endpoint_ok ep \<longleftrightarrow> (let h = takeWhile (\<lambda>c. c \<noteq> CHR '':'') ep; rest = drop (length h) ep in
     host_ok h \<and> rest \<noteq> [] \<and> digits1 (tl rest))"

definition add_endpoint :: "string \<Rightarrow> elastic \<Rightarrow> bool \<times> elastic" where
  "add_endpoint ep s = (if \<not> endpoint_ok ep then (False, s)
     else if ep \<in> set (elastic_search_ep s) then (False, s)
     else (True, s\<lparr>elastic_search_ep := elastic_search_ep s @ [ep]\<rparr>))"

definition remove_endpoint :: "(nat \<Rightarrow> curl_round) \<Rightarrow> string \<Rightarrow> elastic \<Rightarrow> (bool \<times> elastic) run" where
  "remove_endpoint curl ep s = (if ep \<notin> set (elastic_search_ep s) then Some (Inr (False, s))
     else let s = s\<lparr>elastic_search_ep := remove1 ep (elastic_search_ep s)\<rparr> in
       obind (if elastic_search_ep s = [] \<and> is_active s then disable_logging curl s else Some (Inr s)) (\<lambda>s. Some (Inr (True, s))))"

text \<open>A change of the first interval connects the callback of the second.\<close>

definition set_freq_stats :: "u64 \<Rightarrow> int \<Rightarrow> elastic \<Rightarrow> bool \<times> elastic" where
  "set_freq_stats last_tick freq s = (if freq < 0 \<or> freq > 1000 then (False, s)
     else let s = s\<lparr>freq_stats := freq\<rparr> in
       (True, if is_active s
              then let s = tick_disconnect (es_tick_stats s) s in
                   if freq_stats s > 0 then subscribe_stats Config_task last_tick s else s
              else s))"

definition set_freq_config :: "u64 \<Rightarrow> int \<Rightarrow> elastic \<Rightarrow> bool \<times> elastic" where
  "set_freq_config last_tick freq s = (if freq < 0 then (False, s)
     else let s = s\<lparr>freq_config := freq\<rparr> in
       (True, if is_active s
              then let s = tick_disconnect (es_tick_config s) s in
                   if freq_config s > 0 then subscribe_config last_tick s else s
              else s))"

definition set_batch_stats_max_size :: "int \<Rightarrow> elastic \<Rightarrow> bool \<times> elastic" where
  "set_batch_stats_max_size n s = (if n < 1 \<or> n > 1000 then (False, s) else (True, s\<lparr>batch_stats_max_no := n\<rparr>))"

definition set_batch_config_max_size :: "int \<Rightarrow> elastic \<Rightarrow> bool \<times> elastic" where
  "set_batch_config_max_size n s = (if n < 1 \<or> n > 1000 then (False, s) else (True, s\<lparr>batch_config_max_no := n\<rparr>))"

definition enable_logging :: "rib \<Rightarrow> u64 \<Rightarrow> u64 \<Rightarrow> elastic \<Rightarrow> (bool \<times> elastic) result" where
  "enable_logging r now last_tick s =
     (if is_active s then Inr (False, s)
      else if freq_config s = 0 \<and> freq_stats s = 0 then Inr (False, s)
      else let s = s\<lparr>active_since := now, sent_packets := 0\<rparr> in
        rbind (initialise_batch_stats r s) (\<lambda>s.
        rbind (initialise_batch_config r s) (\<lambda>s.
          let s = (if freq_config s > 0 then subscribe_config last_tick s else s);
              s = (if freq_stats s > 0 then subscribe_ue (subscribe_stats Stats_task last_tick s) else s)
          in Inr (True, subscribe_curl s))))"

section \<open>Signals\<close>

text \<open>
  The tick calls the callbacks that were connected when it started and still are, in the order
  of their connection. The parameters depend on the position of the callback.
\<close>

record es_input =
  es_now :: "nat \<Rightarrow> nat \<Rightarrow> string"
  es_curl :: "nat \<Rightarrow> curl_round"
  es_wait :: "nat \<Rightarrow> nat \<Rightarrow> curl_round"

definition run_es_task :: "protobuf \<Rightarrow> es_input \<Rightarrow> rib \<Rightarrow> nat \<Rightarrow> es_task \<Rightarrow> elastic \<Rightarrow> elastic run" where
  "run_es_task pb inp r i task s = (case task of
     Stats_task \<Rightarrow> Some (process_stats pb (es_now inp i) r s)
   | Config_task \<Rightarrow> Some (process_config pb (es_now inp i) r s)
   | Curl_task \<Rightarrow> process_curl (es_curl inp i) (es_wait inp i) s)"

definition es_tick :: "protobuf \<Rightarrow> es_input \<Rightarrow> rib \<Rightarrow> u64 \<Rightarrow> elastic \<Rightarrow> elastic run" where
  "es_tick pb inp r t s = foldO (\<lambda>(i, c, task, period, start) s.
       if c \<in> fst ` set (es_ticks s) \<and> tick_due period start t then run_es_task pb inp r i task s else Some (Inr s))
     (enumerate 0 (es_ticks s)) s"

definition es_user_gone :: "rib \<Rightarrow> elastic \<Rightarrow> elastic run" where
  "es_user_gone r s = foldO (\<lambda>c s. if c \<in> set (es_disconnects s) then Some (last_ue_disconnect r s) else Some (Inr s))
     (es_disconnects s) s"

section \<open>Invariant\<close>

definition overflow :: "exn \<Rightarrow> bool" where
  "overflow e \<longleftrightarrow> e = Undefined_behaviour ''signed overflow''"

definition settings_ok :: "elastic \<Rightarrow> bool" where
  "settings_ok s \<longleftrightarrow> 0 \<le> freq_stats s \<and> freq_stats s \<le> 1000 \<and> 0 \<le> freq_config s \<and> freq_config s < 2 ^ 31
     \<and> 1 \<le> batch_stats_max_no s \<and> batch_stats_max_no s \<le> 1000
     \<and> 1 \<le> batch_config_max_no s \<and> batch_config_max_no s \<le> 1000
     \<and> distinct (elastic_search_ep s) \<and> list_all endpoint_ok (elastic_search_ep s)"

text \<open>Every callback that collects is held by a member; the counters are set while any is connected.\<close>

definition slot_ok :: "elastic \<Rightarrow> nat \<times> es_task \<times> u64 \<times> u64 \<Rightarrow> bool" where
  "slot_ok s = (\<lambda>(c, task, period, _). c < es_next s \<and> period \<noteq> 0
     \<and> (task = Stats_task \<longrightarrow> es_tick_stats s = Some c)
     \<and> (task = Config_task \<longrightarrow> es_tick_stats s = Some c \<or> es_tick_config s = Some c))"

definition counting :: "elastic \<Rightarrow> bool" where
  "counting s \<longleftrightarrow> (\<exists>n m. batch_stats_current_no s = Some n \<and> batch_config_current_no s = Some m \<and> 0 \<le> n \<and> 0 \<le> m)"

definition slots_ok :: "elastic \<Rightarrow> bool" where
  "slots_ok s \<longleftrightarrow> (\<forall>x \<in> set (es_ticks s). slot_ok s x) \<and> distinct (map fst (es_ticks s))
     \<and> (es_ticks s = [] \<and> es_disconnects s = [] \<or> counting s)
     \<and> (\<forall>c. es_tick_stats s = Some c \<or> es_tick_config s = Some c \<longrightarrow> c < es_next s)"

definition es_inv :: "elastic \<Rightarrow> bool" where
  "es_inv s \<longleftrightarrow> settings_ok s \<and> slots_ok s"

lemma returns_rbind:
  "returns E J (Some m) \<Longrightarrow> (\<And>x. J x \<Longrightarrow> returns E I (Some (f x))) \<Longrightarrow> returns E I (Some (rbind m f))"
  by (cases m) simp_all

lemma returns_foldR:
  "I s \<Longrightarrow> (\<And>x s. x \<in> set xs \<Longrightarrow> I s \<Longrightarrow> returns E I (Some (f x s))) \<Longrightarrow> returns E I (Some (foldR f xs s))"
  by (induction xs arbitrary: s) (auto intro: returns_rbind)

lemma returns_mono: "returns E J m \<Longrightarrow> (\<And>x. J x \<Longrightarrow> I x) \<Longrightarrow> returns E I m"
  by (auto simp: returns_def split: option.splits sum.splits)

lemma returns_int32: "returns overflow (\<lambda>x. x = i) (Some (int32 i))"
  by (simp add: int32_def overflow_def)

lemma user_count_ok: "returns overflow (\<lambda>n. 0 \<le> n) (Some (user_count r))"
  unfolding user_count_def
proof (rule returns_foldR)
  fix b and n :: int
  assume b: "b \<in> set (get_available_base_stations r)" "0 \<le> n"
  then obtain e where "get_bs b r = Some e" using available_get_bs by auto
  then show "returns overflow (\<lambda>n. 0 \<le> n)
      (Some (rbind (deref_bs b r) (\<lambda>e. int32 (n + int (length (ue_config (ue_configs e)))))))"
    using b(2) by (simp add: deref_bs_def returns_mono [OF returns_int32])
qed simp

text \<open>The parts of the state that a batch, a transfer and a counter change.\<close>

definition same_slots :: "elastic \<Rightarrow> elastic \<Rightarrow> bool" where
  "same_slots s s' \<longleftrightarrow> es_ticks s' = es_ticks s \<and> es_disconnects s' = es_disconnects s \<and> es_next s' = es_next s
     \<and> es_tick_stats s' = es_tick_stats s \<and> es_tick_config s' = es_tick_config s \<and> es_tick_curl s' = es_tick_curl s
     \<and> es_ue_disconnect s' = es_ue_disconnect s
     \<and> elastic_search_ep s' = elastic_search_ep s \<and> freq_stats s' = freq_stats s \<and> freq_config s' = freq_config s
     \<and> batch_stats_max_no s' = batch_stats_max_no s \<and> batch_config_max_no s' = batch_config_max_no s
     \<and> (counting s \<longrightarrow> counting s')"

lemma same_slots_inv: "same_slots s s' \<Longrightarrow> es_inv s \<Longrightarrow> es_inv s'"
  by (auto simp: same_slots_def es_inv_def settings_ok_def slots_ok_def slot_ok_def)

lemma same_slots_trans: "same_slots s t \<Longrightarrow> same_slots t u \<Longrightarrow> same_slots s u"
  by (simp add: same_slots_def)

lemma initialise_ok:
  "returns overflow (\<lambda>s'. same_slots s s' \<and> batch_stats_current_no s' = Some 0 \<and> batch_config_current_no s' = batch_config_current_no s) (Some (initialise_batch_stats r s))"
  "returns overflow (\<lambda>s'. same_slots s s' \<and> batch_config_current_no s' = Some 0
     \<and> batch_stats_current_no s' = batch_stats_current_no s) (Some (initialise_batch_config r s))"
  unfolding initialise_batch_stats_def initialise_batch_config_def Let_def
  by (rule returns_rbind [OF user_count_ok], rule returns_rbind [OF returns_int32], rule returns_rbind [OF returns_int32],
      auto simp: same_slots_def counting_def)
    (rule returns_rbind [OF returns_int32], rule returns_rbind [OF returns_int32], auto simp: same_slots_def counting_def)

lemma trigger_send_same: "same_slots s (trigger_send dat s)"
  by (simp add: same_slots_def trigger_send_def counting_def)

lemma collected_ok:
  assumes "rib_inv r"
  shows "returns overflow (\<lambda>(n, _, _). 0 \<le> n) (Some (foldR (stats_of_bs pb now r) (get_available_base_stations r) (0, 0, dat)))"
proof (rule returns_foldR)
  fix b and acc :: "int \<times> nat \<times> string"
  assume b: "b \<in> set (get_available_base_stations r)" "case acc of (n, _, _) \<Rightarrow> 0 \<le> n"
  obtain n k d where acc: "acc = (n, k, d)" by (metis prod_cases3)
  obtain e where e: "get_bs b r = Some e" using b(1) available_get_bs by auto
  have users: "returns overflow (\<lambda>_. True) (Some (foldR (stats_of_user pb now e) (ue_config (ue_configs e)) (k, d)))"
  proof (rule returns_foldR)
    fix c and x :: "nat \<times> string"
    assume "c \<in> set (ue_config (ue_configs e))"
    then obtain u where "get_ue_mac_info (rnti_of c) e = Some u" using users_known [OF assms e] by auto
    then show "returns overflow (\<lambda>_. True) (Some (stats_of_user pb now e c x))" by (simp add: stats_of_user_def case_prod_beta)
  qed simp
  show "returns overflow (\<lambda>(n, _, _). 0 \<le> n) (Some (stats_of_bs pb now r b acc))"
    unfolding stats_of_bs_def acc prod.case using e
    by (simp add: deref_bs_def)
      (rule returns_rbind [OF returns_int32], rule returns_rbind [OF users], use b(2) acc in auto)
qed simp

lemma process_stats_ok:
  assumes "rib_inv r" "counting s"
  shows "returns overflow (same_slots s) (Some (process_stats pb now r s))"
  unfolding process_stats_def
proof (rule returns_rbind [OF collected_ok [OF assms(1)]])
  fix x :: "int \<times> nat \<times> string"
  assume x: "case x of (n, _, _) \<Rightarrow> 0 \<le> n"
  obtain n k d where acc: "x = (n, k, d)" by (metis prod_cases3)
  obtain c where c: "batch_stats_current_no s = Some c" "0 \<le> c" using assms(2) by (auto simp: counting_def)
  have same: "same_slots s (s\<lparr>batch_stats_current_no := Some (c + n), batch_stats_data := d\<rparr>)"
    using x c acc by (auto simp: same_slots_def counting_def)
  have flush: "returns overflow (same_slots s) (Some (initialise_batch_stats r t))" if "same_slots s t" for t
    by (rule returns_mono [OF initialise_ok(1)]) (use that same_slots_trans in blast)
  show "returns overflow (same_slots s) (Some (case x of (n, _, dat) \<Rightarrow> rbind (current (batch_stats_current_no s)) (\<lambda>c.
     rbind (int32 (c + n)) (\<lambda>c. let s = s\<lparr>batch_stats_current_no := Some c, batch_stats_data := dat\<rparr> in
       if c \<ge> batch_stats_max_no s then initialise_batch_stats r (trigger_send (batch_stats_data s) s) else Inr s))))"
    unfolding acc prod.case c(1) current_def option.case rbind_Inr Let_def
    by (rule returns_rbind [OF returns_int32])
      (use same same_slots_trans [OF same trigger_send_same] in \<open>auto intro!: flush\<close>)
qed

lemma process_config_ok:
  assumes "counting s"
  shows "returns overflow (same_slots s) (Some (process_config pb now r s))"
proof -
  obtain c where c: "batch_config_current_no s = Some c" "0 \<le> c" using assms by (auto simp: counting_def)
  have same: "same_slots s (s\<lparr>batch_config_data := d, batch_config_current_no := Some (c + 1)\<rparr>)" for d
    using c by (auto simp: same_slots_def counting_def)
  have flush: "returns overflow (same_slots s) (Some (initialise_batch_config r t))" if "same_slots s t" for t
    by (rule returns_mono [OF initialise_ok(2)]) (use that same_slots_trans in blast)
  show ?thesis
    unfolding process_config_def Let_def
    by (simp add: current_def c(1), rule returns_rbind [OF returns_int32])
      (use same same_slots_trans [OF same trigger_send_same] in \<open>auto intro!: flush\<close>)
qed

lemma last_ue_disconnect_ok: "returns overflow (same_slots s) (Some (last_ue_disconnect r s))"
  unfolding last_ue_disconnect_def
proof (rule returns_rbind [OF user_count_ok])
  fix n :: int
  have "same_slots s s" by (simp add: same_slots_def)
  moreover have "returns overflow (same_slots s) (Some (initialise_batch_stats r (trigger_send d s)))" for d
    by (rule returns_mono [OF initialise_ok(1)]) (use trigger_send_same same_slots_trans in blast)
  ultimately show "returns overflow (same_slots s) (Some (if n = 0 then initialise_batch_stats r (trigger_send (batch_stats_data s) s) else Inr s))"
    by simp
qed

section \<open>Waiting\<close>

text \<open>The transfers that finish until the loop ends.\<close>

lemma wait_loop_Some:
  "wait_stops (curl (k + n)) \<Longrightarrow> \<forall>i < n. \<not> wait_stops (curl (k + i)) \<Longrightarrow>
     wait_loop curl k s = Some (s\<lparr>curl_finished := curl_finished s @ concat (map (\<lambda>i. round_codes (curl (k + i))) [0..<Suc n])\<rparr>)"
proof (induction n arbitrary: k s)
  case 0
  then show ?case by (subst wait_loop.simps) (simp add: wait_stops_def es_perform_def Let_def)
next
  case (Suc n)
  let ?s = "es_perform (curl k) s"
  have "wait_loop curl k s = wait_loop curl (k + 1) ?s"
    using Suc.prems(2) [rule_format, of 0] by (subst wait_loop.simps) (simp add: wait_stops_def Let_def)
  moreover have "wait_loop curl (k + 1) ?s = Some (?s\<lparr>curl_finished := curl_finished ?s @ concat (map (\<lambda>i. round_codes (curl (k + 1 + i))) [0..<Suc n])\<rparr>)"
    by (rule Suc.IH) (use Suc.prems in auto)
  moreover have "map (\<lambda>i. round_codes (curl (k + i))) [0..<Suc (Suc n)] = round_codes (curl k) # map (\<lambda>i. round_codes (curl (k + 1 + i))) [0..<Suc n]"
    by (simp add: map_upt_Suc del: upt_Suc)
  ultimately show ?case by (simp add: es_perform_def del: upt_Suc)
qed

lemma wait_loop_stops:
  assumes "wait_loop curl k s = Some s'"
  shows "\<exists>i. wait_stops (curl (k + i))"
proof (rule wait_loop.raw_induct [where P = "\<lambda>curl k _ _. \<exists>i. wait_stops (curl (k + i))", OF _ assms])
  fix loop and curl :: "nat \<Rightarrow> curl_round" and k s s'
  assume IH: "\<And>curl k s y. loop curl k s = Some y \<Longrightarrow> \<exists>i. wait_stops (curl (k + i))"
    and body: "(let s = es_perform (curl k) s in if \<not> round_ok (curl k) then Some s
      else if \<not> round_wait_ok (curl k) then Some s
      else if round_running (curl k) \<noteq> 0 then loop curl (k + 1) s else Some s) = Some s'"
  show "\<exists>i. wait_stops (curl (k + i))"
  proof (cases "wait_stops (curl k)")
    case True
    then show ?thesis by (intro exI [of _ 0]) simp
  next
    case False
    then have "loop curl (k + 1) (es_perform (curl k) s) = Some s'"
      using body by (simp add: wait_stops_def Let_def)
    from IH [OF this] obtain i where "wait_stops (curl (k + 1 + i))" by (rule exE)
    then show ?thesis by (intro exI [of _ "Suc i"]) simp
  qed
qed

lemma release_ok: "returns overflow (same_slots s) (Some (curl_release_handles s))"
proof -
  have "returns overflow (same_slots s) (Some (foldR (\<lambda>code s. if code = 200
       then rbind (int32 (sent_packets s + 1)) (\<lambda>n. Inr (s\<lparr>sent_packets := n\<rparr>)) else Inr s) (curl_finished s) s))"
  proof (rule returns_foldR)
    fix code :: nat and t
    assume "same_slots s t"
    then have "same_slots s (t\<lparr>sent_packets := n\<rparr>)" for n by (simp add: same_slots_def counting_def)
    then show "returns overflow (same_slots s) (Some (if code = 200
       then rbind (int32 (sent_packets t + 1)) (\<lambda>n. Inr (t\<lparr>sent_packets := n\<rparr>)) else Inr t))"
      using \<open>same_slots s t\<close> by (simp add: returns_rbind [OF returns_int32])
  qed (simp add: same_slots_def)
  then show ?thesis
    unfolding curl_release_handles_def by (rule returns_rbind) (simp add: same_slots_def counting_def)
qed

lemma perform_same: "same_slots s (es_perform c s)" "same_slots s (s\<lparr>curl_finished := x\<rparr>)"
  by (simp_all add: es_perform_def same_slots_def counting_def)

lemma wait_curl_end_ok:
  assumes "\<exists>k. wait_stops (curl k)"
  shows "returns overflow (same_slots s) (wait_curl_end curl s)"
proof -
  define n where "n = (LEAST k. wait_stops (curl k))"
  have n: "wait_stops (curl n)" "\<forall>i < n. \<not> wait_stops (curl i)"
    unfolding n_def using assms by (auto intro: LeastI_ex dest: not_less_Least)
  have "same_slots s (s\<lparr>curl_finished := x\<rparr>)" for x by (rule perform_same)
  then have "returns overflow (same_slots s) (Some (curl_release_handles (s\<lparr>curl_finished := x\<rparr>)))" for x
    using returns_mono [OF release_ok] same_slots_trans by blast
  then show ?thesis
    using wait_loop_Some [of curl 0 n s] n by (simp add: wait_curl_end_def del: upt_Suc)
qed

section \<open>Operations keep the invariant\<close>

lemma tick_disconnect_filter: "tick_disconnect c s = s\<lparr>es_ticks := filter (\<lambda>x. Some (fst x) \<noteq> c) (es_ticks s)\<rparr>"
proof (cases "tick_connected c s")
  case False
  then have "filter (\<lambda>x. Some (fst x) \<noteq> c) (es_ticks s) = es_ticks s"
    by (auto simp: tick_connected_def filter_id_conv image_iff split: option.splits)
  then show ?thesis using False by (simp add: tick_disconnect_def)
qed (simp add: tick_disconnect_def)

lemma counting_simps [simp]:
  "counting (s\<lparr>es_ticks := x\<rparr>) = counting s" "counting (s\<lparr>es_disconnects := y\<rparr>) = counting s"
  "counting (s\<lparr>es_next := n\<rparr>) = counting s" "counting (s\<lparr>es_tick_stats := c\<rparr>) = counting s"
  "counting (s\<lparr>es_tick_config := c\<rparr>) = counting s" "counting (s\<lparr>es_tick_curl := c\<rparr>) = counting s"
  "counting (s\<lparr>es_ue_disconnect := c\<rparr>) = counting s" "counting (s\<lparr>freq_stats := f\<rparr>) = counting s"
  "counting (s\<lparr>freq_config := f\<rparr>) = counting s" "counting (s\<lparr>elastic_search_ep := e\<rparr>) = counting s"
  by (simp_all add: counting_def)

lemma distinct_map_filter_fst: "distinct (map fst xs) \<Longrightarrow> distinct (map fst (filter P xs))"
  by (rule distinct_map_filter)

lemma disconnect_inv: "es_inv s \<Longrightarrow> es_inv (tick_disconnect c s)" "es_inv s \<Longrightarrow> es_inv (ue_disconnected s)"
  unfolding tick_disconnect_filter
  by (auto simp: ue_disconnected_def es_inv_def settings_ok_def slots_ok_def slot_ok_def distinct_map_filter_fst)

lemma disable_ok:
  assumes "es_inv s" "\<exists>k. wait_stops (curl k)"
  shows "returns overflow es_inv (disable_logging curl s)"
  unfolding disable_logging_def Let_def
  by (rule returns_mono [OF wait_curl_end_ok [OF assms(2)]], erule same_slots_inv) (simp add: disconnect_inv assms(1))

lemma process_curl_ok:
  assumes "es_inv s" "\<exists>k. wait_stops (curl k)"
  shows "returns overflow es_inv (process_curl c curl s)"
  unfolding process_curl_def Let_def
proof (rule returns_obind [where J = es_inv])
  have s: "es_inv (es_perform c s)" using same_slots_inv [OF perform_same(1) assms(1)] .
  then show "returns overflow es_inv (if \<not> round_ok c then disable_logging curl (es_perform c s) else Some (Inr (es_perform c s)))"
    using disable_ok [OF s assms(2)] by simp
next
  fix t assume "es_inv t"
  then show "returns overflow es_inv (Some (curl_release_handles t))"
    using returns_mono [OF release_ok] same_slots_inv by blast
qed

text \<open>A connection made anew, when the member that takes it holds no live one.\<close>

text \<open>Subscribing appends one slot with a new number; the others stay valid.\<close>

lemma appended_slots:
  assumes "es_inv s" "es_ticks t = es_ticks s @ [x]" "fst x = es_next s" "es_next t = es_next s + 1" "slot_ok t x" "counting t"
    and "\<And>c. es_tick_stats t = Some c \<or> es_tick_config t = Some c \<Longrightarrow>
      c = es_next s \<or> es_tick_stats s = Some c \<or> es_tick_config s = Some c"
    and "\<And>y. y \<in> set (es_ticks s) \<Longrightarrow> es_tick_stats s = Some (fst y) \<Longrightarrow> es_tick_stats t = Some (fst y)"
    and "\<And>y. y \<in> set (es_ticks s) \<Longrightarrow> es_tick_config s = Some (fst y) \<Longrightarrow> es_tick_config t = Some (fst y)"
  shows "slots_ok t"
proof -
  have old: "slot_ok s y" "fst y < es_next s" if "y \<in> set (es_ticks s)" for y
    using assms(1) that by (auto simp: es_inv_def slots_ok_def slot_ok_def)
  have "distinct (map fst (es_ticks s))" using assms(1) by (simp add: es_inv_def slots_ok_def)
  moreover have "es_next s \<notin> fst ` set (es_ticks s)" using old(2) by fastforce
  moreover have "slot_ok t y" if "y \<in> set (es_ticks s)" for y
    using old(1) [OF that] assms(8,9) [OF that] assms(4) by (cases y) (auto simp: slot_ok_def)
  moreover have "c < es_next t" if "es_tick_stats t = Some c \<or> es_tick_config t = Some c" for c
    using assms(1,4) assms(7) [OF that] by (auto simp: es_inv_def slots_ok_def intro: less_SucI)
  ultimately show ?thesis using assms(2,3,5,6) by (auto simp: slots_ok_def)
qed

lemma period_of_frequency:
  assumes "0 < i" "i < 2 ^ 31"
  shows "(word_of_int i :: u64) \<noteq> 0"
proof
  assume "(word_of_int i :: u64) = 0"
  then have "uint (word_of_int i :: u64) = 0" by simp
  then show False using assms by (simp add: uint_word_of_int)
qed

lemma subscribe_inv:
  assumes "es_inv s" "counting s"
  shows "0 < freq_stats s \<Longrightarrow> \<not> tick_connected (es_tick_stats s) s \<Longrightarrow> task \<in> {Stats_task, Config_task} \<Longrightarrow> es_inv (subscribe_stats task start s)"
    "0 < freq_config s \<Longrightarrow> \<not> tick_connected (es_tick_config s) s \<Longrightarrow> es_inv (subscribe_config start s)"
    "es_inv (subscribe_curl s)" "es_inv (subscribe_ue s)"
proof -
  have f: "freq_stats s < 2 ^ 31" "freq_config s < 2 ^ 31" and set: "settings_ok s"
    using assms(1) by (simp_all add: es_inv_def settings_ok_def)
  note one = subscribe_stats_def subscribe_config_def subscribe_curl_def subscribe_ue_def es_subscribe_def
  show "es_inv (subscribe_stats task start s)"
    if a: "0 < freq_stats s" "\<not> tick_connected (es_tick_stats s) s" "task \<in> {Stats_task, Config_task}"
  proof -
    have "slots_ok (subscribe_stats task start s)"
      by (rule appended_slots [OF assms(1), where x = "(es_next s, task, word_of_int (freq_stats s), start)"])
        (use assms(2) a period_of_frequency [OF a(1) f(1)] in \<open>auto simp: one slot_ok_def tick_connected_def\<close>)
    then show ?thesis using set by (simp add: es_inv_def settings_ok_def one)
  qed
  show "es_inv (subscribe_config start s)" if a: "0 < freq_config s" "\<not> tick_connected (es_tick_config s) s"
  proof -
    have "slots_ok (subscribe_config start s)"
      by (rule appended_slots [OF assms(1), where x = "(es_next s, Config_task, word_of_int (freq_config s), start)"])
        (use assms(2) a period_of_frequency [OF a(1) f(2)] in \<open>auto simp: one slot_ok_def tick_connected_def\<close>)
    then show ?thesis using set by (simp add: es_inv_def settings_ok_def one)
  qed
  have "slots_ok (subscribe_curl s)"
    by (rule appended_slots [OF assms(1), where x = "(es_next s, Curl_task, 20, 0)"])
      (use assms(2) in \<open>auto simp: one slot_ok_def\<close>)
  then show "es_inv (subscribe_curl s)" using set by (simp add: es_inv_def settings_ok_def one)
  have "slot_ok (subscribe_ue s) y" if "y \<in> set (es_ticks s)" for y
    using assms(1) that by (cases y) (auto simp: es_inv_def slots_ok_def slot_ok_def one)
  then show "es_inv (subscribe_ue s)"
    using assms by (auto simp: es_inv_def settings_ok_def slots_ok_def one less_SucI)
qed

lemma active_counting: "es_inv s \<Longrightarrow> is_active s \<Longrightarrow> counting s"
  by (auto simp: es_inv_def slots_ok_def is_active_def tick_connected_def split: option.splits)

lemma disconnected: "\<not> tick_connected c (tick_disconnect c s)"
  by (auto simp: tick_disconnect_filter tick_connected_def split: option.splits)

lemma disconnect_simps [simp]:
  "freq_stats (tick_disconnect c s) = freq_stats s" "freq_config (tick_disconnect c s) = freq_config s"
  "counting (tick_disconnect c s) = counting s"
  "es_tick_stats (tick_disconnect c s) = es_tick_stats s" "es_tick_config (tick_disconnect c s) = es_tick_config s"
  by (simp_all add: tick_disconnect_filter)

lemma settings_inv:
  assumes "es_inv s"
  shows "es_inv (snd (set_freq_stats t f s))" "f < 2 ^ 31 \<Longrightarrow> es_inv (snd (set_freq_config t f s))"
    "es_inv (snd (set_batch_stats_max_size f s))" "es_inv (snd (set_batch_config_max_size f s))"
    "es_inv (snd (add_endpoint ep s))"
proof -
  have stats: "es_inv (s\<lparr>freq_stats := f\<rparr>)" if "0 \<le> f" "f \<le> 1000"
    using assms that by (auto simp: es_inv_def settings_ok_def slots_ok_def slot_ok_def)
  then show "es_inv (snd (set_freq_stats t f s))"
    using assms disconnect_inv(1) [OF stats] active_counting [OF stats]
    by (auto simp: set_freq_stats_def Let_def not_less intro!: subscribe_inv(1) disconnected)
       (use disconnected [of "es_tick_stats s" "s\<lparr>freq_stats := f\<rparr>"] in simp)
  have config: "es_inv (s\<lparr>freq_config := f\<rparr>)" if "0 \<le> f" "f < 2 ^ 31"
    using assms that by (auto simp: es_inv_def settings_ok_def slots_ok_def slot_ok_def)
  then show "es_inv (snd (set_freq_config t f s))" if "f < 2 ^ 31"
    using assms that disconnect_inv(1) [OF config] active_counting [OF config]
    by (auto simp: set_freq_config_def Let_def not_less intro!: subscribe_inv(2) disconnected)
       (use disconnected [of "es_tick_config s" "s\<lparr>freq_config := f\<rparr>"] in simp)
  show "es_inv (snd (set_batch_stats_max_size f s))" "es_inv (snd (set_batch_config_max_size f s))" "es_inv (snd (add_endpoint ep s))"
    using assms by (auto simp: set_batch_stats_max_size_def set_batch_config_max_size_def add_endpoint_def es_inv_def
      settings_ok_def slots_ok_def slot_ok_def counting_def)
qed

lemma remove_endpoint_ok:
  assumes "es_inv s" "\<exists>k. wait_stops (curl k)"
  shows "returns overflow (\<lambda>(_, s). es_inv s) (remove_endpoint curl ep s)"
proof (cases "ep \<in> set (elastic_search_ep s)")
  case True
  define t where "t = s\<lparr>elastic_search_ep := remove1 ep (elastic_search_ep s)\<rparr>"
  have inv: "es_inv t"
    using assms(1) set_remove1_subset [of ep "elastic_search_ep s"]
    by (auto simp: es_inv_def settings_ok_def slots_ok_def slot_ok_def list_all_iff t_def)
  have "remove_endpoint curl ep s = obind (if elastic_search_ep t = [] \<and> is_active t then disable_logging curl t else Some (Inr t))
      (\<lambda>s. Some (Inr (True, s)))"
    using True unfolding remove_endpoint_def Let_def t_def by (simp only: not_True_eq_False if_False)
  then show ?thesis using inv disable_ok [OF inv assms(2)] by (auto intro!: returns_obind [where J = es_inv])
qed (use assms(1) in \<open>simp add: remove_endpoint_def\<close>)

definition connect_all :: "u64 \<Rightarrow> elastic \<Rightarrow> elastic" where
  "connect_all t s = (let s = (if freq_config s > 0 then subscribe_config t s else s);
     s = (if freq_stats s > 0 then subscribe_ue (subscribe_stats Stats_task t s) else s) in subscribe_curl s)"

lemma connect_all_inv:
  assumes "es_inv u" "counting u" "\<not> is_active u"
  shows "es_inv (connect_all t u)"
proof -
  have no: "\<not> tick_connected (es_tick_config u) u" "\<not> tick_connected (es_tick_stats u) u"
    using assms(3) by (simp_all add: is_active_def)
  define v where "v = (if freq_config u > 0 then subscribe_config t u else u)"
  have v: "es_inv v" "counting v" using assms(1) no(1) assms(2) subscribe_inv(2) [OF assms(1,2)]
    by (auto simp: v_def subscribe_config_def es_subscribe_def)
  have "es_tick_stats u \<noteq> Some (es_next u)"
    using assms(1) unfolding es_inv_def slots_ok_def by blast
  then have no': "\<not> tick_connected (es_tick_stats v) v"
    using no(2) by (auto simp: v_def subscribe_config_def es_subscribe_def tick_connected_def split: option.splits)
  define w where "w = (if freq_stats v > 0 then subscribe_ue (subscribe_stats Stats_task t v) else v)"
  have c: "counting (subscribe_stats Stats_task t v)" using v(2) by (simp add: subscribe_stats_def es_subscribe_def)
  have w: "es_inv w" "counting w"
    using v subscribe_inv(1) [OF v _ no', of Stats_task t] subscribe_inv(4) [OF _ c] c
    by (auto simp: w_def subscribe_ue_def)
  show ?thesis
    using subscribe_inv(3) [OF w] by (simp add: connect_all_def Let_def v_def [symmetric] w_def [symmetric])
qed

lemma enable_ok:
  assumes "es_inv s"
  shows "returns overflow (\<lambda>(_, s). es_inv s) (Some (enable_logging r now t s))"
proof (cases "is_active s \<or> (freq_config s = 0 \<and> freq_stats s = 0)")
  case True
  then show ?thesis using assms by (auto simp: enable_logging_def)
next
  case False
  define a where "a = s\<lparr>active_since := now, sent_packets := 0\<rparr>"
  have a: "es_inv a" "\<not> is_active a"
  proof -
    have "same_slots s a" by (simp add: a_def same_slots_def counting_def)
    then show "es_inv a" using assms by (rule same_slots_inv)
    show "\<not> is_active a" using False by (simp add: a_def is_active_def tick_connected_def split: option.splits)
  qed
  have "enable_logging r now t s = rbind (initialise_batch_stats r a) (\<lambda>s. rbind (initialise_batch_config r s) (\<lambda>s. Inr (True, connect_all t s)))"
  proof -
    have 1: "\<not> is_active s" and 2: "\<not> (freq_config s = 0 \<and> freq_stats s = 0)" using False by auto
    show ?thesis unfolding enable_logging_def if_not_P [OF 1] if_not_P [OF 2] by (simp add: connect_all_def a_def Let_def)
  qed
  moreover have "returns overflow (\<lambda>(_, s). es_inv s) (Some (rbind (initialise_batch_stats r a) (\<lambda>s. rbind (initialise_batch_config r s) (\<lambda>s. Inr (True, connect_all t s)))))"
  proof (rule returns_rbind [OF initialise_ok(1)], elim conjE, rule returns_rbind [OF initialise_ok(2)], elim conjE)
    fix b c assume b: "same_slots a b" "batch_stats_current_no b = Some 0" "same_slots b c" "batch_config_current_no c = Some 0"
      "batch_stats_current_no c = batch_stats_current_no b"
    have "es_inv c" using same_slots_inv [OF same_slots_trans [OF b(1,3)] a(1)] .
    moreover have "\<not> is_active c" using a(2) b(1,3) by (simp add: is_active_def same_slots_def tick_connected_def split: option.splits)
    ultimately show "returns overflow (\<lambda>(_, s). es_inv s) (Some (Inr (True, connect_all t c)))"
      using connect_all_inv [of c t] b by (simp add: counting_def)
  qed
  ultimately show ?thesis by simp
qed

section \<open>Signals keep the invariant\<close>

lemma run_es_task_ok:
  assumes "rib_inv r" "\<And>i. \<exists>k. wait_stops (es_wait inp i k)" "es_inv s" "es_ticks s \<noteq> []"
  shows "returns overflow es_inv (run_es_task pb inp r i task s)"
proof -
  have c: "counting s" using assms(3,4) by (simp add: es_inv_def slots_ok_def)
  have inv: "returns overflow es_inv m" if "returns overflow (same_slots s) m" for m
    by (rule returns_mono [OF that]) (rule same_slots_inv [OF _ assms(3)])
  show ?thesis
    using inv [OF process_stats_ok [OF assms(1) c]] inv [OF process_config_ok [OF c]] process_curl_ok [OF assms(3,2)]
    by (simp add: run_es_task_def split: es_task.splits)
qed

lemma es_tick_ok:
  assumes "rib_inv r" "\<And>i. \<exists>k. wait_stops (es_wait inp i k)" "es_inv s"
  shows "returns overflow es_inv (es_tick pb inp r t s)"
  unfolding es_tick_def
  by (rule returns_foldO, rule assms(3)) (auto intro!: run_es_task_ok [OF assms(1,2)] split: prod.splits)

lemma es_user_gone_ok:
  assumes "es_inv s"
  shows "returns overflow es_inv (es_user_gone r s)"
  unfolding es_user_gone_def
  by (rule returns_foldO, rule assms) (auto intro: returns_mono [OF last_ue_disconnect_ok] same_slots_inv)

lemma new_elastic_inv: "es_inv (new_elastic now)"
  by (simp add: es_inv_def settings_ok_def slots_ok_def new_elastic_def) code_simp

lemma release_count:
  "foldR (\<lambda>code s. if code = 200 then rbind (int32 (sent_packets s + 1)) (\<lambda>n. Inr (s\<lparr>sent_packets := n\<rparr>)) else Inr s) (codes :: nat list) t = Inr t'
     \<Longrightarrow> t' = t\<lparr>sent_packets := sent_packets t + int (length (filter (\<lambda>c. c = 200) codes))\<rparr>"
proof (induction codes arbitrary: t)
  case (Cons code codes)
  show ?case
  proof (cases "code = 200")
    case True
    then obtain n where "int32 (sent_packets t + 1) = Inr n"
      "foldR (\<lambda>code s. if code = 200 then rbind (int32 (sent_packets s + 1)) (\<lambda>n. Inr (s\<lparr>sent_packets := n\<rparr>)) else Inr s) codes (t\<lparr>sent_packets := n\<rparr>) = Inr t'"
      using Cons.prems by (auto simp: rbind_Inr_eq)
    moreover from this(1) have "n = sent_packets t + 1" by (simp add: int32_def split: if_splits)
    ultimately show ?thesis using Cons.IH [of "t\<lparr>sent_packets := n\<rparr>"] True by (simp add: algebra_simps)
  qed (use Cons in simp)
qed simp

section \<open>Batches of configurations\<close>

definition config_record :: "protobuf \<Rightarrow> (nat \<Rightarrow> string) \<times> rib \<Rightarrow> string" where
  "config_record pb = (\<lambda>(now, r). bulk_create_index ''enb_config''
     (format_statistics_to_json (now 0) (dump_all_enb_configurations_to_json pb r) []))"

definition config_ticks :: "protobuf \<Rightarrow> ((nat \<Rightarrow> string) \<times> rib) list \<Rightarrow> elastic \<Rightarrow> elastic result" where
  "config_ticks pb xs s = foldR (\<lambda>(now, r). process_config pb now r) xs s"

text \<open>The batches of \<open>m\<close> records that \<open>xs\<close> fills, posted to each endpoint.\<close>

definition posted :: "protobuf \<Rightarrow> string list \<Rightarrow> nat \<Rightarrow> ((nat \<Rightarrow> string) \<times> rib) list \<Rightarrow> (string \<times> string) list" where
  "posted pb eps m xs = concat (map (\<lambda>k. map (\<lambda>ep. (ep @ ''/_bulk'', concat (map (config_record pb) (take m (drop (k * m) xs))))) eps)
     [0..<length xs div m])"

lemma int32_small: "0 \<le> i \<Longrightarrow> i < 2 ^ 31 \<Longrightarrow> int32 i = Inr i"
  by (simp add: int32_def)

lemma initialise_config_eq:
  assumes "0 \<le> bs_count r" "bs_count r \<le> 894" "1 \<le> batch_config_max_no s" "batch_config_max_no s \<le> 1000"
  shows "initialise_batch_config r s = Inr (s\<lparr>batch_config_current_no := Some 0, batch_config_data := []\<rparr>)"
proof -
  have "2400 * bs_count r * batch_config_max_no s \<le> 2400 * 894 * 1000"
    using assms by (intro mult_mono) auto
  moreover have "0 \<le> 2400 * bs_count r * batch_config_max_no s" using assms by simp
  ultimately show ?thesis using assms(1,2) by (simp add: initialise_batch_config_def int32_small)
qed

lemma posted_snoc:
  assumes "0 < m"
  shows "posted pb eps m (xs @ [x]) = posted pb eps m xs @ (if length xs mod m + 1 = m
    then map (\<lambda>ep. (ep @ ''/_bulk'', concat (map (config_record pb) (drop (m * (length xs div m)) (xs @ [x]))))) eps else [])"
proof -
  let ?n = "length xs"
  have old: "take m (drop (k * m) (xs @ [x])) = take m (drop (k * m) xs)" if "k < ?n div m" for k
  proof -
    have "(k + 1) * m \<le> ?n div m * m" using that by (intro mult_right_mono) auto
    also have "\<dots> \<le> ?n" by simp
    finally have "k * m + m \<le> ?n" by (simp add: algebra_simps)
    then show ?thesis by simp
  qed
  have olds: "concat (map (\<lambda>k. map (\<lambda>ep. (ep @ ''/_bulk'', concat (map (config_record pb) (take m (drop (k * m) (xs @ [x])))))) eps) [0..<?n div m])
      = concat (map (\<lambda>k. map (\<lambda>ep. (ep @ ''/_bulk'', concat (map (config_record pb) (take m (drop (k * m) xs))))) eps) [0..<?n div m])"
    using old by (intro arg_cong [where f = concat] map_cong) (simp_all del: take_append drop_append)
  have le: "m * (?n div m) \<le> ?n" by simp
  show ?thesis
  proof (cases "?n mod m + 1 = m")
    case True
    then have "Suc ?n div m = Suc (?n div m)" by (simp add: div_Suc mod_Suc)
    moreover have "length (drop (m * (?n div m)) (xs @ [x])) = m"
      using True le by (simp add: minus_mult_div_eq_mod Suc_diff_le)
    ultimately show ?thesis
      using True olds by (simp add: posted_def mult.commute [of "?n div m"] del: take_append drop_append)
  next
    case False
    then have "Suc ?n div m = ?n div m" using assms by (simp add: div_Suc mod_Suc)
    then show ?thesis using False olds by (simp add: posted_def del: take_append drop_append)
  qed
qed

lemma foldR_snoc: "foldR f (xs @ [x]) s = rbind (foldR f xs s) (f x)"
proof (induction xs arbitrary: s)
  case Nil
  then show ?case by (cases "f x s") simp_all
next
  case (Cons y ys)
  then show ?case by (cases "f y s") simp_all
qed

lemma config_ticks_state:
  assumes "batch_config_max_no s = int m" "1 \<le> m" "m \<le> 1000" "batch_config_current_no s = Some 0" "batch_config_data s = []"
    "\<forall>(_, r) \<in> set xs. 0 \<le> bs_count r \<and> bs_count r \<le> 894"
  shows "config_ticks pb xs s = Inr (s\<lparr>curl_transfers := curl_transfers s @ posted pb (elastic_search_ep s) m xs,
     batch_config_data := concat (map (config_record pb) (drop (m * (length xs div m)) xs)),
     batch_config_current_no := Some (int (length xs mod m))\<rparr>)"
  using assms(6)
proof (induction xs rule: rev_induct)
  case Nil
  then show ?case using assms(4,5) by (simp add: config_ticks_def posted_def)
next
  case (snoc x xs)
  obtain now r where x: "x = (now, r)" by fastforce
  let ?n = "length xs" and ?d = "drop (m * (length xs div m)) xs"
  define t where "t = s\<lparr>curl_transfers := curl_transfers s @ posted pb (elastic_search_ep s) m xs,
     batch_config_data := concat (map (config_record pb) ?d), batch_config_current_no := Some (int (?n mod m))\<rparr>"
  have t: "config_ticks pb (xs @ [x]) s = process_config pb now r t"
    using snoc by (simp add: config_ticks_def foldR_snoc x t_def)
  have bs: "0 \<le> bs_count r" "bs_count r \<le> 894" using snoc.prems x by auto
  have le: "m * (?n div m) \<le> ?n" by simp
  have dat: "concat (map (config_record pb) (drop (m * (?n div m)) (xs @ [x]))) = concat (map (config_record pb) ?d) @ config_record pb x"
    using le by simp
  have lt: "?n mod m < m" using assms(2) by simp
  have no: "int32 (int (?n mod m) + 1) = Inr (int (?n mod m) + 1)" using lt assms(3) by (intro int32_small) auto
  show ?case
  proof (cases "?n mod m + 1 = m")
    case True
    then have "Suc ?n div m = Suc (?n div m)" "Suc ?n mod m = 0" by (simp_all add: div_Suc mod_Suc)
    moreover have "m * Suc (?n div m) = Suc ?n"
      unfolding mult_Suc_right using True mult_div_mod_eq [of m ?n] by linarith
    moreover have "int (?n mod m) + 1 = int m" using True by linarith
    moreover have "initialise_batch_config r u = Inr (u\<lparr>batch_config_current_no := Some 0, batch_config_data := []\<rparr>)"
      if "batch_config_max_no u = int m" for u
      by (rule initialise_config_eq [OF bs]) (use that assms(2,3) in auto)
    ultimately show ?thesis
      using True no assms(1,2) dat posted_snoc [of m pb "elastic_search_ep s" xs x]
      unfolding t by (simp add: process_config_def Let_def current_def t_def trigger_send_def config_record_def x)
  next
    case False
    then have "Suc ?n div m = ?n div m" "Suc ?n mod m = Suc (?n mod m)" using assms(2) by (simp_all add: div_Suc mod_Suc)
    moreover have "\<not> int m \<le> int (?n mod m) + 1" using False lt by linarith
    ultimately show ?thesis
      using False no assms(1,2) dat posted_snoc [of m pb "elastic_search_ep s" xs x]
      unfolding t by (simp add: process_config_def Let_def current_def t_def config_record_def x)
  qed
qed

section \<open>An example\<close>

text \<open>Logging is active; and then it comes to rest because both intervals are set to 0.\<close>

definition example_elastic :: elastic where
  "example_elastic = connect_all 0 ((new_elastic 0)\<lparr>batch_stats_current_no := Some 0, batch_config_current_no := Some 0\<rparr>)"

definition resting_elastic :: elastic where
  "resting_elastic = snd (set_freq_stats 5 50 (snd (set_freq_config 5 0 (snd (set_freq_stats 5 0 example_elastic)))))"

definition idle_curl :: "nat \<Rightarrow> curl_round" where
  "idle_curl k = \<lparr>round_ok = True, round_running = 2 - k, round_codes = [200], round_wait_ok = True\<rparr>"

lemma example_elastic_inv: "es_inv example_elastic" "is_active example_elastic"
proof -
  have "list_all endpoint_ok [''localhost:9200'']" by code_simp
  then show "es_inv example_elastic"
    unfolding example_elastic_def
    by (intro connect_all_inv)
      (simp_all add: es_inv_def settings_ok_def slots_ok_def counting_def new_elastic_def is_active_def tick_connected_def)
  show "is_active example_elastic" by code_simp
qed

section \<open>Properties\<close>

text \<open>C19. Records of the configurations are batched without loss: after any number of ticks each endpoint
  has been posted the records in order, in bodies of exactly the size of a batch, and what is
  left over waits. The bound on the number of base stations is what the estimate of the memory
  needs for the largest batch.\<close>

theorem config_batches:
  assumes "batch_config_max_no s = int m" "1 \<le> m" "m \<le> 1000" "batch_config_current_no s = Some 0" "batch_config_data s = []"
    "\<forall>(_, r) \<in> set xs. 0 \<le> bs_count r \<and> bs_count r \<le> 894"
  shows "\<exists>s'. config_ticks pb xs s = Inr s'
     \<and> curl_transfers s' = curl_transfers s @ concat (map (\<lambda>k. map (\<lambda>ep. (ep @ ''/_bulk'',
         concat (map (config_record pb) (take m (drop (k * m) xs))))) (elastic_search_ep s)) [0..<length xs div m])
     \<and> batch_config_data s' = concat (map (config_record pb) (drop (m * (length xs div m)) xs))
     \<and> batch_config_current_no s' = Some (int (length xs mod m))"
  unfolding config_ticks_state [OF assms] posted_def by simp

theorem config_batches_witness:
  "\<exists>s'. config_ticks plain_pb (replicate 5 (\<lambda>_. ''now'', bs_online))
       ((new_elastic 0)\<lparr>batch_config_max_no := 2, batch_config_current_no := Some 0\<rparr>) = Inr s'
     \<and> length (curl_transfers s') = 2 \<and> batch_config_current_no s' = Some 1"
proof -
  have "bs_count bs_online = 1" by code_simp
  then have "\<forall>(_, r) \<in> set (replicate 5 (\<lambda>_ :: nat. ''now'', bs_online)). 0 \<le> bs_count r \<and> bs_count r \<le> 894"
    by simp
  from config_batches [OF _ _ _ _ _ this, of "(new_elastic 0)\<lparr>batch_config_max_no := 2, batch_config_current_no := Some 0\<rparr>" 2 plain_pb]
  show ?thesis by (fastforce simp: new_elastic_def upt_rec)
qed

text \<open>C20. Disabling the logging returns exactly when some round of the loop fails or finds that no transfer
  runs; libcurl has no bound on the time of a transfer, and neither has the loop. When it returns
  normally, nothing is collected any more, no finished transfer is left, and each one that the
  server acknowledged in the meantime has been counted.\<close>

theorem disable_logging_returns_iff:
  "((\<exists>y. disable_logging curl s = Some y) \<longleftrightarrow> (\<exists>k. wait_stops (curl k)))
   \<and> (\<forall>s' n. disable_logging curl s = Some (Inr s') \<and> wait_stops (curl n) \<and> (\<forall>i < n. \<not> wait_stops (curl i)) \<longrightarrow>
        \<not> is_active s' \<and> curl_finished s' = []
        \<and> sent_packets s' = sent_packets s
            + int (length (filter (\<lambda>c. c = 200) (curl_finished s @ concat (map (\<lambda>k. round_codes (curl k)) [0..<Suc n])))))"
proof -
  define u where "u = (let s = tick_disconnect (es_tick_config s) s; s = tick_disconnect (es_tick_stats s) s; s = ue_disconnected s
     in tick_disconnect (es_tick_curl s) s)"
  have d: "disable_logging curl s = map_option curl_release_handles (wait_loop curl 0 u)"
    by (simp add: disable_logging_def wait_curl_end_def u_def Let_def)
  have u: "\<not> is_active u" "curl_finished u = curl_finished s" "sent_packets u = sent_packets s"
    by (auto simp: u_def Let_def tick_disconnect_filter ue_disconnected_def is_active_def tick_connected_def split: option.splits)
  have least: "\<exists>n. wait_stops (curl n) \<and> (\<forall>i < n. \<not> wait_stops (curl i))" if "wait_stops (curl k)" for k
    using LeastI [of "\<lambda>k. wait_stops (curl k)", OF that] not_less_Least by blast
  have 1: "(\<exists>y. disable_logging curl s = Some y) \<longleftrightarrow> (\<exists>k. wait_stops (curl k))"
  proof
    assume "\<exists>y. disable_logging curl s = Some y"
    then obtain t where "wait_loop curl 0 u = Some t" unfolding d by auto
    from wait_loop_stops [OF this] show "\<exists>k. wait_stops (curl k)" by simp
  next
    assume "\<exists>k. wait_stops (curl k)"
    then obtain n where "wait_stops (curl n)" "\<forall>i < n. \<not> wait_stops (curl i)" using least by blast
    then show "\<exists>y. disable_logging curl s = Some y" unfolding d using wait_loop_Some [of curl 0 n u] by simp
  qed
  have 2: "\<not> is_active s' \<and> curl_finished s' = []
        \<and> sent_packets s' = sent_packets s
            + int (length (filter (\<lambda>c. c = 200) (curl_finished s @ concat (map (\<lambda>k. round_codes (curl k)) [0..<Suc n]))))"
    if a: "disable_logging curl s = Some (Inr s')" "wait_stops (curl n)" "\<forall>i < n. \<not> wait_stops (curl i)" for s' n
  proof -
    define cs where "cs = curl_finished u @ concat (map (\<lambda>k. round_codes (curl k)) [0..<Suc n])"
    have "curl_release_handles (u\<lparr>curl_finished := cs\<rparr>) = Inr s'"
      using a(1) wait_loop_Some [of curl 0 n u] a(2,3) by (simp add: d cs_def)
    then obtain t where t: "foldR (\<lambda>code s. if code = 200 then rbind (int32 (sent_packets s + 1)) (\<lambda>n. Inr (s\<lparr>sent_packets := n\<rparr>)) else Inr s)
         cs (u\<lparr>curl_finished := cs\<rparr>) = Inr t" "s' = t\<lparr>curl_finished := []\<rparr>"
      by (auto simp: curl_release_handles_def rbind_Inr_eq)
    from release_count [OF t(1)] show ?thesis
      using u t(2) by (simp add: is_active_def tick_connected_def cs_def split: option.splits)
  qed
  show ?thesis using 1 2 by blast
qed

theorem disable_logging_returns_iff_witness:
  "\<exists>s'. disable_logging idle_curl example_elastic = Some (Inr s') \<and> \<not> is_active s' \<and> sent_packets s' = 3"
proof -
  have "(case disable_logging idle_curl example_elastic of Some (Inr _) \<Rightarrow> True | _ \<Rightarrow> False)" by code_simp
  then obtain s' where s': "disable_logging idle_curl example_elastic = Some (Inr s')"
    by (auto split: option.splits sum.splits)
  have stop: "wait_stops (idle_curl 2)" "\<forall>i < 2. \<not> wait_stops (idle_curl i)"
    by (auto simp: wait_stops_def idle_curl_def)
  have "curl_finished example_elastic = []" "sent_packets example_elastic = 0" by code_simp+
  moreover have "\<not> is_active s'" "sent_packets s' = sent_packets example_elastic + int (length (filter (\<lambda>c. c = 200)
      (curl_finished example_elastic @ concat (map (\<lambda>k. round_codes (idle_curl k)) [0..<Suc 2]))))"
    using disable_logging_returns_iff [of idle_curl example_elastic] s' stop by blast+
  ultimately show ?thesis using s' by (simp add: idle_curl_def upt_rec)
qed

text \<open>A change of the interval of the statistics while the logging is active connects the callback of
  the configurations: from then on no statistics are collected, and configurations are in their place.\<close>

theorem set_freq_stats_stops_statistics:
  assumes "es_inv s" "is_active s" "0 < f" "f \<le> 1000" "set_freq_stats t f s = (ok, s')"
  shows "ok \<and> (\<forall>x \<in> set (es_ticks s'). fst (snd x) \<noteq> Stats_task)
     \<and> (\<exists>c. es_tick_stats s' = Some c \<and> (c, Config_task, word_of_int f, t) \<in> set (es_ticks s'))"
proof -
  define u where "u = tick_disconnect (es_tick_stats s) (s\<lparr>freq_stats := f\<rparr>)"
  have "is_active (s\<lparr>freq_stats := f\<rparr>)" using assms(2) by (simp add: is_active_def tick_connected_def split: option.splits)
  then have s': "ok" "s' = subscribe_stats Config_task t u"
    using assms(3-5) by (auto simp: set_freq_stats_def Let_def u_def)
  have "fst (snd x) \<noteq> Stats_task" if "x \<in> set (es_ticks u)" for x
    using assms(1) that by (auto simp: u_def tick_disconnect_filter es_inv_def slots_ok_def slot_ok_def)
  then show ?thesis
    using s' by (auto simp: subscribe_stats_def es_subscribe_def u_def)
qed

theorem set_freq_stats_stops_statistics_witness:
  "\<forall>x \<in> set (es_ticks (snd (set_freq_stats 7 50 example_elastic))). fst (snd x) \<noteq> Stats_task"
  using set_freq_stats_stops_statistics [OF example_elastic_inv, where f = 50 and t = 7
    and ok = "fst (set_freq_stats 7 50 example_elastic)" and s' = "snd (set_freq_stats 7 50 example_elastic)"] by simp

text \<open>Logging that has come to rest because both intervals were set to 0 keeps the callback for the
  transfers. When it is enabled again a second one is connected and the first forgotten: no
  member holds it, and disabling the logging does not end it.\<close>

theorem reenabled_logging_leaks:
  assumes "es_inv s" "\<not> is_active s" "es_tick_curl s = Some c" "c \<in> fst ` set (es_ticks s)"
    and "enable_logging r now t s = Inr (True, s1)" "disable_logging curl s1 = Some (Inr s2)"
  shows "c \<in> fst ` set (es_ticks s2) \<and> Some c \<notin> {es_tick_curl s2, es_tick_stats s2, es_tick_config s2}"
proof -
  obtain b u where b: "initialise_batch_stats r (s\<lparr>active_since := now, sent_packets := 0\<rparr>) = Inr b"
    and u: "initialise_batch_config r b = Inr u" and s1: "s1 = connect_all t u"
    using assms(2,5) by (auto simp: enable_logging_def connect_all_def Let_def rbind_Inr_eq split: if_splits)
  have "same_slots s u"
    using initialise_ok(1) [of "s\<lparr>active_since := now, sent_packets := 0\<rparr>" r] initialise_ok(2) [of b r] b u
    by (auto simp: same_slots_def counting_def)
  then have same: "es_ticks u = es_ticks s" "es_next u = es_next s" "es_tick_stats u = es_tick_stats s" "es_tick_config u = es_tick_config s"
    by (simp_all add: same_slots_def)
  have c: "c < es_next s" using assms(1,4) by (auto simp: es_inv_def slots_ok_def slot_ok_def)
  have "tick_connected (Some c) s" using assms(4) by (simp add: tick_connected_def)
  then have no: "es_tick_stats s \<noteq> Some c" "es_tick_config s \<noteq> Some c"
    using assms(2) by (auto simp: is_active_def)
  have kept: "c \<in> fst ` set (es_ticks s1)" and free: "Some c \<notin> {es_tick_curl s1, es_tick_stats s1, es_tick_config s1}"
    using assms(4) c no same
    by (auto simp: s1 connect_all_def Let_def subscribe_curl_def subscribe_stats_def subscribe_config_def subscribe_ue_def
      es_subscribe_def image_iff)
  define v where "v = (let s = tick_disconnect (es_tick_config s1) s1; s = tick_disconnect (es_tick_stats s) s; s = ue_disconnected s
     in tick_disconnect (es_tick_curl s) s)"
  have "returns overflow (same_slots v) (wait_curl_end curl v)"
    using wait_curl_end_ok [of curl v] assms(6) wait_loop_stops [of curl 0 v]
    by (fastforce simp: disable_logging_def wait_curl_end_def v_def Let_def)
  then have "same_slots v s2" using assms(6) by (simp add: disable_logging_def v_def Let_def)
  moreover have "c \<in> fst ` set (es_ticks v)"
  proof -
    obtain x where "x \<in> set (es_ticks s1)" "fst x = c" using kept by auto
    then have "x \<in> set (es_ticks v)"
      using free by (simp add: v_def Let_def tick_disconnect_filter ue_disconnected_def)
    then show ?thesis using \<open>fst x = c\<close> by blast
  qed
  moreover have "es_tick_curl v = es_tick_curl s1" "es_tick_stats v = es_tick_stats s1" "es_tick_config v = es_tick_config s1"
    by (simp_all add: v_def Let_def tick_disconnect_filter ue_disconnected_def)
  ultimately show ?thesis using free by (simp add: same_slots_def)
qed

theorem reenabled_logging_leaks_witness:
  "\<exists>s1 s2 c. enable_logging bs_online 0 6 resting_elastic = Inr (True, s1) \<and> disable_logging idle_curl s1 = Some (Inr s2)
     \<and> c \<in> fst ` set (es_ticks s2) \<and> Some c \<noteq> es_tick_curl s2"
proof -
  have "(case enable_logging bs_online 0 6 resting_elastic of Inl _ \<Rightarrow> False
     | Inr (b, s1) \<Rightarrow> b \<and> map_option is_ok (disable_logging idle_curl s1) = Some True)" by code_simp
  then obtain s1 where s1: "enable_logging bs_online 0 6 resting_elastic = Inr (True, s1)"
      "map_option is_ok (disable_logging idle_curl s1) = Some True"
    by (auto split: sum.splits prod.splits)
  then obtain s2 where "disable_logging idle_curl s1 = Some (Inr s2)" by (auto simp: is_ok_iff)
  note s = s1(1) this
  have inv: "es_inv resting_elastic"
    unfolding resting_elastic_def by (intro settings_inv example_elastic_inv) simp
  have "\<not> is_active resting_elastic" "es_tick_curl resting_elastic = Some 3" "3 \<in> fst ` set (es_ticks resting_elastic)" by code_simp+
  from reenabled_logging_leaks [OF inv this s] s show ?thesis by blast
qed

text \<open>The estimate of the memory for a batch is computed in \<open>int\<close>: with a legal size of the batch it
  stays in range exactly as long as the product does. For batches of 1000 this is 1533 users.\<close>

theorem batch_estimate_bounds:
  assumes "settings_ok s" "user_count r = Inr n"
  shows "(is_ok (initialise_batch_stats r s) \<longleftrightarrow> 1400 * n * batch_stats_max_no s < 2 ^ 31)
     \<and> (n \<le> 1533 \<longrightarrow> is_ok (initialise_batch_stats r s))"
proof -
  have n: "0 \<le> n" using user_count_ok [of r] assms(2) by simp
  have m: "1 \<le> batch_stats_max_no s" "batch_stats_max_no s \<le> 1000" using assms(1) by (simp_all add: settings_ok_def)
  have le: "1400 * n \<le> 1400 * n * batch_stats_max_no s" using mult_left_mono [OF m(1), of "1400 * n"] n by simp
  have iff: "is_ok (initialise_batch_stats r s) \<longleftrightarrow> 1400 * n * batch_stats_max_no s < 2 ^ 31"
    using n m le assms(2) by (auto simp: initialise_batch_stats_def int32_def Let_def)
  moreover have "1400 * n * batch_stats_max_no s \<le> 1400 * 1533 * 1000" if "n \<le> 1533" using n m that by (intro mult_mono) auto
  ultimately show ?thesis by fastforce
qed

theorem batch_estimate_bounds_witness:
  "is_ok (initialise_batch_stats bs_online (new_elastic 0))"
proof -
  have "user_count bs_online = Inr 0" by code_simp
  moreover have "settings_ok (new_elastic 0)" using new_elastic_inv [of 0] by (simp add: es_inv_def)
  ultimately show ?thesis using batch_estimate_bounds [of "new_elastic 0" bs_online 0] by simp
qed

end
