(* ===== verification/Elastic_Calls.thy ===== *)
theory Elastic_Calls
  imports Northbound Elastic_Search
begin

text \<open>
  The REST handlers of the ElasticSearch client, \<open>north_api/elastic_calls.cc\<close>, and the histories of
  the client: ticks, users that disconnect, and requests in any order. The client only reads the
  information base and sends nothing to the base stations, so that it is a system of its own.
\<close>

section \<open>Handlers\<close>

definition answer :: "string \<Rightarrow> bool \<times> elastic \<Rightarrow> (response list \<times> elastic) run" where
  "answer err = (\<lambda>(ok, s). Some (Inr ([if ok then respond Http_Ok [] else respond Http_Bad_Request (''{ '' @ quoted ''error'' @ '': '' @ quoted err @ ''}'')], s)))"

text \<open>The date is printed by \<open>fmt\<close>.\<close>

definition es_status :: "(u64 \<Rightarrow> string) \<Rightarrow> elastic \<Rightarrow> response list" where
  "es_status fmt s = [respond Http_Ok (''{'' @ quoted ''active'' @ '':'' @ (if is_active s then ''true'' else ''false'')
     @ (if is_active s then '','' @ quoted ''activeSince'' @ '':'' @ quoted (fmt (active_since s)) else '''')
     @ '','' @ quoted ''sentPackets'' @ '':'' @ int_to_string (sent_packets s)
     @ '','' @ quoted ''endpoint'' @ '':['' @ comma_separated (map quoted (elastic_search_ep s))
     @ ''],'' @ quoted ''intervalStats'' @ '':'' @ int_to_string (freq_stats s)
     @ '','' @ quoted ''intervalConfig'' @ '':'' @ int_to_string (freq_config s)
     @ '','' @ quoted ''batchStatsMaxSize'' @ '':'' @ int_to_string (batch_stats_max_no s)
     @ '','' @ quoted ''batchConfigMaxSize'' @ '':'' @ int_to_string (batch_config_max_no s) @ ''}'')]"

definition es_add_endpoint :: "string \<Rightarrow> elastic \<Rightarrow> (response list \<times> elastic) run" where
  "es_add_endpoint ep s = answer ''illegal endpoint or already present'' (add_endpoint ep s)"

definition es_remove_endpoint :: "(nat \<Rightarrow> curl_round) \<Rightarrow> string \<Rightarrow> elastic \<Rightarrow> (response list \<times> elastic) run" where
  "es_remove_endpoint curl ep s = obind (remove_endpoint curl ep s) (answer ''is the endpoint present?'')"

definition es_set_freq_stats :: "(string \<Rightarrow> u32 result) \<Rightarrow> u64 \<Rightarrow> string \<Rightarrow> elastic \<Rightarrow> (response list \<times> elastic) run" where
  "es_set_freq_stats as_int last_tick p s = obind (Some (as_int p)) (\<lambda>freq.
     answer ''Is the interval in the range 0<=dt<=1000?'' (set_freq_stats last_tick (sint freq) s))"

definition es_set_freq_config :: "(string \<Rightarrow> u32 result) \<Rightarrow> u64 \<Rightarrow> string \<Rightarrow> elastic \<Rightarrow> (response list \<times> elastic) run" where
  "es_set_freq_config as_int last_tick p s = obind (Some (as_int p)) (\<lambda>freq.
     answer ''Is the interval in the range 0<=dt?'' (set_freq_config last_tick (sint freq) s))"

definition set_batch_stats_size :: "(string \<Rightarrow> u32 result) \<Rightarrow> string \<Rightarrow> elastic \<Rightarrow> (response list \<times> elastic) run" where
  "set_batch_stats_size as_int p s = obind (Some (as_int p)) (\<lambda>n.
     answer ''Is the batch size in the range 1<=size<=1000?'' (set_batch_stats_max_size (sint n) s))"

definition set_batch_config_size :: "(string \<Rightarrow> u32 result) \<Rightarrow> string \<Rightarrow> elastic \<Rightarrow> (response list \<times> elastic) run" where
  "set_batch_config_size as_int p s = obind (Some (as_int p)) (\<lambda>n.
     answer ''Is the batch size in the range 1<=size<=1000?'' (set_batch_config_max_size (sint n) s))"

definition es_enable :: "rib \<Rightarrow> u64 \<Rightarrow> u64 \<Rightarrow> elastic \<Rightarrow> (response list \<times> elastic) run" where
  "es_enable r now last_tick s = obind (Some (enable_logging r now last_tick s)) (answer ''could not enable logging'')"

definition es_disable :: "(nat \<Rightarrow> curl_round) \<Rightarrow> elastic \<Rightarrow> (response list \<times> elastic) run" where
  "es_disable curl s = obind (disable_logging curl s) (\<lambda>s. answer ''could not disable logging'' (True, s))"

section \<open>Histories\<close>

datatype elastic_request =
    Es_status
  | Es_add string
  | Es_remove string
  | Es_stats_interval string
  | Es_config_interval string
  | Es_stats_batch string
  | Es_config_batch string
  | Es_enable
  | Es_disable

record es_env =
  ese_pb :: protobuf
  ese_int :: "string \<Rightarrow> u32 result"
  ese_fmt :: "u64 \<Rightarrow> string"

text \<open>What a request finds: the information base, the clock, the last tick, and libcurl.\<close>

record es_context =
  esc_rib :: rib
  esc_now :: u64
  esc_tick :: u64
  esc_curl :: "nat \<Rightarrow> curl_round"

definition elastic_serve :: "es_env \<Rightarrow> es_context \<Rightarrow> elastic_request \<Rightarrow> elastic \<Rightarrow> (response list \<times> elastic) run" where
  "elastic_serve env cx rq s = (case rq of
     Es_status \<Rightarrow> Some (Inr (es_status (ese_fmt env) s, s))
   | Es_add ep \<Rightarrow> es_add_endpoint ep s
   | Es_remove ep \<Rightarrow> es_remove_endpoint (esc_curl cx) ep s
   | Es_stats_interval p \<Rightarrow> es_set_freq_stats (ese_int env) (esc_tick cx) p s
   | Es_config_interval p \<Rightarrow> es_set_freq_config (ese_int env) (esc_tick cx) p s
   | Es_stats_batch p \<Rightarrow> set_batch_stats_size (ese_int env) p s
   | Es_config_batch p \<Rightarrow> set_batch_config_size (ese_int env) p s
   | Es_enable \<Rightarrow> es_enable (esc_rib cx) (esc_now cx) (esc_tick cx) s
   | Es_disable \<Rightarrow> es_disable (esc_curl cx) s)"

datatype elastic_event = Es_tick es_input rib u64 | Es_user_gone rib | Es_request es_context elastic_request

text \<open>An exception of a handler, which can only come from the conversion of a parameter, is answered by Pistache.\<close>

definition elastic_step :: "es_env \<Rightarrow> elastic_event \<Rightarrow> elastic \<Rightarrow> elastic run" where
  "elastic_step env ev s = (case ev of
     Es_tick inp r t \<Rightarrow> es_tick (ese_pb env) inp r t s
   | Es_user_gone r \<Rightarrow> es_user_gone r s
   | Es_request cx rq \<Rightarrow> (case elastic_serve env cx rq s of
         None \<Rightarrow> None
       | Some (Inl (Undefined_behaviour e)) \<Rightarrow> Some (Inl (Undefined_behaviour e))
       | Some (Inl _) \<Rightarrow> Some (Inr s)
       | Some (Inr (_, s')) \<Rightarrow> Some (Inr s')))"

definition elastic_run :: "es_env \<Rightarrow> elastic_event list \<Rightarrow> elastic \<Rightarrow> elastic run" where
  "elastic_run env evs s = foldO (elastic_step env) evs s"

section \<open>Lemmas\<close>

text \<open>Events of a consistent controller with a libcurl whose transfers end; conversions convert or throw.\<close>

primrec elastic_event_ok :: "elastic_event \<Rightarrow> bool" where
  "elastic_event_ok (Es_tick inp r t) \<longleftrightarrow> rib_inv r \<and> (\<forall>i. \<exists>k. wait_stops (es_wait inp i k))"
| "elastic_event_ok (Es_user_gone r) \<longleftrightarrow> rib_inv r"
| "elastic_event_ok (Es_request cx rq) \<longleftrightarrow> (\<exists>k. wait_stops (esc_curl cx k))"

definition converts :: "es_env \<Rightarrow> bool" where
  "converts env \<longleftrightarrow> (\<forall>p e. ese_int env p \<noteq> Inl (Undefined_behaviour e))"

definition es_allowed :: "exn \<Rightarrow> bool" where
  "es_allowed x \<longleftrightarrow> overflow x \<or> (\<forall>e. x \<noteq> Undefined_behaviour e)"

lemma returns_weaken: "returns E I m \<Longrightarrow> (\<And>e. E e \<Longrightarrow> E' e) \<Longrightarrow> returns E' I m"
  by (auto simp: returns_def split: option.splits sum.splits)

lemma answer_ok: "es_inv (snd x) \<Longrightarrow> returns E (\<lambda>(_, s). es_inv s) (answer err x)"
  by (simp add: answer_def case_prod_beta)

lemma converted_ok:
  assumes "converts env" "\<And>w. es_inv (snd (f w))"
  shows "returns es_allowed (\<lambda>(_, s). es_inv s) (obind (Some (ese_int env p)) (\<lambda>w. answer err (f w)))"
proof (cases "ese_int env p")
  case (Inl e)
  then show ?thesis using assms(1) by (auto simp: converts_def es_allowed_def)
next
  case (Inr w)
  then show ?thesis using assms(2) by (simp add: answer_ok)
qed

lemma sint_u32_bound: "sint (w :: u32) < 2 ^ 31"
  using sint_lt [of w] by simp

lemma elastic_serve_ok:
  assumes "converts env" "es_inv s" "\<exists>k. wait_stops (esc_curl cx k)"
  shows "returns es_allowed (\<lambda>(_, s). es_inv s) (elastic_serve env cx rq s)"
proof -
  have weak: "returns es_allowed I m" if "returns overflow I m" for I and m :: "'a run"
    by (rule returns_weaken [OF that]) (simp add: es_allowed_def)
  note inv = settings_inv [OF assms(2)]
  show ?thesis
  proof (cases rq)
    case (Es_remove ep)
    then show ?thesis
      by (simp add: elastic_serve_def es_remove_endpoint_def)
        (rule returns_obind [OF weak [OF remove_endpoint_ok [OF assms(2,3)]]], auto intro!: answer_ok)
  next
    case Es_enable
    then show ?thesis
      by (simp only: elastic_serve_def es_enable_def elastic_request.case)
        (rule returns_obind [OF weak [OF enable_ok [OF assms(2)]]], auto intro!: answer_ok)
  next
    case Es_disable
    then show ?thesis
      by (simp add: elastic_serve_def es_disable_def)
        (rule returns_obind [OF weak [OF disable_ok [OF assms(2,3)]]], auto intro!: answer_ok)
  qed (use assms(2) in \<open>auto simp only: elastic_serve_def elastic_request.case es_add_endpoint_def es_set_freq_stats_def
      es_set_freq_config_def set_batch_stats_size_def set_batch_config_size_def returns_simps prod.case
      intro!: converted_ok [OF assms(1)] answer_ok inv sint_u32_bound\<close>)
qed

lemma elastic_step_ok:
  assumes "converts env" "elastic_event_ok ev" "es_inv s"
  shows "returns overflow es_inv (elastic_step env ev s)"
proof (cases ev)
  case (Es_request cx rq)
  have "returns es_allowed (\<lambda>(_, s). es_inv s) (elastic_serve env cx rq s)"
    using elastic_serve_ok [OF assms(1,3)] assms(2) Es_request by simp
  then show ?thesis
    using assms(3) Es_request
    by (auto simp: elastic_step_def returns_def es_allowed_def overflow_def split: option.splits sum.splits exn.splits)
qed (use assms(2,3) in \<open>simp_all add: elastic_step_def es_tick_ok es_user_gone_ok\<close>)

section \<open>Properties\<close>


definition example_es_env :: es_env where
  "example_es_env = \<lparr>ese_pb = plain_pb, ese_int = (\<lambda>p. if p = ''50'' then Inr 50 else Inl (Runtime_error ''Bad lexical cast'')), ese_fmt = (\<lambda>_. [])\<rparr>"

definition example_history :: "elastic_event list" where
  "example_history = (let cx = \<lparr>esc_rib = bs_online, esc_now = 0, esc_tick = 5, esc_curl = idle_curl\<rparr> in
     [Es_request cx Es_enable, Es_tick \<lparr>es_now = (\<lambda>_ _. []), es_curl = idle_curl, es_wait = (\<lambda>_. idle_curl)\<rparr> bs_online 6,
      Es_request cx (Es_stats_interval ''50''), Es_user_gone bs_online, Es_request cx (Es_stats_batch ''x''), Es_request cx Es_disable])"


text \<open>A request that is not answered with \<open>Ok\<close> has changed nothing.\<close>

theorem elastic_refusals_change_nothing:
  assumes "elastic_serve env cx rq s = Some (Inr (rs, s'))"
  shows "\<exists>x. rs = [x] \<and> (rsp_code x = Http_Ok \<or> s' = s)"
proof -
  have ans: "\<exists>x. rs = [x] \<and> (rsp_code x = Http_Ok \<or> s' = s)" if "answer err y = Some (Inr (rs, s'))" "fst y \<or> snd y = s" for err y
    using that by (auto simp: answer_def respond_def split: prod.splits if_splits)
  have conv: "\<exists>x. rs = [x] \<and> (rsp_code x = Http_Ok \<or> s' = s)"
    if "obind (Some m) (\<lambda>w. answer err (f w)) = Some (Inr (rs, s'))" "\<And>w. fst (f w) \<or> snd (f w) = s" for m :: "u32 result" and err f
    using that ans by (cases m) auto
  have settings: "fst (set_freq_stats t f s) \<or> snd (set_freq_stats t f s) = s" "fst (set_freq_config t f s) \<or> snd (set_freq_config t f s) = s"
    "fst (set_batch_stats_max_size f s) \<or> snd (set_batch_stats_max_size f s) = s"
    "fst (set_batch_config_max_size f s) \<or> snd (set_batch_config_max_size f s) = s" for t f
    by (simp_all add: set_freq_stats_def set_freq_config_def set_batch_stats_max_size_def set_batch_config_max_size_def Let_def)
  have removed: "fst y \<or> snd y = s" if "remove_endpoint curl ep s = Some (Inr y)" for curl ep y
    using that by (auto simp: remove_endpoint_def Let_def obind_def split: if_splits option.splits sum.splits)
  have enabled: "fst y \<or> snd y = s" if "enable_logging r now t s = Inr y" for r now t y
    using that by (auto simp: enable_logging_def Let_def rbind_Inr_eq split: if_splits)
  show ?thesis
  proof (cases rq)
    case Es_status
    then show ?thesis using assms by (auto simp: elastic_serve_def es_status_def respond_def)
  next
    case (Es_add ep)
    have "fst (add_endpoint ep s) \<or> snd (add_endpoint ep s) = s" by (simp add: add_endpoint_def)
    then show ?thesis
      by (rule ans [rotated]) (use assms Es_add in \<open>simp add: elastic_serve_def es_add_endpoint_def\<close>)
  next
    case (Es_remove ep)
    then obtain y where "remove_endpoint (esc_curl cx) ep s = Some (Inr y)" "answer ''is the endpoint present?'' y = Some (Inr (rs, s'))"
      using assms by (auto simp: elastic_serve_def es_remove_endpoint_def obind_def split: option.splits sum.splits)
    then show ?thesis using ans removed by blast
  next
    case Es_enable
    then obtain y where "enable_logging (esc_rib cx) (esc_now cx) (esc_tick cx) s = Inr y" "answer ''could not enable logging'' y = Some (Inr (rs, s'))"
      using assms by (auto simp: elastic_serve_def es_enable_def obind_def split: sum.splits)
    then show ?thesis using ans enabled by blast
  next
    case Es_disable
    then show ?thesis
      using assms by (auto simp: elastic_serve_def es_disable_def obind_def answer_def respond_def split: option.splits sum.splits)
  qed (use assms in \<open>auto simp only: elastic_serve_def elastic_request.case es_set_freq_stats_def es_set_freq_config_def
      set_batch_stats_size_def set_batch_config_size_def dest: conv [OF _ settings(1)] conv [OF _ settings(2)] conv [OF _ settings(3)] conv [OF _ settings(4)]\<close>)
qed

theorem elastic_refusals_change_nothing_witness:
  "\<exists>x. elastic_serve example_es_env \<lparr>esc_rib = bs_online, esc_now = 0, esc_tick = 5, esc_curl = idle_curl\<rparr> (Es_add ''a/b'') (new_elastic 0)
     = Some (Inr ([x], new_elastic 0)) \<and> rsp_code x = Http_Bad_Request"
proof -
  have no: "\<not> endpoint_ok ''a/b''" by code_simp
  let ?x = "respond Http_Bad_Request (''{ '' @ quoted ''error'' @ '': '' @ quoted ''illegal endpoint or already present'' @ ''}'')"
  have s: "elastic_serve example_es_env \<lparr>esc_rib = bs_online, esc_now = 0, esc_tick = 5, esc_curl = idle_curl\<rparr> (Es_add ''a/b'') (new_elastic 0)
     = Some (Inr ([?x], new_elastic 0))"
    using no by (simp add: elastic_serve_def es_add_endpoint_def add_endpoint_def answer_def)
  from elastic_refusals_change_nothing [OF s] show ?thesis
    using s by (intro exI [of _ ?x]) (simp add: respond_def)
qed

end
