(* ===== verification/Parse_Bd.thy ===== *)
theory Parse_Bd
  imports Recorder
begin

text \<open>
  The program \<open>parse-bd\<close>, \<open>core/parse-bd.cc\<close>: it reads a binary recording and writes it as JSON. The
  arguments are those of the command line with the name of the program; the result is the exit
  code and the files.
\<close>

section \<open>Definitions\<close>

text \<open>The type of the job from the third argument; an unknown one is as good as none.\<close>

definition parse_format :: "string \<Rightarrow> job_type" where
  "parse_format f = (if f = ''all'' then Job_all else if f = ''enb'' then Job_enb
     else if f = ''stats'' then Job_enb else Job_all)"

definition content_bytes :: "content \<Rightarrow> bytes" where
  "content_bytes c = (case c of Binary bs \<Rightarrow> bs | Text t \<Rightarrow> map (\<lambda>ch. word_of_nat (of_char ch)) t)"

definition read_file :: "nat \<Rightarrow> record_io \<Rightarrow> string \<Rightarrow> (string \<Rightarrow> content option) \<Rightarrow> chunk list result" where
  "read_file avail io inp fs = (case fs inp of None \<Rightarrow> Inr [] | Some c \<Rightarrow> read_binary avail io (content_bytes c))"

text \<open>The number of arguments is tested for 2 to 4, with the name of the program.\<close>

definition parse_bd ::
  "protobuf \<Rightarrow> nat \<Rightarrow> record_io \<Rightarrow> (u64 \<Rightarrow> string) \<Rightarrow> (string \<Rightarrow> bool) \<Rightarrow> string list \<Rightarrow> (string \<Rightarrow> content option) \<Rightarrow>
   (int \<times> (string \<Rightarrow> content option)) result" where
  "parse_bd pb avail io fmt can_open argv fs =
     (if length argv < 2 \<or> length argv > 4 then Inr (1, fs)
      else rbind (read_file avail io (argv ! 1) fs) (\<lambda>v.
        if length argv = 2 then Inl (Undefined_behaviour ''string from a null pointer'')
        else let out = argv ! 2; ty = (if length argv = 4 then parse_format (argv ! 3) else Job_all) in
          if \<not> can_open out then Inr (0, fs)
          else rbind (write_json pb fmt ty v) (\<lambda>t. Inr (0, fs(out \<mapsto> Text t)))))"

section \<open>Properties\<close>

text \<open>C21. A binary recording that is converted offline gives the file that the recorder itself would have
  written for a job of the type asked for, except that statistics are not to be had: the format
  for them gives configurations.\<close>

theorem offline_conversion:
  assumes "list_all (chunk_ok avail io) dump" "length dump < 2 ^ 64" "fs inp = Some (Binary (write_binary io dump))"
    and "can_open out" "files s = fs" "filename j = out" "job_kind j \<in> {Job_all, Job_enb}"
  shows "\<exists>t s'. writer_method pb io fmt can_open (j, dump) s = Inr s' \<and> files s' out = Some (Text t)
     \<and> parse_bd pb avail io fmt can_open [prog, inp, out, if job_kind j = Job_all then ''all'' else ''enb''] fs = Inr (0, fs(out \<mapsto> Text t))
     \<and> (job_kind j = Job_all \<longrightarrow> parse_bd pb avail io fmt can_open [prog, inp, out] fs = Inr (0, fs(out \<mapsto> Text t)))
     \<and> (job_kind j = Job_enb \<longrightarrow> parse_bd pb avail io fmt can_open [prog, inp, out, ''stats''] fs = Inr (0, fs(out \<mapsto> Text t)))"
proof -
  obtain t where t: "write_json pb fmt (job_kind j) dump = Inr t" using write_json_eq by blast
  have rd: "read_file avail io inp fs = Inr dump"
    using read_written [OF assms(1,2)] assms(3) by (simp add: read_file_def content_bytes_def)
  have "job_kind j \<noteq> Job_bin" using assms(7) by auto
  then show ?thesis
    using t rd assms(4-7) by (auto simp: writer_method_def parse_bd_def parse_format_def)
qed

theorem offline_conversion_witness:
  "\<exists>t. parse_bd plain_pb 100 example_io (\<lambda>_. []) (\<lambda>_. True) [''parse-bd'', ''a'', ''b'']
     [''a'' \<mapsto> Binary (write_binary example_io [[(7, example_dump)]])] = Inr (0, [''a'' \<mapsto> Binary (write_binary example_io [[(7, example_dump)]]), ''b'' \<mapsto> Text t])"
proof -
  have "list_all (chunk_ok 100 example_io) [[(7, example_dump)]]"
    by (simp add: chunk_ok_def example_dump_ok sm_inv_def)
  from offline_conversion [where inp = "''a''" and out = "''b''" and prog = "''parse-bd''" and can_open = "\<lambda>_. True" and pb = plain_pb and fmt = "\<lambda>_. []"
      and fs = "[''a'' \<mapsto> Binary (write_binary example_io [[(7, example_dump)]])]"
      and s = "new_recorder\<lparr>files := [''a'' \<mapsto> Binary (write_binary example_io [[(7, example_dump)]])]\<rparr>"
      and j = "\<lparr>ms_start = 0, ms_end = 1, filename = ''b'', job_kind = Job_all\<rparr>", OF this]
  show ?thesis by auto
qed

text \<open>Called without a file for the output, which the test of the arguments lets pass, the program builds
  a string from a null pointer once the input is read; with too few or too many it changes nothing.\<close>

theorem missing_output_is_not_refused:
  "parse_bd pb avail io fmt can_open [prog, inp] fs = rbind (read_file avail io inp fs) (\<lambda>_. Inl (Undefined_behaviour ''string from a null pointer''))"
  "length argv \<notin> {2, 3, 4} \<Longrightarrow> parse_bd pb avail io fmt can_open argv fs = Inr (1, fs)"
  by (auto simp: parse_bd_def)

end
