(* ===== verification/Sched_Primitives.thy ===== *)
theory Sched_Primitives
  imports Enb_Rib
begin

text \<open>
  The tables and the arithmetic of the schedulers, \<open>app/remote_scheduler_primitives.cc\<close>: resource
  block groups, transport block sizes, and the control channel elements (CCE) of the PDCCH. The
  schedulers are not part of the build, and they read a field \<open>cell_id\<close> that the messages of
  \<open>MESSAGES/V2\<close> no longer have; it is one of the accessors in \<open>sched_view\<close>, beside the fields of
  the sub-messages that the development otherwise keeps as their encoding.
\<close>

section \<open>What the schedulers read of the messages\<close>

record flex_rlc_bsr =
  bsr_lc_id :: "u32 option"
  tx_queue_size :: "u32 option"
  tx_queue_hol_delay :: "u32 option"

text \<open>\<open>csi_wb_cqi\<close> is \<open>p10csi().wb_cqi()\<close>, absent in a report of another type.\<close>

record flex_dl_csi =
  csi_serv_cell_index :: "u32 option"
  csi_wb_cqi :: "u32 option"

record flex_pucch_dbm =
  p0_pucch_dbm :: "int option"
  pucch_serv_cell_index :: "u32 option"
  p0_pucch_updated :: "u32 option"

record sched_view =
  cell_id_of :: "flex_cell_config \<Rightarrow> u32"
  pcell_carrier_index_of :: "flex_ue_config \<Rightarrow> u32"
  rlc_bsr_of :: "raw \<Rightarrow> flex_rlc_bsr"
  csi_reports_of :: "raw \<Rightarrow> flex_dl_csi list"
  pucch_dbm_of :: "raw \<Rightarrow> flex_pucch_dbm list"
  p0_nominal_pucch_of :: "raw \<Rightarrow> int"

abbreviation cell_field_of :: "cell_field \<Rightarrow> flex_cell_config \<Rightarrow> u32" where
  "cell_field_of f cell \<equiv> get_or 0 (cell_u32 cell f)"

definition csi_reports :: "sched_view \<Rightarrow> flex_ue_stats_report \<Rightarrow> flex_dl_csi list" where
  "csi_reports sv r = (case dl_cqi_report r of None \<Rightarrow> [] | Some raw \<Rightarrow> csi_reports_of sv raw)"

definition N_RBG_MAX :: nat where "N_RBG_MAX = 25"
definition target_dl_mcs :: nat where "target_dl_mcs = 28"

section \<open>Resource blocks\<close>

definition get_min_rb_unit :: "flex_cell_config \<Rightarrow> nat" where
  "get_min_rb_unit cell = (let bw = unat (cell_field_of dl_bandwidth cell) in
     if bw = 6 then 1 else if bw = 25 then 2 else if bw = 50 then 3 else if bw = 100 then 4 else 2)"

definition get_nb_rbg :: "flex_cell_config \<Rightarrow> nat" where
  "get_nb_rbg cell = (let bw = unat (cell_field_of dl_bandwidth cell) in
     if bw = 100 then 25 else if bw = 75 then 19 else if bw = 50 then 17 else if bw = 25 then 13
     else if bw = 15 then 8 else if bw = 6 then 6 else 0)"

definition get_I_TBS :: "nat \<Rightarrow> nat" where
  "get_I_TBS mcs = (if mcs < 10 then mcs else if mcs = 10 then 9 else if mcs < 17 then mcs - 1
     else if mcs = 17 then 15 else mcs - 2)"

text \<open>The arguments are cut to eight and sixteen bits; the column of the table is not checked.\<close>

definition get_TBS_DL :: "nat \<Rightarrow> u16 \<Rightarrow> nat result" where
  "get_TBS_DL mcs_arg nb_rb = (let mcs = unat (of_nat mcs_arg :: u8); nb = unat nb_rb in
     if 0 < nb \<and> mcs < 29
     then if nb \<le> 110 then Inr (TBStable ! get_I_TBS mcs ! (nb - 1) div 8) else Inl out_of_bounds
     else Inr 0)"

definition get_bw_index :: "int \<Rightarrow> nat" where
  "get_bw_index n_rb_dl = (if n_rb_dl = 6 then 0 else if n_rb_dl = 25 then 1
     else if n_rb_dl = 50 then 2 else if n_rb_dl = 100 then 3 else 1)"

datatype flex_dci_format = FLDCIF_1 | FLDCIF_1A | FLDCIF_1B | FLDCIF_1C | FLDCIF_1D
  | FLDCIF_2 | FLDCIF_2A | FLDCIF_2B | FLDCIF_3 | FLDCIF_3A

definition agg_lookup :: "nat list list \<Rightarrow> nat \<Rightarrow> nat \<Rightarrow> nat result" where
  "agg_lookup table bw_index cqi =
     (if bw_index < 16 \<and> cqi < 16 then Inr (table ! bw_index ! cqi) else Inl out_of_bounds)"

definition get_aggregation :: "nat \<Rightarrow> nat \<Rightarrow> flex_dci_format \<Rightarrow> nat result" where
  "get_aggregation bw_index cqi dci_fmt =
     (if dci_fmt \<in> {FLDCIF_1, FLDCIF_1A, FLDCIF_1B, FLDCIF_1D} then agg_lookup cqi2fmt1x_agg bw_index cqi
      else if dci_fmt \<in> {FLDCIF_2, FLDCIF_2A, FLDCIF_2B} then agg_lookup cqi2fmt2x_agg bw_index cqi
      else Inr 3)"

text \<open>The modulation and coding scheme of the cell's CQI report, the last value when there is none.\<close>

definition mcs_of_reports :: "sched_view \<Rightarrow> flex_cell_config \<Rightarrow> flex_ue_stats_report \<Rightarrow> nat \<Rightarrow> nat result" where
  "mcs_of_reports sv cell r mcs =
     (case List.find (\<lambda>c. get_or 0 (csi_serv_cell_index c) = cell_id_of sv cell) (csi_reports sv r) of
        None \<Rightarrow> Inr mcs
      | Some c \<Rightarrow> (let cqi = unat (get_or 0 (csi_wb_cqi c)) in
          if cqi < 16 then Inr (cqi_to_mcs ! cqi) else Inl out_of_bounds))"

section \<open>Allocation bitmap\<close>

text \<open>The resource blocks of a group are taken off as the group is marked.\<close>

definition group_size :: "flex_cell_config \<Rightarrow> nat \<Rightarrow> int" where
  "group_size cell check = (let bw = unat (cell_field_of dl_bandwidth cell) in
     if bw = 6 then 1
     else if bw = 25 then (if check = get_nb_rbg cell - 1 then 1 else 2)
     else if bw = 50 then (if check = get_nb_rbg cell - 1 then 2 else 3)
     else if bw = 100 then 4 else 0)"

unbundle bit_operations_syntax

fun allocate_prbs_loop :: "flex_cell_config \<Rightarrow> (nat \<Rightarrow> u8) \<Rightarrow> nat list \<Rightarrow> int \<Rightarrow> u32 \<Rightarrow> u32" where
  "allocate_prbs_loop cell rballoc [] nb_rb dci = dci"
| "allocate_prbs_loop cell rballoc (check # checks) nb_rb dci =
     (if nb_rb > 0
      then if rballoc check = 1
        then allocate_prbs_loop cell rballoc checks (nb_rb - group_size cell check)
               (dci OR push_bit (get_nb_rbg cell - 1 - check) 1)
        else allocate_prbs_loop cell rballoc checks nb_rb dci
      else dci)"

definition allocate_prbs_sub :: "int \<Rightarrow> (nat \<Rightarrow> u8) \<Rightarrow> flex_cell_config \<Rightarrow> u32" where
  "allocate_prbs_sub nb_rb rballoc cell = allocate_prbs_loop cell rballoc [0..<get_nb_rbg cell] nb_rb 0"

section \<open>Control channel elements\<close>

definition get_phich_resource :: "flex_cell_config \<Rightarrow> nat" where
  "get_phich_resource cell = (let p = unat (cell_field_of phich_resource cell) in
     if p = 0 then 1 else if p = 1 then 3 else if p = 2 then 6 else if p = 3 then 12 else 0)"

definition get_mi :: "flex_cell_config \<Rightarrow> u16 \<Rightarrow> nat" where
  "get_mi cell subframe = 1"

text \<open>
  The number of PHICH groups has eight bits. With no PDCCH symbol \<open>n_reg\<close> is zero, and the result
  wraps in sixteen bits.
\<close>

definition n_group_PHICH :: "flex_cell_config \<Rightarrow> nat \<Rightarrow> u8" where
  "n_group_PHICH cell mi = (let prod = of_nat (get_phich_resource cell) * cell_field_of dl_bandwidth cell;
       n = ucast (prod div 48) :: u8;
       n = (if prod mod 48 > 0 then n + 1 else n);
       n = (if unat (cell_field_of dl_cyclic_prefix_length cell) = 1 then push_bit 1 n else n) in
     n * of_nat mi)"

definition get_nquad :: "u8 \<Rightarrow> flex_cell_config \<Rightarrow> nat \<Rightarrow> u16" where
  "get_nquad num_pdcch_symbols cell mi =
     (let k = unat num_pdcch_symbols; bw = unat (cell_field_of dl_bandwidth cell);
          out = (\<lambda>n_reg. of_int (int n_reg - 4 - 3 * int (unat (n_group_PHICH cell mi))) :: u16) in
      if 0 < k \<and> k < 4
      then if bw = 6 then out (12 + (k - 1) * 18)
        else if bw = 25 then out (50 + (k - 1) * 75)
        else if bw = 50 then out (100 + (k - 1) * 150)
        else if bw = 100 then out (200 + (k - 1) * 300)
        else 0
      else out 0)"

definition get_nCCE_max :: "u8 \<Rightarrow> flex_cell_config \<Rightarrow> u16 \<Rightarrow> nat" where
  "get_nCCE_max num_pdcch_symbols cell subframe =
     unat (get_nquad num_pdcch_symbols cell (get_mi cell subframe)) div 9"

text \<open>
  The first candidate of the search space of a user. Whether other users hold the elements is not
  looked at, so the first candidate is taken. \<open>nCCE div aggregation\<close> is a divisor.
\<close>

definition search_key :: "u32 \<Rightarrow> u16 \<Rightarrow> u32" where
  "search_key rnti subframe = fold (\<lambda>_ y. (y * 39827) mod 65537) [0..<Suc (unat subframe)] rnti"

definition nb_candidates :: "nat \<Rightarrow> nat" where
  "nb_candidates aggregation = (if aggregation \<in> {1, 2} then 6 else if aggregation \<in> {4, 8} then 2 else 0)"

definition get_nCCE_offset :: "nat \<Rightarrow> nat \<Rightarrow> int \<Rightarrow> u32 \<Rightarrow> u16 \<Rightarrow> int result" where
  "get_nCCE_offset aggregation nCCE common_dci rnti subframe =
     (if common_dci = 1 then Inr (-1)
      else if aggregation = 0 \<or> nCCE div aggregation = 0 then Inl (Undefined_behaviour ''division by zero'')
      else let places = nCCE div aggregation; Yk = unat (search_key rnti subframe) mod places in
        if 0 < nb_candidates aggregation then Inr (int ((Yk mod places) * aggregation)) else Inr (-1))"

section \<open>Lemmas\<close>

lemma nb_rbg_bound: "get_nb_rbg cell \<le> N_RBG_MAX"
  by (simp add: get_nb_rbg_def N_RBG_MAX_def Let_def)

lemma min_rb_unit_pos: "0 < get_min_rb_unit cell" "get_min_rb_unit cell \<le> 4"
  by (simp_all add: get_min_rb_unit_def Let_def)

lemma I_TBS_bound: "mcs < 29 \<Longrightarrow> get_I_TBS mcs < 27"
  unfolding get_I_TBS_def by auto

lemma TBStable_shape: "length TBStable = 27" "list_all (\<lambda>r. length r = 110) TBStable"
  unfolding TBStable_def by simp_all

text \<open>The transport block sizes fit the sixteen bits the schedulers keep them in.\<close>

lemma TBStable_bound: "list_all (list_all (\<lambda>n. n \<le> 75376)) TBStable"
  unfolding TBStable_def by simp

lemma TBS_entry:
  assumes "i < 27" "j < 110"
  shows "TBStable ! i ! j \<le> 75376"
proof -
  have "list_all (\<lambda>n. n \<le> 75376) (TBStable ! i)" "length (TBStable ! i) = 110"
    using TBStable_bound TBStable_shape assms(1) by (simp_all add: list_all_length)
  then show ?thesis using assms(2) by (simp add: list_all_length)
qed

lemma get_TBS_DL_bound: "get_TBS_DL mcs nb = Inr t \<Longrightarrow> t \<le> 9422"
proof -
  assume a: "get_TBS_DL mcs nb = Inr t"
  show "t \<le> 9422"
  proof (cases "0 < unat nb \<and> unat (of_nat mcs :: u8) < 29")
    case True
    then have le: "unat nb \<le> 110" and t: "t = TBStable ! get_I_TBS (unat (of_nat mcs :: u8)) ! (unat nb - 1) div 8"
      using a by (auto simp: get_TBS_DL_def Let_def split: if_splits)
    have "TBStable ! get_I_TBS (unat (of_nat mcs :: u8)) ! (unat nb - 1) \<le> 75376"
      using True le by (intro TBS_entry I_TBS_bound) auto
    then show ?thesis unfolding t by (rule order_trans [OF div_le_mono]) simp
  next
    case False
    then show ?thesis using a by (auto simp: get_TBS_DL_def Let_def split: if_splits)
  qed
qed

lemma get_TBS_DL_ok: "unat nb \<le> 110 \<Longrightarrow> is_ok (get_TBS_DL mcs nb)"
  by (simp add: get_TBS_DL_def Let_def)

text \<open>
  A bit of the bitmap is a group of the cell that the user holds; and when the resource blocks
  asked for reach to the group, a group the user holds is a bit.
\<close>

lemma allocate_loop_bit:
  "bit (allocate_prbs_loop cell rballoc cs nb dci) n \<Longrightarrow>
     bit dci n \<or> (\<exists>c \<in> set cs. rballoc c = 1 \<and> n = get_nb_rbg cell - 1 - c)"
proof (induction cs arbitrary: nb dci)
  case (Cons c cs)
  show ?case
  proof (cases "nb > 0")
    case pos: True
    show ?thesis
    proof (cases "rballoc c = 1")
      case True
      have "bit (dci OR push_bit (get_nb_rbg cell - 1 - c) 1) n \<or>
          (\<exists>c' \<in> set cs. rballoc c' = 1 \<and> n = get_nb_rbg cell - 1 - c')"
        using Cons.IH [of "nb - group_size cell c" "dci OR push_bit (get_nb_rbg cell - 1 - c) 1"] Cons.prems pos True
        by simp
      then show ?thesis using True by (auto simp: bit_or_iff bit_exp_iff)
    next
      case False
      then show ?thesis using Cons.IH [of nb dci] Cons.prems pos by auto
    qed
  next
    case False
    then show ?thesis using Cons.prems by simp
  qed
qed simp

lemma allocated_bit:
  "bit (allocate_prbs_sub nb rballoc cell) n \<Longrightarrow> n < get_nb_rbg cell \<and> rballoc (get_nb_rbg cell - 1 - n) = 1"
  unfolding allocate_prbs_sub_def
  using allocate_loop_bit [of cell rballoc "[0..<get_nb_rbg cell]" nb 0 n] by auto

text \<open>The bitmaps of two users with no group in common have no bit in common.\<close>

lemma allocate_disjoint:
  assumes "\<And>i. i < get_nb_rbg cell \<Longrightarrow> \<not> (a i = 1 \<and> b i = 1)"
  shows "allocate_prbs_sub m a cell AND allocate_prbs_sub n b cell = 0"
proof -
  have "\<not> (bit (allocate_prbs_sub m a cell) k \<and> bit (allocate_prbs_sub n b cell) k)" for k
    using allocated_bit [of m a cell k] allocated_bit [of n b cell k] assms [of "get_nb_rbg cell - 1 - k"] by auto
  then show ?thesis by (simp add: and_eq_0_iff_bits)
qed

text \<open>The groups make up the bandwidth, for the bandwidths the code has a case for.\<close>

theorem groups_make_up_bandwidth:
  assumes "unat (cell_field_of dl_bandwidth cell) \<in> {6, 25, 50, 100}"
  shows "(\<Sum>c \<leftarrow> [0..<get_nb_rbg cell]. group_size cell c) = int (unat (cell_field_of dl_bandwidth cell))"
  using assms by (auto simp: get_nb_rbg_def group_size_def Let_def upt_rec simp del: of_nat_unat)

theorem nCCE_offset_in_range:
  assumes "aggregation \<in> {1, 2, 4, 8}" "aggregation \<le> nCCE"
  shows "\<exists>k. get_nCCE_offset aggregation nCCE 0 rnti subframe = Inr (int (k * aggregation)) \<and>
    k * aggregation + aggregation \<le> nCCE"
proof -
  define places where "places = nCCE div aggregation"
  have pos: "0 < aggregation" "0 < nb_candidates aggregation" using assms(1) by (auto simp: nb_candidates_def)
  have places: "0 < places" using assms(2) pos(1) by (simp add: places_def div_greater_zero_iff)
  define k where "k = unat (search_key rnti subframe) mod places"
  have "k < places" using places by (simp add: k_def)
  then have "Suc k * aggregation \<le> places * aggregation" by (intro mult_le_mono1) simp
  also have "\<dots> \<le> nCCE" by (simp add: places_def)
  finally have "k * aggregation + aggregation \<le> nCCE" by (simp add: add.commute)
  moreover have "get_nCCE_offset aggregation nCCE 0 rnti subframe = Inr (int (k * aggregation))"
    using pos places by (simp add: get_nCCE_offset_def Let_def k_def places_def)
  ultimately show ?thesis by blast
qed

end
