(* ===== verification/Sched_Info.thy ===== *)
theory Sched_Info
  imports Sched_Primitives
begin

text \<open>
  What a scheduler keeps between its rounds: \<open>app/ue_scheduling_info.{h,cc}\<close> for a user and
  \<open>app/enb_scheduling_info.{h,cc}\<close> for a base station, and the search for control channel
  elements (\<open>CCE_allocation_infeasible\<close> of \<open>remote_scheduler_primitives.cc\<close>), which changes the
  latter. The records of the users are reached only through the map of the base station, so the map
  holds them. The arrays are functions; the index of the cell is checked where it is first used, and
  the index of a resource block group is below \<open>get_nb_rbg\<close>, which the arrays are long enough for.
\<close>

section \<open>A user\<close>

record ue_scheduling_info =
  ta_timer :: int
  si_rnti :: u32
  ndi :: "nat \<Rightarrow> nat \<Rightarrow> u8"
  nb_scheduled_rbs :: "nat \<Rightarrow> nat \<Rightarrow> u16"
  si_mcs :: "nat \<Rightarrow> nat \<Rightarrow> u16"
  rballoc_sub_scheduled :: "nat \<Rightarrow> nat \<Rightarrow> nat \<Rightarrow> u8"
  dl_pow_off :: "nat \<Rightarrow> u16"
  nb_rbs_required :: "nat \<Rightarrow> u16"
  si_harq_round :: "nat \<Rightarrow> nat \<Rightarrow> nat \<Rightarrow> u8"
  rballoc_sub :: "nat \<Rightarrow> nat \<Rightarrow> u8"
  nb_rbs_required_remaining :: "nat \<Rightarrow> u16"
  nb_rbs_required_remaining_1 :: "nat \<Rightarrow> u16"
  pre_nb_rbs_available :: "nat \<Rightarrow> u16"
  pucch_tpc_tx_frame :: u16
  pucch_tpc_tx_subframe :: u16
  high_priority :: bool

definition new_ue_scheduling_info :: "u32 \<Rightarrow> ue_scheduling_info" where
  "new_ue_scheduling_info rnti = \<lparr>ta_timer = 20, si_rnti = rnti, ndi = (\<lambda>_ _. 0),
     nb_scheduled_rbs = (\<lambda>_ _. 0), si_mcs = (\<lambda>_ _. 0), rballoc_sub_scheduled = (\<lambda>_ _ _. 0),
     dl_pow_off = (\<lambda>c. if c = 0 then 2 else 0), nb_rbs_required = (\<lambda>_. 0),
     si_harq_round = (\<lambda>_ _ _. 0), rballoc_sub = (\<lambda>_ _. 0), nb_rbs_required_remaining = (\<lambda>_. 0),
     nb_rbs_required_remaining_1 = (\<lambda>_. 0), pre_nb_rbs_available = (\<lambda>_. 0),
     pucch_tpc_tx_frame = 0, pucch_tpc_tx_subframe = 0, high_priority = True\<rparr>"

definition ue_start_new_scheduling_round :: "ue_scheduling_info \<Rightarrow> ue_scheduling_info" where
  "ue_start_new_scheduling_round u = u\<lparr>rballoc_sub := (\<lambda>_ _. 0), nb_rbs_required := (\<lambda>_. 0),
     nb_rbs_required_remaining := (\<lambda>_. 0), nb_rbs_required_remaining_1 := (\<lambda>_. 0),
     pre_nb_rbs_available := (\<lambda>_. 0), rballoc_sub_scheduled := (\<lambda>_ _ _. 0)\<rparr>"

text \<open>An index out of range gives -1 here.\<close>

definition get_harq_round :: "nat \<Rightarrow> int \<Rightarrow> ue_scheduling_info \<Rightarrow> int result" where
  "get_harq_round cell_id harq_pid u =
     (if cell_id < MAX_NUM_CC \<and> harq_pid < int MAX_NUM_HARQ
      then if harq_pid < 0 then Inl out_of_bounds else Inr (int (unat (si_harq_round u cell_id (nat harq_pid) 0)))
      else Inr (-1))"

definition set_harq_round :: "nat \<Rightarrow> nat \<Rightarrow> u8 \<Rightarrow> ue_scheduling_info \<Rightarrow> ue_scheduling_info" where
  "set_harq_round cell_id harq_pid round u = u\<lparr>si_harq_round := upd3 cell_id harq_pid 0 round (si_harq_round u)\<rparr>"

definition upd2 :: "nat \<Rightarrow> nat \<Rightarrow> 'a \<Rightarrow> (nat \<Rightarrow> nat \<Rightarrow> 'a) \<Rightarrow> nat \<Rightarrow> nat \<Rightarrow> 'a" where
  "upd2 i j v a = (\<lambda>i' j'. if i' = i \<and> j' = j then v else a i' j')"

definition toggle_ndi :: "nat \<Rightarrow> nat \<Rightarrow> ue_scheduling_info \<Rightarrow> ue_scheduling_info" where
  "toggle_ndi cell_id harq_pid u = u\<lparr>ndi := upd2 cell_id harq_pid (1 - ndi u cell_id harq_pid) (ndi u)\<rparr>"

section \<open>A base station\<close>

record enb_scheduling_info =
  last_checked_frame :: u16
  last_checked_subframe :: u16
  scheduling_info :: "(u32, ue_scheduling_info) std_map"
  vrb_map :: "nat \<Rightarrow> nat \<Rightarrow> u8"
  num_pdcch_symbols :: "nat \<Rightarrow> u8"
  nCCE_rem :: "nat \<Rightarrow> u32"

text \<open>
  Nothing initialises the two numbers of the slot that was last scheduled: they are whatever the
  memory holds, \<open>stale\<close>.
\<close>

definition new_enb_scheduling_info :: "u16 \<times> u16 \<Rightarrow> enb_scheduling_info" where
  "new_enb_scheduling_info stale = \<lparr>last_checked_frame = fst stale, last_checked_subframe = snd stale,
     scheduling_info = [], vrb_map = (\<lambda>_ _. 0), num_pdcch_symbols = (\<lambda>_. 0), nCCE_rem = (\<lambda>_. 0)\<rparr>"

definition needs_scheduling :: "enb_scheduling_info \<Rightarrow> u16 \<Rightarrow> u16 \<Rightarrow> bool" where
  "needs_scheduling e curr_frame curr_subframe \<longleftrightarrow>
     \<not> (last_checked_frame e = curr_frame \<and> last_checked_subframe e = curr_subframe)"

definition get_ue_scheduling_info :: "u32 \<Rightarrow> enb_scheduling_info \<Rightarrow> ue_scheduling_info option" where
  "get_ue_scheduling_info rnti e = sm_find rnti (scheduling_info e)"

definition create_ue_scheduling_info :: "u32 \<Rightarrow> enb_scheduling_info \<Rightarrow> enb_scheduling_info" where
  "create_ue_scheduling_info rnti e =
     e\<lparr>scheduling_info := sm_emplace rnti (new_ue_scheduling_info rnti) (scheduling_info e)\<rparr>"

definition toggle_vrb_map :: "nat \<Rightarrow> nat \<Rightarrow> enb_scheduling_info \<Rightarrow> enb_scheduling_info" where
  "toggle_vrb_map cell_id i e = e\<lparr>vrb_map := upd2 cell_id i 1 (vrb_map e)\<rparr>"

definition assign_CCE :: "nat \<Rightarrow> int \<Rightarrow> enb_scheduling_info \<Rightarrow> enb_scheduling_info" where
  "assign_CCE cell_id nCCE e = e\<lparr>nCCE_rem := (nCCE_rem e)(cell_id := nCCE_rem e cell_id - of_int nCCE)\<rparr>"

text \<open>The caller has checked \<open>c\<close>, the index of the cell.\<close>

definition increase_num_pdcch_symbols :: "nat \<Rightarrow> flex_cell_config \<Rightarrow> u16 \<Rightarrow> enb_scheduling_info \<Rightarrow> enb_scheduling_info" where
  "increase_num_pdcch_symbols c cell subframe e =
     (let prev = of_nat (get_nCCE_max (num_pdcch_symbols e c) cell subframe) :: u32;
          n = num_pdcch_symbols e c + 1;
          new = of_nat (get_nCCE_max n cell subframe) in
      e\<lparr>num_pdcch_symbols := (num_pdcch_symbols e)(c := n),
        nCCE_rem := (nCCE_rem e)(c := new - (prev - nCCE_rem e c))\<rparr>)"

text \<open>The four groups from \<open>index\<close> are taken; the row of the cell has 25.\<close>

definition reserve_groups :: "nat \<Rightarrow> nat \<Rightarrow> enb_scheduling_info \<Rightarrow> enb_scheduling_info result" where
  "reserve_groups c index e =
     (if index + 3 < N_RBG_MAX
      then Inr (e\<lparr>vrb_map := (\<lambda>i j. if i = c \<and> index \<le> j \<and> j \<le> index + 3 then 1 else vrb_map e i j)\<rparr>)
      else Inl out_of_bounds)"

definition si_index :: "nat \<Rightarrow> nat" where
  "si_index n_rb_dl = (if n_rb_dl = 6 then 0 else if n_rb_dl = 15 then 6 else if n_rb_dl = 25 then 11
     else if n_rb_dl = 50 then 23 else if n_rb_dl = 100 then 48 else 0)"

definition enb_start_new_scheduling_round ::
  "sched_view \<Rightarrow> u16 \<Rightarrow> flex_cell_config \<Rightarrow> enb_scheduling_info \<Rightarrow> enb_scheduling_info result" where
  "enb_start_new_scheduling_round sv subframe cell e =
     (let c = unat (cell_id_of sv cell) in
      if \<not> c < MAX_NUM_CC then Inl out_of_bounds
      else let e = e\<lparr>vrb_map := (vrb_map e)(c := (\<lambda>_. 0)),
                    num_pdcch_symbols := (num_pdcch_symbols e)(c := 0),
                    nCCE_rem := (nCCE_rem e)(c := of_nat (get_nCCE_max 0 cell subframe))\<rparr> in
        rbind (if subframe = 0 \<or> subframe = 5
               then reserve_groups c 0 (e\<lparr>num_pdcch_symbols := (num_pdcch_symbols e)(c := 3)\<rparr>)
               else Inr e) (\<lambda>e.
        if subframe = 5 then reserve_groups c (si_index (unat (cell_field_of dl_bandwidth cell))) e
        else Inr e))"

section \<open>Control channel elements\<close>

lemma num_pdcch_increase [simp]:
  "num_pdcch_symbols (increase_num_pdcch_symbols c cell subframe e) c = num_pdcch_symbols e c + 1"
  by (simp add: increase_num_pdcch_symbols_def Let_def)

lemma symbols_left_decrease: "(n :: u8) \<noteq> 3 \<Longrightarrow> unat (2 - n) < unat (3 - n)"
proof -
  assume "n \<noteq> 3"
  then have "3 - n \<noteq> 0" by simp
  then have "unat (3 - n - 1) < unat (3 - n)" by (rule measure_unat)
  then show ?thesis by (simp add: algebra_simps)
qed

text \<open>
  \<open>rem\<close> is the local copy of \<open>nCCE_rem\<close>; it is read again in one of the two branches only. The loop
  ends because the number of PDCCH symbols is counted up to 3. The shift \<open>1 << aggregation\<close> is a
  power: the schedulers pass 1, 2 or an entry of a table, none above 3.
\<close>

function cce_loop ::
  "nat \<Rightarrow> flex_cell_config \<Rightarrow> u32 \<Rightarrow> nat \<Rightarrow> u16 \<Rightarrow> int \<Rightarrow> enb_scheduling_info \<Rightarrow> (bool \<times> enb_scheduling_info) result" where
  "cce_loop c cell rnti aggregation subframe rem e =
     (if 2 ^ aggregation > rem
      then if num_pdcch_symbols e c = 3 then Inr (True, e)
        else let e' = increase_num_pdcch_symbols c cell subframe e in
          cce_loop c cell rnti aggregation subframe (sint (nCCE_rem e' c)) e'
      else rbind (get_nCCE_offset (2 ^ aggregation mod 256) (get_nCCE_max (num_pdcch_symbols e c) cell subframe)
                    0 rnti subframe) (\<lambda>offset.
        if offset \<ge> 0 then Inr (False, e)
        else if num_pdcch_symbols e c = 3 then Inr (True, e)
        else cce_loop c cell rnti aggregation subframe rem (increase_num_pdcch_symbols c cell subframe e)))"
  by pat_completeness auto

termination
  by (relation "measure (\<lambda>(c, _, _, _, _, _, e). unat (3 - num_pdcch_symbols e c))")
    (simp_all add: Let_def symbols_left_decrease del: of_nat_unat)

declare cce_loop.simps [simp del]

definition CCE_allocation_infeasible ::
  "nat \<Rightarrow> flex_cell_config \<Rightarrow> u32 \<Rightarrow> nat \<Rightarrow> u16 \<Rightarrow> enb_scheduling_info \<Rightarrow> (bool \<times> enb_scheduling_info) result" where
  "CCE_allocation_infeasible c cell rnti aggregation subframe e =
     (if \<not> c < MAX_NUM_CC then Inl out_of_bounds
      else cce_loop c cell rnti aggregation subframe (sint (nCCE_rem e c)) e)"

section \<open>Lemmas\<close>

text \<open>With no PDCCH symbol, \<open>get_nquad\<close> wraps below zero.\<close>

lemma nCCE_max_wraps: "7196 \<le> get_nCCE_max 0 cell subframe" "get_nCCE_max 0 cell subframe \<le> 7281"
proof -
  define g where "g = unat (n_group_PHICH cell 1)"
  have "unat (n_group_PHICH cell 1) < 2 ^ 8" using unsigned_less [of "n_group_PHICH cell 1"] by simp
  then have g: "g \<le> 255" by (simp add: g_def)
  have v: "(- 4 - 3 * int g) mod 65536 = 65532 - 3 * int g"
    using g mod_add_self2 [of "- 4 - 3 * int g" 65536] by (simp add: mod_pos_pos_trivial)
  have "get_nquad 0 cell 1 = of_int (- 4 - 3 * int g)"
    by (simp add: get_nquad_def g_def Let_def)
  then have "unat (get_nquad 0 cell 1) = nat ((- 4 - 3 * int g) mod 65536)"
    by (simp only: unat_eq_nat_uint uint_word_of_int_eq take_bit_eq_mod) simp
  then have "unat (get_nquad 0 cell 1) = 65532 - 3 * g" using g by (simp add: v nat_diff_distrib nat_mult_distrib)
  then show "7196 \<le> get_nCCE_max 0 cell subframe" "get_nCCE_max 0 cell subframe \<le> 7281"
    using g by (simp_all add: get_nCCE_max_def get_mi_def)
qed

theorem cce_check_is_vacuous:
  assumes "enb_start_new_scheduling_round sv subframe cell e = Inr e'" "subframe \<noteq> 0" "subframe \<noteq> 5"
    and "aggregation \<le> 3"
    and "nCCE_rem e'' c = nCCE_rem e' c - of_nat taken" "taken \<le> 7188"
    and "num_pdcch_symbols e'' c = num_pdcch_symbols e' c" "c = unat (cell_id_of sv cell)"
  shows "CCE_allocation_infeasible c cell rnti aggregation subframe e'' = Inr (False, e'')"
proof -
  let ?m = "get_nCCE_max 0 cell subframe"
  have c: "c < MAX_NUM_CC" and e': "num_pdcch_symbols e' c = 0" "nCCE_rem e' c = of_nat ?m"
    using assms(1,2,3,8) by (auto simp: enb_start_new_scheduling_round_def Let_def split: if_splits)
  have le: "taken \<le> ?m" "?m - taken < 2 ^ 31" "8 \<le> ?m - taken"
    using nCCE_max_wraps [of cell subframe] assms(6) by auto
  have "nCCE_rem e'' c = of_nat (?m - taken)" using assms(5) e'(2) le(1) by (simp add: of_nat_diff)
  moreover have "unat (of_nat (?m - taken) :: u32) = ?m - taken" using le(2) by (simp add: unat_of_nat_small)
  ultimately have sint: "sint (nCCE_rem e'' c) = int (?m - taken)" using le(2) by (simp add: sint_u32)
  have agg: "aggregation \<in> {0, 1, 2, 3}" using assms(4) by auto
  then have p: "2 ^ aggregation \<le> (8 :: nat)" "2 ^ aggregation mod 256 = (2 ^ aggregation :: nat)"
    "2 ^ aggregation \<in> {1, 2, 4, 8 :: nat}" by auto
  have "2 ^ aggregation \<le> ?m" using p(1) nCCE_max_wraps(1) [of cell subframe] by linarith
  from nCCE_offset_in_range [OF p(3) this, of rnti subframe]
  obtain k where k: "get_nCCE_offset (2 ^ aggregation mod 256) ?m 0 rnti subframe = Inr (int k)"
    unfolding p(2) by blast
  have "int (2 ^ aggregation) \<le> int (?m - taken)" using p(1) le(3) by (meson le_trans of_nat_le_iff)
  then have "\<not> 2 ^ aggregation > int (?m - taken)" by simp
  then show ?thesis
    using c k assms(7) e'(1) by (simp add: CCE_allocation_infeasible_def sint cce_loop.simps)
qed

end
