(* ===== verification/Sched_Helper.thy ===== *)
theory Sched_Helper
  imports Sched_Info "HOL-Library.Multiset"
begin

text \<open>
  The preprocessor of the downlink scheduler, \<open>app/remote_scheduler_helper.cc\<close>: how many resource
  blocks each user of a cell needs, the order of the users, and the distribution of the resource
  block groups in two rounds, high priority first.
\<close>

section \<open>Resource blocks a user needs\<close>

definition null_deref :: exn where
  "null_deref = Undefined_behaviour ''null pointer dereferenced''"

text \<open>The index of a cell is cut to sixteen bits.\<close>

definition cell_index :: "sched_view \<Rightarrow> flex_cell_config \<Rightarrow> nat" where
  "cell_index sv cell = unat (ucast (cell_id_of sv cell) :: u16)"

definition in_cell :: "sched_view \<Rightarrow> flex_cell_config \<Rightarrow> flex_ue_config \<Rightarrow> bool" where
  "in_cell sv cell uc \<longleftrightarrow> unat (pcell_carrier_index_of sv uc) = cell_index sv cell"

text \<open>The sum of 32-bit sizes is kept in an \<open>int\<close>.\<close>

definition total_buffer_bytes :: "sched_view \<Rightarrow> flex_ue_stats_report \<Rightarrow> int" where
  "total_buffer_bytes sv r =
     sint (\<Sum>raw \<leftarrow> rlc_report r. get_or 0 (tx_queue_size (rlc_bsr_of sv raw)))"

text \<open>
  Groups are added until the transport block carries the bytes, up to a limit: the bandwidth of the cell. A counter
  that wraps would start over for ever; it cannot, for the schemes of \<open>cqi_to_mcs\<close> are below 29 and
  the table of block sizes ends at 110 (\<open>rb_loop_enough\<close>).
\<close>

function rb_loop :: "flex_cell_config \<Rightarrow> u32 \<Rightarrow> nat \<Rightarrow> int \<Rightarrow> u16 \<Rightarrow> u16 result" where
  "rb_loop cell limit mcs need nb_rb = rbind (get_TBS_DL mcs nb_rb) (\<lambda>TBS.
     if int TBS < need
     then let nb = unat nb_rb + get_min_rb_unit cell in
       if nb \<ge> 2 ^ 16 then Inl (Undefined_behaviour ''endless loop'')
       else if nb > unat limit then rbind (get_TBS_DL mcs (ucast limit)) (\<lambda>_. Inr (ucast limit))
       else rb_loop cell limit mcs need (of_nat nb)
     else Inr nb_rb)"
  by pat_completeness auto

termination
proof (relation "measure (\<lambda>(_, _, _, _, nb). 2 ^ 16 - unat nb)", goal_cases)
  case (2 cell limit mcs need nb_rb TBS nb)
  have "unat (of_nat nb :: u16) = nb" using 2(4) by (simp add: unat_of_nat_small)
  then show ?case using 2(3,4) min_rb_unit_pos(1) [of cell] by auto
qed simp

declare rb_loop.simps [simp del]

definition assign_rbs_required ::
  "sched_view \<Rightarrow> flex_cell_config \<Rightarrow> flex_lc_ue_config \<Rightarrow> ue_mac_rib_info option \<Rightarrow> ue_scheduling_info \<Rightarrow>
     ue_scheduling_info result" where
  "assign_rbs_required sv cell lc mac u = (case mac of None \<Rightarrow> Inl null_deref | Some mac \<Rightarrow>
     (let r = mac_stats_report mac; c = cell_index sv cell; need = total_buffer_bytes sv r in
      rbind (mcs_of_reports sv cell r 0) (\<lambda>mcs.
      let u = (if rlc_report r = [] then u else u\<lparr>high_priority := \<not> length (lc_config lc) > 2\<rparr>) in
      if need > 0
      then if \<not> c < MAX_NUM_CC then Inl out_of_bounds
        else rbind (rb_loop cell (cell_field_of dl_bandwidth cell) mcs need (if mcs = 0 then 4 else of_nat (get_min_rb_unit cell))) (\<lambda>nb.
          Inr (u\<lparr>nb_rbs_required := (nb_rbs_required u)(c := nb)\<rparr>))
      else Inr u)))"

section \<open>Order of the users\<close>

record ue_stats =
  st_ue_id :: nat
  bytes_in_ccch :: int
  total_bytes_in_buffers :: int
  hol_delay :: int
  st_cqi :: int
  st_harq_round :: int

definition blank_stats :: "nat \<Rightarrow> ue_stats" where
  "blank_stats i = \<lparr>st_ue_id = i, bytes_in_ccch = 0, total_bytes_in_buffers = 0, hol_delay = 0,
     st_cqi = 0, st_harq_round = 0\<rparr>"

definition MAX_NUM_UE :: nat where "MAX_NUM_UE = 1024"

definition compare_stats :: "ue_stats \<Rightarrow> ue_stats \<Rightarrow> bool" where
  "compare_stats a b =
     (if st_harq_round a > st_harq_round b then True else if st_harq_round a < st_harq_round b then False
      else if bytes_in_ccch a > bytes_in_ccch b then True else if bytes_in_ccch a < bytes_in_ccch b then False
      else if hol_delay a > hol_delay b then True else if hol_delay a < hol_delay b then False
      else if total_bytes_in_buffers a > total_bytes_in_buffers b then True
      else if total_bytes_in_buffers a < total_bytes_in_buffers b then False
      else if st_cqi a > st_cqi b then True else if st_cqi a < st_cqi b then False
      else True)"

text \<open>Sizes are added to an \<open>int\<close> modulo 32 bits.\<close>

definition add_u32 :: "int \<Rightarrow> u32 \<Rightarrow> int" where
  "add_u32 i w = sint (of_int i + w :: u32)"

definition rlc_stats :: "flex_rlc_bsr \<Rightarrow> ue_stats \<Rightarrow> ue_stats" where
  "rlc_stats b st = (let size = get_or 0 (tx_queue_size b); lc = unat (get_or 0 (bsr_lc_id b));
       st = (if lc = 1 \<or> lc = 2 then st\<lparr>bytes_in_ccch := add_u32 (bytes_in_ccch st) size\<rparr> else st);
       st = (case tx_queue_size b of None \<Rightarrow> st
             | Some n \<Rightarrow> st\<lparr>total_bytes_in_buffers := add_u32 (total_bytes_in_buffers st) n\<rparr>) in
     case tx_queue_hol_delay b of None \<Rightarrow> st | Some d \<Rightarrow> st\<lparr>hol_delay := max (hol_delay st) (sint d)\<rparr>)"

definition ue_stats_of :: "sched_view \<Rightarrow> flex_cell_config \<Rightarrow> enb_rib_info \<Rightarrow> nat \<times> flex_ue_config \<Rightarrow> ue_stats result" where
  "ue_stats_of sv cell bs = (\<lambda>(i, uc).
     if \<not> i < MAX_NUM_UE then Inl out_of_bounds
     else if \<not> in_cell sv cell uc then Inr (blank_stats i)
     else case get_ue_mac_info (rnti_of uc) bs of
       None \<Rightarrow> Inl null_deref
     | Some mac \<Rightarrow> let c = cell_index sv cell in rbind (has_available_harq c mac) (\<lambda>av.
         if \<not> av then Inr (blank_stats i)
         else rbind (get_next_available_harq c mac) (\<lambda>pid. rbind (get_harq_stats c (nat pid) mac) (\<lambda>round.
           let r = mac_stats_report mac;
               cqi = (case List.find (\<lambda>x. cell_id_of sv cell = get_or 0 (csi_serv_cell_index x)) (csi_reports sv r) of
                        None \<Rightarrow> 0 | Some x \<Rightarrow> sint (get_or 0 (csi_wb_cqi x))) in
           Inr (fold rlc_stats (map (rlc_bsr_of sv) (rlc_report r))
                  ((blank_stats i)\<lparr>st_harq_round := int (unat round), st_cqi := cqi\<rparr>))))))"

text \<open>
  \<open>std::sort\<close> needs a strict ordering. That the comparison of an element with itself must be false
  too is left out: two elements that each come before the other are enough for an undefined
  result. Without such a pair the order is unique, so it does not matter which algorithm sorts.
\<close>

primrec no_tie :: "('a \<Rightarrow> 'a \<Rightarrow> bool) \<Rightarrow> 'a list \<Rightarrow> bool" where
  "no_tie prec [] \<longleftrightarrow> True"
| "no_tie prec (x # xs) \<longleftrightarrow> list_all (\<lambda>y. \<not> (prec x y \<and> prec y x)) xs \<and> no_tie prec xs"

primrec insert_by :: "('a \<Rightarrow> 'a \<Rightarrow> bool) \<Rightarrow> 'a \<Rightarrow> 'a list \<Rightarrow> 'a list" where
  "insert_by prec x [] = [x]"
| "insert_by prec x (y # ys) = (if prec x y then x # y # ys else y # insert_by prec x ys)"

definition std_sort :: "('a \<Rightarrow> 'a \<Rightarrow> bool) \<Rightarrow> 'a list \<Rightarrow> 'a list result" where
  "std_sort prec xs = (if no_tie prec xs then Inr (foldr (insert_by prec) xs [])
     else Inl (Undefined_behaviour ''std::sort without a strict weak ordering''))"

primrec mapR :: "('a \<Rightarrow> 'b result) \<Rightarrow> 'a list \<Rightarrow> 'b list result" where
  "mapR f [] = Inr []"
| "mapR f (x # xs) = rbind (f x) (\<lambda>y. rbind (mapR f xs) (\<lambda>ys. Inr (y # ys)))"

definition sort_UEs :: "sched_view \<Rightarrow> flex_cell_config \<Rightarrow> flex_ue_config list \<Rightarrow> enb_rib_info \<Rightarrow> nat list result" where
  "sort_UEs sv cell ues bs =
     rbind (mapR (ue_stats_of sv cell bs) (enumerate 0 ues)) (\<lambda>sts.
     rbind (std_sort compare_stats sts) (\<lambda>sorted. Inr (map st_ue_id sorted)))"

section \<open>Distribution of the groups\<close>

definition modify_ue :: "u32 \<Rightarrow> (ue_scheduling_info \<Rightarrow> ue_scheduling_info) \<Rightarrow> enb_scheduling_info \<Rightarrow> enb_scheduling_info" where
  "modify_ue rnti f e = e\<lparr>scheduling_info := sm_update rnti f (scheduling_info e)\<rparr>"

text \<open>Every user that is looked up has a record: the first loop of the preprocessor creates it.\<close>

definition ue_of :: "u32 \<Rightarrow> enb_scheduling_info \<Rightarrow> ue_scheduling_info" where
  "ue_of rnti e = (case get_ue_scheduling_info rnti e of Some u \<Rightarrow> u | None \<Rightarrow> new_ue_scheduling_info rnti)"

definition take_group :: "nat \<Rightarrow> nat \<Rightarrow> int \<Rightarrow> u32 \<Rightarrow> enb_scheduling_info \<Rightarrow> enb_scheduling_info" where
  "take_group c i d rnti e = modify_ue rnti (\<lambda>u.
       let left = int (unat (nb_rbs_required_remaining u c)) - d in
       u\<lparr>rballoc_sub := upd2 c i 1 (rballoc_sub u),
         nb_rbs_required_remaining := (nb_rbs_required_remaining u)(c := if left \<le> 0 then 0 else of_int left),
         pre_nb_rbs_available := (pre_nb_rbs_available u)(c := of_int (int (unat (pre_nb_rbs_available u c)) + d))\<rparr>)
     (toggle_vrb_map c i e)"

definition alloc_group :: "nat \<Rightarrow> flex_cell_config \<Rightarrow> u32 \<Rightarrow> nat \<Rightarrow> enb_scheduling_info \<Rightarrow> enb_scheduling_info" where
  "alloc_group c cell rnti i e =
     (let u = ue_of rnti e; unit = get_min_rb_unit cell; bw = unat (cell_field_of dl_bandwidth cell) in
      if vrb_map e c i = 0 \<and> rballoc_sub u c i = 0 \<and> unat (nb_rbs_required_remaining u c) > 0 \<and>
         unat (pre_nb_rbs_available u c) < unat (nb_rbs_required u c)
      then if i = get_nb_rbg cell - 1 \<and> (bw = 25 \<or> bw = 50) then take_group c i (int unit - 1) rnti e
        else if unat (nb_rbs_required_remaining u c) \<ge> unit then take_group c i (int unit) rnti e
        else e
      else e)"

definition perform_pre_processor_allocation ::
  "nat \<Rightarrow> flex_cell_config \<Rightarrow> u32 \<Rightarrow> enb_scheduling_info \<Rightarrow> enb_scheduling_info" where
  "perform_pre_processor_allocation c cell rnti e = fold (alloc_group c cell rnti) [0..<get_nb_rbg cell] e"

section \<open>The preprocessor\<close>

text \<open>The first loop: a fresh record for every user of the cell, and what the user needs.\<close>

definition prepare_ue ::
  "sched_view \<Rightarrow> flex_cell_config \<Rightarrow> flex_lc_config_reply \<Rightarrow> enb_rib_info \<Rightarrow> flex_ue_config \<Rightarrow>
     enb_scheduling_info \<Rightarrow> enb_scheduling_info result" where
  "prepare_ue sv cell lcs bs uc e =
     (if \<not> in_cell sv cell uc then Inr e
      else let rnti = rnti_of uc;
           e = (case get_ue_scheduling_info rnti e of
                  None \<Rightarrow> create_ue_scheduling_info rnti e
                | Some _ \<Rightarrow> modify_ue rnti ue_start_new_scheduling_round e) in
        case List.find (\<lambda>lc. get_or 0 (lc_rnti lc) = rnti) (lc_ue_config lcs) of
          None \<Rightarrow> Inr e
        | Some lc \<Rightarrow> rbind (assign_rbs_required sv cell lc (get_ue_mac_info rnti bs) (ue_of rnti e)) (\<lambda>u.
            Inr (modify_ue rnti (\<lambda>_. u) e)))"

text \<open>A loop over the users of the cell in their order.\<close>

definition for_ues ::
  "sched_view \<Rightarrow> flex_cell_config \<Rightarrow> flex_ue_config list \<Rightarrow> (flex_ue_config \<Rightarrow> 's \<Rightarrow> 's) \<Rightarrow> nat list \<Rightarrow> 's \<Rightarrow> 's" where
  "for_ues sv cell ues f order s =
     fold (\<lambda>i s. if in_cell sv cell (ues ! i) then f (ues ! i) s else s) order s"

text \<open>The second loop; the accesses to the MAC state have been made by \<open>sort_UEs\<close> before.\<close>

definition note_harq ::
  "sched_view \<Rightarrow> flex_cell_config \<Rightarrow> enb_rib_info \<Rightarrow> flex_ue_config \<Rightarrow>
     nat \<times> enb_scheduling_info \<Rightarrow> nat \<times> enb_scheduling_info" where
  "note_harq sv cell bs uc = (\<lambda>(count, e). let c = cell_index sv cell; rnti = rnti_of uc in
     case get_ue_mac_info rnti bs of None \<Rightarrow> (count, e) | Some mac \<Rightarrow>
     (case get_next_available_harq c mac of Inl _ \<Rightarrow> (count, e) | Inr pid \<Rightarrow>
       if pid < 0 then (count, e)
       else let harq_pid = nat pid; round = harq_stats mac c harq_pid 0;
            e = modify_ue rnti (\<lambda>u. let u = set_harq_round c harq_pid round u in
                 if unat round > 0
                 then u\<lparr>nb_rbs_required := (nb_rbs_required u)(c := nb_scheduled_rbs u c harq_pid)\<rparr>
                 else u\<lparr>nb_scheduled_rbs := upd2 c harq_pid 0 (nb_scheduled_rbs u)\<rparr>) e in
         (if unat (nb_rbs_required (ue_of rnti e) c) > 0 then count + 1 else count, e)))"

definition average_rbs_per_user :: "flex_cell_config \<Rightarrow> u16 \<Rightarrow> nat \<Rightarrow> u16" where
  "average_rbs_per_user cell total_nb_available_rb total_ue_count =
     (if total_ue_count = 0 then 0
      else if get_min_rb_unit cell * total_ue_count \<le> unat total_nb_available_rb
      then of_nat (unat total_nb_available_rb div total_ue_count)
      else of_nat (get_min_rb_unit cell))"

definition share_of :: "nat \<Rightarrow> u16 \<Rightarrow> flex_ue_config \<Rightarrow> enb_scheduling_info \<Rightarrow> enb_scheduling_info" where
  "share_of c average uc e = modify_ue (rnti_of uc) (\<lambda>u.
     if nb_rbs_required u c = 0 then u
     else u\<lparr>nb_rbs_required_remaining_1 := (nb_rbs_required_remaining_1 u)(c :=
            if high_priority u then nb_rbs_required u c else min average (nb_rbs_required u c))\<rparr>) e"

definition open_round :: "nat \<Rightarrow> nat \<Rightarrow> flex_ue_config \<Rightarrow> enb_scheduling_info \<Rightarrow> enb_scheduling_info" where
  "open_round c r1 uc e = modify_ue (rnti_of uc) (\<lambda>u.
     if nb_rbs_required u c = 0 then u
     else u\<lparr>nb_rbs_required_remaining := (nb_rbs_required_remaining u)(c :=
            if r1 = 0 then nb_rbs_required_remaining_1 u c
            else nb_rbs_required u c - nb_rbs_required_remaining_1 u c + nb_rbs_required_remaining u c)\<rparr>) e"

definition allocate_if :: "nat \<Rightarrow> flex_cell_config \<Rightarrow> bool \<Rightarrow> flex_ue_config \<Rightarrow> enb_scheduling_info \<Rightarrow> enb_scheduling_info" where
  "allocate_if c cell prio uc e = (let u = ue_of (rnti_of uc) e in
     if high_priority u = prio \<and> nb_rbs_required u c \<noteq> 0
     then perform_pre_processor_allocation c cell (rnti_of uc) e else e)"

definition distribute_round ::
  "sched_view \<Rightarrow> flex_cell_config \<Rightarrow> flex_ue_config list \<Rightarrow> nat list \<Rightarrow> nat \<Rightarrow> nat \<Rightarrow> enb_scheduling_info \<Rightarrow> enb_scheduling_info" where
  "distribute_round sv cell ues order total_ue_count r1 e =
     (let c = cell_index sv cell; e = for_ues sv cell ues (open_round c r1) order e in
      if total_ue_count > 0
      then for_ues sv cell ues (allocate_if c cell False) order (for_ues sv cell ues (allocate_if c cell True) order e)
      else e)"

definition run_dlsch_scheduler_preprocessor ::
  "sched_view \<Rightarrow> flex_cell_config \<Rightarrow> flex_ue_config_reply \<Rightarrow> flex_lc_config_reply \<Rightarrow> enb_rib_info \<Rightarrow> u16 \<Rightarrow>
     enb_scheduling_info \<Rightarrow> enb_scheduling_info result" where
  "run_dlsch_scheduler_preprocessor sv cell ucs lcs bs subframe e =
     (let ues = ue_config ucs; c = cell_index sv cell;
          available = (ucast (cell_field_of dl_bandwidth cell) :: u16)
            - (if subframe = 0 then 4 else if subframe = 5 then 8 else 0) in
      rbind (foldR (prepare_ue sv cell lcs bs) ues e) (\<lambda>e.
      rbind (sort_UEs sv cell ues bs) (\<lambda>order.
      let (count, e) = for_ues sv cell ues (note_harq sv cell bs) order (0, e);
          e = for_ues sv cell ues (share_of c (average_rbs_per_user cell available count)) order e in
      Inr (distribute_round sv cell ues order count 1 (distribute_round sv cell ues order count 0 e)))))"

section \<open>Lemmas\<close>

subsection \<open>Resource blocks a user needs\<close>

text \<open>For a scheme of the table and a bandwidth of the table, the loop ends with enough blocks or with all.\<close>

lemma rb_loop_enough:
  assumes "mcs < 29" "unat limit \<le> 110" and "unat nb \<le> 110"
  shows "\<exists>nb'. rb_loop cell limit mcs need nb = Inr nb' \<and> (nb' = nb \<or> unat nb' \<le> unat limit) \<and>
    (unat nb' = unat limit \<or> (\<exists>t. get_TBS_DL mcs nb' = Inr t \<and> need \<le> int t))"
  using assms
proof (induction cell limit mcs need nb rule: rb_loop.induct)
  case (1 cell limit mcs need nb)
  let ?n = "unat nb + get_min_rb_unit cell"
  obtain t where t: "get_TBS_DL mcs nb = Inr t" using get_TBS_DL_ok [OF 1(4), of mcs] by (auto simp: is_ok_iff)
  have lim: "unat (ucast limit :: u16) = unat limit" using 1(3) by (intro unat_ucast_small) simp
  obtain t' where t': "get_TBS_DL mcs (ucast limit) = Inr t'"
    using get_TBS_DL_ok [of "ucast limit" mcs] 1(3) lim by (auto simp: is_ok_iff)
  show ?case
  proof (cases "int t < need")
    case less: True
    have small: "?n < 2 ^ 16" using 1(4) min_rb_unit_pos(2) [of cell] by simp
    show ?thesis
    proof (cases "?n > unat limit")
      case True
      then have "rb_loop cell limit mcs need nb = Inr (ucast limit)"
        using t t' less small by (simp add: rb_loop.simps [of cell limit mcs need nb] Let_def)
      then show ?thesis using lim by auto
    next
      case False
      have n: "unat (of_nat ?n :: u16) = ?n" using small by (intro unat_of_nat_small) simp
      have "rb_loop cell limit mcs need nb = rb_loop cell limit mcs need (of_nat ?n)"
        using t less small False by (simp add: rb_loop.simps [of cell limit mcs need nb] Let_def)
      moreover have "unat (of_nat ?n :: u16) \<le> 110" using n False 1(3) by simp
      ultimately show ?thesis
        using 1(1) [OF t less refl _ False 1(2,3)] small n False by auto
    qed
  next
    case False
    then have "rb_loop cell limit mcs need nb = Inr nb" using t by (simp add: rb_loop.simps [of cell limit mcs need nb])
    then show ?thesis using t False by auto
  qed
qed

lemma cqi_to_mcs_bound: "cqi < 16 \<Longrightarrow> cqi_to_mcs ! cqi < 29"
proof -
  have "length cqi_to_mcs = 16" "list_all (\<lambda>m. m < 29) cqi_to_mcs" by (simp_all add: cqi_to_mcs_def)
  then show "cqi < 16 \<Longrightarrow> cqi_to_mcs ! cqi < 29" by (simp add: list_all_length)
qed

lemma mcs_of_reports_bound: "mcs_of_reports sv cell r mcs0 = Inr mcs \<Longrightarrow> mcs0 < 29 \<Longrightarrow> mcs < 29"
  using cqi_to_mcs_bound by (fastforce simp: mcs_of_reports_def Let_def split: option.splits if_splits)

theorem user_gets_enough_blocks:
  assumes "unat (cell_field_of dl_bandwidth cell) \<le> 110"
    and "cell_index sv cell < MAX_NUM_CC"
    and "mcs_of_reports sv cell (mac_stats_report mac) 0 = Inr mcs"
  shows "\<exists>u'. assign_rbs_required sv cell lc (Some mac) u = Inr u' \<and>
    (let nb = nb_rbs_required u' (cell_index sv cell); need = total_buffer_bytes sv (mac_stats_report mac) in
     need > 0 \<longrightarrow> unat nb = unat (cell_field_of dl_bandwidth cell) \<or> (\<exists>t. get_TBS_DL mcs nb = Inr t \<and> need \<le> int t))"
proof -
  let ?need = "total_buffer_bytes sv (mac_stats_report mac)"
  let ?nb = "if mcs = 0 then 4 else of_nat (get_min_rb_unit cell) :: u16"
  have u: "unat (of_nat (get_min_rb_unit cell) :: u16) = get_min_rb_unit cell"
    using min_rb_unit_pos(2) [of cell] by (intro unat_of_nat_small) simp
  have "unat ?nb \<le> 110" using min_rb_unit_pos(2) [of cell] u by simp
  then obtain nb' where nb': "rb_loop cell (cell_field_of dl_bandwidth cell) mcs ?need ?nb = Inr nb'"
    "unat nb' = unat (cell_field_of dl_bandwidth cell) \<or> (\<exists>t. get_TBS_DL mcs nb' = Inr t \<and> ?need \<le> int t)"
    using rb_loop_enough [of mcs "cell_field_of dl_bandwidth cell" ?nb cell ?need] mcs_of_reports_bound [OF assms(3)]
      assms(1) by auto
  show ?thesis
  proof (cases "?need > 0")
    case True
    then show ?thesis using assms(2,3) nb' by (auto simp: assign_rbs_required_def Let_def simp del: of_nat_unat)
  next
    case False
    then show ?thesis using assms(3) by (simp add: assign_rbs_required_def Let_def)
  qed
qed

subsection \<open>Order of the users\<close>

lemma mset_insert_by: "mset (insert_by prec x xs) = add_mset x (mset xs)"
  by (induction xs) auto

lemma mset_std_sort: "std_sort prec xs = Inr ys \<Longrightarrow> mset ys = mset xs"
proof -
  have "mset (foldr (insert_by prec) xs []) = mset xs" by (induction xs) (simp_all add: mset_insert_by)
  then show "std_sort prec xs = Inr ys \<Longrightarrow> mset ys = mset xs" by (auto simp: std_sort_def split: if_splits)
qed

lemma sorted_insert_by:
  assumes "sorted_wrt prec xs" "\<And>x y. prec x y \<or> prec y x"
    and "\<And>x y z. prec x y \<Longrightarrow> prec y z \<Longrightarrow> prec x z"
  shows "sorted_wrt prec (insert_by prec x xs)"
  using assms(1)
proof (induction xs)
  case (Cons y ys)
  have set: "set (insert_by prec x ys) = insert x (set ys)"
    using mset_insert_by [of prec x ys] by (metis set_mset_add_mset_insert set_mset_mset)
  show ?case
  proof (cases "prec x y")
    case True
    then show ?thesis using Cons.prems assms(3) by auto
  next
    case False
    then have "prec y x" using assms(2) by blast
    then show ?thesis using Cons False set by auto
  qed
qed simp

lemma compare_stats_total: "compare_stats a b \<or> compare_stats b a"
  by (auto simp: compare_stats_def)

lemma compare_stats_trans: "compare_stats a b \<Longrightarrow> compare_stats b c \<Longrightarrow> compare_stats a c"
  by (auto simp: compare_stats_def split: if_splits)

lemma sorted_std_sort: "std_sort compare_stats xs = Inr ys \<Longrightarrow> sorted_wrt compare_stats ys"
proof -
  have "sorted_wrt compare_stats (foldr (insert_by compare_stats) xs [])"
    by (induction xs) (simp_all add: sorted_insert_by compare_stats_total compare_stats_trans)
  then show "std_sort compare_stats xs = Inr ys \<Longrightarrow> sorted_wrt compare_stats ys"
    by (auto simp: std_sort_def split: if_splits)
qed

lemma mapR_Inr: "mapR f xs = Inr ys \<Longrightarrow> length ys = length xs \<and> (\<forall>i < length xs. f (xs ! i) = Inr (ys ! i))"
proof (induction xs arbitrary: ys)
  case (Cons x xs)
  then obtain y ys' where "ys = y # ys'" "f x = Inr y" "mapR f xs = Inr ys'" by (auto simp: rbind_Inr_eq)
  then show ?case using Cons.IH by (auto simp: nth_Cons split: nat.splits)
qed simp

lemma tie:
  "i < j \<Longrightarrow> j < length xs \<Longrightarrow> prec (xs ! i) (xs ! j) \<Longrightarrow> prec (xs ! j) (xs ! i) \<Longrightarrow> \<not> no_tie prec xs"
proof (induction xs arbitrary: i j)
  case (Cons x xs)
  then obtain j' where j: "j = Suc j'" "j' < length xs" by (cases j) auto
  show ?case
  proof (cases i)
    case 0
    then have "prec x (xs ! j') \<and> prec (xs ! j') x" "xs ! j' \<in> set xs" using Cons.prems j by auto
    then show ?thesis by (auto simp: list_all_iff)
  next
    case (Suc i')
    then show ?thesis using Cons.IH [of i' j'] Cons.prems j by auto
  qed
qed simp

lemma rlc_stats_id: "st_ue_id (fold rlc_stats bs st) = st_ue_id st"
  by (induction bs arbitrary: st) (simp_all add: rlc_stats_def Let_def split: option.split)

lemma ue_stats_of_id: "ue_stats_of sv cell bs (i, uc) = Inr st \<Longrightarrow> st_ue_id st = i"
  by (auto simp: ue_stats_of_def blank_stats_def rlc_stats_id rbind_Inr_eq Let_def split: if_splits option.splits)

text \<open>The order is a permutation of the users, by falling priority.\<close>

theorem users_sorted:
  assumes "sort_UEs sv cell ues bs = Inr order"
  shows "mset order = mset [0..<length ues]"
    and "sorted_wrt (\<lambda>i j. \<exists>a b. ue_stats_of sv cell bs (i, ues ! i) = Inr a \<and>
           ue_stats_of sv cell bs (j, ues ! j) = Inr b \<and> compare_stats a b) order"
proof -
  obtain sts ys where sts: "mapR (ue_stats_of sv cell bs) (enumerate 0 ues) = Inr sts"
    and ys: "std_sort compare_stats sts = Inr ys" "order = map st_ue_id ys"
    using assms by (auto simp: sort_UEs_def rbind_Inr_eq)
  have len: "length sts = length ues"
    and at: "\<And>i. i < length ues \<Longrightarrow> ue_stats_of sv cell bs (i, ues ! i) = Inr (sts ! i)"
    using mapR_Inr [OF sts] by (auto simp: nth_enumerate_eq)
  then have id: "\<And>i. i < length ues \<Longrightarrow> st_ue_id (sts ! i) = i" using ue_stats_of_id by blast
  have "map st_ue_id sts = [0..<length ues]" using len id by (auto intro: nth_equalityI)
  then show "mset order = mset [0..<length ues]"
    using mset_std_sort [OF ys(1)] ys(2) by (metis mset_map)
  have "\<exists>i < length ues. a = sts ! i" if "a \<in> set ys" for a
    using that mset_std_sort [OF ys(1)] len by (metis in_set_conv_nth mset_eq_setD)
  then have stats: "ue_stats_of sv cell bs (st_ue_id a, ues ! st_ue_id a) = Inr a" if "a \<in> set ys" for a
    using that at id by metis
  show "sorted_wrt (\<lambda>i j. \<exists>a b. ue_stats_of sv cell bs (i, ues ! i) = Inr a \<and>
           ue_stats_of sv cell bs (j, ues ! j) = Inr b \<and> compare_stats a b) order"
    unfolding ys(2) sorted_wrt_map
    by (rule sorted_wrt_mono_rel [OF _ sorted_std_sort [OF ys(1)]]) (use stats in blast)
qed

text \<open>Two users of other cells look the same to the comparison, which then says each is before the other.\<close>

theorem sorting_idle_users_is_undefined:
  assumes "i < j" "j < length ues" "\<not> in_cell sv cell (ues ! i)" "\<not> in_cell sv cell (ues ! j)"
  shows "\<not> is_ok (sort_UEs sv cell ues bs)"
proof (cases "mapR (ue_stats_of sv cell bs) (enumerate 0 ues)")
  case (Inr sts)
  have at: "\<And>k. k < length ues \<Longrightarrow> ue_stats_of sv cell bs (k, ues ! k) = Inr (sts ! k)" "length sts = length ues"
    using mapR_Inr [OF Inr] by (auto simp: nth_enumerate_eq)
  have "sts ! i = blank_stats i" "sts ! j = blank_stats j"
    using at(1) [of i] at(1) [of j] assms by (auto simp: ue_stats_of_def split: if_splits)
  then have "compare_stats (sts ! i) (sts ! j)" "compare_stats (sts ! j) (sts ! i)"
    by (simp_all add: compare_stats_def blank_stats_def)
  then have "\<not> no_tie compare_stats sts" using tie [OF assms(1)] assms(2) at(2) by metis
  then show ?thesis by (simp add: sort_UEs_def Inr std_sort_def)
qed (simp add: sort_UEs_def)

subsection \<open>Distribution of the groups\<close>

lemma find_modify_ue:
  "get_ue_scheduling_info r (modify_ue s f e) =
     (if r = s then map_option f (get_ue_scheduling_info s e) else get_ue_scheduling_info r e)"
  by (simp add: get_ue_scheduling_info_def modify_ue_def sm_find_update)

lemma modify_ue_simps [simp]: "vrb_map (modify_ue r f e) = vrb_map e"
  by (simp add: modify_ue_def)

lemma ue_of_modify:
  "get_ue_scheduling_info s e \<noteq> None \<Longrightarrow>
     ue_of r (modify_ue s f e) = (if r = s then f (ue_of s e) else ue_of r e)"
  by (auto simp: ue_of_def find_modify_ue)

definition holds_group :: "enb_scheduling_info \<Rightarrow> nat \<Rightarrow> u32 \<Rightarrow> nat \<Rightarrow> bool" where
  "holds_group e c rnti i \<longleftrightarrow> rballoc_sub (ue_of rnti e) c i \<noteq> 0"

definition groups_held :: "flex_cell_config \<Rightarrow> enb_scheduling_info \<Rightarrow> nat \<Rightarrow> u32 \<Rightarrow> nat set" where
  "groups_held cell e c rnti = {i. i < get_nb_rbg cell \<and> holds_group e c rnti i}"

definition blocks_held :: "flex_cell_config \<Rightarrow> enb_scheduling_info \<Rightarrow> nat \<Rightarrow> u32 \<Rightarrow> int" where
  "blocks_held cell e c rnti = (\<Sum>i \<in> groups_held cell e c rnti. group_size cell i)"

text \<open>
  What holds from the end of the first loop on, for the users \<open>R\<close> of the cell: they have records,
  the groups they hold are marked, are not those that were taken before (\<open>V\<close>) and are different,
  the resource blocks on record are those of the groups, and no HARQ process uses a group yet.
\<close>

definition grants_ok :: "flex_cell_config \<Rightarrow> u32 set \<Rightarrow> nat set \<Rightarrow> nat \<Rightarrow> enb_scheduling_info \<Rightarrow> bool" where
  "grants_ok cell R V c e \<longleftrightarrow>
     (\<forall>r \<in> R. get_ue_scheduling_info r e \<noteq> None \<and>
        (\<forall>i. holds_group e c r i \<longrightarrow> vrb_map e c i \<noteq> 0 \<and> i \<notin> V \<and> i < get_nb_rbg cell) \<and>
        int (unat (pre_nb_rbs_available (ue_of r e) c)) = blocks_held cell e c r \<and>
        rballoc_sub_scheduled (ue_of r e) = (\<lambda>_ _ _. 0) \<and>
        (\<forall>s \<in> R. r \<noteq> s \<longrightarrow> (\<forall>i. \<not> (holds_group e c r i \<and> holds_group e c s i)))) \<and>
     (\<forall>i \<in> V. vrb_map e c i \<noteq> 0)"

text \<open>A change of a record that leaves the grants alone.\<close>

lemma grants_ok_modify:
  assumes "grants_ok cell R V c e"
    and "\<And>u. rballoc_sub (f u) = rballoc_sub u" "\<And>u. pre_nb_rbs_available (f u) = pre_nb_rbs_available u"
    and "\<And>u. rballoc_sub_scheduled (f u) = rballoc_sub_scheduled u"
  shows "grants_ok cell R V c (modify_ue s f e)"
proof (cases "get_ue_scheduling_info s e")
  case None
  then have "get_ue_scheduling_info r (modify_ue s f e) = get_ue_scheduling_info r e" for r
    by (simp add: find_modify_ue)
  moreover from this have "ue_of r (modify_ue s f e) = ue_of r e" for r by (simp add: ue_of_def)
  ultimately show ?thesis
    using assms(1) by (simp add: grants_ok_def holds_group_def blocks_held_def groups_held_def)
next
  case (Some u)
  then have "rballoc_sub (ue_of r (modify_ue s f e)) = rballoc_sub (ue_of r e)"
    "pre_nb_rbs_available (ue_of r (modify_ue s f e)) = pre_nb_rbs_available (ue_of r e)"
    "rballoc_sub_scheduled (ue_of r (modify_ue s f e)) = rballoc_sub_scheduled (ue_of r e)" for r
    by (simp_all add: ue_of_modify assms(2-4))
  moreover have "get_ue_scheduling_info r (modify_ue s f e) = None \<longleftrightarrow> get_ue_scheduling_info r e = None" for r
    by (simp add: find_modify_ue)
  ultimately show ?thesis
    using assms(1) by (simp add: grants_ok_def holds_group_def blocks_held_def groups_held_def del: not_None_eq)
qed

lemma alloc_group_cases:
  assumes "unat (cell_field_of dl_bandwidth cell) \<in> {6, 25, 50, 100}" "i < get_nb_rbg cell"
  shows "alloc_group c cell r i e = e \<or>
    (vrb_map e c i = 0 \<and> alloc_group c cell r i e = take_group c i (group_size cell i) r e)"
  using assms by (auto simp: alloc_group_def group_size_def get_min_rb_unit_def Let_def simp del: of_nat_unat)

lemma sum_group_size:
  assumes "unat (cell_field_of dl_bandwidth cell) \<in> {6, 25, 50, 100}"
  shows "(\<Sum>i < get_nb_rbg cell. group_size cell i) = int (unat (cell_field_of dl_bandwidth cell))"
  using groups_make_up_bandwidth [OF assms] by (simp add: interv_sum_list_conv_sum_set_nat atLeast0LessThan)

lemma group_size_nonneg: "0 \<le> group_size cell i"
  by (simp add: group_size_def Let_def)

lemma blocks_held_bound:
  assumes "unat (cell_field_of dl_bandwidth cell) \<in> {6, 25, 50, 100}"
  shows "blocks_held cell e c r \<le> 100"
proof -
  have "blocks_held cell e c r \<le> (\<Sum>i < get_nb_rbg cell. group_size cell i)"
    unfolding blocks_held_def by (rule sum_mono2) (auto simp: groups_held_def group_size_nonneg)
  then show ?thesis using sum_group_size [OF assms] assms by (auto simp del: of_nat_unat)
qed

text \<open>What taking a group changes: the map, the groups of the user, and the number on record for it.\<close>

lemma take_group_facts:
  fixes c i :: nat and n :: int and r :: u32
  assumes "get_ue_scheduling_info r e \<noteq> None"
  defines "e' \<equiv> take_group c i n r e"
  shows "vrb_map e' c j = (if j = i then 1 else vrb_map e c j)"
    and "holds_group e' c s j \<longleftrightarrow> holds_group e c s j \<or> s = r \<and> j = i"
    and "get_ue_scheduling_info s e' \<noteq> None \<longleftrightarrow> get_ue_scheduling_info s e \<noteq> None"
    and "rballoc_sub_scheduled (ue_of s e') = rballoc_sub_scheduled (ue_of s e)"
    and "pre_nb_rbs_available (ue_of s e') c =
      (if s = r then of_int (int (unat (pre_nb_rbs_available (ue_of r e) c)) + n) else pre_nb_rbs_available (ue_of s e) c)"
proof -
  have ex: "get_ue_scheduling_info s (toggle_vrb_map c i e) = get_ue_scheduling_info s e" for s
    by (simp add: get_ue_scheduling_info_def toggle_vrb_map_def)
  have ue: "ue_of s (toggle_vrb_map c i e) = ue_of s e" for s by (simp add: ue_of_def ex)
  note e' = e'_def take_group_def ue_of_modify [OF assms(1) [folded ex [of r]]]
  show "vrb_map e' c j = (if j = i then 1 else vrb_map e c j)"
    by (simp add: e'_def take_group_def toggle_vrb_map_def upd2_def)
  show "holds_group e' c s j \<longleftrightarrow> holds_group e c s j \<or> s = r \<and> j = i"
    unfolding holds_group_def e' by (simp add: ue Let_def upd2_def)
  show "get_ue_scheduling_info s e' \<noteq> None \<longleftrightarrow> get_ue_scheduling_info s e \<noteq> None"
    using assms(1) by (auto simp: e'_def take_group_def find_modify_ue ex)
  show "rballoc_sub_scheduled (ue_of s e') = rballoc_sub_scheduled (ue_of s e)"
    unfolding e' by (simp add: ue Let_def)
  show "pre_nb_rbs_available (ue_of s e') c =
      (if s = r then of_int (int (unat (pre_nb_rbs_available (ue_of r e) c)) + n) else pre_nb_rbs_available (ue_of s e) c)"
    unfolding e' by (simp add: ue Let_def)
qed

lemma take_group_ok:
  assumes bw: "unat (cell_field_of dl_bandwidth cell) \<in> {6, 25, 50, 100}"
    and ok: "grants_ok cell R V c e" and r: "r \<in> R" and i: "i < get_nb_rbg cell" "vrb_map e c i = 0"
  shows "grants_ok cell R V c (take_group c i (group_size cell i) r e)"
proof -
  let ?e = "take_group c i (group_size cell i) r e"
  have "get_ue_scheduling_info r e \<noteq> None" using ok r by (auto simp: grants_ok_def)
  note facts = take_group_facts [OF this, where c = c and i = i and n = "group_size cell i"]
  have free: "\<not> holds_group e c s i" if "s \<in> R" for s using ok that i(2) by (auto simp: grants_ok_def)
  have same: "blocks_held cell ?e c s = blocks_held cell e c s" if "s \<noteq> r" for s
    using that by (simp add: blocks_held_def groups_held_def facts(2))
  have "groups_held cell ?e c r = insert i (groups_held cell e c r)" using i(1) by (auto simp: groups_held_def facts(2))
  moreover have "i \<notin> groups_held cell e c r" using free [OF r] by (simp add: groups_held_def)
  ultimately have more: "blocks_held cell ?e c r = blocks_held cell e c r + group_size cell i"
    by (simp add: blocks_held_def groups_held_def)
  let ?n = "blocks_held cell ?e c r"
  have n: "0 \<le> ?n" "?n \<le> 100"
    using blocks_held_bound [OF bw, of ?e c r] by (auto simp: blocks_held_def group_size_nonneg intro: sum_nonneg)
  have "int (unat (pre_nb_rbs_available (ue_of r e) c)) = blocks_held cell e c r" using ok r by (auto simp: grants_ok_def)
  then have "pre_nb_rbs_available (ue_of r ?e) c = of_int ?n" unfolding facts(5) more by simp
  moreover have "unat (of_int ?n :: u16) = nat ?n"
    using n unat_of_nat_small [of "nat ?n", where 'a = 16] by simp
  ultimately have taken: "int (unat (pre_nb_rbs_available (ue_of r ?e) c)) = ?n" using n(1) by simp
  have V: "i \<notin> V" "\<And>j. j \<in> V \<Longrightarrow> vrb_map e c j \<noteq> 0" using ok i(2) by (auto simp: grants_ok_def)
  show ?thesis
    unfolding grants_ok_def
  proof (intro conjI ballI allI impI)
    fix s
    assume s: "s \<in> R"
    show "get_ue_scheduling_info s ?e \<noteq> None" unfolding facts(3) using ok s by (simp add: grants_ok_def)
    show "rballoc_sub_scheduled (ue_of s ?e) = (\<lambda>_ _ _. 0)" using ok s by (simp add: facts(4) grants_ok_def)
    show "int (unat (pre_nb_rbs_available (ue_of s ?e) c)) = blocks_held cell ?e c s"
      using ok s taken by (cases "s = r") (simp_all add: facts(5) same grants_ok_def)
    fix j
    assume "holds_group ?e c s j"
    then have "holds_group e c s j \<or> j = i" by (auto simp: facts(2))
    then show "vrb_map ?e c j \<noteq> 0" "j \<notin> V" "j < get_nb_rbg cell"
      using ok s V(1) i(1) by (auto simp: facts(1) grants_ok_def)
  next
    show "\<not> (holds_group ?e c s j \<and> holds_group ?e c t j)" if "s \<in> R" "t \<in> R" "s \<noteq> t" for s t j
      using ok that free [OF that(1)] free [OF that(2)] by (auto simp: facts(2) grants_ok_def)
  next
    show "vrb_map ?e c j \<noteq> 0" if "j \<in> V" for j using V(2) [OF that] by (simp add: facts(1))
  qed
qed

lemma alloc_ok:
  assumes "unat (cell_field_of dl_bandwidth cell) \<in> {6, 25, 50, 100}" "grants_ok cell R V c e" "r \<in> R"
  shows "grants_ok cell R V c (perform_pre_processor_allocation c cell r e)"
proof -
  have "grants_ok cell R V c (fold (alloc_group c cell r) is e)" if "set is \<subseteq> {..<get_nb_rbg cell}" for "is"
    using that assms(2)
  proof (induction "is" arbitrary: e)
    case (Cons i js)
    have "grants_ok cell R V c (alloc_group c cell r i e)"
      using alloc_group_cases [OF assms(1), of i c r e] take_group_ok [OF assms(1) Cons.prems(2) assms(3), of i]
        Cons.prems by auto
    then show ?case using Cons by simp
  qed simp
  then show ?thesis by (simp add: perform_pre_processor_allocation_def atLeast0LessThan)
qed

text \<open>The loops over the users keep what every call of their body keeps.\<close>

lemma for_ues_inv:
  assumes "I s" "set order \<subseteq> {..<length ues}"
    and "\<And>uc s. uc \<in> set ues \<Longrightarrow> in_cell sv cell uc \<Longrightarrow> I s \<Longrightarrow> I (f uc s)"
  shows "I (for_ues sv cell ues f order s)"
  using assms(1,2) unfolding for_ues_def
proof (induction order arbitrary: s)
  case (Cons i order)
  have "ues ! i \<in> set ues" using Cons.prems(2) by simp
  then have "I (if in_cell sv cell (ues ! i) then f (ues ! i) s else s)" using assms(3) Cons.prems(1) by simp
  then show ?case using Cons by simp
qed simp

definition cell_rntis :: "sched_view \<Rightarrow> flex_cell_config \<Rightarrow> flex_ue_config list \<Rightarrow> u32 set" where
  "cell_rntis sv cell ues = rnti_of ` {uc \<in> set ues. in_cell sv cell uc}"

lemma distribute_ok:
  assumes "unat (cell_field_of dl_bandwidth cell) \<in> {6, 25, 50, 100}" "set order \<subseteq> {..<length ues}"
    and "grants_ok cell (cell_rntis sv cell ues) V (cell_index sv cell) e"
  shows "grants_ok cell (cell_rntis sv cell ues) V (cell_index sv cell) (distribute_round sv cell ues order n r1 e)"
proof -
  let ?ok = "grants_ok cell (cell_rntis sv cell ues) V (cell_index sv cell)"
  have R: "rnti_of uc \<in> cell_rntis sv cell ues" if "uc \<in> set ues" "in_cell sv cell uc" for uc
    using that by (auto simp: cell_rntis_def)
  have one: "?ok (for_ues sv cell ues (open_round (cell_index sv cell) r1) order e)"
    by (rule for_ues_inv [where I = ?ok]) (use assms(2,3) in \<open>auto simp: open_round_def intro: grants_ok_modify\<close>)
  have two: "?ok (for_ues sv cell ues (allocate_if (cell_index sv cell) cell p) order e')" if "?ok e'" for p e'
    by (rule for_ues_inv [where I = ?ok])
      (use that assms(2) in \<open>auto simp: allocate_if_def Let_def intro: alloc_ok [OF assms(1)] R\<close>)
  show ?thesis using one two by (simp add: distribute_round_def Let_def)
qed

subsection \<open>The preprocessor\<close>

text \<open>The records of the users are fresh after the first loop.\<close>

definition fresh_in :: "u32 \<Rightarrow> enb_scheduling_info \<Rightarrow> bool" where
  "fresh_in r e \<longleftrightarrow> get_ue_scheduling_info r e \<noteq> None \<and>
     rballoc_sub (ue_of r e) = (\<lambda>_ _. 0) \<and> pre_nb_rbs_available (ue_of r e) = (\<lambda>_. 0) \<and>
     rballoc_sub_scheduled (ue_of r e) = (\<lambda>_ _ _. 0)"

lemma assign_keeps:
  "assign_rbs_required sv cell lc mac u = Inr u' \<Longrightarrow>
     rballoc_sub u' = rballoc_sub u \<and> pre_nb_rbs_available u' = pre_nb_rbs_available u \<and>
     rballoc_sub_scheduled u' = rballoc_sub_scheduled u"
  by (auto simp: assign_rbs_required_def rbind_Inr_eq Let_def split: option.splits if_splits)

lemma fresh_in_modify:
  assumes "get_ue_scheduling_info s e \<noteq> None" "fresh_in r e"
    and "rballoc_sub (f (ue_of s e)) = (\<lambda>_ _. 0)" "pre_nb_rbs_available (f (ue_of s e)) = (\<lambda>_. 0)"
    and "rballoc_sub_scheduled (f (ue_of s e)) = (\<lambda>_ _ _. 0)"
  shows "fresh_in r (modify_ue s f e)"
  using assms by (simp add: fresh_in_def ue_of_modify find_modify_ue del: not_None_eq)

lemma prepare_ue_fresh:
  assumes "prepare_ue sv cell lcs bs uc e = Inr e'"
  shows "vrb_map e' = vrb_map e"
    and "fresh_in r e \<or> (in_cell sv cell uc \<and> r = rnti_of uc) \<Longrightarrow> fresh_in r e'"
proof -
  let ?s = "rnti_of uc"
  define e1 where "e1 = (case get_ue_scheduling_info ?s e of None \<Rightarrow> create_ue_scheduling_info ?s e
      | Some _ \<Rightarrow> modify_ue ?s ue_start_new_scheduling_round e)"
  have vrb1: "vrb_map e1 = vrb_map e" by (simp add: e1_def create_ue_scheduling_info_def split: option.split)
  have s1: "fresh_in ?s e1"
    by (auto simp: e1_def fresh_in_def create_ue_scheduling_info_def get_ue_scheduling_info_def modify_ue_def ue_of_def
        sm.find_emplace new_ue_scheduling_info_def ue_start_new_scheduling_round_def split: option.split)
  have r1: "fresh_in r e \<Longrightarrow> r \<noteq> ?s \<Longrightarrow> fresh_in r e1"
    by (auto simp: e1_def fresh_in_def create_ue_scheduling_info_def get_ue_scheduling_info_def modify_ue_def ue_of_def
        sm.find_emplace split: option.split)
  show "vrb_map e' = vrb_map e" and "fresh_in r e \<or> (in_cell sv cell uc \<and> r = ?s) \<Longrightarrow> fresh_in r e'"
  proof -
    have cases: "e' = e \<and> \<not> in_cell sv cell uc \<or> e' = e1 \<or>
        (\<exists>lc u. assign_rbs_required sv cell lc (get_ue_mac_info ?s bs) (ue_of ?s e1) = Inr u \<and> e' = modify_ue ?s (\<lambda>_. u) e1)"
      using assms by (auto simp: prepare_ue_def e1_def [symmetric] rbind_Inr_eq Let_def split: if_splits option.splits)
    then show "vrb_map e' = vrb_map e" using vrb1 by auto
    assume r: "fresh_in r e \<or> (in_cell sv cell uc \<and> r = ?s)"
    show "fresh_in r e'"
    proof (cases "e' = e \<and> \<not> in_cell sv cell uc")
      case False
      have f: "fresh_in r e1" using r r1 s1 by auto
      have rec: "get_ue_scheduling_info ?s e1 \<noteq> None" using s1 by (simp add: fresh_in_def)
      show ?thesis
        using cases False f
      proof (elim disjE exE conjE)
        fix lc u
        assume u: "assign_rbs_required sv cell lc (get_ue_mac_info ?s bs) (ue_of ?s e1) = Inr u"
          and e': "e' = modify_ue ?s (\<lambda>_. u) e1"
        show "fresh_in r e'" unfolding e'
          using assign_keeps [OF u] s1 by (intro fresh_in_modify [OF rec f]) (simp_all add: fresh_in_def)
      qed auto
    qed (use r in auto)
  qed
qed

lemma prepare_all_fresh:
  assumes "foldR (prepare_ue sv cell lcs bs) ues e = Inr e'"
  shows "vrb_map e' = vrb_map e" "r \<in> cell_rntis sv cell ues \<or> fresh_in r e \<Longrightarrow> fresh_in r e'"
  using assms
proof (induction ues arbitrary: e)
  case (Cons uc ues)
  {
    case 1
    then obtain e1 where "prepare_ue sv cell lcs bs uc e = Inr e1" "foldR (prepare_ue sv cell lcs bs) ues e1 = Inr e'"
      by (auto simp: rbind_Inr_eq)
    then show ?case using Cons.IH(1) prepare_ue_fresh(1) by metis
  next
    case 2
    then obtain e1 where e1: "prepare_ue sv cell lcs bs uc e = Inr e1" "foldR (prepare_ue sv cell lcs bs) ues e1 = Inr e'"
      by (auto simp: rbind_Inr_eq)
    have "r \<in> cell_rntis sv cell ues \<or> fresh_in r e1"
      using 2(1) prepare_ue_fresh(2) [OF e1(1), of r] by (auto simp: cell_rntis_def)
    then show ?case using Cons.IH(2) e1(2) by blast
  }
qed (simp_all add: cell_rntis_def)

lemma fresh_grants:
  assumes "\<And>r. r \<in> R \<Longrightarrow> fresh_in r e" "\<And>i. i \<in> V \<Longrightarrow> vrb_map e c i \<noteq> 0"
  shows "grants_ok cell R V c e"
proof -
  have "\<not> holds_group e c r i" if "r \<in> R" for r i using assms(1) [OF that] by (simp add: holds_group_def fresh_in_def)
  then show ?thesis using assms by (auto simp: grants_ok_def blocks_held_def groups_held_def fresh_in_def)
qed

text \<open>
  The preprocessor leaves a distribution in order: no group twice, none that was taken before, and
  the resource blocks on record are those of the groups.
\<close>

lemma preprocessor_grants:
  assumes "run_dlsch_scheduler_preprocessor sv cell ucs lcs bs subframe e = Inr e'"
    and "unat (cell_field_of dl_bandwidth cell) \<in> {6, 25, 50, 100}"
  shows "grants_ok cell (cell_rntis sv cell (ue_config ucs)) {i. vrb_map e (cell_index sv cell) i \<noteq> 0} (cell_index sv cell) e'"
proof -
  let ?c = "cell_index sv cell"
  let ?ok = "grants_ok cell (cell_rntis sv cell (ue_config ucs)) {i. vrb_map e ?c i \<noteq> 0} ?c"
  obtain e1 order where e1: "foldR (prepare_ue sv cell lcs bs) (ue_config ucs) e = Inr e1"
    and order: "sort_UEs sv cell (ue_config ucs) bs = Inr order"
    using assms(1) by (auto simp: run_dlsch_scheduler_preprocessor_def rbind_Inr_eq Let_def)
  have set: "set order \<subseteq> {..<length (ue_config ucs)}"
    using users_sorted(1) [OF order] by (metis atLeastLessThan_upt lessThan_atLeast0 mset_eq_setD subset_refl)
  have "?ok e1"
    by (rule fresh_grants) (use prepare_all_fresh [OF e1] in auto)
  then have two: "?ok (snd (for_ues sv cell (ue_config ucs) (note_harq sv cell bs) order (0, e1)))"
    by (intro for_ues_inv [where I = "\<lambda>s. ?ok (snd s)"] set)
      (auto simp: note_harq_def Let_def set_harq_round_def split: option.split sum.split intro!: grants_ok_modify)
  obtain count e2 where e2: "for_ues sv cell (ue_config ucs) (note_harq sv cell bs) order (0, e1) = (count, e2)"
    by fastforce
  have "?ok (for_ues sv cell (ue_config ucs) (share_of ?c a) order e2)" for a
    using two e2 set by (intro for_ues_inv [where I = ?ok]) (auto simp: share_of_def intro: grants_ok_modify)
  then show ?thesis
    using assms(1) e1 order e2 distribute_ok [OF assms(2) set]
    by (auto simp: run_dlsch_scheduler_preprocessor_def Let_def)
qed

theorem groups_are_not_shared:
  assumes "run_dlsch_scheduler_preprocessor sv cell ucs lcs bs subframe e = Inr e'"
    and "unat (cell_field_of dl_bandwidth cell) \<in> {6, 25, 50, 100}"
    and "r \<in> cell_rntis sv cell (ue_config ucs)" "s \<in> cell_rntis sv cell (ue_config ucs)" "r \<noteq> s"
  shows "\<not> (holds_group e' (cell_index sv cell) r i \<and> holds_group e' (cell_index sv cell) s i)"
    and "holds_group e' (cell_index sv cell) r i \<Longrightarrow> i < get_nb_rbg cell \<and> vrb_map e (cell_index sv cell) i = 0"
  using preprocessor_grants [OF assms(1,2)] assms(3-5) by (auto simp: grants_ok_def)

text \<open>The resource blocks given to the users of a cell are at most its bandwidth.\<close>

lemma within_the_bandwidth:
  assumes "run_dlsch_scheduler_preprocessor sv cell ucs lcs bs subframe e = Inr e'"
    and "unat (cell_field_of dl_bandwidth cell) \<in> {6, 25, 50, 100}"
  shows "(\<Sum>r \<in> cell_rntis sv cell (ue_config ucs). int (unat (pre_nb_rbs_available (ue_of r e') (cell_index sv cell))))
    \<le> int (unat (cell_field_of dl_bandwidth cell))"
proof -
  let ?c = "cell_index sv cell" and ?R = "cell_rntis sv cell (ue_config ucs)"
  note ok = preprocessor_grants [OF assms]
  have fin: "finite ?R" "\<And>r. finite (groups_held cell e' ?c r)"
    by (auto simp: cell_rntis_def groups_held_def)
  have disj: "groups_held cell e' ?c r \<inter> groups_held cell e' ?c s = {}" if "r \<in> ?R" "s \<in> ?R" "r \<noteq> s" for r s
    using ok that by (auto simp: grants_ok_def groups_held_def)
  have "(\<Sum>r \<in> ?R. int (unat (pre_nb_rbs_available (ue_of r e') ?c))) = (\<Sum>r \<in> ?R. blocks_held cell e' ?c r)"
    using ok by (intro sum.cong) (auto simp: grants_ok_def simp del: of_nat_unat)
  also have "\<dots> = (\<Sum>i \<in> (\<Union>r \<in> ?R. groups_held cell e' ?c r). group_size cell i)"
    unfolding blocks_held_def by (rule sum.UNION_disjoint [symmetric]) (use fin disj in auto)
  also have "\<dots> \<le> (\<Sum>i < get_nb_rbg cell. group_size cell i)"
    by (rule sum_mono2) (auto simp: groups_held_def group_size_nonneg)
  finally show ?thesis using sum_group_size [OF assms(2)] by simp
qed

end
