(* ===== verification/Sched_Transmit.thy ===== *)
theory Sched_Transmit
  imports Sched_Helper
begin

text \<open>
  What the schedulers of \<open>app/\<close> have in common once the preprocessor has given a user its resource
  block groups: the groups, blocks and scheme of a transmission, and the entry of the message. The
  code is repeated in each scheduler; the lines of \<open>app/remote_scheduler.cc\<close> are modelled. The locale
  \<open>user_scheduler\<close> holds what their loops over the users of a cell share.
\<close>

unbundle bit_operations_syntax

section \<open>Choosing the groups\<close>

text \<open>All groups the user holds are used by the HARQ process.\<close>

definition copy_groups :: "nat \<Rightarrow> nat \<Rightarrow> flex_cell_config \<Rightarrow> ue_scheduling_info \<Rightarrow> ue_scheduling_info" where
  "copy_groups c harq_pid cell u = u\<lparr>rballoc_sub_scheduled := (\<lambda>i p j.
     if i = c \<and> p = harq_pid \<and> j < get_nb_rbg cell then rballoc_sub u c j else rballoc_sub_scheduled u i p j)\<rparr>"

text \<open>The groups from the first on, until the blocks counted down reach zero; the counter may pass it.\<close>

fun mark_groups ::
  "nat \<Rightarrow> nat \<Rightarrow> flex_cell_config \<Rightarrow> nat list \<Rightarrow> u16 \<Rightarrow> ue_scheduling_info \<Rightarrow> ue_scheduling_info" where
  "mark_groups c harq_pid cell [] nb_rb_tmp u = u"
| "mark_groups c harq_pid cell (j # js) nb_rb_tmp u =
     (if nb_rb_tmp > 0
      then if rballoc_sub u c j = 1
        then let bw = unat (cell_field_of dl_bandwidth cell);
                 unit = of_nat (get_min_rb_unit cell) :: u16;
                 left = (if j = get_nb_rbg cell - 1 \<and> (bw = 25 \<or> bw = 50) then nb_rb_tmp - unit + 1
                         else nb_rb_tmp - unit) in
          mark_groups c harq_pid cell js left
            (u\<lparr>rballoc_sub_scheduled := upd3 c harq_pid j 1 (rballoc_sub_scheduled u)\<rparr>)
        else mark_groups c harq_pid cell js nb_rb_tmp u
      else u)"

definition use_groups :: "nat \<Rightarrow> nat \<Rightarrow> flex_cell_config \<Rightarrow> u16 \<Rightarrow> u16 \<Rightarrow> ue_scheduling_info \<Rightarrow> ue_scheduling_info" where
  "use_groups c harq_pid cell nb_rb available u =
     (if nb_rb = available then copy_groups c harq_pid cell u
      else mark_groups c harq_pid cell [0..<get_nb_rbg cell] nb_rb u)"

section \<open>Modulation and coding scheme\<close>

text \<open>Down until the block is no longer larger than needed, then up again until it is not smaller.\<close>

fun mcs_down :: "u16 \<Rightarrow> int \<Rightarrow> nat \<Rightarrow> nat \<Rightarrow> (nat \<times> nat) result" where
  "mcs_down nb need 0 TBS = Inr (0, TBS)"
| "mcs_down nb need (Suc m) TBS =
     (if int TBS > need then rbind (get_TBS_DL m nb) (mcs_down nb need m) else Inr (Suc m, TBS))"

text \<open>\<open>max_mcs\<close> is the largest scheme, 28 unless the power is reduced.\<close>

function mcs_up :: "nat \<Rightarrow> u16 \<Rightarrow> int \<Rightarrow> nat \<Rightarrow> nat \<Rightarrow> (nat \<times> nat) result" where
  "mcs_up max_mcs nb need m TBS =
     (if int TBS < need \<and> m < max_mcs then rbind (get_TBS_DL (m + 1) nb) (mcs_up max_mcs nb need (m + 1)) else Inr (m, TBS))"
  by pat_completeness auto

termination by (relation "measure (\<lambda>(max_mcs, _, _, m, _). max_mcs - m)") auto

declare mcs_up.simps [simp del]

definition adapt_mcs :: "nat \<Rightarrow> u16 \<Rightarrow> int \<Rightarrow> nat \<Rightarrow> (nat \<times> nat) result" where
  "adapt_mcs max_mcs nb need mcs = rbind (get_TBS_DL mcs nb) (\<lambda>TBS.
     rbind (mcs_down nb need mcs TBS) (\<lambda>(m, TBS). mcs_up max_mcs nb need m TBS))"

text \<open>
  The blocks, groups and scheme of a new transmission of \<open>need\<close> bytes; scheme and number of blocks are
  kept for the HARQ process.
\<close>

definition choose_blocks ::
  "nat \<Rightarrow> nat \<Rightarrow> flex_cell_config \<Rightarrow> nat \<Rightarrow> u16 \<Rightarrow> int \<Rightarrow> nat \<Rightarrow> ue_scheduling_info \<Rightarrow>
     (u16 \<times> nat \<times> nat \<times> ue_scheduling_info) result" where
  "choose_blocks max_mcs c cell harq_pid available need mcs u =
     rbind (rb_loop cell (ucast available) mcs need (if mcs = 0 then 4 else of_nat (get_min_rb_unit cell))) (\<lambda>nb_rb.
     let u = use_groups c harq_pid cell nb_rb (pre_nb_rbs_available u c) u in
     rbind (adapt_mcs max_mcs nb_rb need mcs) (\<lambda>(mcs, tbs).
     Inr (nb_rb, mcs, tbs, u\<lparr>si_mcs := upd2 c harq_pid (of_nat mcs) (si_mcs u),
                             nb_scheduled_rbs := upd2 c harq_pid nb_rb (nb_scheduled_rbs u)\<rparr>)))"

section \<open>Power control of the PUCCH\<close>

definition i16 :: "int \<Rightarrow> int" where "i16 x = sint (of_int x :: u16)"

definition p0_nominal :: "sched_view \<Rightarrow> flex_cell_stats_report \<Rightarrow> int" where
  "p0_nominal sv r = (case noise_inter_report r of None \<Rightarrow> 0 | Some raw \<Rightarrow> p0_nominal_pucch_of sv raw)"

definition tpc_update_due :: "u16 \<Rightarrow> u16 \<Rightarrow> ue_scheduling_info \<Rightarrow> bool" where
  "tpc_update_due target_frame target_subframe u =
     (let last = int (unat (pucch_tpc_tx_frame u)) * 10 + int (unat (pucch_tpc_tx_subframe u));
          now = int (unat target_frame) * 10 + int (unat target_subframe) in
      last + 10 \<le> now \<or> (last > now \<and> 10240 - last + now \<ge> 10))"

section \<open>Entries of the message\<close>

text \<open>What a transmission puts into the message: process, round, ndi, tpc, scheme, block size, blocks.\<close>

record grant =
  g_harq_pid :: nat
  g_ndi :: u8
  g_tpc :: nat
  g_mcs :: nat
  g_tbs :: nat
  g_nb_rb :: u16
  g_pdus :: "flex_rlc_pdu_tb list list"

text \<open>A retransmission needs the blocks it had before; with fewer it waits.\<close>

definition retransmission ::
  "nat \<Rightarrow> flex_cell_config \<Rightarrow> nat \<Rightarrow> u16 \<Rightarrow> ue_scheduling_info \<Rightarrow> (grant option \<times> ue_scheduling_info) result" where
  "retransmission c cell harq_pid available u =
     (let mcs = unat (si_mcs u c harq_pid); nb_rb = nb_rbs_required u c in
      rbind (get_TBS_DL mcs nb_rb) (\<lambda>tbs.
      if nb_rb \<le> available
      then let u = use_groups c harq_pid cell nb_rb available u in
        Inr (Some \<lparr>g_harq_pid = harq_pid, g_ndi = ndi u c harq_pid, g_tpc = 1, g_mcs = mcs, g_tbs = tbs,
               g_nb_rb = nb_rb, g_pdus = []\<rparr>, u)
      else Inr (None, u)))"

definition dl_data_of ::
  "nat \<Rightarrow> flex_cell_config \<Rightarrow> u32 \<Rightarrow> int \<Rightarrow> nat \<Rightarrow> u32 \<Rightarrow> ue_scheduling_info \<Rightarrow> grant \<Rightarrow> flex_dl_data" where
  "dl_data_of c cell rnti round aggregation ce_flags u g =
     \<lparr>dd_rnti = Some rnti,
      dl_dci = Some \<lparr>dci_rnti = Some rnti, res_alloc = Some 0,
        rb_bitmap = Some (allocate_prbs_sub (int (unat (g_nb_rb g))) (rballoc_sub_scheduled u c (g_harq_pid g)) cell),
        rb_shift = Some 0, tbs_size = [of_nat (g_tbs g)], dci_mcs = [of_nat (g_mcs g)],
        dci_ndi = [ucast (g_ndi g)], dci_rv = [of_int round], aggr_level = Some (of_nat aggregation), dci_format = Some 0,
        dci_tpc = Some (of_nat (g_tpc g)), harq_process = Some (of_nat (g_harq_pid g)), vrb_format = Some 0\<rparr>,
      ce_bitmap = [ce_flags, ce_flags], rlc_pdu = g_pdus g, dd_serv_cell_index = Some (of_nat c)\<rparr>"

section \<open>Contexts of the base stations\<close>

text \<open>
  A context is stored under \<open>pair<int, _>(bs_id, _)\<close>: the key is the identifier cut to an \<open>int\<close>.
  It is looked up under the identifier itself.
\<close>

definition context_key :: "u64 \<Rightarrow> u64" where
  "context_key bs_id = of_int (sint (ucast bs_id :: u32))"

definition find_context ::
  "u16 \<times> u16 \<Rightarrow> u64 \<Rightarrow> (u64, enb_scheduling_info) std_map \<Rightarrow> (u64, enb_scheduling_info) std_map \<times> enb_scheduling_info option" where
  "find_context stale bs_id m = (case sm_find bs_id m of
     Some e \<Rightarrow> (m, Some e)
   | None \<Rightarrow> let m = sm_emplace (context_key bs_id) (new_enb_scheduling_info stale) m in (m, sm_find bs_id m))"

definition uninitialised :: exn where
  "uninitialised = Undefined_behaviour ''uninitialised variable read''"

text \<open>The slot a base station is in; the members are not initialised before its first trigger.\<close>

definition slot_of :: "enb_rib_info \<Rightarrow> (u16 \<times> u16) result" where
  "slot_of bs = (case (current_frame bs, current_subframe bs) of
     (Some frame, Some subframe) \<Rightarrow> Inr (frame, subframe) | _ \<Rightarrow> Inl uninitialised)"

section \<open>Lemmas\<close>

subsection \<open>The groups of a transmission\<close>

text \<open>The groups a process uses are groups the user holds.\<close>

definition uses_own :: "nat \<Rightarrow> ue_scheduling_info \<Rightarrow> bool" where
  "uses_own c u \<longleftrightarrow> (\<forall>p j. rballoc_sub_scheduled u c p j = 1 \<longrightarrow> rballoc_sub u c j = 1)"

lemma mark_groups_rballoc: "rballoc_sub (mark_groups c p cell js nb u) = rballoc_sub u"
  by (induction c p cell js nb u rule: mark_groups.induct) (simp_all add: Let_def)

lemma mark_groups_own: "uses_own c u \<Longrightarrow> uses_own c (mark_groups c p cell js nb u)"
proof (induction c p cell js nb u rule: mark_groups.induct)
  case (2 c p cell j js nb u)
  have "rballoc_sub u c j = 1 \<Longrightarrow>
      uses_own c (u\<lparr>rballoc_sub_scheduled := upd3 c p j 1 (rballoc_sub_scheduled u)\<rparr>)"
    using 2(3) by (simp add: uses_own_def upd3_def)
  then show ?case using 2 by (simp add: Let_def)
qed simp

lemma use_groups_own:
  "rballoc_sub (use_groups c p cell nb available u) = rballoc_sub u"
  "uses_own c u \<Longrightarrow> uses_own c (use_groups c p cell nb available u)"
  by (auto simp: use_groups_def copy_groups_def mark_groups_rballoc mark_groups_own) (auto simp: uses_own_def)

lemma retransmission_own:
  "retransmission c cell p av u = Inr (g, u') \<Longrightarrow> uses_own c u \<Longrightarrow> rballoc_sub u' = rballoc_sub u \<and> uses_own c u'"
  by (auto simp: retransmission_def rbind_Inr_eq Let_def use_groups_own split: if_splits)

lemma choose_blocks_own:
  assumes "choose_blocks max_mcs c cell p av need mcs u = Inr (nb, m, tbs, u')" "uses_own c u"
  shows "rballoc_sub u' = rballoc_sub u \<and> uses_own c u'"
proof -
  define v where "v = use_groups c p cell nb (pre_nb_rbs_available u c) u"
  have "u' = v\<lparr>si_mcs := upd2 c p (of_nat m) (si_mcs v), nb_scheduled_rbs := upd2 c p nb (nb_scheduled_rbs v)\<rparr>"
    using assms(1) by (auto simp: choose_blocks_def rbind_Inr_eq Let_def v_def)
  moreover have "rballoc_sub v = rballoc_sub u" "uses_own c v" using use_groups_own assms(2) by (auto simp: v_def)
  ultimately show ?thesis by (simp add: uses_own_def)
qed

text \<open>Only these two members matter for the groups.\<close>

lemma uses_own_cong:
  "rballoc_sub u' = rballoc_sub u \<Longrightarrow> rballoc_sub_scheduled u' = rballoc_sub_scheduled u \<Longrightarrow> uses_own c u' = uses_own c u"
  by (simp add: uses_own_def)

lemma toggle_ndi_own: "rballoc_sub (toggle_ndi c p u) = rballoc_sub u" "uses_own c (toggle_ndi c' p u) = uses_own c u"
  by (simp_all add: toggle_ndi_def uses_own_def)

subsection \<open>The users of a cell\<close>

definition bitmap_of :: "flex_dl_data \<Rightarrow> u32" where
  "bitmap_of d = (case dl_dci d of None \<Rightarrow> 0 | Some dci \<Rightarrow> get_or 0 (rb_bitmap dci))"

lemma dl_data_fields:
  "dd_rnti (dl_data_of c cell rnti round aggregation ce_flags u g) = Some rnti"
  "bitmap_of (dl_data_of c cell rnti round aggregation ce_flags u g) =
     allocate_prbs_sub (int (unat (g_nb_rb g))) (rballoc_sub_scheduled u c (g_harq_pid g)) cell"
  by (simp_all add: dl_data_of_def bitmap_of_def)

text \<open>\<open>H r\<close> are the groups the preprocessor gave to the user \<open>r\<close>.\<close>

definition own_groups :: "flex_cell_config \<Rightarrow> (nat \<Rightarrow> u8) \<Rightarrow> u32 \<Rightarrow> bool" where
  "own_groups cell h bm \<longleftrightarrow> (\<forall>n. bit bm n \<longrightarrow> n < get_nb_rbg cell \<and> h (get_nb_rbg cell - 1 - n) = 1)"

definition sched_ok :: "flex_cell_config \<Rightarrow> nat \<Rightarrow> u32 set \<Rightarrow> (u32 \<Rightarrow> nat \<Rightarrow> u8) \<Rightarrow> enb_scheduling_info \<Rightarrow> flex_dl_data list \<Rightarrow> bool" where
  "sched_ok cell c R H e out \<longleftrightarrow>
     (\<forall>r \<in> R. get_ue_scheduling_info r e \<noteq> None \<and> uses_own c (ue_of r e) \<and> rballoc_sub (ue_of r e) c = H r) \<and>
     (\<forall>d \<in> set out. \<exists>r \<in> R. dd_rnti d = Some r \<and> own_groups cell (H r) (bitmap_of d))"

lemma cce_loop_keeps: "cce_loop c cell rnti agg ts rem e = Inr (b, e') \<Longrightarrow> scheduling_info e' = scheduling_info e"
proof (induction c cell rnti agg ts rem e rule: cce_loop.induct)
  case (1 c cell rnti agg ts rem e)
  have inc: "scheduling_info (increase_num_pdcch_symbols c cell ts e) = scheduling_info e"
    by (simp add: increase_num_pdcch_symbols_def Let_def)
  show ?case
    using 1(1,2) 1(3) inc unfolding cce_loop.simps [of c cell rnti agg ts rem e]
    by (auto simp: Let_def rbind_Inr_eq split: if_splits)
qed

lemma cce_keeps: "CCE_allocation_infeasible c cell rnti agg ts e = Inr (b, e') \<Longrightarrow> scheduling_info e' = scheduling_info e"
  by (auto simp: CCE_allocation_infeasible_def cce_loop_keeps split: if_splits)

lemma ue_of_same: "scheduling_info e' = scheduling_info e \<Longrightarrow>
    get_ue_scheduling_info r e' = get_ue_scheduling_info r e \<and> ue_of r e' = ue_of r e"
  by (simp add: get_ue_scheduling_info_def ue_of_def)

lemma bitmap_own:
  assumes "uses_own c u" "bitmap_of d = allocate_prbs_sub nb (rballoc_sub_scheduled u c p) cell"
  shows "own_groups cell (rballoc_sub u c) (bitmap_of d)"
  unfolding own_groups_def assms(2) using assms(1) allocated_bit by (fastforce simp: uses_own_def)

subsection \<open>Contexts\<close>

lemma unat_neg_of_nat:
  assumes "0 < n" "n < 2 ^ LENGTH('a)"
  shows "unat (- of_nat n :: 'a::len word) = 2 ^ LENGTH('a) - n"
proof -
  have "of_nat (2 ^ LENGTH('a)) = (0 :: 'a word)" by (simp flip: of_nat_power)
  then have "- of_nat n = (of_nat (2 ^ LENGTH('a) - n) :: 'a word)"
    using assms(2) by (simp add: of_nat_diff)
  then show ?thesis using assms(1) by (simp only:) (rule unat_of_nat_small, simp)
qed

lemma context_key_small: "unat b < 2 ^ 31 \<Longrightarrow> context_key b = b"
proof -
  assume b: "unat b < 2 ^ 31"
  then have "unat (ucast b :: u32) = unat b" by (intro unat_ucast_small) simp
  then have "sint (ucast b :: u32) = int (unat b)" using b by (simp add: sint_u32)
  then show ?thesis by (simp add: context_key_def)
qed

lemma context_key_range: "unat (context_key b) < 2 ^ 31 \<or> 2 ^ 64 - 2 ^ 31 \<le> unat (context_key b)"
proof -
  let ?w = "ucast b :: u32"
  show ?thesis
  proof (cases "unat ?w < 2 ^ 31")
    case True
    then have "context_key b = of_nat (unat ?w)" by (simp add: context_key_def sint_u32)
    moreover have "unat (of_nat (unat ?w) :: u64) = unat ?w" using True by (intro unat_of_nat_small) simp
    ultimately have "unat (context_key b) = unat ?w" by (simp only:)
    then show ?thesis using True by simp
  next
    case False
    let ?n = "2 ^ 32 - unat ?w"
    have lt: "unat ?w < 2 ^ 32" using unsigned_less [of ?w] by simp
    have "context_key b = - of_nat ?n" using False lt by (simp add: context_key_def sint_u32 of_nat_diff)
    moreover have "0 < ?n" "?n \<le> 2 ^ 31" using False lt by auto
    ultimately have "unat (context_key b) = 2 ^ 64 - ?n"
      using unat_neg_of_nat [of ?n, where 'a = 64] by (simp only:) simp
    then show ?thesis using \<open>?n \<le> 2 ^ 31\<close> by linarith
  qed
qed

text \<open>An identifier that the cut changes is never found.\<close>

lemma find_context_other:
  assumes "2 ^ 31 \<le> unat b" "unat b < 2 ^ 64 - 2 ^ 31"
  shows "sm_find b (fst (find_context st b' m)) = sm_find b m"
proof -
  have "context_key b' \<noteq> b" using context_key_range [of b'] assms by auto
  then show ?thesis by (simp add: find_context_def sm.find_emplace Let_def split: option.split)
qed

lemma find_context_none:
  assumes "2 ^ 31 \<le> unat b" "unat b < 2 ^ 64 - 2 ^ 31" "sm_find b m = None"
  shows "snd (find_context st b m) = None"
  using find_context_other [OF assms(1,2), of st b m] assms(3) by (simp add: find_context_def Let_def)

subsection \<open>Schedulers of the users of a cell\<close>

text \<open>
  A scheduler takes the users one after the other. For each it changes at most the record of that
  user and adds at most one entry for it, whose bitmap is of groups its process uses; and it lets a
  process use only groups the user holds. \<open>'l\<close> is whatever else the scheduler carries along.
\<close>

definition user_changed ::
  "flex_cell_config \<Rightarrow> nat \<Rightarrow> u32 \<Rightarrow> enb_scheduling_info \<Rightarrow> flex_dl_data list \<Rightarrow> enb_scheduling_info \<Rightarrow> flex_dl_data list \<Rightarrow> bool" where
  "user_changed cell c rnti e out e' out' \<longleftrightarrow>
     (\<exists>u u'. get_ue_scheduling_info rnti e = Some u \<and>
       (uses_own c u \<longrightarrow> rballoc_sub u' = rballoc_sub u \<and> uses_own c u') \<and>
       scheduling_info e' = scheduling_info (modify_ue rnti (\<lambda>_. u') e) \<and>
       (out' = out \<or> (\<exists>d p nb. out' = out @ [d] \<and> dd_rnti d = Some rnti \<and>
          bitmap_of d = allocate_prbs_sub nb (rballoc_sub_scheduled u' c p) cell)))"

lemma user_changed_cong:
  assumes "scheduling_info e1 = scheduling_info e" "user_changed cell c rnti e1 out e' out'"
  shows "user_changed cell c rnti e out e' out'"
proof -
  have "get_ue_scheduling_info rnti e1 = get_ue_scheduling_info rnti e"
    "scheduling_info (modify_ue rnti f e1) = scheduling_info (modify_ue rnti f e)" for f
    using assms(1) by (simp_all add: get_ue_scheduling_info_def modify_ue_def)
  then show ?thesis using assms(2) by (simp add: user_changed_def)
qed

locale user_scheduler =
  fixes step :: "flex_ue_config \<Rightarrow> 'l \<times> enb_scheduling_info \<times> flex_dl_data list \<Rightarrow>
      ('l \<times> enb_scheduling_info \<times> flex_dl_data list) result"
    and cell :: flex_cell_config and c :: nat and member :: "flex_ue_config \<Rightarrow> bool"
  assumes step_cases: "step uc (l, e, out) = Inr (l', e', out') \<Longrightarrow>
    (out' = out \<and> scheduling_info e' = scheduling_info e) \<or>
    (member uc \<and> user_changed cell c (rnti_of uc) e out e' out')"
begin

lemma step_ok:
  assumes step: "step uc (l, e, out) = Inr (l', e', out')"
    and ok: "sched_ok cell c R H e out" and R: "member uc \<Longrightarrow> rnti_of uc \<in> R"
  shows "sched_ok cell c R H e' out' \<and>
    (map dd_rnti out' = map dd_rnti out \<or> map dd_rnti out' = map dd_rnti out @ [Some (rnti_of uc)])"
proof -
  let ?r = "rnti_of uc"
  from step_cases [OF step] show ?thesis
  proof (rule disjE, goal_cases)
    case 1
    have "get_ue_scheduling_info s e' = get_ue_scheduling_info s e \<and> ue_of s e' = ue_of s e" for s
      using ue_of_same 1 by blast
    then show ?case using ok 1 by (simp add: sched_ok_def)
  next
    case 2
    then obtain u u' where 2: "member uc" "get_ue_scheduling_info ?r e = Some u"
       "uses_own c u \<longrightarrow> rballoc_sub u' = rballoc_sub u \<and> uses_own c u'"
       "scheduling_info e' = scheduling_info (modify_ue ?r (\<lambda>_. u') e)"
       "out' = out \<or> (\<exists>d p nb. out' = out @ [d] \<and> dd_rnti d = Some ?r \<and>
          bitmap_of d = allocate_prbs_sub nb (rballoc_sub_scheduled u' c p) cell)"
      unfolding user_changed_def by (elim exE conjE)
    note same = ue_of_same [OF 2(4)]
    have r: "?r \<in> R" using R 2(1) by simp
    have u: "uses_own c u" "rballoc_sub u c = H ?r"
      using ok r 2(2) by (auto simp: sched_ok_def ue_of_def)
    have u': "uses_own c u'" "rballoc_sub u' c = H ?r" using 2(3) u by auto
    have rec: "get_ue_scheduling_info ?r e \<noteq> None" using 2(2) by simp
    have "ue_of s e' = (if s = ?r then u' else ue_of s e)" for s
      using same by (simp add: ue_of_modify [OF rec])
    moreover have "get_ue_scheduling_info s e' \<noteq> None" if "s \<in> R" for s
      using ok that same 2(2) by (auto simp: sched_ok_def find_modify_ue)
    moreover have "own_groups cell (H ?r) (bitmap_of d)"
      if "bitmap_of d = allocate_prbs_sub nb (rballoc_sub_scheduled u' c p) cell" for d p nb
      using bitmap_own [OF u'(1) that] u'(2) by simp
    ultimately show ?case using ok r u' 2(5) by (fastforce simp: sched_ok_def)
  qed
qed

lemma users_ok:
  assumes "foldR step ucs (l, e, out) = Inr (l', e', out')"
    and "sched_ok cell c R H e out" "\<forall>uc \<in> set ucs. member uc \<longrightarrow> rnti_of uc \<in> R"
    and "distinct (map rnti_of ucs)" "distinct (map dd_rnti out)"
    and "\<forall>uc \<in> set ucs. Some (rnti_of uc) \<notin> dd_rnti ` set out"
  shows "sched_ok cell c R H e' out' \<and> distinct (map dd_rnti out')"
  using assms
proof (induction ucs arbitrary: l e out)
  case (Cons uc ucs)
  obtain l1 e1 out1 where one: "step uc (l, e, out) = Inr (l1, e1, out1)"
    and rest: "foldR step ucs (l1, e1, out1) = Inr (l', e', out')"
    using Cons.prems(1) by (auto simp: rbind_Inr_eq)
  have ok: "sched_ok cell c R H e1 out1 \<and>
    (map dd_rnti out1 = map dd_rnti out \<or> map dd_rnti out1 = map dd_rnti out @ [Some (rnti_of uc)])"
    by (rule step_ok [OF one Cons.prems(2)]) (use Cons.prems(3) in auto)
  have sub: "set (map dd_rnti out1) \<subseteq> insert (Some (rnti_of uc)) (set (map dd_rnti out))"
  proof -
    have "set (map dd_rnti out1) = set (map dd_rnti out) \<or>
        set (map dd_rnti out1) = set (map dd_rnti out @ [Some (rnti_of uc)])"
      using conjunct2 [OF ok] by (rule disj_forward) (simp_all only:)
    then show ?thesis by (elim disjE) (simp_all only: set_append list.set Un_insert_right Un_empty_right subset_insertI subset_refl)
  qed
  have "Some (rnti_of uc) \<notin> set (map dd_rnti out)" using Cons.prems(6) by simp
  then have "distinct (map dd_rnti out @ [Some (rnti_of uc)])" using Cons.prems(5) by simp
  with conjunct2 [OF ok] have "distinct (map dd_rnti out1)"
    using Cons.prems(5) by (elim disjE) (simp_all only:)
  moreover have "\<forall>uc \<in> set ucs. Some (rnti_of uc) \<notin> dd_rnti ` set out1"
  proof
    fix uc'
    assume uc': "uc' \<in> set ucs"
    have "rnti_of uc \<notin> set (map rnti_of ucs)" using Cons.prems(4) by simp
    moreover have "rnti_of uc' \<in> set (map rnti_of ucs)" using uc' by simp
    ultimately have "rnti_of uc' \<noteq> rnti_of uc" by metis
    moreover have "Some (rnti_of uc') \<notin> set (map dd_rnti out)" using Cons.prems(6) uc' by simp
    ultimately show "Some (rnti_of uc') \<notin> dd_rnti ` set out1" using sub by auto
  qed
  moreover have "\<forall>uc \<in> set ucs. member uc \<longrightarrow> rnti_of uc \<in> R" using Cons.prems(3) by simp
  ultimately show ?case using Cons.IH [OF rest] ok Cons.prems(4) by simp
qed simp

text \<open>The entries for the users have no group in common, if the preprocessor gave each group to one.\<close>

lemma entries_share_no_group:
  assumes "foldR step ucs (l, e, []) = Inr (l', e', out)"
    and "grants_ok cell R V c e" "\<forall>uc \<in> set ucs. member uc \<longrightarrow> rnti_of uc \<in> R" "distinct (map rnti_of ucs)"
    and "i < j" "j < length out"
  shows "bitmap_of (out ! i) AND bitmap_of (out ! j) = 0"
proof -
  define H where "H r = rballoc_sub (ue_of r e) c" for r
  have "sched_ok cell c R H e []"
    using assms(2) by (auto simp: sched_ok_def grants_ok_def uses_own_def H_def)
  from users_ok [OF assms(1) this assms(3,4)]
  have ok: "sched_ok cell c R H e' out" and dist: "distinct (map dd_rnti out)" by simp_all
  have "out ! i \<in> set out" "out ! j \<in> set out" using assms(5,6) by auto
  then obtain r s where r: "r \<in> R" "dd_rnti (out ! i) = Some r" "own_groups cell (H r) (bitmap_of (out ! i))"
    and s: "s \<in> R" "dd_rnti (out ! j) = Some s" "own_groups cell (H s) (bitmap_of (out ! j))"
    using ok unfolding sched_ok_def by meson
  have "dd_rnti (out ! i) \<noteq> dd_rnti (out ! j)"
    using nth_eq_iff_index_eq [OF dist, of i j] assms(5,6) by simp
  then have "r \<noteq> s" using r(2) s(2) by auto
  then have "\<not> (holds_group e c r k \<and> holds_group e c s k)" for k
    using assms(2) r(1) s(1) unfolding grants_ok_def by blast
  then have "\<not> (H r k = 1 \<and> H s k = 1)" for k by (metis H_def holds_group_def zero_neq_one)
  then have "\<not> (bit (bitmap_of (out ! i)) n \<and> bit (bitmap_of (out ! j)) n)" for n
    using r(3) s(3) by (auto simp: own_groups_def)
  then show ?thesis by (simp add: and_eq_0_iff_bits)
qed

end

end
