(* ===== verification/Remote_Scheduler.thy ===== *)
theory Remote_Scheduler
  imports Sched_Transmit App_Common Requests_Manager
begin

text \<open>
  The centralised downlink scheduler, \<open>app/remote_scheduler.cc\<close>: in every subframe of a base
  station it runs the preprocessor for each cell and then gives each user with resource blocks a
  retransmission or a new transmission. The local variables of \<open>periodic_task\<close> that are not set
  again for every user are in the record \<open>locals\<close>.
\<close>

section \<open>State\<close>

record remote_scheduler =
  rs_scheduling_info :: "(u64, enb_scheduling_info) std_map"
  tpc_accumulated :: int

definition new_remote_scheduler :: remote_scheduler where
  "new_remote_scheduler = \<lparr>rs_scheduling_info = [], tpc_accumulated = 0\<rparr>"

record locals =
  l_mcs :: nat
  l_ce_flags :: u32
  l_header_len :: u8
  l_tpc_accumulated :: int

definition schedule_ahead :: nat where "schedule_ahead = 0"

definition FLHS_NACK :: u8 where "FLHS_NACK = 1"
definition FLPCET_TA :: u32 where "FLPCET_TA = 1"

section \<open>Requests to the logical channels\<close>

text \<open>
  \<open>dci_tbs - ta_len - header_len\<close> is computed without sign, so it is zero only when the lengths are
  exactly the size of the block.
\<close>

definition request_channel ::
  "nat \<Rightarrow> u32 \<Rightarrow> flex_rlc_bsr \<Rightarrow> u8 \<times> u16 \<times> flex_rlc_pdu_tb list list \<Rightarrow> u8 \<times> u16 \<times> flex_rlc_pdu_tb list list" where
  "request_channel dci_tbs ta_len b = (\<lambda>(header_len, sdu_length, pdus).
     let header_len = header_len + 3; room = of_nat dci_tbs - ta_len - ucast header_len :: u32;
         size = get_or 0 (tx_queue_size b) in
     if room > 0
     then if size > 0
       then let request = min room size;
                tb = \<lparr>logical_channel_id = Some (get_or 0 (bsr_lc_id b)), tb_size = Some request\<rparr> in
         (if request < 128 then header_len - 1 else header_len, ucast request, pdus @ [[tb, tb]])
       else (header_len - 3, sdu_length, pdus)
     else (header_len, sdu_length, pdus))"

definition request_channels ::
  "nat \<Rightarrow> u32 \<Rightarrow> flex_rlc_bsr list \<Rightarrow> u8 \<Rightarrow> u8 \<times> u16 \<times> flex_rlc_pdu_tb list list" where
  "request_channels dci_tbs ta_len bs header_len = fold (request_channel dci_tbs ta_len) bs (header_len, 0, [])"

definition pucch_power :: "sched_view \<Rightarrow> nat \<Rightarrow> flex_ue_stats_report \<Rightarrow> int option" where
  "pucch_power sv c r =
     (case List.find (\<lambda>p. unat (get_or 0 (pucch_serv_cell_index p)) = c \<and> p0_pucch_dbm p \<noteq> None)
             (case ul_cqi_report r of None \<Rightarrow> [] | Some raw \<Rightarrow> pucch_dbm_of sv raw) of
        None \<Rightarrow> None | Some p \<Rightarrow> map_option i16 (p0_pucch_dbm p))"

definition power_control ::
  "sched_view \<Rightarrow> nat \<Rightarrow> flex_ue_stats_report \<Rightarrow> flex_cell_stats_report \<Rightarrow> u16 \<Rightarrow> u16 \<Rightarrow> ue_scheduling_info \<Rightarrow>
     nat \<times> int \<times> ue_scheduling_info" where
  "power_control sv c r cr target_frame target_subframe u =
     (let target_rx_power = i16 (p0_nominal sv cr + 10) in
      if tpc_update_due target_frame target_subframe u
      then case pucch_power sv c r of
          Some rx_power \<Rightarrow> let u = u\<lparr>pucch_tpc_tx_frame := target_frame, pucch_tpc_tx_subframe := target_subframe\<rparr> in
            if rx_power > target_rx_power + 1 then (0, -1, u)
            else if rx_power < target_rx_power - 1 then (2, 1, u) else (1, 0, u)
        | None \<Rightarrow> (1, 0, u)
      else (1, 0, u))"

section \<open>Scheduling a user\<close>

unbundle bit_operations_syntax

definition timing_advance :: "flex_ue_stats_report \<Rightarrow> ue_scheduling_info \<Rightarrow> u32 \<times> ue_scheduling_info" where
  "timing_advance r u =
     (if ta_timer u = 0
      then (if get_or 0 (pending_mac_ces r) AND FLPCET_TA \<noteq> 0 then 2 else 0, u\<lparr>ta_timer := 20\<rparr>)
      else (0, u\<lparr>ta_timer := ta_timer u - 1\<rparr>))"

text \<open>
  A new transmission. \<open>requests\<close> asks the logical channels for data and \<open>max_mcs\<close> is the largest scheme
  for the user: in these the delegating scheduler differs.
\<close>

definition transmit_new ::
  "(ue_scheduling_info \<Rightarrow> nat) \<Rightarrow> (nat \<Rightarrow> u32 \<Rightarrow> flex_rlc_bsr list \<Rightarrow> u8 \<Rightarrow> u8 \<times> u16 \<times> flex_rlc_pdu_tb list list) \<Rightarrow>
     sched_view \<Rightarrow> nat \<Rightarrow> flex_cell_config \<Rightarrow> flex_ue_stats_report \<Rightarrow> flex_cell_stats_report \<Rightarrow> u16 \<Rightarrow> u16 \<Rightarrow> nat \<Rightarrow> u16 \<Rightarrow>
     locals \<times> ue_scheduling_info \<Rightarrow> (grant option \<times> locals \<times> ue_scheduling_info) result" where
  "transmit_new max_mcs requests sv c cell r cr target_frame target_subframe harq_pid available = (\<lambda>(l, u).
     rbind (get_TBS_DL (l_mcs l) available) (\<lambda>dci_tbs.
     let (ta_len, u) = timing_advance r u;
         l = (if ta_len > 0 then l\<lparr>l_ce_flags := l_ce_flags l OR FLPCET_TA\<rparr> else l);
         (header_len, sdu_length, pdus) =
           requests dci_tbs ta_len (map (rlc_bsr_of sv) (rlc_report r)) (l_header_len l) in
     if pdus = [] then Inr (None, l\<lparr>l_header_len := header_len\<rparr>, u)
     else let header_len = (if header_len = 2 \<or> header_len = 3 then 1 else header_len - 1);
              l = l\<lparr>l_header_len := header_len\<rparr>;
              need = int (unat sdu_length) + int (unat header_len) + int (unat ta_len) in
       rbind (choose_blocks (max_mcs u) c cell harq_pid available need (l_mcs l) u) (\<lambda>(nb_rb, mcs, tbs, u).
       let (k, acc, u) = power_control sv c r cr target_frame target_subframe u;
           u = toggle_ndi c harq_pid u;
           l = l\<lparr>l_mcs := mcs, l_tpc_accumulated := l_tpc_accumulated l + acc\<rparr> in
       Inr (Some \<lparr>g_harq_pid = harq_pid, g_ndi = ndi u c harq_pid, g_tpc = k, g_mcs = mcs, g_tbs = tbs,
              g_nb_rb = nb_rb, g_pdus = pdus\<rparr>, l, u))))"

definition new_transmission ::
  "sched_view \<Rightarrow> nat \<Rightarrow> flex_cell_config \<Rightarrow> flex_ue_stats_report \<Rightarrow> flex_cell_stats_report \<Rightarrow> u16 \<Rightarrow> u16 \<Rightarrow> nat \<Rightarrow> u16 \<Rightarrow>
     locals \<times> ue_scheduling_info \<Rightarrow> (grant option \<times> locals \<times> ue_scheduling_info) result" where
  "new_transmission = transmit_new (\<lambda>_. 28) request_channels"

type_synonym sched_state = "locals \<times> enb_scheduling_info \<times> flex_dl_data list"

text \<open>Once there are resource blocks and control channel elements: the HARQ process and what it sends.\<close>

definition serve_with ::
  "(nat \<Rightarrow> flex_ue_stats_report \<Rightarrow> flex_cell_stats_report \<Rightarrow> nat \<Rightarrow> u16 \<Rightarrow>
      locals \<times> ue_scheduling_info \<Rightarrow> (grant option \<times> locals \<times> ue_scheduling_info) result) \<Rightarrow>
     sched_view \<Rightarrow> enb_rib_info \<Rightarrow> flex_cell_config \<Rightarrow> ue_mac_rib_info \<Rightarrow> ue_scheduling_info \<Rightarrow> locals \<Rightarrow>
     (int \<times> grant option \<times> locals \<times> ue_scheduling_info) result" where
  "serve_with transmit sv bs cell mac u l =
     (let c = cell_index sv cell; r = mac_stats_report mac; available = pre_nb_rbs_available u c in
      rbind (get_next_available_harq c mac) (\<lambda>pid. let harq_pid = nat pid in
      rbind (get_harq_round c pid u) (\<lambda>round.
      rbind (mcs_of_reports sv cell r (l_mcs l)) (\<lambda>mcs. let l = l\<lparr>l_mcs := min mcs target_dl_mcs\<rparr> in
      rbind (get_harq_stats c harq_pid mac) (\<lambda>status.
      rbind (if status = FLHS_NACK
             then rbind (retransmission c cell harq_pid available u) (\<lambda>(g, u').
               Inr (g, l\<lparr>l_mcs := unat (si_mcs u c harq_pid)\<rparr>, u'))
             else transmit c r (cell_mac_info bs c) harq_pid available (l, u))
        (\<lambda>gr. Inr (round, gr)))))))"

definition serve_ue ::
  "sched_view \<Rightarrow> enb_rib_info \<Rightarrow> u16 \<Rightarrow> u16 \<Rightarrow> flex_cell_config \<Rightarrow> ue_mac_rib_info \<Rightarrow> ue_scheduling_info \<Rightarrow> locals \<Rightarrow>
     (int \<times> grant option \<times> locals \<times> ue_scheduling_info) result" where
  "serve_ue sv bs target_frame target_subframe cell =
     serve_with (\<lambda>c r cr. new_transmission sv c cell r cr target_frame target_subframe) sv bs cell"

text \<open>
  A user with statistics, if it has been given resource blocks and control channel elements can be
  found; \<open>taken\<close> takes the elements.
\<close>

definition give_ue ::
  "nat \<Rightarrow> (nat \<Rightarrow> enb_scheduling_info \<Rightarrow> enb_scheduling_info) \<Rightarrow>
     (ue_mac_rib_info \<Rightarrow> ue_scheduling_info \<Rightarrow> locals \<Rightarrow> (int \<times> grant option \<times> locals \<times> ue_scheduling_info) result) \<Rightarrow>
     sched_view \<Rightarrow> u16 \<Rightarrow> flex_cell_config \<Rightarrow> u32 \<Rightarrow> ue_mac_rib_info \<Rightarrow> sched_state \<Rightarrow> sched_state result" where
  "give_ue aggregation taken serve sv target_subframe cell rnti mac = (\<lambda>(l, e, out).
     let c = cell_index sv cell in
     case get_ue_scheduling_info rnti e of None \<Rightarrow> Inl null_deref | Some u \<Rightarrow>
      if \<not> c < MAX_NUM_CC then Inl out_of_bounds
      else if pre_nb_rbs_available u c = 0 then Inr (l, e, out)
      else rbind (CCE_allocation_infeasible c cell rnti aggregation target_subframe e) (\<lambda>(infeasible, e).
        if infeasible then Inr (l, e, out)
        else rbind (has_available_harq c mac) (\<lambda>av. if \<not> av then Inr (l, e, out)
        else rbind (serve mac u l) (\<lambda>(round, g, l, u).
        let e = modify_ue rnti (\<lambda>_. u) e in
        Inr (case g of None \<Rightarrow> (l, e, out)
             | Some g \<Rightarrow> (l, taken c e, out @ [dl_data_of c cell rnti round aggregation (l_ce_flags l) u g]))))))"

definition schedule_ue ::
  "sched_view \<Rightarrow> enb_rib_info \<Rightarrow> u16 \<Rightarrow> u16 \<Rightarrow> flex_cell_config \<Rightarrow> flex_ue_config \<Rightarrow> sched_state \<Rightarrow> sched_state result" where
  "schedule_ue sv bs target_frame target_subframe cell uc s =
     (let rnti = rnti_of uc in
      if \<not> in_cell sv cell uc then Inr s
      else case get_ue_mac_info rnti bs of None \<Rightarrow> Inr s | Some mac \<Rightarrow>
        give_ue 2 (\<lambda>c. assign_CCE c (2 ^ 2)) (serve_ue sv bs target_frame target_subframe cell) sv target_subframe cell rnti mac s)"

section \<open>Scheduling a base station\<close>

definition prepare_cell ::
  "sched_view \<Rightarrow> enb_rib_info \<Rightarrow> u16 \<Rightarrow> flex_cell_config \<Rightarrow> enb_scheduling_info \<Rightarrow> enb_scheduling_info result" where
  "prepare_cell sv bs target_subframe cell e =
     rbind (enb_start_new_scheduling_round sv target_subframe cell e)
       (run_dlsch_scheduler_preprocessor sv cell (ue_configs bs) (lc_configs bs) bs target_subframe)"

definition schedule_cell ::
  "sched_view \<Rightarrow> enb_rib_info \<Rightarrow> u16 \<Rightarrow> u16 \<Rightarrow> flex_cell_config \<Rightarrow> sched_state \<Rightarrow> sched_state result" where
  "schedule_cell sv bs target_frame target_subframe cell s =
     foldR (schedule_ue sv bs target_frame target_subframe cell) (ue_config (ue_configs bs)) s"

definition schedule_bs ::
  "sched_view \<Rightarrow> enb_rib_info \<Rightarrow> u16 \<Rightarrow> u16 \<Rightarrow> locals \<times> enb_scheduling_info \<Rightarrow> sched_state result" where
  "schedule_bs sv bs target_frame target_subframe = (\<lambda>(l, e).
     rbind (foldR (prepare_cell sv bs target_subframe) (cell_config (eNB_config bs)) e) (\<lambda>e.
     foldR (schedule_cell sv bs target_frame target_subframe) (cell_config (eNB_config bs)) (l, e, [])))"

definition target_slot :: "u16 \<Rightarrow> u16 \<Rightarrow> u16 \<times> u16" where
  "target_slot cur_frame cur_subframe =
     (let target_subframe = of_nat ((unat cur_subframe + schedule_ahead) mod 10) :: u16;
          target_frame = (if target_subframe < cur_subframe
                          then of_nat ((unat cur_frame + 1) mod 1024) else cur_frame);
          additional_frames = schedule_ahead div 10 in
      (of_nat ((unat target_frame + additional_frames) mod 1024), target_subframe))"

definition dl_mac_config_message :: "u16 \<Rightarrow> u16 \<Rightarrow> flex_dl_data list \<Rightarrow> flexran_message" where
  "dl_mac_config_message target_frame target_subframe data = message_of INITIATING_MESSAGE
     (Dl_mac_config_msg \<lparr>dmc_header = Some (mk_header FLPT_DL_MAC_CONFIG 0),
        dmc_sfn_sf = Some (ucast (get_sfn_sf target_frame target_subframe)), dl_ue_data = data\<rparr>)"

text \<open>A base station with its context \<open>e\<close>: once per slot, and not in subframes 0 and 5.\<close>

definition schedule_context ::
  "sched_view \<Rightarrow> rib \<Rightarrow> u64 \<Rightarrow> enb_rib_info \<Rightarrow> u16 \<Rightarrow> u16 \<Rightarrow> enb_scheduling_info \<Rightarrow> locals \<times> remote_scheduler \<times> outbox \<Rightarrow>
     (locals \<times> remote_scheduler \<times> outbox) result" where
  "schedule_context sv r bs_id bs frame subframe e = (\<lambda>(l, s, out).
     let (target_frame, target_subframe) = target_slot frame subframe in
     if \<not> needs_scheduling e frame subframe \<or> target_subframe = 0 \<or> target_subframe = 5 then Inr (l, s, out)
     else rbind (schedule_bs sv bs target_frame target_subframe (l, e)) (\<lambda>(l, e, data).
       let e = e\<lparr>last_checked_frame := frame, last_checked_subframe := subframe\<rparr>;
           s = s\<lparr>rs_scheduling_info := sm_put bs_id e (rs_scheduling_info s)\<rparr> in
       Inr (l, s, if data = [] then out
                  else send_message bs_id (dl_mac_config_message target_frame target_subframe data) r out)))"

definition schedule_base_station ::
  "sched_view \<Rightarrow> (u64 \<Rightarrow> u16 \<times> u16) \<Rightarrow> rib \<Rightarrow> u64 \<Rightarrow> locals \<times> remote_scheduler \<times> outbox \<Rightarrow>
     (locals \<times> remote_scheduler \<times> outbox) result" where
  "schedule_base_station sv stale r bs_id = (\<lambda>(l, s, out).
     case get_bs bs_id r of None \<Rightarrow> Inl null_deref | Some bs \<Rightarrow>
     (case (current_frame bs, current_subframe bs) of
        (Some frame, Some subframe) \<Rightarrow>
          (case find_context (stale bs_id) bs_id (rs_scheduling_info s) of
             (m, None) \<Rightarrow> Inl null_deref
           | (m, Some e) \<Rightarrow>
               schedule_context sv r bs_id bs frame subframe e (l, s\<lparr>rs_scheduling_info := m\<rparr>, out))
      | _ \<Rightarrow> Inl uninitialised))"

definition periodic_task ::
  "sched_view \<Rightarrow> (u64 \<Rightarrow> u16 \<times> u16) \<Rightarrow> rib \<Rightarrow> remote_scheduler \<times> outbox \<Rightarrow> (remote_scheduler \<times> outbox) result" where
  "periodic_task sv stale r = (\<lambda>(s, out).
     rbind (foldR (schedule_base_station sv stale r) (get_available_base_stations r)
              (\<lparr>l_mcs = 0, l_ce_flags = 0, l_header_len = 0, l_tpc_accumulated = tpc_accumulated s\<rparr>, s, out))
       (\<lambda>(l, s, out). Inr (s\<lparr>tpc_accumulated := l_tpc_accumulated l\<rparr>, out)))"

section \<open>Lemmas\<close>

subsection \<open>The groups of a transmission\<close>

lemma power_control_own:
  "rballoc_sub (snd (snd (power_control sv c r cr tf ts u))) = rballoc_sub u"
  "rballoc_sub_scheduled (snd (snd (power_control sv c r cr tf ts u))) = rballoc_sub_scheduled u"
  by (simp_all add: power_control_def Let_def split: option.split)

lemma timing_advance_own:
  "timing_advance r u = (ta, u') \<Longrightarrow>
     rballoc_sub u' = rballoc_sub u \<and> rballoc_sub_scheduled u' = rballoc_sub_scheduled u"
  by (auto simp: timing_advance_def split: if_splits)

lemma transmit_new_own:
  assumes "transmit_new max_mcs requests sv c cell r cr tf ts p av (l, u) = Inr (g, l', u')" "uses_own c u"
  shows "rballoc_sub u' = rballoc_sub u \<and> uses_own c u'"
proof -
  obtain dci where dci: "get_TBS_DL (l_mcs l) av = Inr dci"
    using assms(1) by (auto simp: transmit_new_def rbind_Inr_eq)
  obtain ta u1 where ta: "timing_advance r u = (ta, u1)" by fastforce
  define l1 where "l1 = (if ta > 0 then l\<lparr>l_ce_flags := l_ce_flags l OR FLPCET_TA\<rparr> else l)"
  obtain h sdu pdus where req: "requests dci ta (map (rlc_bsr_of sv) (rlc_report r)) (l_header_len l1) = (h, sdu, pdus)"
    by (metis prod_cases3)
  have u1: "rballoc_sub u1 = rballoc_sub u" "uses_own c u1"
    using timing_advance_own [OF ta] assms(2) by (auto simp: uses_own_def)
  note eq = assms(1) [unfolded transmit_new_def prod.case dci rbind_Inr ta Let_def l1_def [symmetric] req]
  show ?thesis
  proof (cases "pdus = []")
    case True
    then show ?thesis using eq u1 by auto
  next
    case False
    obtain need mcs nb m tbs u2 where blocks: "choose_blocks (max_mcs u1) c cell p av need mcs u1 = Inr (nb, m, tbs, u2)"
      and u': "u' = toggle_ndi c p (snd (snd (power_control sv c r cr tf ts u2)))"
      using eq False by (auto simp: rbind_Inr_eq case_prod_beta)
    then have "rballoc_sub u2 = rballoc_sub u1 \<and> uses_own c u2" using choose_blocks_own u1(2) by blast
    then show ?thesis
      using u1(1) power_control_own uses_own_cong unfolding u' toggle_ndi_own by metis
  qed
qed

lemma serve_with_own:
  assumes "serve_with transmit sv bs cell mac u l = Inr (round, g, l', u')" "uses_own (cell_index sv cell) u"
    and "\<And>c r cr pid av l u g l' u'. transmit c r cr pid av (l, u) = Inr (g, l', u') \<Longrightarrow> uses_own c u \<Longrightarrow>
      rballoc_sub u' = rballoc_sub u \<and> uses_own c u'"
  shows "rballoc_sub u' = rballoc_sub u \<and> uses_own (cell_index sv cell) u'"
proof -
  let ?c = "cell_index sv cell"
  obtain l1 pid where "retransmission ?c cell pid (pre_nb_rbs_available u ?c) u = Inr (g, u') \<or>
      transmit ?c (mac_stats_report mac) (cell_mac_info bs ?c) pid (pre_nb_rbs_available u ?c) (l1, u) = Inr (g, l', u')"
    using assms(1) by (auto simp: serve_with_def Let_def rbind_Inr_eq split: if_splits)
  then show ?thesis
    by (elim disjE) (erule retransmission_own [OF _ assms(2)], erule assms(3) [OF _ assms(2)])
qed

lemma serve_ue_own:
  "serve_ue sv bs tf ts cell mac u l = Inr (round, g, l', u') \<Longrightarrow> uses_own (cell_index sv cell) u \<Longrightarrow>
     rballoc_sub u' = rballoc_sub u \<and> uses_own (cell_index sv cell) u'"
  unfolding serve_ue_def new_transmission_def by (erule serve_with_own) (auto dest: transmit_new_own)

text \<open>Scheduling a user changes the record of that user and may add an entry for it.\<close>

lemma give_ue_cases:
  assumes "give_ue agg taken serve sv ts cell rnti mac (l, e, out) = Inr (l', e', out')"
    and taken: "\<And>c e. scheduling_info (taken c e) = scheduling_info e"
    and own: "\<And>u l round g l' u'. serve mac u l = Inr (round, g, l', u') \<Longrightarrow> uses_own (cell_index sv cell) u \<Longrightarrow>
      rballoc_sub u' = rballoc_sub u \<and> uses_own (cell_index sv cell) u'"
  shows "(out' = out \<and> scheduling_info e' = scheduling_info e) \<or>
    user_changed cell (cell_index sv cell) rnti e out e' out'"
proof -
  let ?c = "cell_index sv cell"
  obtain u where u: "get_ue_scheduling_info rnti e = Some u"
    using assms(1) by (auto simp: give_ue_def Let_def split: option.splits)
  show ?thesis
  proof (cases "?c < MAX_NUM_CC \<and> pre_nb_rbs_available u ?c \<noteq> 0")
    case go: True
    obtain b e1 where cce: "CCE_allocation_infeasible ?c cell rnti agg ts e = Inr (b, e1)"
      using assms(1) u go by (auto simp: give_ue_def Let_def rbind_Inr_eq)
    note keep = cce_keeps [OF cce] and run = assms(1) [unfolded give_ue_def Let_def]
    show ?thesis
    proof (cases "b \<or> has_available_harq ?c mac \<noteq> Inr True")
      case True
      then show ?thesis using run u go cce keep by (auto simp: rbind_Inr_eq split: if_splits)
    next
      case False
      obtain round g l2 u' where serve: "serve mac u l = Inr (round, g, l2, u')"
        using run u go cce False by (auto simp: rbind_Inr_eq)
      let ?e = "modify_ue rnti (\<lambda>_. u') e1" and ?d = "dl_data_of ?c cell rnti round agg (l_ce_flags l2) u'"
      have res: "(l', e', out') = (case g of None \<Rightarrow> (l2, ?e, out) | Some x \<Rightarrow> (l2, taken ?c ?e, out @ [?d x]))"
        using run u go cce False serve by (auto split: option.split)
      have "scheduling_info e' = scheduling_info (modify_ue rnti (\<lambda>_. u') e)"
        using res keep taken by (cases g) (simp_all add: modify_ue_def)
      moreover have "out' = out \<or> (\<exists>d p nb. out' = out @ [d] \<and> dd_rnti d = Some rnti \<and>
          bitmap_of d = allocate_prbs_sub nb (rballoc_sub_scheduled u' ?c p) cell)"
      proof (cases g)
        case (Some x)
        then have "out' = out @ [?d x]" using res by simp
        then show ?thesis using dl_data_fields [of ?c cell rnti round agg "l_ce_flags l2" u' x] by blast
      qed (use res in simp)
      ultimately show ?thesis using u own [OF serve] unfolding user_changed_def by blast
    qed
  next
    case False
    then show ?thesis using assms(1) u by (auto simp: give_ue_def Let_def split: if_splits)
  qed
qed

lemma schedule_ue_cases:
  assumes "schedule_ue sv bs tf ts cell uc (l, e, out) = Inr (l', e', out')"
  shows "(out' = out \<and> scheduling_info e' = scheduling_info e) \<or>
    (in_cell sv cell uc \<and> user_changed cell (cell_index sv cell) (rnti_of uc) e out e' out')"
proof (cases "in_cell sv cell uc \<and> get_ue_mac_info (rnti_of uc) bs \<noteq> None")
  case True
  then obtain mac where "give_ue 2 (\<lambda>c. assign_CCE c (2 ^ 2)) (serve_ue sv bs tf ts cell) sv ts cell (rnti_of uc) mac (l, e, out) =
      Inr (l', e', out')"
    using assms by (auto simp: schedule_ue_def Let_def)
  from give_ue_cases [OF this] show ?thesis using True serve_ue_own by (fastforce simp: assign_CCE_def)
next
  case False
  then show ?thesis using assms by (auto simp: schedule_ue_def Let_def split: if_splits)
qed

interpretation remote: user_scheduler "schedule_ue sv bs tf ts cell" cell "cell_index sv cell" "in_cell sv cell"
  for sv bs tf ts cell
  by unfold_locales (rule schedule_ue_cases)

lemma prepared_cell:
  assumes "prepare_cell sv bs ts cell e = Inr e'"
    and "unat (cell_field_of dl_bandwidth cell) \<in> {6, 25, 50, 100}"
  shows "\<exists>V. grants_ok cell (cell_rntis sv cell (ue_config (ue_configs bs))) V (cell_index sv cell) e'"
  using assms preprocessor_grants by (fastforce simp: prepare_cell_def rbind_Inr_eq)

text \<open>C29. 
  When a cell has been prepared for a slot, the resource blocks on record for its users are together
  at most the bandwidth of the cell.
\<close>

theorem cell_within_bandwidth:
  assumes "prepare_cell sv bs ts cell e = Inr e'"
    and "unat (cell_field_of dl_bandwidth cell) \<in> {6, 25, 50, 100}"
  shows "(\<Sum>r \<in> cell_rntis sv cell (ue_config (ue_configs bs)).
      int (unat (pre_nb_rbs_available (ue_of r e') (cell_index sv cell)))) \<le> int (unat (cell_field_of dl_bandwidth cell))"
proof -
  obtain e1 where
    "run_dlsch_scheduler_preprocessor sv cell (ue_configs bs) (lc_configs bs) bs ts e1 = Inr e'"
    using assms(1) by (auto simp: prepare_cell_def rbind_Inr_eq)
  then show ?thesis using assms(2) by (rule within_the_bandwidth)
qed

text \<open>C26. 
  The allocations sent to the users of a base station with one cell in a slot have no resource block
  group in common, whatever their queues, HARQ states and channel reports.
\<close>

theorem transmissions_share_no_group:
  assumes "schedule_bs sv bs tf ts (l, e) = Inr (l', e', out)"
    and cell: "cell_config (eNB_config bs) = [cell]" "unat (cell_field_of dl_bandwidth cell) \<in> {6, 25, 50, 100}"
    and rntis: "distinct (map rnti_of (ue_config (ue_configs bs)))"
    and "i < j" "j < length out"
  shows "bitmap_of (out ! i) AND bitmap_of (out ! j) = 0"
proof -
  obtain e1 where e1: "prepare_cell sv bs ts cell e = Inr e1"
    and fold: "foldR (schedule_ue sv bs tf ts cell) (ue_config (ue_configs bs)) (l, e1, []) = Inr (l', e', out)"
    using assms(1) cell(1) by (auto simp: schedule_bs_def schedule_cell_def rbind_Inr_eq)
  obtain V where V: "grants_ok cell (cell_rntis sv cell (ue_config (ue_configs bs))) V (cell_index sv cell) e1"
    using prepared_cell [OF e1 cell(2)] by blast
  show ?thesis
    by (rule remote.entries_share_no_group [OF fold V _ rntis assms(5,6)]) (auto simp: cell_rntis_def)
qed

subsection \<open>Requests\<close>

text \<open>
  When the block is smaller than the lengths taken off it, the difference wraps and the user is
  asked for the whole queue.
\<close>

theorem small_block_requests_whole_queue:
  assumes "tx_queue_size b = Some n_bytes" "0 < unat n_bytes" "unat n_bytes \<le> 2 ^ 31"
    and "unat ta_len \<le> 2" "unat header_len + 3 < 256" "dci_tbs < unat ta_len + unat header_len + 3"
  shows "\<exists>h sdu tb. request_channel dci_tbs ta_len b (header_len, sdu_length, pdus) = (h, sdu, pdus @ [[tb, tb]]) \<and>
    tb_size tb = Some n_bytes"
proof -
  let ?h = "ucast (header_len + 3) :: u32"
  let ?room = "of_nat dci_tbs - ta_len - ?h :: u32"
  let ?n = "unat ta_len + unat header_len + 3 - dci_tbs"
  have h3: "unat (header_len + 3) = unat header_len + 3"
    using assms(5) by (simp add: unat_word_ariths(1))
  have "unat ?h = unat (header_len + 3)" by (rule unat_ucast_small) (use h3 assms(5) in simp)
  then have h: "unat ?h = unat header_len + 3" by (simp only: h3)
  have "?room = - of_nat ?n"
  proof -
    have "of_nat (unat ta_len + unat ?h) = (of_nat dci_tbs + of_nat ?n :: u32)"
      using assms(6) h by (subst of_nat_add [symmetric]) simp
    then have "ta_len + ?h = of_nat dci_tbs + of_nat ?n" by simp
    then show ?thesis by (simp add: algebra_simps)
  qed
  moreover have n: "0 < ?n" "?n \<le> 258" using assms(4-6) by auto
  ultimately have "unat ?room = 2 ^ 32 - ?n"
    using unat_neg_of_nat [of ?n, where 'a = 32] by (simp only:) simp
  then have room: "0 < ?room" "n_bytes \<le> ?room"
    using n assms(3) by (simp_all add: word_less_nat_alt word_le_nat_alt)
  have pos: "0 < n_bytes" using assms(2) by (simp add: word_less_nat_alt)
  show ?thesis using room pos assms(1) by (simp add: request_channel_def Let_def)
qed

subsection \<open>Contexts of the base stations\<close>

lemma foldR_fails:
  assumes "x \<in> set xs" "I s" "\<And>y s s'. I s \<Longrightarrow> f y s = Inr s' \<Longrightarrow> I s'" "\<And>s. I s \<Longrightarrow> \<not> is_ok (f x s)"
  shows "\<not> is_ok (foldR f xs s)"
  using assms(1,2)
proof (induction xs arbitrary: s)
  case (Cons y xs)
  then show ?case using assms(3,4) by (cases "f y s") (auto simp: is_ok_iff)
qed simp

text \<open>
  A base station whose identifier does not survive the cut to 32 bits ends every run of the
  scheduler with a null pointer, whatever else the information base holds.
\<close>

theorem large_identifier_is_fatal:
  assumes "get_bs b r \<noteq> None" "2 ^ 31 \<le> unat b" "unat b < 2 ^ 64 - 2 ^ 31"
  shows "\<not> is_ok (periodic_task sv stale r (new_remote_scheduler, out))"
proof -
  define I where "I = (\<lambda>(l :: locals, s :: remote_scheduler, out :: outbox). sm_find b (rs_scheduling_info s) = None)"
  have put: "I (l, s\<lparr>rs_scheduling_info := sm_put b' e (rs_scheduling_info s)\<rparr>, out)"
    if "b' \<noteq> b" "I (l', s, out')" for l l' s out out' b' e
    using that by (auto simp: I_def sm_find_put)
  have ctx: "I (l, s\<lparr>rs_scheduling_info := fst (find_context st b' (rs_scheduling_info s))\<rparr>, out')"
    if "I (l', s, out)" for l l' s out out' st b'
    using that find_context_other [OF assms(2,3)] by (simp add: I_def)
  have fails: "\<not> is_ok (schedule_base_station sv stale r b x)" if "I x" for x
  proof -
    obtain l s out where x: "x = (l, s, out)" by (cases x)
    have "snd (find_context (stale b) b (rs_scheduling_info s)) = None"
      using that find_context_none [OF assms(2,3)] by (simp add: I_def x)
    then obtain m where "find_context (stale b) b (rs_scheduling_info s) = (m, None)" by (metis prod.collapse)
    then show ?thesis using assms(1) x by (auto simp: schedule_base_station_def split: option.split)
  qed
  have keeps: "I y" if "I x" "schedule_base_station sv stale r b' x = Inr y" for b' x y
  proof -
    obtain l s out where x: "x = (l, s, out)" by (cases x)
    have "b' \<noteq> b" using fails [OF that(1)] that(2) by auto
    note run = that(2) [unfolded x schedule_base_station_def prod.case]
    obtain bs frame subframe m e where m: "find_context (stale b') b' (rs_scheduling_info s) = (m, Some e)"
      and run: "schedule_context sv r b' bs frame subframe e (l, s\<lparr>rs_scheduling_info := m\<rparr>, out) = Inr y"
      using run
      by (cases "find_context (stale b') b' (rs_scheduling_info s)";
          cases "snd (find_context (stale b') b' (rs_scheduling_info s))") (simp split: option.splits)+
    define s' where "s' = s\<lparr>rs_scheduling_info := m\<rparr>"
    note step = run [folded s'_def]
    have "I (l, s\<lparr>rs_scheduling_info := fst (find_context (stale b') b' (rs_scheduling_info s))\<rparr>, out)"
      by (rule ctx) (rule that(1) [unfolded x])
    then have I: "I (l, s', out)" by (simp add: s'_def m)
    show ?thesis
    proof (cases "y = (l, s', out)")
      case False
      then have "\<exists>l' e' out'. y = (l', s'\<lparr>rs_scheduling_info := sm_put b' e' (rs_scheduling_info s')\<rparr>, out')"
        using step by (auto simp: schedule_context_def rbind_Inr_eq Let_def split: if_splits prod.splits)
      then show ?thesis using put [OF \<open>b' \<noteq> b\<close> I] by auto
    qed (use I in simp)
  qed
  have "b \<in> set (get_available_base_stations r)" using assms(1) by (simp add: available_get_bs)
  then have "\<not> is_ok (foldR (schedule_base_station sv stale r) (get_available_base_stations r) x)" if "I x" for x
    by (rule foldR_fails [where I = I]) (use that keeps fails in auto)
  moreover have "I (l, new_remote_scheduler, out)" for l by (simp add: I_def new_remote_scheduler_def)
  ultimately show ?thesis by (auto simp: periodic_task_def is_ok_rbind split: prod.splits) (metis is_ok_iff)
qed

section \<open>Examples\<close>

text \<open>Two users of a cell of 25 resource blocks, with five and six bytes to send.\<close>

definition example_view :: sched_view where
  "example_view = \<lparr>cell_id_of = (\<lambda>_. 0), pcell_carrier_index_of = (\<lambda>_. 0),
     rlc_bsr_of = (\<lambda>raw. \<lparr>bsr_lc_id = Some 3, tx_queue_size = Some (ucast (raw ! 0)), tx_queue_hol_delay = None\<rparr>),
     csi_reports_of = (\<lambda>raw. [\<lparr>csi_serv_cell_index = Some 0, csi_wb_cqi = Some (ucast (raw ! 0))\<rparr>]),
     pucch_dbm_of = (\<lambda>_. []), p0_nominal_pucch_of = (\<lambda>_. 0)\<rparr>"

definition example_cell :: flex_cell_config where
  "example_cell = empty_cell_config\<lparr>cell_u32 := (\<lambda>f. if f = dl_bandwidth then Some 25 else None)\<rparr>"

definition queue_report :: "u8 \<Rightarrow> u8 \<Rightarrow> flex_ue_stats_report" where
  "queue_report n_bytes cqi = empty_ue_report\<lparr>rlc_report := [[n_bytes]], dl_cqi_report := Some [cqi]\<rparr>"

definition two_user_bs :: enb_rib_info where
  "two_user_bs = (new_enb 1 [lower_agent] 0)\<lparr>current_frame := Some 0, current_subframe := Some 7,
     eNB_config := empty_enb_config\<lparr>cell_config := [example_cell]\<rparr>,
     ue_configs := empty_ue_config_reply\<lparr>ue_config := [empty_ue_config\<lparr>ue_rnti := Some 70\<rparr>, empty_ue_config\<lparr>ue_rnti := Some 71\<rparr>]\<rparr>,
     lc_configs := empty_lc_config_reply\<lparr>lc_ue_config := [\<lparr>lc_rnti = Some 70, lc_config = []\<rparr>, \<lparr>lc_rnti = Some 71, lc_config = []\<rparr>]\<rparr>,
     ue_mac_info := [(70, (new_ue_mac 70)\<lparr>mac_stats_report := queue_report 5 0\<rparr>),
                     (71, (new_ue_mac 71)\<lparr>mac_stats_report := queue_report 6 0\<rparr>)]\<rparr>"

definition first_locals :: locals where
  "first_locals = \<lparr>l_mcs = 0, l_ce_flags = 0, l_header_len = 0, l_tpc_accumulated = 0\<rparr>"

lemma example_tbs: "get_TBS_DL 0 4 = Inr 11"
  by (simp add: get_TBS_DL_def get_I_TBS_def TBStable_def)

lemma example_bw: "unat (cell_field_of dl_bandwidth example_cell) = 25" by (simp add: example_cell_def)
lemma example_shape: "get_nb_rbg example_cell = 13" "get_min_rb_unit example_cell = 2"
  by (simp_all add: get_nb_rbg_def get_min_rb_unit_def Let_def example_bw)
lemma example_simps: "cell_index example_view example_cell = 0" "cell_id_of example_view example_cell = 0" "in_cell example_view example_cell uc"
  "rlc_bsr_of example_view raw = \<lparr>bsr_lc_id = Some 3, tx_queue_size = Some (ucast (raw ! 0)), tx_queue_hol_delay = None\<rparr>"
  "csi_reports_of example_view raw = [\<lparr>csi_serv_cell_index = Some 0, csi_wb_cqi = Some (ucast (raw ! 0))\<rparr>]"
  "pucch_dbm_of example_view raw = []" "p0_nominal_pucch_of example_view raw = 0"
 by (simp_all add: cell_index_def in_cell_def example_view_def)
lemma example_rb_loop: "0 < need \<Longrightarrow> need \<le> 11 \<Longrightarrow> rb_loop cell limit 0 need 4 = Inr 4"
  by (simp add: rb_loop.simps example_tbs)

lemma example_start: "enb_start_new_scheduling_round example_view 1 example_cell (new_enb_scheduling_info (0, 0)) =
  Inr ((new_enb_scheduling_info (0, 0))\<lparr>nCCE_rem := (\<lambda>_. 0)(0 := of_nat (get_nCCE_max 0 example_cell 1))\<rparr>)"
  by (simp add: enb_start_new_scheduling_round_def example_simps MAX_NUM_CC_def new_enb_scheduling_info_def Let_def fun_upd_def cong: if_cong)

definition queue_mac :: "u32 \<Rightarrow> u8 \<Rightarrow> ue_mac_rib_info" where
 "queue_mac r b = (new_ue_mac r)\<lparr>mac_stats_report := queue_report b 0\<rparr>"

lemma two_user_bs_simps: "ue_config (ue_configs two_user_bs) = [empty_ue_config\<lparr>ue_rnti := Some 70\<rparr>, empty_ue_config\<lparr>ue_rnti := Some 71\<rparr>]"
  "cell_config (eNB_config two_user_bs) = [example_cell]"
  "lc_ue_config (lc_configs two_user_bs) =  [\<lparr>lc_rnti = Some 70, lc_config = []\<rparr>, \<lparr>lc_rnti = Some 71, lc_config = []\<rparr>]"
  "get_ue_mac_info 70 two_user_bs = Some (queue_mac 70 5)" "get_ue_mac_info 71 two_user_bs = Some (queue_mac 71 6)"
  "cell_mac_info two_user_bs c = empty_cell_report" "slot_of two_user_bs = Inr (0, 7)" "enb_agents two_user_bs = [lower_agent]"
  by (simp_all add: slot_of_def two_user_bs_def new_enb_def get_ue_mac_info_def queue_mac_def)

lemma queue_mac_simps: "has_available_harq 0 (queue_mac r b) = Inr True" "get_next_available_harq 0 (queue_mac r b) = Inr 0"
  "get_harq_stats 0 0 (queue_mac r b) = Inr 0" "harq_stats (queue_mac r b) 0 0 0 = 0"
  "rlc_report (mac_stats_report (queue_mac r b)) = [[b]]"
  "csi_reports example_view (mac_stats_report (queue_mac r b)) = [\<lparr>csi_serv_cell_index = Some 0, csi_wb_cqi = Some 0\<rparr>]"
  "mcs_of_reports example_view example_cell (mac_stats_report (queue_mac r b)) k = Inr 0"
  "total_buffer_bytes example_view (mac_stats_report (queue_mac r b)) = sint (ucast b :: u32)"
  "pending_mac_ces (mac_stats_report (queue_mac r b)) = None"
  "ul_cqi_report (mac_stats_report (queue_mac r b)) = None"
  by (simp_all add: has_available_harq_def get_next_available_harq_def get_harq_stats_def MAX_NUM_CC_def MAX_NUM_HARQ_def
   queue_mac_def new_ue_mac_def upt_rec csi_reports_def queue_report_def example_simps total_buffer_bytes_def FLHS_ACK_def mcs_of_reports_def cqi_to_mcs_def empty_ue_report_def)

lemma example_order: "sort_UEs example_view example_cell (ue_config (ue_configs two_user_bs)) two_user_bs = Inr [1, 0]"
  by (simp add: sort_UEs_def two_user_bs_simps ue_stats_of_def MAX_NUM_UE_def example_simps queue_mac_simps rlc_stats_def blank_stats_def add_u32_def std_sort_def compare_stats_def Let_def)

lemma example_bandwidth: "uint (cell_field_of dl_bandwidth example_cell) = 25" "cell_field_of dl_bandwidth example_cell = 25"
  by (simp_all add: example_cell_def)

lemma example_prepared: "\<exists>e u v. prepare_cell example_view two_user_bs 1 example_cell (new_enb_scheduling_info (0, 0)) = Inr e \<and>
    nCCE_rem e = (\<lambda>_. 0)(0 := of_nat (get_nCCE_max 0 example_cell 1)) \<and> num_pdcch_symbols e = (\<lambda>_. 0) \<and>
    scheduling_info e = [(70, u), (71, v)] \<and> pre_nb_rbs_available u 0 = 4 \<and> pre_nb_rbs_available v 0 = 4 \<and>
    ta_timer u = 20 \<and> ta_timer v = 20"
  apply (simp add: prepare_cell_def example_start run_dlsch_scheduler_preprocessor_def example_order Let_def)
  apply (simp add: two_user_bs_simps prepare_ue_def example_simps  new_enb_scheduling_info_def get_ue_scheduling_info_def Let_def
    create_ue_scheduling_info_def sm_emplace_def assign_rbs_required_def queue_mac_simps MAX_NUM_CC_def example_rb_loop modify_ue_def ue_of_def sm_update_def)
  apply (simp add: for_ues_def share_of_def average_rbs_per_user_def two_user_bs_simps example_simps note_harq_def queue_mac_simps Let_def  modify_ue_def ue_of_def sm_update_def get_ue_scheduling_info_def
    set_harq_round_def example_shape new_ue_scheduling_info_def example_bandwidth)
  apply (simp add: distribute_round_def for_ues_def open_round_def two_user_bs_simps example_simps Let_def modify_ue_def ue_of_def sm_update_def get_ue_scheduling_info_def)
  apply (simp add: allocate_if_def Let_def ue_of_def get_ue_scheduling_info_def perform_pre_processor_allocation_def example_shape upt_rec
    alloc_group_def example_bandwidth take_group_def modify_ue_def sm_update_def toggle_vrb_map_def upd2_def)
  done

lemma example_cce: "num_pdcch_symbols e 0 = 0 \<Longrightarrow> nCCE_rem e 0 = of_nat (get_nCCE_max 0 example_cell 1) - of_nat taken \<Longrightarrow> taken \<le> 8 \<Longrightarrow>
   CCE_allocation_infeasible 0 example_cell rnti 2 1 e = Inr (False, e)"
  by (rule cce_check_is_vacuous [OF example_start, where taken = taken]) (simp_all add: example_simps new_enb_scheduling_info_def)

lemma example_adapt: "need \<le> 11 \<Longrightarrow> 0 < need \<Longrightarrow> adapt_mcs 28 4 need 0 = Inr (0, 11)"
  by (simp add: adapt_mcs_def example_tbs mcs_up.simps)

lemma example_serve:
  assumes "pre_nb_rbs_available u 0 = 4" "ta_timer u = 20" "l_header_len l \<le> 1" "b \<in> {5, 6}"
  shows "\<exists>round g l' u'. serve_ue example_view two_user_bs 0 1 example_cell (queue_mac r b) u l = Inr (round, Some g, l', u') \<and> l_header_len l' = 1"
proof -
  have h: "l_header_len l = 0 \<or> l_header_len l = 1" using assms(3) by (simp add: word_le_nat_alt) unat_arith
  have g: "get_harq_round 0 0 u = Inr (int (unat (si_harq_round u 0 0 0)))" by (simp add: get_harq_round_def MAX_NUM_CC_def MAX_NUM_HARQ_def)
  show ?thesis
   using h assms by (auto simp: serve_ue_def serve_with_def Let_def example_simps queue_mac_simps g target_dl_mcs_def new_transmission_def transmit_new_def example_tbs 
     two_user_bs_simps timing_advance_def request_channels_def request_channel_def choose_blocks_def example_rb_loop example_adapt FLHS_NACK_def
     split: prod.splits)
qed

lemma example_ue:
  assumes "num_pdcch_symbols e 0 = 0" "nCCE_rem e 0 = of_nat (get_nCCE_max 0 example_cell 1) - of_nat taken" "taken \<le> 8"
    and "get_ue_scheduling_info r e = Some u" "pre_nb_rbs_available u 0 = 4" "ta_timer u = 20" "l_header_len l \<le> 1"
    and "get_ue_mac_info r two_user_bs = Some (queue_mac r b)" "b \<in> {5, 6}"
  shows "\<exists>l' e' u' d. schedule_ue example_view two_user_bs 0 1 example_cell (empty_ue_config\<lparr>ue_rnti := Some r\<rparr>) (l, e, out) = Inr (l', e', out @ [d]) \<and>
    l_header_len l' = 1 \<and> e' = assign_CCE 0 4 (modify_ue r (\<lambda>_. u') e)"
proof -
  obtain round g l' u' where s: "serve_ue example_view two_user_bs 0 1 example_cell (queue_mac r b) u l = Inr (round, Some g, l', u')" "l_header_len l' = 1"
    using example_serve [OF assms(5,6,7,9)] by blast
  have "schedule_ue example_view two_user_bs 0 1 example_cell (empty_ue_config\<lparr>ue_rnti := Some r\<rparr>) (l, e, out) =
      Inr (l', assign_CCE 0 4 (modify_ue r (\<lambda>_. u') e), out @ [dl_data_of 0 example_cell r round 2 (l_ce_flags l') u' g])"
    using assms s(1) example_cce [OF assms(1-3)] by (simp add: schedule_ue_def give_ue_def example_simps MAX_NUM_CC_def queue_mac_simps)
  then show ?thesis using s(2) by blast
qed

lemma example_run: "\<exists>l e out. schedule_bs example_view two_user_bs 0 1 (first_locals, new_enb_scheduling_info (0, 0)) = Inr (l, e, out) \<and> length out = 2"
proof -
  obtain e u v where e: "prepare_cell example_view two_user_bs 1 example_cell (new_enb_scheduling_info (0, 0)) = Inr e"
    "nCCE_rem e = (\<lambda>_. 0)(0 := of_nat (get_nCCE_max 0 example_cell 1))" "num_pdcch_symbols e = (\<lambda>_. 0)"
    "scheduling_info e = [(70, u), (71, v)]" "pre_nb_rbs_available u 0 = 4" "pre_nb_rbs_available v 0 = 4"
    "ta_timer u = 20" "ta_timer v = 20"
    using example_prepared by blast
  obtain l1 e1 u1 d1 where 1: "schedule_ue example_view two_user_bs 0 1 example_cell (empty_ue_config\<lparr>ue_rnti := Some 70\<rparr>) (first_locals, e, []) = Inr (l1, e1, [d1])"
    "l_header_len l1 = 1" "e1 = assign_CCE 0 4 (modify_ue 70 (\<lambda>_. u1) e)"
    using example_ue [of e 0 70 u first_locals 5 "[]"] e by (auto simp: get_ue_scheduling_info_def first_locals_def two_user_bs_simps)
  obtain l2 e2 u2 d2 where 2: "schedule_ue example_view two_user_bs 0 1 example_cell (empty_ue_config\<lparr>ue_rnti := Some 71\<rparr>) (l1, e1, [d1]) = Inr (l2, e2, [d1, d2])"
    using example_ue [of e1 4 71 v l1 6 "[d1]"] e 1 by (auto simp: get_ue_scheduling_info_def two_user_bs_simps assign_CCE_def modify_ue_def sm_update_def)
  show ?thesis using e(1) 1(1) 2 by (simp add: schedule_bs_def schedule_cell_def two_user_bs_simps)
qed

theorem transmissions_share_no_group_witness:
  "\<exists>l e out. schedule_bs example_view two_user_bs 0 1 (first_locals, new_enb_scheduling_info (0, 0)) = Inr (l, e, out) \<and> length out = 2 \<and>
    bitmap_of (out ! 0) AND bitmap_of (out ! 1) = 0"
proof -
  obtain l e out where run: "schedule_bs example_view two_user_bs 0 1 (first_locals, new_enb_scheduling_info (0, 0)) = Inr (l, e, out)" "length out = 2"
    using example_run by blast
  have "bitmap_of (out ! 0) AND bitmap_of (out ! 1) = 0"
    by (rule transmissions_share_no_group [OF run(1) two_user_bs_simps(2)]) (simp_all add: example_bw two_user_bs_simps run(2))
  then show ?thesis using run by blast
qed

theorem cell_within_bandwidth_witness:
  "\<exists>e. prepare_cell example_view two_user_bs 1 example_cell (new_enb_scheduling_info (0, 0)) = Inr e \<and>
    (\<Sum>r \<in> cell_rntis example_view example_cell (ue_config (ue_configs two_user_bs)).
       int (unat (pre_nb_rbs_available (ue_of r e) (cell_index example_view example_cell)))) \<le> 25"
proof -
  obtain e where e: "prepare_cell example_view two_user_bs 1 example_cell (new_enb_scheduling_info (0, 0)) = Inr e"
    using example_prepared by blast
  have "unat (cell_field_of dl_bandwidth example_cell) \<in> {6, 25, 50, 100}" unfolding example_bw by simp
  then show ?thesis using cell_within_bandwidth [OF e] e unfolding example_bw by auto
qed

theorem large_identifier_is_fatal_witness:
  "\<not> is_ok (periodic_task example_view (\<lambda>_. (0, 0)) (empty_rib\<lparr>eNB_configs := [(2 ^ 31, new_enb (2 ^ 31) [] 0)]\<rparr>)
      (new_remote_scheduler, []))"
  by (rule large_identifier_is_fatal [where b = "2 ^ 31"]) (simp add: get_bs_def)+

end
