(* ===== verification/Eicic.thy ===== *)
theory Eicic
  imports Remote_Scheduler Updater
begin

text \<open>
  The coordination of a macro cell with the small cells in its area,
  \<open>app/remote_scheduler_eicic.cc\<close>: in an almost blank subframe either the macro cell or the small
  cells get the permission to schedule, as an empty command; the macro cell only when no user of a
  small cell waits for data. The state is the map of contexts.
\<close>

section \<open>Definitions\<close>

definition eicic_ahead :: nat where "eicic_ahead = 1"
definition abs_subframes :: "nat list" where "abs_subframes = [0, 1, 0, 1, 0, 0, 0, 1, 0, 1]"
definition macro_bs_id :: u64 where "macro_bs_id = 0"

text \<open>
  The frame found by comparing the subframes is overwritten: the command for subframe 0 that is sent
  in subframe 9 carries the frame that is ending.
\<close>

definition eicic_slot :: "u16 \<Rightarrow> u16 \<Rightarrow> u16 \<times> u16" where
  "eicic_slot cur_frame cur_subframe =
     (let target_subframe = of_nat ((unat cur_subframe + eicic_ahead) mod 10) :: u16;
          target_frame = (if target_subframe < cur_subframe
                          then of_nat ((unat cur_frame + 1) mod 1024) else cur_frame) :: u16;
          additional_frames = eicic_ahead div 10;
          target_frame = of_nat ((unat cur_frame + additional_frames) mod 1024) in
      (target_frame, target_subframe))"

text \<open>A user of one of the cells has something queued; the cells are compared in 32 bits here.\<close>

definition data_waiting :: "sched_view \<Rightarrow> enb_rib_info \<Rightarrow> bool" where
  "data_waiting sv bs \<longleftrightarrow> list_ex (\<lambda>cell. list_ex (\<lambda>uc.
       pcell_carrier_index_of sv uc = cell_id_of sv cell \<and>
       (case get_ue_mac_info (rnti_of uc) bs of None \<Rightarrow> False
        | Some mac \<Rightarrow> list_ex (\<lambda>raw. get_or 0 (tx_queue_size (rlc_bsr_of sv raw)) > 0) (rlc_report (mac_stats_report mac))))
     (ue_config (ue_configs bs))) (cell_config (eNB_config bs))"

type_synonym contexts = "(u64, enb_scheduling_info) std_map"

text \<open>The first loop: whether there is something to schedule, and whether the macro cell may.\<close>

definition eicic_check ::
  "sched_view \<Rightarrow> (u64 \<Rightarrow> u16 \<times> u16) \<Rightarrow> rib \<Rightarrow> u64 \<Rightarrow> contexts \<times> bool \<times> bool \<Rightarrow> (contexts \<times> bool \<times> bool) result" where
  "eicic_check sv stale r bs_id = (\<lambda>(m, schedule_macro, schedule_flag).
     case get_bs bs_id r of None \<Rightarrow> Inl null_deref | Some bs \<Rightarrow> rbind (slot_of bs) (\<lambda>(frame, subframe).
     case find_context (stale bs_id) bs_id m of
       (m, None) \<Rightarrow> Inl null_deref
     | (m, Some e) \<Rightarrow>
         if \<not> needs_scheduling e frame subframe then Inr (m, schedule_macro, schedule_flag)
         else let m = sm_put bs_id (e\<lparr>last_checked_frame := frame, last_checked_subframe := subframe\<rparr>) m;
                  (target_frame, target_subframe) = eicic_slot frame subframe;
                  schedule_flag = (schedule_flag \<or> abs_subframes ! unat target_subframe \<noteq> 0) in
           if bs_id = macro_bs_id then Inr (m, schedule_macro, schedule_flag)
           else Inr (m, schedule_macro \<and> \<not> data_waiting sv bs, schedule_flag)))"

text \<open>The second loop: the permissions.\<close>

definition eicic_permit ::
  "(u64 \<Rightarrow> u16 \<times> u16) \<Rightarrow> rib \<Rightarrow> bool \<Rightarrow> u64 \<Rightarrow> contexts \<times> outbox \<Rightarrow> (contexts \<times> outbox) result" where
  "eicic_permit stale r schedule_macro bs_id = (\<lambda>(m, out).
     if (bs_id = macro_bs_id \<and> \<not> schedule_macro) \<or> (bs_id \<noteq> macro_bs_id \<and> schedule_macro) then Inr (m, out)
     else case get_bs bs_id r of None \<Rightarrow> Inl null_deref | Some bs \<Rightarrow> rbind (slot_of bs) (\<lambda>(frame, subframe).
       let m = fst (find_context (stale bs_id) bs_id m); (target_frame, target_subframe) = eicic_slot frame subframe in
       Inr (m, send_message bs_id (dl_mac_config_message target_frame target_subframe []) r out)))"

definition eicic_periodic_task ::
  "sched_view \<Rightarrow> (u64 \<Rightarrow> u16 \<times> u16) \<Rightarrow> rib \<Rightarrow> contexts \<times> outbox \<Rightarrow> (contexts \<times> outbox) result" where
  "eicic_periodic_task sv stale r = (\<lambda>(m, out).
     rbind (foldR (eicic_check sv stale r) (get_available_base_stations r) (m, True, False))
       (\<lambda>(m, schedule_macro, schedule_flag).
          if \<not> schedule_flag then Inr (m, out)
          else foldR (eicic_permit stale r schedule_macro) (get_available_base_stations r) (m, out)))"

section \<open>What a run is to do\<close>

text \<open>A base station whose slot has not been looked at before.\<close>

definition context_of :: "(u64 \<Rightarrow> u16 \<times> u16) \<Rightarrow> contexts \<Rightarrow> u64 \<Rightarrow> enb_scheduling_info" where
  "context_of stale m b = (case sm_find b m of Some e \<Rightarrow> e | None \<Rightarrow> new_enb_scheduling_info (stale b))"

definition in_new_slot :: "(u64 \<Rightarrow> u16 \<times> u16) \<Rightarrow> rib \<Rightarrow> contexts \<Rightarrow> u64 \<Rightarrow> bool" where
  "in_new_slot stale r m b \<longleftrightarrow> (\<exists>bs frame subframe. get_bs b r = Some bs \<and> slot_of bs = Inr (frame, subframe) \<and>
     needs_scheduling (context_of stale m b) frame subframe)"

definition almost_blank :: "rib \<Rightarrow> u64 \<Rightarrow> bool" where
  "almost_blank r b \<longleftrightarrow> (\<exists>bs frame subframe. get_bs b r = Some bs \<and> slot_of bs = Inr (frame, subframe) \<and>
     (unat subframe + 1) mod 10 \<in> {1, 3, 7, 9})"

definition waiting_in :: "sched_view \<Rightarrow> rib \<Rightarrow> u64 \<Rightarrow> bool" where
  "waiting_in sv r b \<longleftrightarrow> (\<exists>bs. get_bs b r = Some bs \<and> data_waiting sv bs)"

definition permission :: "rib \<Rightarrow> u64 \<Rightarrow> outbox" where
  "permission r b = (case get_bs b r of None \<Rightarrow> [] | Some bs \<Rightarrow> (case slot_of bs of Inl _ \<Rightarrow> []
     | Inr (frame, subframe) \<Rightarrow> map (\<lambda>i. (i, dl_mac_config_message (of_nat (unat frame mod 1024))
         (of_nat ((unat subframe + 1) mod 10)) [])) (bs_members b r)))"

section \<open>Lemmas\<close>

lemma find_context_small:
  assumes "unat b < 2 ^ 31"
  shows "find_context (stale b) b m =
    (sm_emplace b (new_enb_scheduling_info (stale b)) m, Some (context_of stale m b))"
  using context_key_small [OF assms]
  by (auto simp: find_context_def context_of_def Let_def sm.find_emplace sm_emplace_def sm_find_put split: option.split)

lemma context_of_other:
  assumes "unat b < 2 ^ 31" "b' \<noteq> b"
  shows "context_of stale (sm_emplace b e m) b' = context_of stale m b'"
    "context_of stale (sm_put b e m) b' = context_of stale m b'"
  using assms(2) by (simp_all add: context_of_def)

lemma eicic_slot_eq: "eicic_slot frame subframe = (of_nat (unat frame mod 1024), of_nat ((unat subframe + 1) mod 10))"
  by (simp add: eicic_slot_def eicic_ahead_def Let_def)

lemma abs_subframe_iff: "abs_subframes ! unat (of_nat ((n + 1) mod 10) :: u16) \<noteq> 0 \<longleftrightarrow> (n + 1) mod 10 \<in> {1, 3, 7, 9}"
proof -
  have "(n + 1) mod 10 < 10" by simp
  moreover have "unat (of_nat k :: u16) = k" if "k < 10" for k using that by (simp add: unat_of_nat_small)
  moreover have "abs_subframes ! k \<noteq> 0 \<longleftrightarrow> k \<in> {1, 3, 7, 9}" if "k < 10" for k
    using that by (simp add: abs_subframes_def less_Suc_eq numeral_eq_Suc) force
  ultimately show ?thesis by metis
qed

definition slots_known :: "rib \<Rightarrow> u64 \<Rightarrow> bool" where
  "slots_known r b \<longleftrightarrow> unat b < 2 ^ 31 \<and> (\<exists>bs. get_bs b r = Some bs \<and> is_ok (slot_of bs))"

lemma check_step:
  assumes "slots_known r b"
  shows "\<exists>m'. eicic_check sv stale r b (m, macro, flag) =
      Inr (m', macro \<and> \<not> (b \<noteq> macro_bs_id \<and> in_new_slot stale r m b \<and> waiting_in sv r b),
           flag \<or> (in_new_slot stale r m b \<and> almost_blank r b)) \<and>
    (\<forall>b'. b' \<noteq> b \<longrightarrow> context_of stale m' b' = context_of stale m b')"
proof -
  obtain bs frame subframe where bs: "get_bs b r = Some bs" "slot_of bs = Inr (frame, subframe)"
    using assms by (auto simp: slots_known_def is_ok_iff)
  have small: "unat b < 2 ^ 31" using assms by (simp add: slots_known_def)
  let ?e = "context_of stale m b"
  have new: "in_new_slot stale r m b \<longleftrightarrow> needs_scheduling ?e frame subframe"
    and blank: "almost_blank r b \<longleftrightarrow> (unat subframe + 1) mod 10 \<in> {1, 3, 7, 9}"
    and waiting: "waiting_in sv r b \<longleftrightarrow> data_waiting sv bs"
    using bs by (simp_all add: in_new_slot_def almost_blank_def waiting_in_def)
  note run = eicic_check_def bs find_context_small [OF small] eicic_slot_eq
  show ?thesis
  proof (cases "needs_scheduling ?e frame subframe")
    case True
    let ?m = "sm_put b (?e\<lparr>last_checked_frame := frame, last_checked_subframe := subframe\<rparr>)
        (sm_emplace b (new_enb_scheduling_info (stale b)) m)"
    have "eicic_check sv stale r b (m, macro, flag) =
        Inr (?m, macro \<and> \<not> (b \<noteq> macro_bs_id \<and> data_waiting sv bs),
             flag \<or> (unat subframe + 1) mod 10 \<in> {1, 3, 7, 9})"
      using True unfolding abs_subframe_iff [symmetric] by (simp add: run Let_def)
    then show ?thesis using True new blank waiting context_of_other [OF small] by simp
  next
    case False
    then show ?thesis using new context_of_other [OF small] by (simp add: run)
  qed
qed

lemma check_all:
  assumes "distinct ids" "\<forall>b \<in> set ids. slots_known r b"
  shows "\<exists>m'. foldR (eicic_check sv stale r) ids (m, macro, flag) =
      Inr (m', macro \<and> \<not> (\<exists>b \<in> set ids. b \<noteq> macro_bs_id \<and> in_new_slot stale r m b \<and> waiting_in sv r b),
           flag \<or> (\<exists>b \<in> set ids. in_new_slot stale r m b \<and> almost_blank r b))"
  using assms
proof (induction ids arbitrary: m macro flag)
  case (Cons b ids)
  obtain m1 where m1: "eicic_check sv stale r b (m, macro, flag) =
      Inr (m1, macro \<and> \<not> (b \<noteq> macro_bs_id \<and> in_new_slot stale r m b \<and> waiting_in sv r b),
           flag \<or> (in_new_slot stale r m b \<and> almost_blank r b))"
    and other: "\<And>b'. b' \<noteq> b \<Longrightarrow> context_of stale m1 b' = context_of stale m b'"
    using check_step [of r b] Cons.prems(2) by fastforce
  have same: "in_new_slot stale r m1 b' = in_new_slot stale r m b'" if "b' \<in> set ids" for b'
  proof -
    have "b' \<noteq> b" using that Cons.prems(1) by auto
    then show ?thesis using other by (simp add: in_new_slot_def)
  qed
  have busy: "(\<exists>b' \<in> set ids. b' \<noteq> macro_bs_id \<and> in_new_slot stale r m1 b' \<and> waiting_in sv r b') =
      (\<exists>b' \<in> set ids. b' \<noteq> macro_bs_id \<and> in_new_slot stale r m b' \<and> waiting_in sv r b')"
    and blank: "(\<exists>b' \<in> set ids. in_new_slot stale r m1 b' \<and> almost_blank r b') =
      (\<exists>b' \<in> set ids. in_new_slot stale r m b' \<and> almost_blank r b')"
    by (rule bex_cong [OF refl], simp only: same)+
  have "distinct ids" "\<forall>b \<in> set ids. slots_known r b" using Cons.prems by simp_all
  from Cons.IH [OF this, of m1 "macro \<and> \<not> (b \<noteq> macro_bs_id \<and> in_new_slot stale r m b \<and> waiting_in sv r b)"
      "flag \<or> (in_new_slot stale r m b \<and> almost_blank r b)"]
  show ?case unfolding busy blank by (simp only: foldR.simps m1 rbind_Inr list.set bex_simps(5) de_Morgan_disj conj_assoc disj_assoc)
qed simp

lemma permit_all:
  assumes "\<forall>b \<in> set ids. slots_known r b"
  shows "\<exists>m'. foldR (eicic_permit stale r macro) ids (m, out) =
    Inr (m', out @ concat (map (permission r) (filter (\<lambda>b. (b = macro_bs_id) = macro) ids)))"
  using assms
proof (induction ids arbitrary: m out)
  case (Cons b ids)
  obtain bs frame subframe where bs: "get_bs b r = Some bs" "slot_of bs = Inr (frame, subframe)"
    using Cons.prems by (auto simp: slots_known_def is_ok_iff)
  have "\<exists>m1. eicic_permit stale r macro b (m, out) =
      Inr (m1, out @ (if (b = macro_bs_id) = macro then permission r b else []))"
    by (auto simp: eicic_permit_def bs eicic_slot_eq permission_def mes.send_appends Let_def)
  then obtain m1 where "eicic_permit stale r macro b (m, out) =
      Inr (m1, out @ (if (b = macro_bs_id) = macro then permission r b else []))" ..
  moreover obtain m2 where "foldR (eicic_permit stale r macro) ids
      (m1, out @ (if (b = macro_bs_id) = macro then permission r b else [])) =
      Inr (m2, (out @ (if (b = macro_bs_id) = macro then permission r b else [])) @
        concat (map (permission r) (filter (\<lambda>b. (b = macro_bs_id) = macro) ids)))"
    using Cons.IH [of m1 "out @ (if (b = macro_bs_id) = macro then permission r b else [])"] Cons.prems by auto
  ultimately show ?case by simp
qed simp

section \<open>Properties\<close>

text \<open>C30. 
  A run of the coordinator gives the permission to the macro cell alone or to the small cells alone: to
  the macro cell exactly when no small cell that enters a new slot has data waiting, and to
  nobody unless a base station enters a slot before an almost blank subframe.
\<close>

theorem eicic_grants:
  assumes "distinct (get_available_base_stations r)"
    and "\<forall>b \<in> set (get_available_base_stations r). slots_known r b"
  shows "\<exists>m'. eicic_periodic_task sv stale r (m, out) = Inr (m', out @
    (if \<exists>b \<in> set (get_available_base_stations r). in_new_slot stale r m b \<and> almost_blank r b
     then concat (map (permission r) (filter (\<lambda>b. (b = macro_bs_id) =
       (\<not> (\<exists>b' \<in> set (get_available_base_stations r). b' \<noteq> macro_bs_id \<and> in_new_slot stale r m b' \<and> waiting_in sv r b')))
       (get_available_base_stations r)))
     else []))"
proof -
  let ?ids = "get_available_base_stations r"
  let ?macro = "\<not> (\<exists>b \<in> set ?ids. b \<noteq> macro_bs_id \<and> in_new_slot stale r m b \<and> waiting_in sv r b)"
  let ?flag = "\<exists>b \<in> set ?ids. in_new_slot stale r m b \<and> almost_blank r b"
  obtain m1 where m1: "foldR (eicic_check sv stale r) ?ids (m, True, False) = Inr (m1, ?macro, ?flag)"
    using check_all [OF assms, of sv stale m True False] by auto
  obtain m2 where m2: "foldR (eicic_permit stale r ?macro) ?ids (m1, out) =
      Inr (m2, out @ concat (map (permission r) (filter (\<lambda>b. (b = macro_bs_id) = ?macro) ?ids)))"
    using permit_all [OF assms(2)] by blast
  show ?thesis
  proof (cases ?flag)
    case True
    then show ?thesis unfolding eicic_periodic_task_def prod.case m1 rbind_Inr using m2 by (simp only: if_True not_True_eq_False if_False) blast
  next
    case False
    then show ?thesis unfolding eicic_periodic_task_def prod.case m1 rbind_Inr by (simp only: if_False not_False_eq_True if_True append_Nil2) blast
  qed
qed

text \<open>C37. 
  The updater never admits a base station with the identifier of the macro cell: whatever messages
  have arrived, the macro cell is never given the permission, and while no small cell has data
  waiting a run does nothing at all.
\<close>

theorem macro_never_granted:
  assumes "merge_ue_ok pb" "\<And>x. x \<in> set rs \<Longrightarrow> list_all (delivered_ok pb) (snd x)"
    and "foldR (update_round pb ep) rs new_controller = Inr c"
    and "eicic_periodic_task sv stale (ctl_rib c) (m, out) = Inr (m', out')"
    and "\<And>b. \<not> waiting_in sv (ctl_rib c) b"
  shows "get_bs macro_bs_id (ctl_rib c) = None \<and> out' = out"
proof -
  let ?r = "ctl_rib c"
  have "rib_inv ?r" using rounds_ctl_inv [where rs = rs and ep = ep, OF assms(1,2)] assms(3) by (simp add: ctl_inv_def)
  then have none: "get_bs macro_bs_id ?r = None"
    unfolding rib_inv_def macro_bs_id_def bs_ok_def by (metis option.exhaust)
  have quiet: "\<not> data_waiting sv bs" if "get_bs b ?r = Some bs" for b bs
    using assms(5) [of b] that by (simp add: waiting_in_def)
  have check: "fst (snd y)" if "eicic_check sv stale ?r b x = Inr y" "fst (snd x)" for b x y
  proof -
    obtain m0 macro flag m1 o1 where x: "x = (m0, macro, flag)" "find_context (stale b) b m0 = (m1, o1)"
      by (metis surj_pair)
    show ?thesis
      using that by (cases o1) (auto simp: x eicic_check_def rbind_Inr_eq eicic_slot_eq Let_def quiet split: option.splits if_splits)
  qed
  have permit: "snd y = snd x" if "eicic_permit stale ?r True b x = Inr y" "b \<noteq> macro_bs_id" for b x y
    using that by (auto simp: eicic_permit_def)
  obtain m1 macro flag where 1: "foldR (eicic_check sv stale ?r) (get_available_base_stations ?r) (m, True, False) = Inr (m1, macro, flag)"
    using assms(4) by (auto simp: eicic_periodic_task_def rbind_Inr_eq)
  have macro: macro
    using foldR_invariant [OF 1, of "\<lambda>x. fst (snd x)"] check by auto
  have ids: "b \<noteq> macro_bs_id" if "b \<in> set (get_available_base_stations ?r)" for b
    using that none available_get_bs by auto
  have "snd y = snd x" if "foldR (eicic_permit stale ?r True) bs x = Inr y" "set bs \<subseteq> set (get_available_base_stations ?r)" for bs x y
    using that
  proof (induction bs arbitrary: x)
    case (Cons b bs)
    then show ?case using permit ids by (cases x) (auto simp: rbind_Inr_eq)
  qed simp
  then have "out' = out"
    using assms(4) 1 macro by (fastforce simp: eicic_periodic_task_def split: if_splits)
  then show ?thesis using none by simp
qed

text \<open>For the examples: a macro cell and a small cell in subframe 0, the small one without users.\<close>

definition macro_and_pico :: rib where
  "macro_and_pico = empty_rib\<lparr>eNB_configs := map (\<lambda>b. (b, (new_enb b [] 0)\<lparr>current_frame := Some 4, current_subframe := Some 0\<rparr>)) [0, 1]\<rparr>"

lemma macro_and_pico_state:
  "get_available_base_stations macro_and_pico = [0, 1]"
  "b \<in> {0, 1} \<Longrightarrow> \<exists>bs. get_bs b macro_and_pico = Some bs \<and> slot_of bs = Inr (4, 0) \<and> \<not> data_waiting sv bs"
  by (auto simp: macro_and_pico_def get_available_base_stations_def sm_keys_def get_bs_def slot_of_def data_waiting_def
      new_enb_def empty_enb_config_def)

theorem eicic_grants_witness:
  "\<exists>m'. eicic_periodic_task example_view (\<lambda>_. (0, 0)) macro_and_pico ([], []) =
     Inr (m', permission macro_and_pico macro_bs_id)"
proof -
  have known: "slots_known macro_and_pico b" if "b \<in> {0, 1}" for b
  proof -
    have "unat b < 2 ^ 31" using that by auto
    then show ?thesis using macro_and_pico_state(2) [OF that, of example_view] by (auto simp: slots_known_def)
  qed
  have new: "in_new_slot (\<lambda>_. (0, 0)) macro_and_pico [] 1" "almost_blank macro_and_pico 1"
    using macro_and_pico_state(2) [of 1 example_view]
    by (auto simp: in_new_slot_def almost_blank_def needs_scheduling_def context_of_def new_enb_scheduling_info_def)
  have quiet: "\<not> waiting_in example_view macro_and_pico b" if "b \<in> {0, 1}" for b
    using macro_and_pico_state(2) [OF that, of example_view] by (auto simp: waiting_in_def)
  show ?thesis
    using eicic_grants [of macro_and_pico example_view "\<lambda>_. (0, 0)" "[]" "[]"] known new quiet
    by (simp add: macro_and_pico_state(1) macro_bs_id_def)
qed

text \<open>A connection has been announced, and nothing else has happened.\<close>

definition announced :: controller where
  "announced = new_controller\<lparr>ctl_sent := [(3, hello_request)]\<rparr>"

lemma announced_round:
  "foldR (update_round hello_pb (\<lambda>_. [])) [(\<lambda>_. 0, [(one_byte 3)\<lparr>tm_size := 0\<rparr>])] new_controller = Inr announced"
proof -
  have n: "messages_to_check = Suc 349" by (simp add: messages_to_check_def)
  have step: "update_loop hello_pb (\<lambda>_. []) (\<lambda>_. 0) (Suc k) [(one_byte 3)\<lparr>tm_size := 0\<rparr>] 0
      (new_controller\<lparr>ctl_inbox := [(one_byte 3)\<lparr>tm_size := 0\<rparr>]\<rparr>) = Inr (1, announced)" for k
    by (simp add: handle_message_def getSize_def one_byte_def handle_new_connection_def send_msg_def announced_def
        new_controller_def)
  have "ctl_inbox new_controller = []" by (simp add: new_controller_def)
  then show ?thesis
    using step [of 349, folded n] by (simp add: update_round_def update_rib_def)
qed

theorem macro_never_granted_witness:
  "get_bs macro_bs_id (ctl_rib announced) = None \<and>
   eicic_periodic_task example_view (\<lambda>_. (0, 0)) (ctl_rib announced) ([], []) = Inr ([], [])"
proof -
  have none: "get_available_base_stations (ctl_rib announced) = []"
    by (simp add: announced_def get_available_base_stations_def new_controller_def empty_rib_def sm_keys_def)
  have run: "eicic_periodic_task example_view (\<lambda>_. (0, 0)) (ctl_rib announced) ([], []) = Inr ([], [])"
    by (simp add: eicic_periodic_task_def none)
  have waiting: "\<not> waiting_in example_view (ctl_rib announced) b" for b
    by (simp add: waiting_in_def get_bs_def announced_def new_controller_def empty_rib_def)
  have "list_all (delivered_ok hello_pb) (snd x)" if "x \<in> set [(\<lambda>_. 0, [(one_byte 3)\<lparr>tm_size := 0\<rparr>])]" for x
    using that by (simp add: delivered_ok_def one_byte_def tagged_inv_def max_normal_msg_size_def hello_pb_def msg_ok_def message_of_def)
  then show ?thesis
    using macro_never_granted [OF _ _ announced_round run waiting] run by (simp add: example_pb)
qed

end
