(* ===== verification/Delegation.thy ===== *)
theory Delegation
  imports Sched_Transmit App_Common Requests_Manager
begin

text \<open>
  The example of control delegation, \<open>app/delegation_manager.cc\<close>: at six fixed times of the frame
  counter it sends the code of a scheduler, or a policy that selects one. The files are a
  parameter, a map from their names to their contents.
\<close>

section \<open>Commands\<close>

type_synonym files = "string \<Rightarrow> string option"

text \<open>
  A file that cannot be opened has the size -1: an array of that size cannot be allocated, and a string
  of that capacity is refused with \<open>std::length_error\<close>.
\<close>

definition length_error :: exn where "length_error = Runtime_error ''length_error''"

definition code_command :: "string \<Rightarrow> string \<Rightarrow> flexran_message" where
  "code_command function_name dat = message_of INITIATING_MESSAGE (Control_delegation_msg
     \<lparr>cd_header = Some (mk_header FLPT_DELEGATE_CONTROL 0), cd_type = Some FLCDT_MAC_DL_UE_SCHEDULER,
      cd_payload = Some dat, cd_name = Some function_name\<rparr>)"

definition policy_command :: "string \<Rightarrow> flexran_message" where
  "policy_command policy = message_of INITIATING_MESSAGE (Agent_reconfiguration_msg
     \<lparr>ar_header = Some (mk_header FLPT_RECONFIGURE_AGENT 0), ar_policy = Some policy, ar_systems = []\<rparr>)"

definition push_library :: "files \<Rightarrow> u64 \<Rightarrow> string \<Rightarrow> string \<Rightarrow> rib \<Rightarrow> outbox \<Rightarrow> outbox result" where
  "push_library fs bs_id function_name lib_name r out = (case fs lib_name of
     None \<Rightarrow> Inl Bad_alloc
   | Some dat \<Rightarrow> Inr (send_message bs_id (code_command function_name dat) r out))"

definition reconfigure_agent :: "files \<Rightarrow> u64 \<Rightarrow> string \<Rightarrow> rib \<Rightarrow> outbox \<Rightarrow> outbox result" where
  "reconfigure_agent fs bs_id policy_name r out = (case fs policy_name of
     None \<Rightarrow> Inl length_error
   | Some policy \<Rightarrow> Inr (send_message bs_id (policy_command policy) r out))"

section \<open>The six steps\<close>

datatype delegation_step = Push_code string string | Reconfigure string

definition delegation_plan :: "(int \<times> delegation_step) list" where
  "delegation_plan =
    [(2000, Push_code ''schedule_ue_spec_remote'' ''../tests/delegation_control/libremote_sched.so''),
     (2500, Push_code ''schedule_ue_spec_default'' ''../tests/delegation_control/libdefault_sched.so''),
     (4000, Reconfigure ''../tests/delegation_control/remote_policy.yaml''),
     (6000, Reconfigure ''../tests/delegation_control/remote_policy2.yaml''),
     (8000, Reconfigure ''../tests/delegation_control/local_policy.yaml''),
     (10000, Reconfigure ''../tests/delegation_control/local_policy2.yaml'')]"

primrec perform_step :: "files \<Rightarrow> u64 \<Rightarrow> delegation_step \<Rightarrow> rib \<Rightarrow> outbox \<Rightarrow> outbox result" where
  "perform_step fs bs_id (Push_code function_name lib_name) r out = push_library fs bs_id function_name lib_name r out"
| "perform_step fs bs_id (Reconfigure policy_name) r out = reconfigure_agent fs bs_id policy_name r out"

text \<open>\<open>delegation_steps_\<close>: the steps done so far, for all base stations together.\<close>

definition delegate_bs :: "files \<Rightarrow> rib \<Rightarrow> u64 \<Rightarrow> bool list \<times> outbox \<Rightarrow> (bool list \<times> outbox) result" where
  "delegate_bs fs r bs_id = (\<lambda>(steps, out).
     case get_bs bs_id r of None \<Rightarrow> Inl null_deref | Some bs \<Rightarrow> rbind (slot_of bs) (\<lambda>(frame, subframe).
     let time = int (unat frame) * 10 + int (unat subframe) in
     case List.find (\<lambda>(k, t, a). t = time) (enumerate 0 delegation_plan) of
       None \<Rightarrow> Inr (steps, out)
     | Some (k, t, a) \<Rightarrow>
         if \<not> steps ! k then rbind (perform_step fs bs_id a r out) (\<lambda>out. Inr (steps[k := True], out))
         else Inr (steps, out)))"

definition delegation_task :: "files \<Rightarrow> rib \<Rightarrow> bool list \<times> outbox \<Rightarrow> (bool list \<times> outbox) result" where
  "delegation_task fs r = foldR (delegate_bs fs r) (get_available_base_stations r)"

definition new_delegation_manager :: "bool list" where
  "new_delegation_manager = replicate 6 False"

section \<open>Lemmas\<close>

text \<open>What a step sends.\<close>

primrec command_of :: "files \<Rightarrow> delegation_step \<Rightarrow> flexran_message option" where
  "command_of fs (Push_code function_name lib_name) = map_option (code_command function_name) (fs lib_name)"
| "command_of fs (Reconfigure policy_name) = map_option policy_command (fs policy_name)"

lemma perform_step_Inr:
  "perform_step fs b a r out = Inr out' \<longleftrightarrow>
     (\<exists>m. command_of fs a = Some m \<and> out' = out @ map (\<lambda>i. (i, m)) (bs_members b r))"
  by (cases a) (auto simp: push_library_def reconfigure_agent_def mes.send_appends split: option.splits)

text \<open>A base station whose frame counter shows the time \<open>t\<close>.\<close>

definition at_time :: "int \<Rightarrow> rib \<times> u64 \<Rightarrow> bool" where
  "at_time t = (\<lambda>(r, b). \<exists>bs frame subframe. get_bs b r = Some bs \<and> slot_of bs = Inr (frame, subframe) \<and>
     t = int (unat frame) * 10 + int (unat subframe))"

text \<open>The log of what has been done: step, information base and base station.\<close>

definition sent_by :: "files \<Rightarrow> (nat \<times> rib \<times> u64) list \<Rightarrow> outbox" where
  "sent_by fs log = concat (map (\<lambda>(k, r, b). map (\<lambda>i. (i, the (command_of fs (snd (delegation_plan ! k))))) (bs_members b r)) log)"

definition log_ok :: "files \<Rightarrow> (rib \<times> u64) set \<Rightarrow> (nat \<times> rib \<times> u64) list \<Rightarrow> bool list \<times> outbox \<Rightarrow> bool" where
  "log_ok fs P log s \<longleftrightarrow> distinct (map fst log) \<and> length (fst s) = 6 \<and>
     (\<forall>k < 6. (k \<in> set (map fst log)) = fst s ! k \<and> fst s ! k = (\<exists>p \<in> P. at_time (fst (delegation_plan ! k)) p)) \<and>
     (\<forall>(k, p) \<in> set log. k < 6 \<and> p \<in> P \<and> at_time (fst (delegation_plan ! k)) p) \<and> snd s = sent_by fs log"

lemma plan_times: "j < 6 \<Longrightarrow> k < 6 \<Longrightarrow> fst (delegation_plan ! j) = fst (delegation_plan ! k) \<longleftrightarrow> j = k"
proof -
  have "distinct (map fst delegation_plan)" "length (map fst delegation_plan) = 6" by (simp_all add: delegation_plan_def)
  then show "j < 6 \<Longrightarrow> k < 6 \<Longrightarrow> fst (delegation_plan ! j) = fst (delegation_plan ! k) \<longleftrightarrow> j = k"
    using nth_eq_iff_index_eq [of "map fst delegation_plan" j k] by simp
qed

lemma plan_length: "length delegation_plan = 6"
  by (simp add: delegation_plan_def)

lemma find_plan:
  shows find_plan_None: "List.find (\<lambda>(k, t, a). t = time) (enumerate 0 delegation_plan) = None \<Longrightarrow>
      k < 6 \<Longrightarrow> fst (delegation_plan ! k) \<noteq> time"
    and find_plan_Some: "List.find (\<lambda>(k, t, a). t = time) (enumerate 0 delegation_plan) = Some (k, t, a) \<Longrightarrow>
      k < 6 \<and> delegation_plan ! k = (time, a)"
proof -
  assume "List.find (\<lambda>(k, t, a). t = time) (enumerate 0 delegation_plan) = None" and k: "k < 6"
  then have "\<forall>x \<in> set (enumerate 0 delegation_plan). \<not> (case x of (k, t, a) \<Rightarrow> t = time)"
    by (simp only: find_None_iff) blast
  moreover have "(k, delegation_plan ! k) \<in> set (enumerate 0 delegation_plan)"
    using k by (simp add: in_set_enumerate_eq plan_length)
  ultimately show "fst (delegation_plan ! k) \<noteq> time" by (cases "delegation_plan ! k") force
next
  assume f: "List.find (\<lambda>(k, t, a). t = time) (enumerate 0 delegation_plan) = Some (k, t, a)"
  then obtain i where i: "i < length (enumerate 0 delegation_plan)" "enumerate 0 delegation_plan ! i = (k, t, a)" "t = time"
    unfolding find_Some_iff by auto
  have "(k, t, a) \<in> set (enumerate 0 delegation_plan) \<and> t = time" using nth_mem [OF i(1)] i(2,3) by simp
  then show "k < 6 \<and> delegation_plan ! k = (time, a)" by (auto simp: in_set_enumerate_eq plan_length)
qed

text \<open>One base station: the step whose time it shows is done now unless it has been done.\<close>

lemma delegate_bs_log:
  assumes ok: "log_ok fs P log s" and bs: "get_bs b r = Some bs" "slot_of bs = Inr (frame, subframe)"
    and files: "\<And>k. k < 6 \<Longrightarrow> command_of fs (snd (delegation_plan ! k)) \<noteq> None"
  shows "\<exists>s' log'. delegate_bs fs r b s = Inr s' \<and> log_ok fs (insert (r, b) P) log' s'"
proof -
  obtain steps out where s: "s = (steps, out)" by (cases s)
  let ?time = "int (unat frame) * 10 + int (unat subframe)"
  let ?find = "List.find (\<lambda>(k, t, a). t = ?time) (enumerate 0 delegation_plan)"
  have time: "at_time t (r, b) \<longleftrightarrow> t = ?time" for t using bs by (auto simp: at_time_def)
  note run = delegate_bs_def s bs prod.case option.case rbind_Inr Let_def
  have dist: "distinct (map fst log)" and len: "length steps = 6" and out: "out = sent_by fs log"
    and done_iff: "\<And>k. k < 6 \<Longrightarrow> (k \<in> set (map fst log)) = steps ! k \<and> steps ! k = (\<exists>p \<in> P. at_time (fst (delegation_plan ! k)) p)"
    and entries: "\<And>k p. (k, p) \<in> set log \<Longrightarrow> k < 6 \<and> p \<in> P \<and> at_time (fst (delegation_plan ! k)) p"
    using ok by (auto simp: log_ok_def s)
  show ?thesis
  proof (cases ?find)
    case None
    have "\<not> at_time (fst (delegation_plan ! k)) (r, b)" if "k < 6" for k
      using find_plan_None [OF None that] by (simp add: time)
    then have "log_ok fs (insert (r, b) P) log s"
      using dist len out done_iff entries by (auto simp: log_ok_def s)
    moreover have "delegate_bs fs r b s = Inr s" using None by (simp add: run)
    ultimately show ?thesis by blast
  next
    case (Some x)
    obtain k t a where x: "x = (k, t, a)" by (cases x)
    have k: "k < 6" "delegation_plan ! k = (?time, a)" using find_plan_Some Some x by blast+
    have only: "at_time (fst (delegation_plan ! j)) (r, b) \<longleftrightarrow> j = k" if "j < 6" for j
      using plan_times [OF that k(1)] k(2) by (simp add: time)
    show ?thesis
    proof (cases "steps ! k")
      case True
      then have "log_ok fs (insert (r, b) P) log s"
        using dist len out done_iff entries only by (auto simp: log_ok_def s)
      moreover have "delegate_bs fs r b s = Inr s" using Some x True by (simp add: run)
      ultimately show ?thesis by blast
    next
      case False
      obtain m where m: "command_of fs a = Some m" using files [OF k(1)] k(2) by auto
      let ?out = "out @ map (\<lambda>i. (i, m)) (bs_members b r)" and ?log = "log @ [(k, r, b)]"
      have perf: "perform_step fs b a r out = Inr ?out" using perform_step_Inr m by blast
      have new: "k \<notin> set (map fst log)" using done_iff [OF k(1)] False by simp
      have "(j \<in> set (map fst ?log)) = (steps[k := True]) ! j \<and>
          (steps[k := True]) ! j = (\<exists>p \<in> insert (r, b) P. at_time (fst (delegation_plan ! j)) p)" if "j < 6" for j
        using done_iff [OF that] only [OF that] that k(1) len by (cases "j = k") auto
      moreover have "?out = sent_by fs ?log" using m k(2) out by (simp add: sent_by_def)
      moreover have "at_time (fst (delegation_plan ! k)) (r, b)" using only [OF k(1)] by simp
      ultimately have "log_ok fs (insert (r, b) P) ?log (steps[k := True], ?out)"
        using dist len entries new k(1) by (auto simp: log_ok_def)
      moreover have "delegate_bs fs r b s = Inr (steps[k := True], ?out)" using Some x False perf by (simp add: run)
      ultimately show ?thesis by blast
    qed
  qed
qed

definition slots_set :: "rib \<Rightarrow> bool" where
  "slots_set r \<longleftrightarrow> (\<forall>b bs. get_bs b r = Some bs \<longrightarrow> is_ok (slot_of bs))"

lemma delegation_task_log:
  assumes "log_ok fs P log s" "slots_set r" "\<And>k. k < 6 \<Longrightarrow> command_of fs (snd (delegation_plan ! k)) \<noteq> None"
  shows "\<exists>s' log'. delegation_task fs r s = Inr s' \<and>
    log_ok fs (P \<union> {r} \<times> set (get_available_base_stations r)) log' s'"
proof -
  have "\<exists>s' log'. foldR (delegate_bs fs r) bs s = Inr s' \<and> log_ok fs (P \<union> {r} \<times> set bs) log' s'"
    if "set bs \<subseteq> set (get_available_base_stations r)" "log_ok fs P log s" for bs P log s
    using that
  proof (induction bs arbitrary: P log s)
    case Nil
    then show ?case by auto
  next
    case (Cons b bs)
    obtain e where e: "get_bs b r = Some e" using Cons.prems(1) by (auto simp: available_get_bs)
    then have "is_ok (slot_of e)" using assms(2) unfolding slots_set_def by blast
    then obtain frame subframe where slot: "slot_of e = Inr (frame, subframe)" by (auto simp: is_ok_iff)
    from delegate_bs_log [OF Cons.prems(2) e slot assms(3)]
    obtain s1 log1 where 1: "delegate_bs fs r b s = Inr s1" "log_ok fs (insert (r, b) P) log1 s1" by blast
    have "insert (r, b) P \<union> {r} \<times> set bs = P \<union> {r} \<times> set (b # bs)" by auto
    then show ?case using Cons.IH [OF _ 1(2)] Cons.prems(1) 1(1) by simp
  qed
  then show ?thesis using assms(1) by (simp add: delegation_task_def)
qed

text \<open>Any number of runs; \<open>shown\<close> are the base stations that were looked at.\<close>

definition shown :: "rib list \<Rightarrow> (rib \<times> u64) set" where
  "shown rs = (\<Union>r \<in> set rs. {r} \<times> set (get_available_base_stations r))"

lemma delegation_runs_log:
  assumes "\<And>k. k < 6 \<Longrightarrow> command_of fs (snd (delegation_plan ! k)) \<noteq> None"
  shows "(\<forall>r \<in> set rs. slots_set r) \<Longrightarrow> log_ok fs P log s \<Longrightarrow>
    \<exists>s' log'. foldR (delegation_task fs) rs s = Inr s' \<and> log_ok fs (P \<union> shown rs) log' s'"
proof (induction rs arbitrary: P log s)
  case Nil
  then show ?case by (auto simp: shown_def)
next
  case (Cons r rs)
  have "slots_set r" using Cons.prems(1) by simp
  from delegation_task_log [OF Cons.prems(2) this assms]
  obtain s1 log1 where 1: "delegation_task fs r s = Inr s1"
    "log_ok fs (P \<union> {r} \<times> set (get_available_base_stations r)) log1 s1" by blast
  have "P \<union> {r} \<times> set (get_available_base_stations r) \<union> shown rs = P \<union> shown (r # rs)" by (auto simp: shown_def)
  then show ?case using Cons.IH [OF _ 1(2)] Cons.prems(1) 1(1) by simp
qed

lemma shown_at_time: "at_time t p \<Longrightarrow> p \<in> shown rs \<longleftrightarrow> fst p \<in> set rs"
  by (auto simp: shown_def at_time_def available_get_bs)

section \<open>Properties\<close>


text \<open>For the example: two base stations in frame 200.\<close>

definition frame_200 :: rib where
  "frame_200 = empty_rib\<lparr>eNB_configs := map (\<lambda>b. (b, (new_enb b [] 0)\<lparr>current_frame := Some 200, current_subframe := Some 0\<rparr>)) [1, 2]\<rparr>"

lemma frame_200_time: "at_time t (frame_200, b) \<longleftrightarrow> b \<in> {1, 2} \<and> t = 2000"
  by (auto simp: at_time_def frame_200_def get_bs_def slot_of_def new_enb_def split: if_splits)


end
