(* ===== verification/Policy_Scheduler.thy ===== *)
theory Policy_Scheduler
  imports Remote_Scheduler Delegation
begin

text \<open>
  The scheduler with a policy, \<open>app/enb_scheduler_policy.cc\<close>: a variant of the centralised scheduler
  that takes the aggregation level from the channel reports, adds up what it requests for all
  logical channels and tells the information base which HARQ processes it has used; and the commands
  that push schedulers and policies to the agents.
\<close>

section \<open>State\<close>

text \<open>The key of a context is an \<open>int\<close> here, for storing and for looking up.\<close>

record policy_scheduler =
  ps_scheduling_info :: "(int, enb_scheduling_info) std_map"
  central_scheduling :: bool
  code_pushed :: bool
  ps_tpc_accumulated :: int

definition new_policy_scheduler :: policy_scheduler where
  "new_policy_scheduler = \<lparr>ps_scheduling_info = [], central_scheduling = False, code_pushed = False, ps_tpc_accumulated = 0\<rparr>"

record policy_locals =
  pl_mcs :: nat
  pl_aggregation :: nat
  pl_ce_flags :: u32
  pl_tpc_accumulated :: int

unbundle bit_operations_syntax

definition policy_key :: "u64 \<Rightarrow> int" where
  "policy_key bs_id = sint (ucast bs_id :: u32)"

definition policy_context ::
  "u16 \<times> u16 \<Rightarrow> u64 \<Rightarrow> (int, enb_scheduling_info) std_map \<Rightarrow> (int, enb_scheduling_info) std_map \<times> enb_scheduling_info option" where
  "policy_context stale bs_id m = (case sm_find (policy_key bs_id) m of
     Some e \<Rightarrow> (m, Some e)
   | None \<Rightarrow> let m = sm_emplace (policy_key bs_id) (new_enb_scheduling_info stale) m in (m, sm_find (policy_key bs_id) m))"

section \<open>Policies and code\<close>

definition policy_path :: "string option \<Rightarrow> string" where
  "policy_path home = (case home of
     Some h \<Rightarrow> h @ ''/tests/delegation_control/'' | None \<Rightarrow> ''../tests/delegation_control/'')"

text \<open>Without the file the size of the array on the stack is -1.\<close>

definition policy_push_code :: "files \<Rightarrow> u64 \<Rightarrow> string \<Rightarrow> string \<Rightarrow> rib \<Rightarrow> outbox \<Rightarrow> outbox result" where
  "policy_push_code fs bs_id function_name lib_name r out = (case fs lib_name of
     None \<Rightarrow> Inl (Undefined_behaviour ''array of size -1'')
   | Some dat \<Rightarrow> Inr (send_message bs_id (code_command function_name dat) r out))"

definition push_schedulers ::
  "files \<Rightarrow> string option \<Rightarrow> rib \<Rightarrow> u64 \<Rightarrow> policy_scheduler \<times> outbox \<Rightarrow> (policy_scheduler \<times> outbox) result" where
  "push_schedulers fs home r bs_id = (\<lambda>(s, out).
     if code_pushed s then Inr (s, out)
     else rbind (policy_push_code fs bs_id ''flexran_schedule_ue_spec_remote'' (policy_path home @ ''libremote_sched.so'') r out) (\<lambda>out.
       rbind (policy_push_code fs bs_id ''flexran_schedule_ue_spec_default'' (policy_path home @ ''libdefault_sched.so'') r out) (\<lambda>out.
       Inr (s\<lparr>code_pushed := True\<rparr>, out))))"

definition apply_policy :: "files \<Rightarrow> string option \<Rightarrow> string \<Rightarrow> rib \<Rightarrow> outbox \<Rightarrow> outbox result" where
  "apply_policy fs home policy_name r =
     foldR (\<lambda>bs_id. reconfigure_agent fs bs_id (policy_path home @ policy_name) r) (get_available_base_stations r)"

section \<open>A user\<close>

text \<open>The level stays that of an earlier user when there is no report; the index is cut to eight bits.\<close>

definition policy_aggregation ::
  "sched_view \<Rightarrow> flex_cell_config \<Rightarrow> flex_ue_stats_report \<Rightarrow> nat \<Rightarrow> nat result" where
  "policy_aggregation sv cell r aggregation =
     (case List.find (\<lambda>x. cell_id_of sv cell = get_or 0 (csi_serv_cell_index x)) (csi_reports sv r) of
        None \<Rightarrow> Inr aggregation
      | Some x \<Rightarrow> get_aggregation (get_bw_index (sint (cell_field_of dl_bandwidth cell)))
          (unat (ucast (get_or 0 (csi_wb_cqi x)) :: u8)) FLDCIF_1)"

definition policy_timing_advance :: "flex_ue_stats_report \<Rightarrow> ue_scheduling_info \<Rightarrow> u32 \<times> ue_scheduling_info" where
  "policy_timing_advance r u =
     (if ta_timer u = 0
      then if get_or 0 (pending_mac_ces r) AND FLPCET_TA \<noteq> 0 then (2, u\<lparr>ta_timer := 20\<rparr>) else (0, u)
      else (0, u\<lparr>ta_timer := ta_timer u - 1\<rparr>))"

text \<open>Header length, length of the last subheader, bytes requested so far, and the requests.\<close>

definition policy_request ::
  "nat \<Rightarrow> u32 \<Rightarrow> flex_rlc_bsr \<Rightarrow> u8 \<times> u8 \<times> u16 \<times> flex_rlc_pdu_tb list list \<Rightarrow>
     u8 \<times> u8 \<times> u16 \<times> flex_rlc_pdu_tb list list" where
  "policy_request dci_tbs ta_len b = (\<lambda>(header_len, header_len_last, sdu_length_total, pdus).
     let header_len = header_len + 3;
         room = of_nat dci_tbs - ta_len - ucast header_len - ucast sdu_length_total :: u32;
         size = get_or 0 (tx_queue_size b) in
     if room > 0
     then if size > 0
       then let data_to_request = min room size;
                tb = \<lparr>logical_channel_id = Some (get_or 0 (bsr_lc_id b)), tb_size = Some data_to_request\<rparr>;
                (header_len, header_len_last) = (if data_to_request < 128 then (header_len - 1, 2) else (header_len, 3)) in
         (header_len, header_len_last, sdu_length_total + ucast data_to_request, pdus @ [[tb, tb]])
       else (header_len - 3, header_len_last, sdu_length_total, pdus)
     else (header_len, header_len_last, sdu_length_total, pdus))"

definition policy_requests ::
  "nat \<Rightarrow> u32 \<Rightarrow> flex_rlc_bsr list \<Rightarrow> u8 \<times> u16 \<times> flex_rlc_pdu_tb list list" where
  "policy_requests dci_tbs ta_len bs =
     (let (header_len, header_len_last, sdu, pdus) = fold (policy_request dci_tbs ta_len) bs (0, 0, 0, []);
          header_len_last = (if header_len = 0 then 0 else header_len_last);
          header_len = (if header_len \<noteq> 0 then header_len - (header_len_last - 1) else header_len) in
      (header_len, sdu, pdus))"

text \<open>Only a reception power that has been measured anew is looked at.\<close>

definition policy_power_control ::
  "sched_view \<Rightarrow> nat \<Rightarrow> flex_ue_stats_report \<Rightarrow> flex_cell_stats_report \<Rightarrow> u16 \<Rightarrow> u16 \<Rightarrow> ue_scheduling_info \<Rightarrow>
     nat \<times> int \<times> ue_scheduling_info" where
  "policy_power_control sv c r cr target_frame target_subframe u =
     (let target_rx_power = i16 (p0_nominal sv cr + 20);
          now = u\<lparr>pucch_tpc_tx_frame := target_frame, pucch_tpc_tx_subframe := target_subframe\<rparr> in
      if tpc_update_due target_frame target_subframe u
      then case List.find (\<lambda>p. unat (get_or 0 (pucch_serv_cell_index p)) = c \<and> p0_pucch_dbm p \<noteq> None)
                  (case ul_cqi_report r of None \<Rightarrow> [] | Some raw \<Rightarrow> pucch_dbm_of sv raw) of
          None \<Rightarrow> (1, 0, u)
        | Some p \<Rightarrow> let rx_power = i16 (get_or 0 (p0_pucch_dbm p)) in
            if get_or 0 (p0_pucch_updated p) = 1
            then if rx_power > target_rx_power + 1 then (0, -1, now)
              else if rx_power < target_rx_power - 1 then (2, 1, now) else (1, 0, u)
            else (1, 0, u)
      else (1, 0, u))"

definition policy_new_transmission ::
  "sched_view \<Rightarrow> nat \<Rightarrow> flex_cell_config \<Rightarrow> flex_ue_stats_report \<Rightarrow> flex_cell_stats_report \<Rightarrow> u16 \<Rightarrow> u16 \<Rightarrow> nat \<Rightarrow> u16 \<Rightarrow>
     policy_locals \<times> ue_scheduling_info \<Rightarrow> (grant option \<times> policy_locals \<times> ue_scheduling_info) result" where
  "policy_new_transmission sv c cell r cr target_frame target_subframe harq_pid available = (\<lambda>(l, u).
     rbind (get_TBS_DL (pl_mcs l) available) (\<lambda>dci_tbs.
     let (ta_len, u) = policy_timing_advance r u;
         l = (if ta_len > 0 then l\<lparr>pl_ce_flags := pl_ce_flags l OR FLPCET_TA\<rparr> else l);
         (header_len, sdu_length, pdus) = policy_requests dci_tbs ta_len (map (rlc_bsr_of sv) (rlc_report r)) in
     if pdus = [] then Inr (None, l, u)
     else let need = int (unat sdu_length) + int (unat header_len) + int (unat ta_len) in
       rbind (choose_blocks 28 c cell harq_pid available need (pl_mcs l) u) (\<lambda>(nb_rb, mcs, tbs, u).
       let (k, acc, u) = policy_power_control sv c r cr target_frame target_subframe u;
           u = toggle_ndi c harq_pid u;
           l = l\<lparr>pl_mcs := mcs, pl_tpc_accumulated := pl_tpc_accumulated l + acc\<rparr> in
       Inr (Some \<lparr>g_harq_pid = harq_pid, g_ndi = ndi u c harq_pid, g_tpc = k, g_mcs = mcs, g_tbs = tbs,
              g_nb_rb = nb_rb, g_pdus = pdus\<rparr>, l, u))))"

definition policy_serve ::
  "sched_view \<Rightarrow> enb_rib_info \<Rightarrow> u16 \<Rightarrow> u16 \<Rightarrow> flex_cell_config \<Rightarrow> ue_mac_rib_info \<Rightarrow> ue_scheduling_info \<Rightarrow> policy_locals \<Rightarrow>
     (u8 \<times> grant option \<times> policy_locals \<times> ue_scheduling_info) result" where
  "policy_serve sv bs target_frame target_subframe cell mac u l =
     (let c = cell_index sv cell; r = mac_stats_report mac; available = pre_nb_rbs_available u c in
      rbind (get_next_available_harq c mac) (\<lambda>pid. let harq_pid = nat pid in
      rbind (get_harq_stats c harq_pid mac) (\<lambda>round.
      rbind (mcs_of_reports sv cell r (pl_mcs l)) (\<lambda>mcs. let l = l\<lparr>pl_mcs := mcs\<rparr> in
      rbind (if round > 0
             then rbind (retransmission c cell harq_pid available u) (\<lambda>(g, u').
               Inr (g, l\<lparr>pl_mcs := unat (si_mcs u c harq_pid)\<rparr>, u'))
             else policy_new_transmission sv c cell r (cell_mac_info bs c) target_frame target_subframe harq_pid available (l, u))
        (\<lambda>gr. Inr (round, gr))))))"

text \<open>
  A transmission takes the HARQ process and the control channel elements. For a retransmission the
  aggregation level is computed a second time, from the same report.
\<close>

type_synonym policy_state = "(enb_rib_info \<times> policy_locals) \<times> enb_scheduling_info \<times> flex_dl_data list"

definition policy_give ::
  "sched_view \<Rightarrow> u16 \<Rightarrow> u16 \<Rightarrow> flex_cell_config \<Rightarrow> u32 \<Rightarrow> ue_mac_rib_info \<Rightarrow> policy_state \<Rightarrow> policy_state result" where
  "policy_give sv target_frame target_subframe cell rnti mac = (\<lambda>((bs, l), e, out).
     let c = cell_index sv cell in
     case get_ue_scheduling_info rnti e of None \<Rightarrow> Inl null_deref | Some u \<Rightarrow>
       if pre_nb_rbs_available u c = 0 then Inr ((bs, l), e, out)
       else rbind (policy_serve sv bs target_frame target_subframe cell mac u l) (\<lambda>(round, g, l, u).
         let e = modify_ue rnti (\<lambda>_. u) e in
         case g of None \<Rightarrow> Inr ((bs, l), e, out)
         | Some g \<Rightarrow> rbind (harq_scheduled c (g_harq_pid g) mac) (\<lambda>mac.
             Inr ((bs\<lparr>ue_mac_info := sm_put rnti mac (ue_mac_info bs)\<rparr>, l), assign_CCE c (2 ^ pl_aggregation l) e,
                  out @ [dl_data_of c cell rnti (int (unat round) mod 4) (pl_aggregation l) (pl_ce_flags l) u g]))))"

definition policy_ue ::
  "sched_view \<Rightarrow> u16 \<Rightarrow> u16 \<Rightarrow> flex_cell_config \<Rightarrow> flex_ue_config \<Rightarrow> policy_state \<Rightarrow> policy_state result" where
  "policy_ue sv target_frame target_subframe cell uc = (\<lambda>((bs, l), e, out).
     let c = cell_index sv cell; rnti = rnti_of uc in
     if \<not> in_cell sv cell uc then Inr ((bs, l), e, out)
     else case get_ue_mac_info rnti bs of None \<Rightarrow> Inr ((bs, l), e, out) | Some mac \<Rightarrow>
       rbind (policy_aggregation sv cell (mac_stats_report mac) (pl_aggregation l)) (\<lambda>aggregation.
       let l = l\<lparr>pl_aggregation := aggregation\<rparr> in
       rbind (CCE_allocation_infeasible c cell rnti aggregation target_subframe e) (\<lambda>(infeasible, e).
       if infeasible then Inr ((bs, l), e, out)
       else rbind (has_available_harq c mac) (\<lambda>av. if \<not> av then Inr ((bs, l), e, out)
         else policy_give sv target_frame target_subframe cell rnti mac ((bs, l), e, out)))))"

section \<open>The scheduler\<close>

definition policy_cell ::
  "sched_view \<Rightarrow> flex_ue_config list \<Rightarrow> u16 \<Rightarrow> u16 \<Rightarrow> flex_cell_config \<Rightarrow> policy_state \<Rightarrow> policy_state result" where
  "policy_cell sv ues target_frame target_subframe cell =
     foldR (policy_ue sv target_frame target_subframe cell) ues"

definition policy_bs ::
  "sched_view \<Rightarrow> enb_rib_info \<Rightarrow> u16 \<Rightarrow> u16 \<Rightarrow> policy_locals \<times> enb_scheduling_info \<Rightarrow> policy_state result" where
  "policy_bs sv bs target_frame target_subframe = (\<lambda>(l, e).
     rbind (foldR (prepare_cell sv bs target_subframe) (cell_config (eNB_config bs)) e) (\<lambda>e.
     foldR (policy_cell sv (ue_config (ue_configs bs)) target_frame target_subframe) (cell_config (eNB_config bs)) ((bs, l), e, [])))"

type_synonym policy_run = "policy_locals \<times> policy_scheduler \<times> rib \<times> outbox"

definition policy_base_station ::
  "sched_view \<Rightarrow> (u64 \<Rightarrow> u16 \<times> u16) \<Rightarrow> u64 \<Rightarrow> policy_run \<Rightarrow> policy_run result" where
  "policy_base_station sv stale bs_id = (\<lambda>(l, s, r, out).
     case get_bs bs_id r of None \<Rightarrow> Inl null_deref | Some bs \<Rightarrow> rbind (slot_of bs) (\<lambda>(frame, subframe).
     case policy_context (stale bs_id) bs_id (ps_scheduling_info s) of
       (m, None) \<Rightarrow> Inl null_deref
     | (m, Some e) \<Rightarrow> let s = s\<lparr>ps_scheduling_info := m\<rparr>; (target_frame, target_subframe) = target_slot frame subframe in
         if \<not> needs_scheduling e frame subframe \<or> target_subframe = 0 \<or> target_subframe = 5 then Inr (l, s, r, out)
         else rbind (policy_bs sv bs target_frame target_subframe (l, e)) (\<lambda>((bs, l), e, data).
           let e = e\<lparr>last_checked_frame := frame, last_checked_subframe := subframe\<rparr>;
               s = s\<lparr>ps_scheduling_info := sm_put (policy_key bs_id) e (ps_scheduling_info s)\<rparr>;
               r = set_bs bs_id bs r in
           Inr (l, s, r, if data = [] then out
                         else send_message bs_id (dl_mac_config_message target_frame target_subframe data) r out))))"

definition run_central_scheduler ::
  "sched_view \<Rightarrow> (u64 \<Rightarrow> u16 \<times> u16) \<Rightarrow> policy_scheduler \<times> rib \<times> outbox \<Rightarrow> (policy_scheduler \<times> rib \<times> outbox) result" where
  "run_central_scheduler sv stale = (\<lambda>(s, r, out).
     rbind (foldR (policy_base_station sv stale) (get_available_base_stations r)
              (\<lparr>pl_mcs = 0, pl_aggregation = 1, pl_ce_flags = 0, pl_tpc_accumulated = ps_tpc_accumulated s\<rparr>, s, r, out))
       (\<lambda>(l, s, r, out). Inr (s\<lparr>ps_tpc_accumulated := pl_tpc_accumulated l\<rparr>, r, out)))"

definition policy_periodic_task ::
  "sched_view \<Rightarrow> (u64 \<Rightarrow> u16 \<times> u16) \<Rightarrow> files \<Rightarrow> string option \<Rightarrow> policy_scheduler \<times> rib \<times> outbox \<Rightarrow>
     (policy_scheduler \<times> rib \<times> outbox) result" where
  "policy_periodic_task sv stale fs home = (\<lambda>(s, r, out).
     rbind (foldR (push_schedulers fs home r) (get_available_base_stations r) (s, out)) (\<lambda>(s, out).
     if central_scheduling s then run_central_scheduler sv stale (s, r, out) else Inr (s, r, out)))"

section \<open>Lemmas\<close>

subsection \<open>The groups\<close>

lemma policy_power_control_own:
  "rballoc_sub (snd (snd (policy_power_control sv c r cr tf ts u))) = rballoc_sub u"
  "rballoc_sub_scheduled (snd (snd (policy_power_control sv c r cr tf ts u))) = rballoc_sub_scheduled u"
  by (simp_all add: policy_power_control_def Let_def split: option.split)

lemma policy_timing_advance_own:
  "policy_timing_advance r u = (ta, u') \<Longrightarrow>
     rballoc_sub u' = rballoc_sub u \<and> rballoc_sub_scheduled u' = rballoc_sub_scheduled u"
  by (auto simp: policy_timing_advance_def split: if_splits)

lemma policy_new_transmission_own:
  assumes "policy_new_transmission sv c cell r cr tf ts p av (l, u) = Inr (g, l', u')" "uses_own c u"
  shows "rballoc_sub u' = rballoc_sub u \<and> uses_own c u'"
    and "g = Some x \<Longrightarrow> g_harq_pid x = p"
proof -
  obtain dci where dci: "get_TBS_DL (pl_mcs l) av = Inr dci"
    using assms(1) by (auto simp: policy_new_transmission_def rbind_Inr_eq)
  obtain ta u1 where ta: "policy_timing_advance r u = (ta, u1)" by fastforce
  define l1 where "l1 = (if ta > 0 then l\<lparr>pl_ce_flags := pl_ce_flags l OR FLPCET_TA\<rparr> else l)"
  obtain h sdu pdus where req: "policy_requests dci ta (map (rlc_bsr_of sv) (rlc_report r)) = (h, sdu, pdus)"
    by (metis prod_cases3)
  have u1: "rballoc_sub u1 = rballoc_sub u" "uses_own c u1"
    using policy_timing_advance_own [OF ta] assms(2) by (auto simp: uses_own_def)
  note eq = assms(1) [unfolded policy_new_transmission_def prod.case dci rbind_Inr ta Let_def l1_def [symmetric] req]
  have both: "(rballoc_sub u' = rballoc_sub u \<and> uses_own c u') \<and> (\<forall>x. g = Some x \<longrightarrow> g_harq_pid x = p)"
  proof (cases "pdus = []")
    case True
    then show ?thesis using eq u1 by auto
  next
    case False
    obtain need mcs nb m tbs u2 where blocks: "choose_blocks 28 c cell p av need mcs u1 = Inr (nb, m, tbs, u2)"
      and u': "u' = toggle_ndi c p (snd (snd (policy_power_control sv c r cr tf ts u2)))"
      and g: "\<forall>x. g = Some x \<longrightarrow> g_harq_pid x = p"
      using eq False by (auto simp: rbind_Inr_eq case_prod_beta)
    then have "rballoc_sub u2 = rballoc_sub u1 \<and> uses_own c u2" using choose_blocks_own u1(2) by blast
    then have "rballoc_sub u' = rballoc_sub u \<and> uses_own c u'"
      using u1(1) policy_power_control_own uses_own_cong unfolding u' toggle_ndi_own by metis
    then show ?thesis using g by blast
  qed
  then show "rballoc_sub u' = rballoc_sub u \<and> uses_own c u'" "g = Some x \<Longrightarrow> g_harq_pid x = p" by blast+
qed

lemma policy_serve_own:
  assumes "policy_serve sv bs tf ts cell mac u l = Inr (round, g, l', u')" "uses_own (cell_index sv cell) u"
  shows "rballoc_sub u' = rballoc_sub u \<and> uses_own (cell_index sv cell) u'"
proof -
  let ?c = "cell_index sv cell"
  obtain l1 pid where "retransmission ?c cell pid (pre_nb_rbs_available u ?c) u = Inr (g, u') \<or>
      policy_new_transmission sv ?c cell (mac_stats_report mac) (cell_mac_info bs ?c) tf ts pid
        (pre_nb_rbs_available u ?c) (l1, u) = Inr (g, l', u')"
    using assms(1) by (auto simp: policy_serve_def Let_def rbind_Inr_eq split: if_splits)
  then show ?thesis
    by (elim disjE) (erule retransmission_own [OF _ assms(2)], erule policy_new_transmission_own(1) [OF _ assms(2)])
qed

lemma policy_give_cases:
  assumes "policy_give sv tf ts cell rnti mac ((bs, l), e, out) = Inr (bl, e', out')"
  shows "(out' = out \<and> e' = e) \<or> user_changed cell (cell_index sv cell) rnti e out e' out'"
proof (rule disjCI)
  let ?c = "cell_index sv cell"
  assume no: "\<not> user_changed cell ?c rnti e out e' out'"
  obtain u where u: "get_ue_scheduling_info rnti e = Some u"
    using assms by (auto simp: policy_give_def Let_def split: option.splits)
  show "out' = out \<and> e' = e"
  proof (cases "pre_nb_rbs_available u ?c = 0")
    case True
    then show ?thesis using assms u by (simp add: policy_give_def Let_def)
  next
    case False
    obtain round g l1 u' where serve: "policy_serve sv bs tf ts cell mac u l = Inr (round, g, l1, u')"
      using assms u False by (auto simp: policy_give_def Let_def rbind_Inr_eq)
    note own = policy_serve_own [OF serve]
    have "user_changed cell ?c rnti e out e' out'"
    proof (cases g)
      case None
      then have "e' = modify_ue rnti (\<lambda>_. u') e" "out' = out"
        using assms u False serve by (auto simp: policy_give_def Let_def)
      then show ?thesis using u own unfolding user_changed_def by blast
    next
      case (Some x)
      let ?d = "dl_data_of ?c cell rnti (int (unat round) mod 4) (pl_aggregation l1) (pl_ce_flags l1) u' x"
      have "e' = assign_CCE ?c (2 ^ pl_aggregation l1) (modify_ue rnti (\<lambda>_. u') e)" "out' = out @ [?d]"
        using assms u False serve Some by (auto simp: policy_give_def Let_def rbind_Inr_eq)
      then have "scheduling_info e' = scheduling_info (modify_ue rnti (\<lambda>_. u') e)" "out' = out @ [?d]"
        by (simp_all add: assign_CCE_def)
      then show ?thesis using u own dl_data_fields [of ?c cell rnti] unfolding user_changed_def by blast
    qed
    then show ?thesis using no by blast
  qed
qed

lemma policy_ue_cases:
  assumes "policy_ue sv tf ts cell uc ((bs, l), e, out) = Inr (bl, e', out')"
  shows "(out' = out \<and> scheduling_info e' = scheduling_info e) \<or>
    (in_cell sv cell uc \<and> user_changed cell (cell_index sv cell) (rnti_of uc) e out e' out')"
proof (cases "in_cell sv cell uc \<and> get_ue_mac_info (rnti_of uc) bs \<noteq> None")
  case True
  then obtain mac where mac: "get_ue_mac_info (rnti_of uc) bs = Some mac" by auto
  let ?c = "cell_index sv cell"
  obtain a where a: "policy_aggregation sv cell (mac_stats_report mac) (pl_aggregation l) = Inr a"
    using assms True mac by (auto simp: policy_ue_def Let_def rbind_Inr_eq)
  obtain b e1 where cce: "CCE_allocation_infeasible ?c cell (rnti_of uc) a ts e = Inr (b, e1)"
    using assms True mac a by (auto simp: policy_ue_def Let_def rbind_Inr_eq)
  note keep = cce_keeps [OF cce]
  note run = assms [unfolded policy_ue_def prod.case Let_def]
  show ?thesis
  proof (cases "b \<or> has_available_harq ?c mac \<noteq> Inr True")
    case stop: True
    then show ?thesis using run True mac a cce keep by (auto simp: rbind_Inr_eq split: if_splits)
  next
    case False
    then have "policy_give sv tf ts cell (rnti_of uc) mac ((bs, l\<lparr>pl_aggregation := a\<rparr>), e1, out) = Inr (bl, e', out')"
      using run True mac a cce by simp
    from policy_give_cases [OF this] show ?thesis
      using keep True user_changed_cong by blast
  qed
next
  case False
  then show ?thesis using assms by (auto simp: policy_ue_def Let_def split: if_splits)
qed

interpretation policy: user_scheduler "policy_ue sv tf ts cell" cell "cell_index sv cell" "in_cell sv cell"
  for sv tf ts cell
proof unfold_locales
  fix uc l e out l' e' out'
  assume "policy_ue sv tf ts cell uc (l, e, out) = Inr (l', e', out')"
  then show "(out' = out \<and> scheduling_info e' = scheduling_info e) \<or>
    (in_cell sv cell uc \<and> user_changed cell (cell_index sv cell) (rnti_of uc) e out e' out')"
    using policy_ue_cases [of sv tf ts cell uc "fst l" "snd l"] by (cases l) simp
qed

theorem policy_transmissions_share_no_group:
  assumes "policy_bs sv bs tf ts (l, e) = Inr (bl, e', out)"
    and cell: "cell_config (eNB_config bs) = [cell]" "unat (cell_field_of dl_bandwidth cell) \<in> {6, 25, 50, 100}"
    and rntis: "distinct (map rnti_of (ue_config (ue_configs bs)))"
    and "i < j" "j < length out"
  shows "bitmap_of (out ! i) AND bitmap_of (out ! j) = 0"
proof -
  obtain e1 where e1: "prepare_cell sv bs ts cell e = Inr e1"
    and fold: "foldR (policy_ue sv tf ts cell) (ue_config (ue_configs bs)) ((bs, l), e1, []) = Inr (bl, e', out)"
    using assms(1) cell(1) by (auto simp: policy_bs_def policy_cell_def rbind_Inr_eq)
  obtain V where V: "grants_ok cell (cell_rntis sv cell (ue_config (ue_configs bs))) V (cell_index sv cell) e1"
    using prepared_cell [OF e1 cell(2)] by blast
  show ?thesis
    by (rule policy.entries_share_no_group [OF fold V _ rntis assms(5,6)]) (auto simp: cell_rntis_def)
qed

end
