(* ===== verification/Delegating_Scheduler.thy ===== *)
theory Delegating_Scheduler
  imports Remote_Scheduler Delegation
begin

text \<open>
  The scheduler that gives control away, \<open>app/remote_scheduler_delegation.cc\<close>: the remote scheduler,
  four subframes ahead and with small differences, until a user has reported the quality of its channel;
  then it sends a scheduler to the agent of that user's base station and never runs again.
\<close>

section \<open>State\<close>

record delegating_scheduler =
  ds_scheduling_info :: "(u64, enb_scheduling_info) std_map"
  delegation_enabled :: bool
  ds_tpc_accumulated :: int

definition new_delegating_scheduler :: delegating_scheduler where
  "new_delegating_scheduler = \<lparr>ds_scheduling_info = [], delegation_enabled = False, ds_tpc_accumulated = 0\<rparr>"

definition delegating_ahead :: nat where "delegating_ahead = 4"

definition delegating_slot :: "u16 \<Rightarrow> u16 \<Rightarrow> u16 \<times> u16" where
  "delegating_slot cur_frame cur_subframe =
     (let target_subframe = of_nat ((unat cur_subframe + delegating_ahead) mod 10) :: u16 in
      (if target_subframe < cur_subframe then of_nat ((unat cur_frame + 1) mod 1024) else cur_frame, target_subframe))"

definition delegate_control :: "files \<Rightarrow> u64 \<Rightarrow> rib \<Rightarrow> outbox \<Rightarrow> outbox result" where
  "delegate_control fs bs_id = push_library fs bs_id ''schedule_ue_spec_default'' ''./libdefault_sched.so''"

section \<open>A user\<close>

text \<open>As in the remote scheduler, but the first logical channel is asked for one byte more.\<close>

definition delegating_request ::
  "nat \<Rightarrow> u32 \<Rightarrow> nat \<times> flex_rlc_bsr \<Rightarrow> u8 \<times> u16 \<times> flex_rlc_pdu_tb list list \<Rightarrow> u8 \<times> u16 \<times> flex_rlc_pdu_tb list list" where
  "delegating_request dci_tbs ta_len = (\<lambda>(j, b) (header_len, sdu_length, pdus).
     let header_len = header_len + 3; room = of_nat dci_tbs - ta_len - ucast header_len :: u32;
         size = get_or 0 (tx_queue_size b) in
     if room > 0
     then if size > 0
       then let request = min room size;
                header_len = (if request < 128 then header_len - 1 else header_len);
                request = (if j = 1 then request + 1 else request);
                tb = \<lparr>logical_channel_id = Some (get_or 0 (bsr_lc_id b)), tb_size = Some request\<rparr> in
         (header_len, ucast request, pdus @ [[tb, tb]])
       else (header_len - 3, sdu_length, pdus)
     else (header_len, sdu_length, pdus))"

definition delegating_requests ::
  "nat \<Rightarrow> u32 \<Rightarrow> flex_rlc_bsr list \<Rightarrow> u8 \<Rightarrow> u8 \<times> u16 \<times> flex_rlc_pdu_tb list list" where
  "delegating_requests dci_tbs ta_len bs header_len =
     fold (delegating_request dci_tbs ta_len) (enumerate 1 bs) (header_len, 0, [])"

text \<open>A user with reduced power gets at most the scheme 16.\<close>

definition delegating_transmission ::
  "sched_view \<Rightarrow> nat \<Rightarrow> flex_cell_config \<Rightarrow> flex_ue_stats_report \<Rightarrow> flex_cell_stats_report \<Rightarrow> u16 \<Rightarrow> u16 \<Rightarrow> nat \<Rightarrow> u16 \<Rightarrow>
     locals \<times> ue_scheduling_info \<Rightarrow> (grant option \<times> locals \<times> ue_scheduling_info) result" where
  "delegating_transmission sv c = transmit_new (\<lambda>u. if dl_pow_off u c > 0 then 28 else 16) delegating_requests sv c"

text \<open>The process is known to exist and its round to be a byte, for which the code has eight bits each.\<close>

definition delegating_serve ::
  "sched_view \<Rightarrow> enb_rib_info \<Rightarrow> u16 \<Rightarrow> u16 \<Rightarrow> flex_cell_config \<Rightarrow> ue_mac_rib_info \<Rightarrow> ue_scheduling_info \<Rightarrow> locals \<Rightarrow>
     (int \<times> grant option \<times> locals \<times> ue_scheduling_info) result" where
  "delegating_serve sv bs target_frame target_subframe cell =
     serve_with (\<lambda>c r cr. delegating_transmission sv c cell r cr target_frame target_subframe) sv bs cell"

text \<open>The quality that the first report for the cell gives.\<close>

definition reported_quality :: "sched_view \<Rightarrow> flex_cell_config \<Rightarrow> ue_mac_rib_info \<Rightarrow> u32 option" where
  "reported_quality sv cell mac = map_option (\<lambda>x. get_or 0 (csi_wb_cqi x))
     (List.find (\<lambda>x. get_or 0 (csi_serv_cell_index x) = cell_id_of sv cell) (csi_reports sv (mac_stats_report mac)))"

text \<open>
  Beside the local variables the loop carries whether it has been left and what has been sent. The cells
  are compared in 32 bits; the preparation has refused identifiers other than 0 and 1, so that the rest may
  use 16.
\<close>

type_synonym delegating_state = "(locals \<times> bool \<times> outbox) \<times> enb_scheduling_info \<times> flex_dl_data list"

definition delegating_ue ::
  "sched_view \<Rightarrow> files \<Rightarrow> rib \<Rightarrow> u64 \<Rightarrow> enb_rib_info \<Rightarrow> u16 \<Rightarrow> u16 \<Rightarrow> flex_cell_config \<Rightarrow> flex_ue_config \<Rightarrow>
     delegating_state \<Rightarrow> delegating_state result" where
  "delegating_ue sv fs r bs_id bs target_frame target_subframe cell uc = (\<lambda>((l, returned, out), e, data).
     let rnti = rnti_of uc;
         schedule = (\<lambda>mac. rbind (give_ue 1 (\<lambda>_ e. e) (delegating_serve sv bs target_frame target_subframe cell)
             sv target_subframe cell rnti mac (l, e, data))
           (\<lambda>(l, e, data). Inr ((l, returned, out), e, data))) in
     if returned \<or> pcell_carrier_index_of sv uc \<noteq> cell_id_of sv cell then Inr ((l, returned, out), e, data)
     else case get_ue_mac_info rnti bs of None \<Rightarrow> Inr ((l, returned, out), e, data) | Some mac \<Rightarrow>
       (case reported_quality sv cell mac of
          Some wb_cqi \<Rightarrow>
            if wb_cqi \<le> 15 then rbind (delegate_control fs bs_id r out) (\<lambda>out. Inr ((l, True, out), e, data))
            else schedule mac
        | None \<Rightarrow> schedule mac))"

section \<open>The scheduler\<close>

definition delegating_cell ::
  "sched_view \<Rightarrow> files \<Rightarrow> rib \<Rightarrow> u64 \<Rightarrow> enb_rib_info \<Rightarrow> u16 \<Rightarrow> u16 \<Rightarrow> flex_cell_config \<Rightarrow> delegating_state \<Rightarrow> delegating_state result" where
  "delegating_cell sv fs r bs_id bs target_frame target_subframe cell =
     foldR (delegating_ue sv fs r bs_id bs target_frame target_subframe cell) (ue_config (ue_configs bs))"

definition delegating_bs ::
  "sched_view \<Rightarrow> files \<Rightarrow> rib \<Rightarrow> u64 \<Rightarrow> enb_rib_info \<Rightarrow> u16 \<Rightarrow> u16 \<Rightarrow> (locals \<times> bool \<times> outbox) \<times> enb_scheduling_info \<Rightarrow>
     delegating_state result" where
  "delegating_bs sv fs r bs_id bs target_frame target_subframe = (\<lambda>(l, e).
     rbind (foldR (prepare_cell sv bs target_subframe) (cell_config (eNB_config bs)) e) (\<lambda>e.
     foldR (delegating_cell sv fs r bs_id bs target_frame target_subframe) (cell_config (eNB_config bs)) (l, e, [])))"

definition delegating_context ::
  "sched_view \<Rightarrow> files \<Rightarrow> rib \<Rightarrow> u64 \<Rightarrow> enb_rib_info \<Rightarrow> u16 \<Rightarrow> u16 \<Rightarrow> enb_scheduling_info \<Rightarrow>
     locals \<times> delegating_scheduler \<times> outbox \<Rightarrow> (locals \<times> delegating_scheduler \<times> outbox) result" where
  "delegating_context sv fs r bs_id bs frame subframe e = (\<lambda>(l, s, out).
     let (target_frame, target_subframe) = delegating_slot frame subframe;
         store = (\<lambda>e s. s\<lparr>ds_scheduling_info := sm_put bs_id e (ds_scheduling_info s)\<rparr>) in
     if \<not> needs_scheduling e frame subframe then Inr (l, s, out)
     else rbind (delegating_bs sv fs r bs_id bs target_frame target_subframe ((l, False, out), e))
       (\<lambda>((l, returned, out), e, data).
         if returned then Inr (l, (store e s)\<lparr>delegation_enabled := True\<rparr>, out)
         else Inr (l, store (e\<lparr>last_checked_frame := frame, last_checked_subframe := subframe\<rparr>) s,
           if data = [] then out
           else send_message bs_id (dl_mac_config_message target_frame target_subframe data) r out)))"

text \<open>A run that has delegated returns: the base stations that are left are not looked at.\<close>

definition delegating_base_station ::
  "sched_view \<Rightarrow> (u64 \<Rightarrow> u16 \<times> u16) \<Rightarrow> files \<Rightarrow> rib \<Rightarrow> u64 \<Rightarrow>
     locals \<times> delegating_scheduler \<times> outbox \<Rightarrow> (locals \<times> delegating_scheduler \<times> outbox) result" where
  "delegating_base_station sv stale fs r bs_id = (\<lambda>(l, s, out).
     if delegation_enabled s then Inr (l, s, out)
     else case get_bs bs_id r of None \<Rightarrow> Inl null_deref | Some bs \<Rightarrow> rbind (slot_of bs) (\<lambda>(frame, subframe).
     case find_context (stale bs_id) bs_id (ds_scheduling_info s) of
       (m, None) \<Rightarrow> Inl null_deref
     | (m, Some e) \<Rightarrow> delegating_context sv fs r bs_id bs frame subframe e (l, s\<lparr>ds_scheduling_info := m\<rparr>, out)))"

definition delegating_task ::
  "sched_view \<Rightarrow> (u64 \<Rightarrow> u16 \<times> u16) \<Rightarrow> files \<Rightarrow> rib \<Rightarrow> delegating_scheduler \<times> outbox \<Rightarrow>
     (delegating_scheduler \<times> outbox) result" where
  "delegating_task sv stale fs r = (\<lambda>(s, out).
     if delegation_enabled s then Inr (s, out)
     else rbind (foldR (delegating_base_station sv stale fs r) (get_available_base_stations r)
              (\<lparr>l_mcs = 0, l_ce_flags = 0, l_header_len = 0, l_tpc_accumulated = ds_tpc_accumulated s\<rparr>, s, out))
       (\<lambda>(l, s, out). Inr (s\<lparr>ds_tpc_accumulated := l_tpc_accumulated l\<rparr>, out)))"

section \<open>Lemmas\<close>

subsection \<open>The groups\<close>

lemma delegating_serve_own:
  "delegating_serve sv bs tf ts cell mac u l = Inr (round, g, l', u') \<Longrightarrow> uses_own (cell_index sv cell) u \<Longrightarrow>
     rballoc_sub u' = rballoc_sub u \<and> uses_own (cell_index sv cell) u'"
  unfolding delegating_serve_def delegating_transmission_def by (erule serve_with_own) (auto dest: transmit_new_own)

text \<open>A user is passed over, or gets control delegated, or is scheduled.\<close>

lemma delegating_ue_cases:
  assumes "delegating_ue sv fs r b bs tf ts cell uc ((l, returned, out), e, data) = Inr ((l', returned', out'), e', data')"
  shows "(returned' = returned \<and> out' = out \<and> e' = e \<and> data' = data) \<or>
    (\<exists>mac. \<not> returned \<and> pcell_carrier_index_of sv uc = cell_id_of sv cell \<and> get_ue_mac_info (rnti_of uc) bs = Some mac \<and>
      ((\<exists>q. reported_quality sv cell mac = Some q \<and> q \<le> 15 \<and> delegate_control fs b r out = Inr out' \<and> returned' \<and>
          e' = e \<and> data' = data) \<or>
       ((\<forall>q. reported_quality sv cell mac = Some q \<longrightarrow> \<not> q \<le> 15) \<and> \<not> returned' \<and> out' = out \<and>
          give_ue 1 (\<lambda>_ e. e) (delegating_serve sv bs tf ts cell) sv ts cell (rnti_of uc) mac (l, e, data) = Inr (l', e', data'))))"
  using assms
  by (cases "get_ue_mac_info (rnti_of uc) bs")
    (auto simp: delegating_ue_def Let_def rbind_Inr_eq split: if_splits option.splits)

lemma delegating_give_cases:
  "give_ue agg (\<lambda>_ e. e) (delegating_serve sv bs tf ts cell) sv ts cell rnti mac (l, e, out) = Inr (l', e', out') \<Longrightarrow>
     (out' = out \<and> scheduling_info e' = scheduling_info e) \<or> user_changed cell (cell_index sv cell) rnti e out e' out'"
  by (erule give_ue_cases) (auto dest: delegating_serve_own)

interpretation delegating: user_scheduler "delegating_ue sv fs r b bs tf ts cell" cell "cell_index sv cell"
    "\<lambda>uc. pcell_carrier_index_of sv uc = cell_id_of sv cell"
  for sv fs r b bs tf ts cell
proof unfold_locales
  fix uc l e out l' e' out'
  assume step: "delegating_ue sv fs r b bs tf ts cell uc (l, e, out) = Inr (l', e', out')"
  obtain x ret sent x' ret' sent' where l: "l = (x, ret, sent)" "l' = (x', ret', sent')" by (metis prod_cases3)
  from delegating_ue_cases [OF step [unfolded l]]
  show "(out' = out \<and> scheduling_info e' = scheduling_info e) \<or>
    (pcell_carrier_index_of sv uc = cell_id_of sv cell \<and> user_changed cell (cell_index sv cell) (rnti_of uc) e out e' out')"
    using delegating_give_cases by blast
qed

text \<open>The preparation accepts the identifiers 0 and 1 only.\<close>

lemma prepared_identifier:
  "prepare_cell sv bs ts cell e = Inr e' \<Longrightarrow> unat (cell_id_of sv cell) < MAX_NUM_CC"
  by (auto simp: prepare_cell_def rbind_Inr_eq enb_start_new_scheduling_round_def Let_def split: if_splits)

lemma identifier_is_index:
  assumes "unat (cell_id_of sv cell) < MAX_NUM_CC"
  shows "cell_index sv cell = unat (cell_id_of sv cell)"
    and "pcell_carrier_index_of sv uc = cell_id_of sv cell \<longleftrightarrow> in_cell sv cell uc"
proof -
  show index: "cell_index sv cell = unat (cell_id_of sv cell)"
    unfolding cell_index_def using assms by (intro unat_ucast_small) (simp add: MAX_NUM_CC_def)
  show "pcell_carrier_index_of sv uc = cell_id_of sv cell \<longleftrightarrow> in_cell sv cell uc"
    unfolding in_cell_def index by (simp add: word_unat_eq_iff)
qed

theorem delegating_transmissions_share_no_group:
  assumes "delegating_bs sv fs r b bs tf ts (l, e) = Inr (l', e', out)"
    and cell: "cell_config (eNB_config bs) = [cell]" "unat (cell_field_of dl_bandwidth cell) \<in> {6, 25, 50, 100}"
    and rntis: "distinct (map rnti_of (ue_config (ue_configs bs)))"
    and "i < j" "j < length out"
  shows "bitmap_of (out ! i) AND bitmap_of (out ! j) = 0"
proof -
  obtain e1 where e1: "prepare_cell sv bs ts cell e = Inr e1"
    and fold: "foldR (delegating_ue sv fs r b bs tf ts cell) (ue_config (ue_configs bs)) (l, e1, []) = Inr (l', e', out)"
    using assms(1) cell(1) by (auto simp: delegating_bs_def delegating_cell_def rbind_Inr_eq)
  obtain V where V: "grants_ok cell (cell_rntis sv cell (ue_config (ue_configs bs))) V (cell_index sv cell) e1"
    using prepared_cell [OF e1 cell(2)] by blast
  show ?thesis
    by (rule delegating.entries_share_no_group [OF fold V _ rntis assms(5,6)])
      (auto simp: cell_rntis_def identifier_is_index(2) [OF prepared_identifier [OF e1]])
qed

subsection \<open>Channel quality\<close>

definition measured :: "sched_view \<Rightarrow> enb_rib_info \<Rightarrow> bool" where
  "measured sv bs \<longleftrightarrow> (\<exists>cell uc mac q. cell \<in> set (cell_config (eNB_config bs)) \<and> uc \<in> set (ue_config (ue_configs bs)) \<and>
     pcell_carrier_index_of sv uc = cell_id_of sv cell \<and> get_ue_mac_info (rnti_of uc) bs = Some mac \<and>
     reported_quality sv cell mac = Some q \<and> q \<le> 15)"

definition unmeasured :: "sched_view \<Rightarrow> enb_rib_info \<Rightarrow> flex_dl_data \<Rightarrow> bool" where
  "unmeasured sv bs d \<longleftrightarrow> (\<exists>cell uc mac. cell \<in> set (cell_config (eNB_config bs)) \<and> uc \<in> set (ue_config (ue_configs bs)) \<and>
     pcell_carrier_index_of sv uc = cell_id_of sv cell \<and> get_ue_mac_info (rnti_of uc) bs = Some mac \<and>
     dd_rnti d = Some (rnti_of uc) \<and> reported_quality sv cell mac = None)"

text \<open>A quality that is no index of the table of schemes makes serving the user fail.\<close>

lemma served_quality:
  assumes "serve_with transmit sv bs cell mac u l = Inr x" "reported_quality sv cell mac = Some q"
  shows "q \<le> 15"
proof -
  obtain mcs where "mcs_of_reports sv cell (mac_stats_report mac) (l_mcs l) = Inr mcs"
    using assms(1) by (auto simp: serve_with_def Let_def rbind_Inr_eq)
  then have "unat q < 16"
    using assms(2) by (auto simp: mcs_of_reports_def reported_quality_def Let_def split: if_splits)
  then show ?thesis by unat_arith
qed

lemma give_ue_data:
  assumes "give_ue agg taken serve sv ts cell rnti mac (l, e, out) = Inr (l', e', out')"
  shows "out' = out \<or> (\<exists>d u x. out' = out @ [d] \<and> dd_rnti d = Some rnti \<and> serve mac u l = Inr x)"
  using assms
  by (auto simp: give_ue_def Let_def rbind_Inr_eq dl_data_fields split: if_splits option.splits)

text \<open>The message that gives the control away.\<close>

definition handover :: "files \<Rightarrow> u64 \<Rightarrow> rib \<Rightarrow> outbox \<Rightarrow> bool" where
  "handover fs b r sent \<longleftrightarrow> (\<exists>dat. fs ''./libdefault_sched.so'' = Some dat \<and>
     sent = map (\<lambda>i. (i, code_command ''schedule_ue_spec_default'' dat)) (bs_members b r))"

lemma delegate_control_Inr:
  "delegate_control fs b r out = Inr out' \<Longrightarrow> \<exists>sent. handover fs b r sent \<and> out' = out @ sent"
  by (auto simp: delegate_control_def push_library_def handover_def mes.send_appends split: option.splits)

definition left_or_unmeasured :: "sched_view \<Rightarrow> files \<Rightarrow> rib \<Rightarrow> u64 \<Rightarrow> enb_rib_info \<Rightarrow> outbox \<Rightarrow> delegating_state \<Rightarrow> bool" where
  "left_or_unmeasured sv fs r b bs out0 = (\<lambda>((l, returned, out), e, data).
     if returned then measured sv bs \<and> (\<exists>sent. handover fs b r sent \<and> out = out0 @ sent)
     else out = out0 \<and> (\<forall>d \<in> set data. unmeasured sv bs d))"

lemma delegating_ue_quality:
  assumes "delegating_ue sv fs r b bs tf ts cell uc s = Inr s'" "left_or_unmeasured sv fs r b bs out0 s"
    and here: "cell \<in> set (cell_config (eNB_config bs))" "uc \<in> set (ue_config (ue_configs bs))"
  shows "left_or_unmeasured sv fs r b bs out0 s'"
proof -
  obtain l ret out e data l' ret' out' e' data' where s: "s = ((l, ret, out), e, data)" "s' = ((l', ret', out'), e', data')"
    by (metis surj_pair)
  from delegating_ue_cases [OF assms(1) [unfolded s]] show ?thesis
  proof (elim disjE exE conjE, goal_cases)
    case 1
    then show ?case using assms(2) by (simp add: s left_or_unmeasured_def)
  next
    case (2 mac q)
    then have "measured sv bs" using here unfolding measured_def by blast
    then show ?case using 2 assms(2) delegate_control_Inr by (auto simp: s left_or_unmeasured_def)
  next
    case (3 mac)
    from give_ue_data [OF 3(7)] show ?case
    proof (elim disjE exE conjE)
      fix d u x
      assume d: "data' = data @ [d]" "dd_rnti d = Some (rnti_of uc)" "delegating_serve sv bs tf ts cell mac u l = Inr x"
      have "reported_quality sv cell mac = None"
        using served_quality [OF d(3) [unfolded delegating_serve_def]] 3(4) by (cases "reported_quality sv cell mac") auto
      then have "unmeasured sv bs d" using 3 d(2) here unfolding unmeasured_def by blast
      then show ?case using 3 d(1) assms(2) by (auto simp: s left_or_unmeasured_def)
    qed (use 3 assms(2) in \<open>simp add: s left_or_unmeasured_def\<close>)
  qed
qed

lemma delegating_bs_quality:
  assumes "delegating_bs sv fs r b bs tf ts ((l, False, out0), e) = Inr s'"
  shows "left_or_unmeasured sv fs r b bs out0 s'"
proof -
  obtain e1 where fold: "foldR (delegating_cell sv fs r b bs tf ts) (cell_config (eNB_config bs)) ((l, False, out0), e1, []) = Inr s'"
    using assms by (auto simp: delegating_bs_def rbind_Inr_eq)
  show ?thesis
  proof (rule foldR_invariant [OF fold])
    show "left_or_unmeasured sv fs r b bs out0 ((l, False, out0), e1, [])" by (simp add: left_or_unmeasured_def)
    show "left_or_unmeasured sv fs r b bs out0 s2" if "cell \<in> set (cell_config (eNB_config bs))"
      "left_or_unmeasured sv fs r b bs out0 s1" "delegating_cell sv fs r b bs tf ts cell s1 = Inr s2" for cell s1 s2
      by (rule foldR_invariant [where I = "left_or_unmeasured sv fs r b bs out0", OF that(3) [unfolded delegating_cell_def] that(2)])
        (use delegating_ue_quality that(1) in blast)
  qed
qed

section \<open>Properties\<close>

text \<open>A command for the users of a base station none of whom has a usable quality.\<close>

definition allocation :: "sched_view \<Rightarrow> rib list \<Rightarrow> int \<times> flexran_message \<Rightarrow> bool" where
  "allocation sv rs = (\<lambda>(i, m). \<exists>r \<in> set rs. \<exists>b bs frame subframe data. get_bs b r = Some bs \<and> i \<in> set (bs_members b r) \<and>
     m = dl_mac_config_message frame subframe data \<and> data \<noteq> [] \<and> (\<forall>d \<in> set data. unmeasured sv bs d))"

definition delegated_once :: "sched_view \<Rightarrow> files \<Rightarrow> rib list \<Rightarrow> delegating_scheduler \<times> outbox \<Rightarrow> bool" where
  "delegated_once sv fs rs = (\<lambda>(s, out). \<exists>sent. (\<forall>x \<in> set sent. allocation sv rs x) \<and>
     (if delegation_enabled s
      then \<exists>r \<in> set rs. \<exists>b bs command. get_bs b r = Some bs \<and> measured sv bs \<and> handover fs b r command \<and> out = sent @ command
      else out = sent))"

lemma context_once:
  assumes "delegating_context sv fs r b bs frame subframe e (l, s, out) = Inr (l', s', out')"
    and r: "r \<in> set rs" "get_bs b r = Some bs"
    and s: "\<not> delegation_enabled s" "delegated_once sv fs rs (s, out)"
  shows "delegated_once sv fs rs (s', out')"
proof (cases "needs_scheduling e frame subframe")
  case True
  obtain tf ts where slot: "delegating_slot frame subframe = (tf, ts)" by fastforce
  have out: "\<forall>x \<in> set out. allocation sv rs x" using s by (auto simp: delegated_once_def)
  obtain l1 ret out1 e1 data where run: "delegating_bs sv fs r b bs tf ts ((l, False, out), e) = Inr ((l1, ret, out1), e1, data)"
    using assms(1) True by (auto simp: delegating_context_def slot rbind_Inr_eq)
  note ok = delegating_bs_quality [OF run, unfolded left_or_unmeasured_def prod.case]
  note eq = assms(1) [unfolded delegating_context_def prod.case slot Let_def, simplified True run not_True_eq_False if_False rbind_Inr prod.case]
  show ?thesis
  proof (cases ret)
    case True
    then obtain cmd where "measured sv bs" "handover fs b r cmd" "out1 = out @ cmd" using ok by auto
    moreover have enabled: "delegation_enabled s'" and "out' = out1" using eq True by auto
    ultimately have "\<exists>r \<in> set rs. \<exists>b bs command. get_bs b r = Some bs \<and> measured sv bs \<and> handover fs b r command \<and> out' = out @ command"
      using r by blast
    then show ?thesis unfolding delegated_once_def prod.case if_P [OF enabled] using out by (intro exI [of _ out] conjI)
  next
    case False
    have "\<forall>x \<in> set out'. allocation sv rs x"
    proof (cases "data = []")
      case True
      then show ?thesis using eq ok False out by simp
    next
      case some: False
      then have "out' = out @ map (\<lambda>i. (i, dl_mac_config_message tf ts data)) (bs_members b r)"
        using eq ok False by (simp add: mes.send_appends)
      moreover have "allocation sv rs (i, dl_mac_config_message tf ts data)" if "i \<in> set (bs_members b r)" for i
      proof -
        have "\<forall>d \<in> set data. unmeasured sv bs d" using ok False by simp
        then show ?thesis using that r some unfolding allocation_def prod.case by blast
      qed
      ultimately show ?thesis using out by auto
    qed
    moreover have "\<not> delegation_enabled s'" using eq False s(1) by auto
    ultimately show ?thesis by (simp add: delegated_once_def)
  qed
next
  case False
  then show ?thesis using assms(1) s by (simp add: delegating_context_def case_prod_beta Let_def)
qed

lemma base_station_once:
  assumes "delegating_base_station sv stale fs r b (l, s, out) = Inr (l', s', out')" "r \<in> set rs"
    and s: "delegated_once sv fs rs (s, out)"
  shows "delegated_once sv fs rs (s', out')"
proof (cases "delegation_enabled s")
  case False
  obtain bs where bs: "get_bs b r = Some bs"
    using assms(1) False by (auto simp: delegating_base_station_def split: option.splits)
  obtain m oe where found: "find_context (stale b) b (ds_scheduling_info s) = (m, oe)" by fastforce
  obtain e frame subframe where
    "delegating_context sv fs r b bs frame subframe e (l, s\<lparr>ds_scheduling_info := m\<rparr>, out) = Inr (l', s', out')"
    using assms(1) False bs found by (cases oe) (auto simp: delegating_base_station_def rbind_Inr_eq)
  from context_once [OF this assms(2) bs] show ?thesis using False s by (simp add: delegated_once_def)
next
  case True
  then show ?thesis using assms(1) s by (simp add: delegating_base_station_def)
qed

lemma task_once:
  assumes "delegating_task sv stale fs r (s, out) = Inr (s', out')" "r \<in> set rs"
    and s: "delegated_once sv fs rs (s, out)"
  shows "delegated_once sv fs rs (s', out')"
proof (cases "delegation_enabled s")
  case False
  obtain l0 l s1 where fold: "foldR (delegating_base_station sv stale fs r) (get_available_base_stations r) (l0, s, out) = Inr (l, s1, out')"
    and s': "s' = s1\<lparr>ds_tpc_accumulated := l_tpc_accumulated l\<rparr>"
    using assms(1) False by (auto simp: delegating_task_def rbind_Inr_eq)
  have "delegated_once sv fs rs (snd (l, s1, out'))"
    by (rule foldR_invariant [where I = "\<lambda>x. delegated_once sv fs rs (snd x)", OF fold])
      (use s base_station_once assms(2) in fastforce)+
  then show ?thesis by (simp add: s' delegated_once_def)
next
  case True
  then show ?thesis using assms(1) s by (simp add: delegating_task_def)
qed

text \<open>C31. 
  Control is given away once and for good. Over any number of runs everything sent is downlink commands
  for users without a channel report for the cell; and, if the scheduler has delegated, after
  them the code of a scheduler, to the agents of one base station of which a user has reported the
  quality of its channel, and nothing else. The threshold of the code, 15, is the largest quality there is.
\<close>

theorem delegation_is_final:
  assumes "foldR (delegating_task sv stale fs) rs (new_delegating_scheduler, []) = Inr (s, out)"
  shows "\<exists>sent. (\<forall>x \<in> set sent. allocation sv rs x) \<and>
    (if delegation_enabled s
     then \<exists>r \<in> set rs. \<exists>b bs command. get_bs b r = Some bs \<and> measured sv bs \<and> handover fs b r command \<and> out = sent @ command
     else out = sent)"
proof -
  have "delegated_once sv fs rs (s, out)"
  proof (rule foldR_invariant [OF assms])
    show "delegated_once sv fs rs (new_delegating_scheduler, [])"
      by (simp add: delegated_once_def new_delegating_scheduler_def)
    show "delegated_once sv fs rs y" if "r \<in> set rs" "delegated_once sv fs rs x" "delegating_task sv stale fs r x = Inr y" for r x y
      using task_once that by (cases x; cases y) blast
  qed
  then show ?thesis by (simp add: delegated_once_def)
qed

text \<open>
  Unlike the other schedulers this one does not leave out subframe 5, where the preparation of a cell of 50
  or 100 resource blocks marks groups past the end of its row: in subframe 1 it fails.
\<close>

theorem subframe_five_overflows:
  assumes "cell_config (eNB_config bs) = cell # cells" "unat (cell_field_of dl_bandwidth cell) \<in> {50, 100}"
    and "needs_scheduling e frame 1"
  shows "delegating_context sv fs r b bs frame 1 e x = Inl out_of_bounds"
proof -
  have target: "snd (delegating_slot frame 1) = 5" by (simp add: delegating_slot_def delegating_ahead_def Let_def)
  have "\<not> si_index (unat (cell_field_of dl_bandwidth cell)) + 3 < N_RBG_MAX"
    using assms(2) by (auto simp: si_index_def N_RBG_MAX_def)
  then have "enb_start_new_scheduling_round sv 5 cell e = Inl out_of_bounds"
    by (auto simp: enb_start_new_scheduling_round_def reserve_groups_def N_RBG_MAX_def Let_def)
  then have "delegating_bs sv fs r b bs tf 5 (l, e) = Inl out_of_bounds" for tf l
    by (simp add: delegating_bs_def prepare_cell_def assms(1))
  then show ?thesis
    using target assms(3) by (cases x) (simp add: delegating_context_def case_prod_beta Let_def)
qed

text \<open>The example: the first user of a base station has reported the quality 0.\<close>

definition reporting_rib :: rib where
  "reporting_rib = empty_rib\<lparr>eNB_configs := [(1, two_user_bs)]\<rparr>"

lemma reporting_run: "\<exists>s. delegating_task example_view (\<lambda>_. (0, 0)) (\<lambda>_. Some ''x'') reporting_rib (new_delegating_scheduler, []) =
    Inr (s, [(agent_id lower_agent, code_command ''schedule_ue_spec_default'' ''x'')]) \<and> delegation_enabled s"
proof -
  have bs: "get_bs 1 reporting_rib = Some two_user_bs" "get_available_base_stations reporting_rib = [1]"
    by (simp_all add: reporting_rib_def get_bs_def get_available_base_stations_def sm_keys_def)
  have slot: "delegating_slot 0 7 = (1, 1)" by (simp add: delegating_slot_def delegating_ahead_def)
  have found: "find_context (0, 0) 1 [] = ([(1, new_enb_scheduling_info (0, 0))], Some (new_enb_scheduling_info (0, 0)))"
    by (simp add: find_context_def context_key_small sm_emplace_def)
  obtain e where e: "prepare_cell example_view two_user_bs 1 example_cell (new_enb_scheduling_info (0, 0)) = Inr e"
    using example_prepared by blast
  have quality: "reported_quality example_view example_cell (queue_mac r b) = Some 0" for r b
    by (simp add: reported_quality_def queue_mac_simps example_simps)
  have pcell: "pcell_carrier_index_of example_view uc = 0" for uc by (simp add: example_view_def)
  have sent: "delegate_control (\<lambda>_. Some ''x'') 1 reporting_rib [] =
      Inr [(agent_id lower_agent, code_command ''schedule_ue_spec_default'' ''x'')]"
    by (simp add: delegate_control_def push_library_def mes.send_appends bs_members_def bs two_user_bs_simps)
  let ?l = "\<lparr>l_mcs = 0, l_ce_flags = 0, l_header_len = 0, l_tpc_accumulated = 0\<rparr> :: locals"
  obtain l e' where "delegating_bs example_view (\<lambda>_. Some ''x'') reporting_rib 1 two_user_bs 1 1 ((?l, False, []), new_enb_scheduling_info (0, 0)) =
      Inr ((l, True, [(agent_id lower_agent, code_command ''schedule_ue_spec_default'' ''x'')]), e', [])"
    by (simp add: delegating_bs_def delegating_cell_def two_user_bs_simps e delegating_ue_def pcell example_simps quality sent Let_def)
  then show ?thesis
    by (simp add: delegating_task_def delegating_base_station_def delegating_context_def new_delegating_scheduler_def
        bs two_user_bs_simps found slot needs_scheduling_def new_enb_scheduling_info_def)
qed

theorem delegation_is_final_witness:
  "\<exists>s out sent. foldR (delegating_task example_view (\<lambda>_. (0, 0)) (\<lambda>_. Some ''x'')) [reporting_rib, reporting_rib]
      (new_delegating_scheduler, []) = Inr (s, out) \<and> delegation_enabled s \<and>
    (\<exists>r \<in> {reporting_rib}. \<exists>b bs command. get_bs b r = Some bs \<and> measured example_view bs \<and>
       handover (\<lambda>_. Some ''x'') b r command \<and> out = sent @ command)"
proof -
  obtain s where s: "delegating_task example_view (\<lambda>_. (0, 0)) (\<lambda>_. Some ''x'') reporting_rib (new_delegating_scheduler, []) =
    Inr (s, [(agent_id lower_agent, code_command ''schedule_ue_spec_default'' ''x'')])" "delegation_enabled s"
    using reporting_run by blast
  have run: "foldR (delegating_task example_view (\<lambda>_. (0, 0)) (\<lambda>_. Some ''x'')) [reporting_rib, reporting_rib] (new_delegating_scheduler, []) =
    Inr (s, [(agent_id lower_agent, code_command ''schedule_ue_spec_default'' ''x'')])"
    using s by (simp add: delegating_task_def [of _ _ _ _])
  show ?thesis using delegation_is_final [OF run] run s(2) by auto
qed

end
