(* ===== verification/Graph_Client.thy ===== *)
theory Graph_Client
  imports App_Common
begin

text \<open>
  The client that draws a graph of base stations and users, \<open>app/neo4j_client.cc\<close>. What the library
  of the database does is a parameter: which connections and which statements succeed, by their numbers. The
  state of the outside is the statements run and the connections that are open.
\<close>

section \<open>State\<close>

record graph_client =
  gc_y :: int
  gc_x :: int
  num_UEs_now :: int
  num_UEs_pre :: int

definition new_graph_client :: graph_client where
  "new_graph_client = \<lparr>gc_y = 0, gc_x = 0, num_UEs_now = 0, num_UEs_pre = 0\<rparr>"

record neo4j =
  connects :: "nat \<Rightarrow> bool"
  runs :: "nat \<Rightarrow> bool"

record graph_log =
  statements :: "string list"
  attempts :: nat
  opened :: nat

definition exit_1 :: exn where "exit_1 = Runtime_error ''exit(1)''"

section \<open>Statements\<close>

definition create_enodeb :: string where
  "create_enodeb = ''CREATE (n:Person { name: 'EnodeB'}) RETURN n''"

definition create_ue :: string where
  "create_ue = ''MATCH (n:Person) WHERE n.name = 'EnodeB' CREATE (u:Person { name: 'UE'}), (n)-[:CONN]->(u)''"

definition delete_edges :: string where
  "delete_edges = ''MATCH (n)-[rel:CONN]->(r) WHERE n.name='EnodeB' AND r.name='UE' DELETE rel''"

definition delete_ues :: string where
  "delete_ues = ''MATCH (n:Person) WHERE n.name='UE' DELETE n''"

definition neo4j_connect :: "neo4j \<Rightarrow> graph_log \<Rightarrow> graph_log result" where
  "neo4j_connect nj g = (if connects nj (attempts g)
     then Inr (g\<lparr>attempts := attempts g + 1, opened := opened g + 1\<rparr>) else Inl exit_1)"

definition neo4j_run :: "string \<Rightarrow> graph_log \<Rightarrow> graph_log" where
  "neo4j_run st g = g\<lparr>statements := statements g @ [st]\<rparr>"

text \<open>The first statement of a group is looked at after the last has run; a failure ends the program.\<close>

definition run_group :: "neo4j \<Rightarrow> string list \<Rightarrow> graph_log \<Rightarrow> graph_log result" where
  "run_group nj sts g = rbind (neo4j_connect nj g) (\<lambda>g.
     if runs nj (length (statements g)) then Inr (fold neo4j_run sts g) else Inl exit_1)"

section \<open>The task\<close>

text \<open>This connection is closed, the ones below are not.\<close>

definition create_neo4j_graph :: "neo4j \<Rightarrow> graph_log \<Rightarrow> graph_log result" where
  "create_neo4j_graph nj g = rbind (run_group nj [create_enodeb] g) (\<lambda>g. Inr (g\<lparr>opened := opened g - 1\<rparr>))"

definition graph_bs :: "neo4j \<Rightarrow> rib \<Rightarrow> u64 \<Rightarrow> graph_client \<times> graph_log \<Rightarrow> (graph_client \<times> graph_log) result" where
  "graph_bs nj r bs_id = (\<lambda>(s, g). rbind (deref_bs bs_id r) (\<lambda>bs.
     let users = int (length (ue_config (ue_configs bs))); s = s\<lparr>num_UEs_now := users\<rparr> in
     rbind (if num_UEs_now s - num_UEs_pre s > 0 then run_group nj [create_ue] g
            else if num_UEs_now s - num_UEs_pre s < 0 then run_group nj [delete_edges, delete_ues] g
            else Inr g) (\<lambda>g.
     Inr (s\<lparr>num_UEs_pre := num_UEs_now s\<rparr>, g))))"

definition graph_task :: "neo4j \<Rightarrow> rib \<Rightarrow> graph_client \<times> graph_log \<Rightarrow> (graph_client \<times> graph_log) result" where
  "graph_task nj r = (\<lambda>(s, g).
     rbind (if gc_y s = 0 then rbind (create_neo4j_graph nj g) (\<lambda>g. Inr (s\<lparr>gc_y := gc_y s + 1\<rparr>, g)) else Inr (s, g)) (\<lambda>sg.
     rbind (foldR (graph_bs nj r) (get_available_base_stations r) sg) (\<lambda>(s, g).
     Inr (s\<lparr>gc_x := if gc_x s + 1 = 1000 then 0 else gc_x s + 1\<rparr>, g))))"

section \<open>Lemmas\<close>

text \<open>A database that answers.\<close>

definition answers :: "neo4j \<Rightarrow> bool" where
  "answers nj \<longleftrightarrow> (\<forall>k. connects nj k) \<and> (\<forall>k. runs nj k)"

lemma run_group_answers:
  "answers nj \<Longrightarrow> run_group nj sts g =
     Inr (g\<lparr>statements := statements g @ sts, attempts := attempts g + 1, opened := opened g + 1\<rparr>)"
proof -
  have "fold neo4j_run sts g = g\<lparr>statements := statements g @ sts\<rparr>" for g
    by (induction sts arbitrary: g) (simp_all add: neo4j_run_def)
  then show "answers nj \<Longrightarrow> ?thesis" by (simp add: run_group_def neo4j_connect_def answers_def)
qed

definition ue_total :: "rib \<Rightarrow> u64 \<Rightarrow> int" where
  "ue_total r b = (case get_bs b r of None \<Rightarrow> 0 | Some bs \<Rightarrow> int (length (ue_config (ue_configs bs))))"

lemma graph_bs_answers:
  assumes "answers nj" "get_bs b r \<noteq> None"
  shows "\<exists>g'. graph_bs nj r b (s, g) = Inr (s\<lparr>num_UEs_now := ue_total r b, num_UEs_pre := ue_total r b\<rparr>, g') \<and>
    statements g' = statements g @ (if ue_total r b > num_UEs_pre s then [create_ue]
      else if ue_total r b < num_UEs_pre s then [delete_edges, delete_ues] else []) \<and>
    opened g' = opened g + (if ue_total r b = num_UEs_pre s then 0 else 1)"
  using assms(2) by (auto simp: graph_bs_def deref_bs_def ue_total_def run_group_answers [OF assms(1)] Let_def split: option.splits)

section \<open>Properties\<close>

text \<open>
  The last number of users is kept once for all base stations. With two of them that have different numbers of
  users, and nothing changing, every run deletes the users and creates one, and leaves two more
  connections open.
\<close>

theorem graph_never_settles:
  assumes "answers nj" "get_available_base_stations r = [a, b]" "ue_total r a < ue_total r b"
    and "gc_y s \<noteq> 0" "num_UEs_pre s = ue_total r b"
  shows "\<exists>s' g'. foldR (graph_task nj) (replicate n r) (s, g) = Inr (s', g') \<and>
    statements g' = statements g @ concat (replicate n [delete_edges, delete_ues, create_ue]) \<and> opened g' = opened g + 2 * n"
  using assms(4,5)
proof (induction n arbitrary: s g)
  case (Suc n)
  have bs: "get_bs a r \<noteq> None" "get_bs b r \<noteq> None" using assms(2) available_get_bs by (metis list.set_intros)+
  obtain g1 where g1: "graph_bs nj r a (s, g) = Inr (s\<lparr>num_UEs_now := ue_total r a, num_UEs_pre := ue_total r a\<rparr>, g1)"
    "statements g1 = statements g @ [delete_edges, delete_ues]" "opened g1 = opened g + 1"
    using graph_bs_answers [OF assms(1) bs(1), of s g] assms(3) Suc.prems(2) by auto
  let ?s1 = "s\<lparr>num_UEs_now := ue_total r a, num_UEs_pre := ue_total r a\<rparr>"
  obtain g2 where g2: "graph_bs nj r b (?s1, g1) = Inr (?s1\<lparr>num_UEs_now := ue_total r b, num_UEs_pre := ue_total r b\<rparr>, g2)"
    "statements g2 = statements g1 @ [create_ue]" "opened g2 = opened g1 + 1"
    using graph_bs_answers [OF assms(1) bs(2), of ?s1 g1] assms(3) by auto
  obtain s2 where run: "graph_task nj r (s, g) = Inr (s2, g2)" and s2: "gc_y s2 \<noteq> 0" "num_UEs_pre s2 = ue_total r b"
    using g1(1) g2(1) Suc.prems(1) assms(2) by (simp add: graph_task_def)
  show ?case using Suc.IH [OF s2, of g2] run g1(2,3) g2(2,3) by auto
qed simp

text \<open>With one base station every change of the number of users is drawn, as one user or as none.\<close>

theorem graph_follows_changes:
  assumes "answers nj" "get_available_base_stations r = [a]" "gc_y s \<noteq> 0"
  shows "\<exists>s' g'. graph_task nj r (s, g) = Inr (s', g') \<and> num_UEs_pre s' = ue_total r a \<and>
    statements g' = statements g @ (if ue_total r a > num_UEs_pre s then [create_ue]
      else if ue_total r a < num_UEs_pre s then [delete_edges, delete_ues] else [])"
proof -
  have "get_bs a r \<noteq> None" using assms(2) available_get_bs by (metis list.set_intros(1))
  from graph_bs_answers [OF assms(1) this, of s g] show ?thesis
    using assms(2,3) by (auto simp: graph_task_def)
qed

end
