(* ===== verification/Start_Up.thy ===== *)
theory Start_Up
  imports Server_Loop "HOL-Library.Signed_Division"
begin

text \<open>
  What surrounds the loop: the scheduling of its threads (\<open>core/rt_task.cc\<close>), sleeping
  (\<open>core/rt_wrapper.cc\<close>), the options and the signals of \<open>main\<close> (\<open>core/rt_controller.cc\<close>). What
  the operating system answers is a parameter, and so is the parser of the options (boost).
\<close>

section \<open>Scheduling of a thread\<close>

text \<open>The policies of a build with \<open>LOWLATENCY\<close>, by their numbers in the system calls.\<close>

datatype rt_policy = Policy_default | Policy_rr | Policy_deadline | Policy_fifo

primrec policy_number :: "rt_policy \<Rightarrow> u32" where
  "policy_number Policy_default = 0"
| "policy_number Policy_rr = 2"
| "policy_number Policy_deadline = 6"
| "policy_number Policy_fifo = 1"

record sched_attr =
  sched_policy :: u32
  sched_priority :: u32
  sched_runtime :: u64
  sched_deadline :: u64
  sched_period :: u64

text \<open>The limits come as an \<open>int\<close> and are stored without sign.\<close>

definition set_scheduling_policy ::
  "(u32 \<Rightarrow> int) \<Rightarrow> (u32 \<Rightarrow> int) \<Rightarrow> rt_policy \<Rightarrow> u32 \<Rightarrow> u64 \<Rightarrow> u64 \<Rightarrow> u64 \<Rightarrow> sched_attr" where
  "set_scheduling_policy priority_min priority_max pol priority runtime deadline period =
     (let n = policy_number pol;
          (priority, runtime, deadline, period) =
            (if pol = Policy_default then (0, 0, 0, 0) else (priority, runtime, deadline, period));
          lowest = of_int (priority_min n) :: u32; highest = of_int (priority_max n) :: u32;
          priority = (if priority < lowest then lowest else priority);
          priority = (if priority > highest then highest else priority) in
      \<lparr>sched_policy = n, sched_priority = priority, sched_runtime = runtime, sched_deadline = deadline, sched_period = period\<rparr>)"

definition task_manager_policy :: "rt_policy \<times> u32" where "task_manager_policy = (Policy_fifo, 80)"
definition component_policy :: "rt_policy \<times> u32" where "component_policy = (Policy_rr, 20)"

text \<open>With low latency a thread that is refused its policy does not run at all.\<close>

definition execute_task :: "bool \<Rightarrow> int \<Rightarrow> ('s \<Rightarrow> 's) \<Rightarrow> 's \<Rightarrow> 's" where
  "execute_task lowlatency setattr run s = (if lowlatency \<and> setattr < 0 then s else run s)"

section \<open>Sleeping\<close>

text \<open>The point in time, in seconds and nanoseconds, at which \<open>rt_sleep_ns\<close> returns.\<close>

definition rt_sleep_ns :: "int \<times> int \<Rightarrow> int \<Rightarrow> int \<times> int" where
  "rt_sleep_ns now x =
     (let next_sec = fst now + x sdiv 1000000000; next_nsec = snd now + x smod 1000000000 in
      if next_nsec \<ge> 1000000000 then (next_sec + 1, next_nsec - 1000000000) else (next_sec, next_nsec))"

section \<open>Options\<close>

record options =
  opt_help :: bool
  opt_debug :: bool
  opt_config :: "string option"
  opt_port :: int
  opt_address :: string
  opt_nport :: int
  opt_naddress :: string

record configuration =
  log_configuration :: string
  cport :: int
  caddr :: string
  north_port :: int
  north_addr :: string

datatype start = Exit_with int | Start_with configuration

text \<open>
  An error of the parser ends the program with 2, one of the notification afterwards with 1. \<open>home\<close> is
  the environment's \<open>FLEXRAN_RTC_HOME\<close>.
\<close>

definition start_up :: "string option \<Rightarrow> string + options \<Rightarrow> bool \<Rightarrow> start" where
  "start_up home parse notified = (case parse of Inl e \<Rightarrow> Exit_with 2 | Inr opts \<Rightarrow>
     if opt_help opts then Exit_with 0
     else if \<not> notified then Exit_with 1
     else let path = (case home of Some h \<Rightarrow> h | None \<Rightarrow> ''../'') in
       Start_with \<lparr>log_configuration = (case opt_config opts of Some p \<Rightarrow> p
           | None \<Rightarrow> path @ (if opt_debug opts then ''/log_config/debug_log'' else ''/log_config/basic_log'')),
         cport = opt_port opts, caddr = opt_address opts,
         north_port = opt_nport opts, north_addr = opt_naddress opts\<rparr>)"

section \<open>Signals\<close>

text \<open>\<open>SIGUSR2\<close> is in the set that is waited for only in a build with \<open>PROFILE\<close>.\<close>

datatype signal = SIGINT | SIGUSR1 | SIGTERM | SIGUSR2

record main_state =
  g_exit_controller :: bool
  g_doprof :: bool

definition on_signal :: "signal \<Rightarrow> main_state \<Rightarrow> main_state" where
  "on_signal sig m =
     (if sig \<in> {SIGINT, SIGUSR1, SIGTERM} then m\<lparr>g_exit_controller := True\<rparr> else m\<lparr>g_doprof := True\<rparr>)"

fun wait_for_end :: "signal list \<Rightarrow> main_state \<Rightarrow> main_state option" where
  "wait_for_end sigs m = (if g_exit_controller m then Some m else
     (case sigs of [] \<Rightarrow> None | sig # sigs \<Rightarrow> wait_for_end sigs (on_signal sig m)))"

declare wait_for_end.simps [simp del]

section \<open>The life of the controller\<close>

text \<open>
  The loop looks at the flag before each cycle. Requests and writers are not stopped by it.
\<close>

datatype 'r life_event = Got_signal signal | Server_event "'r server_input"

fun is_cycle :: "'r server_input \<Rightarrow> bool" where
  "is_cycle (Server_cycle _ _ _) \<longleftrightarrow> True"
| "is_cycle _ \<longleftrightarrow> False"

definition life_step ::
  "protobuf \<Rightarrow> (int \<Rightarrow> string) \<Rightarrow> 'r regex \<Rightarrow> 'r life_event \<Rightarrow> main_state \<times> u64 \<times> 'r server \<Rightarrow>
     (main_state \<times> u64 \<times> 'r server) result" where
  "life_step pb ep rx ev = (\<lambda>(m, ts). (case ev of
     Got_signal sig \<Rightarrow> Inr (if g_exit_controller m then m else on_signal sig m, ts)
   | Server_event i \<Rightarrow>
       if g_exit_controller m \<and> is_cycle i then Inr (m, ts)
       else rbind (server_step pb ep rx i ts) (\<lambda>ts. Inr (m, ts))))"

section \<open>Lemmas\<close>

text \<open>The inputs that take effect.\<close>

fun effective :: "main_state \<Rightarrow> 'r life_event list \<Rightarrow> 'r server_input list" where
  "effective m [] = []"
| "effective m (Got_signal sig # evs) = effective (if g_exit_controller m then m else on_signal sig m) evs"
| "effective m (Server_event i # evs) =
     (if g_exit_controller m \<and> is_cycle i then effective m evs else i # effective m evs)"

lemma effective_inputs: "i \<in> set (effective m evs) \<Longrightarrow> Server_event i \<in> set evs"
  by (induction m evs rule: effective.induct) (auto split: if_splits)

lemma no_cycle_after_end: "g_exit_controller m \<Longrightarrow> i \<in> set (effective m evs) \<Longrightarrow> \<not> is_cycle i"
  by (induction m evs rule: effective.induct) (auto split: if_splits)

lemma effective_append:
  "\<exists>m'. effective m (evs @ evs') = effective m evs @ effective m' evs' \<and>
     (g_exit_controller m \<or> (\<exists>sig \<in> {SIGINT, SIGUSR1, SIGTERM}. Got_signal sig \<in> set evs) \<longrightarrow> g_exit_controller m')"
  by (induction m evs rule: effective.induct) (auto simp: on_signal_def)

lemma life_step_simps:
  "life_step pb ep rx (Got_signal sig) (m, ts) = Inr (if g_exit_controller m then m else on_signal sig m, ts)"
  "life_step pb ep rx (Server_event i) (m, ts) =
     (if g_exit_controller m \<and> is_cycle i then Inr (m, ts)
      else rbind (server_step pb ep rx i ts) (\<lambda>ts. Inr (m, ts)))"
  by (simp_all add: life_step_def)

lemma life_run:
  "rbind (foldR (life_step pb ep rx) evs (m, ts)) (\<lambda>(m, ts). Inr ts) = foldR (server_step pb ep rx) (effective m evs) ts"
proof (induction evs arbitrary: m ts)
  case (Cons ev evs)
  show ?case
  proof (cases ev)
    case (Server_event i)
    then show ?thesis using Cons.IH by (cases "server_step pb ep rx i ts") (simp_all add: life_step_simps)
  qed (simp add: life_step_simps Cons.IH)
qed simp

section \<open>Properties\<close>

text \<open>
  The priority of a thread is between the limits of its policy, and the one asked for where that is
  possible.
\<close>

theorem priority_within_limits:
  assumes "of_int (priority_min (policy_number pol)) \<le> (of_int (priority_max (policy_number pol)) :: u32)"
  shows "let p = sched_priority (set_scheduling_policy priority_min priority_max pol priority runtime deadline period) in
    of_int (priority_min (policy_number pol)) \<le> p \<and> p \<le> of_int (priority_max (policy_number pol)) \<and>
    (pol \<noteq> Policy_default \<and> of_int (priority_min (policy_number pol)) \<le> priority \<and> priority \<le> of_int (priority_max (policy_number pol))
      \<longrightarrow> p = priority)"
  using assms(1) by (cases pol) (auto simp: set_scheduling_policy_def Let_def word_gt_0)

text \<open>Sleeping for a time that is not negative ends that much later, at a normalised point in time.\<close>

theorem sleep_adds_up:
  assumes "0 \<le> x" "0 \<le> snd now" "snd now < 1000000000"
  shows "case rt_sleep_ns now x of (sec, nsec) \<Rightarrow>
    sec * 1000000000 + nsec = fst now * 1000000000 + snd now + x \<and> 0 \<le> nsec \<and> nsec < 1000000000"
proof -
  have "x sdiv 1000000000 = x div 1000000000" "x smod 1000000000 = x mod 1000000000"
    using assms(1) by (simp_all add: signed_divide_int_def signed_modulo_int_def sgn_if)
  moreover have "x div 1000000000 * 1000000000 + x mod 1000000000 = x" by simp
  moreover have "0 \<le> x mod 1000000000" "x mod 1000000000 < 1000000000" by simp_all
  ultimately show ?thesis
    using assms(2,3) unfolding rt_sleep_ns_def Let_def by (simp split: if_splits) linarith
qed

text \<open>The main thread waits until one of the three signals has come.\<close>

theorem ends_by_signal:
  "wait_for_end sigs \<lparr>g_exit_controller = False, g_doprof = p\<rparr> \<noteq> None \<longleftrightarrow> (\<exists>sig \<in> set sigs. sig \<in> {SIGINT, SIGUSR1, SIGTERM})"
proof (induction sigs arbitrary: p)
  case Nil
  then show ?case by (simp add: wait_for_end.simps)
next
  case (Cons sig sigs)
  then show ?case
    by (cases "sig \<in> {SIGINT, SIGUSR1, SIGTERM}") (auto simp: wait_for_end.simps [of "sig # sigs"] wait_for_end.simps [of sigs] on_signal_def)
qed

text \<open>
  Once a signal has ended the main thread no cycle runs any more: what follows it is requests and
  writers only, on the state the signal met.
\<close>

theorem no_cycle_after_signal:
  assumes "sig \<in> {SIGINT, SIGUSR1, SIGTERM}"
    and "foldR (life_step pb ep rx) (before @ Got_signal sig # after) (m, ts) = Inr (m', ts')"
  shows "\<exists>ts1 rest. foldR (server_step pb ep rx) (effective m before) ts = Inr ts1 \<and>
    foldR (server_step pb ep rx) rest ts1 = Inr ts' \<and> (\<forall>i \<in> set rest. \<not> is_cycle i \<and> Server_event i \<in> set after)"
proof -
  let ?evs = "before @ Got_signal sig # after"
  obtain m1 where m1: "effective m ?evs = effective m before @ effective m1 (Got_signal sig # after)"
    using effective_append by blast
  let ?m = "if g_exit_controller m1 then m1 else on_signal sig m1"
  have "g_exit_controller ?m" using assms(1) by (auto simp: on_signal_def)
  then have rest: "\<forall>i \<in> set (effective ?m after). \<not> is_cycle i \<and> Server_event i \<in> set after"
    using no_cycle_after_end effective_inputs by blast
  have "foldR (server_step pb ep rx) (effective m before @ effective ?m after) ts = Inr ts'"
    using life_run [of pb ep rx ?evs m ts] assms(2) m1 by simp
  then show ?thesis using rest by (auto simp: foldR_append rbind_Inr_eq)
qed

end
