(* ===== verification/Protocol_Message.thy ===== *)
theory Protocol_Message
  imports Prelude
begin

text \<open>
  The framed message of \<open>network/protocol_message.{h,cc}\<close>: a four-byte big-endian length
  followed by the body. Bodies of at most 24000 bytes live in the array inside the object
  (\<open>stat_data_\<close>), longer ones in a block from the heap. The object is modelled with its
  memory: a write or read past the block in use is \<open>Undefined_behaviour\<close>. \<open>fresh\<close> gives the
  contents of uninitialised memory and \<open>avail\<close> the largest block \<open>new\<close> can provide.
\<close>

section \<open>State and operations\<close>

datatype data_loc = Stat_data | Heap_block bytes

record protocol_message =
  data_ptr :: data_loc
  stat_data :: bytes
  dynamic_alloc :: bool
  body_length :: u32

definition header_length :: nat where "header_length = 4"
definition max_normal_body_length :: nat where "max_normal_body_length = 24000"

definition new_message :: "(nat \<Rightarrow> u8) \<Rightarrow> protocol_message" where
  "new_message fresh = \<lparr>data_ptr = Stat_data,
     stat_data = map fresh [0..<header_length + max_normal_body_length],
     dynamic_alloc = False, body_length = 0\<rparr>"

definition data :: "protocol_message \<Rightarrow> bytes" where
  "data m = (case data_ptr m of Stat_data \<Rightarrow> stat_data m | Heap_block b \<Rightarrow> b)"

text \<open>Writing through \<open>data_\<close>.\<close>

definition write_data :: "nat \<Rightarrow> bytes \<Rightarrow> protocol_message \<Rightarrow> protocol_message result" where
  "write_data off bs m = rbind (poke off bs (data m)) (\<lambda>mem.
     Inr (case data_ptr m of
            Stat_data \<Rightarrow> m\<lparr>stat_data := mem\<rparr>
          | Heap_block _ \<Rightarrow> m\<lparr>data_ptr := Heap_block mem\<rparr>))"

text \<open>\<open>length()\<close> is a \<open>uint32_t\<close>: the sum wraps around.\<close>

definition message_length :: "protocol_message \<Rightarrow> u32" where
  "message_length m = of_nat header_length + body_length m"

text \<open>
  \<open>header_length + new_length\<close> is computed in \<open>size_t\<close>, so the size asked of \<open>new\<close> wraps
  around at \<open>2 ^ 64\<close>.
\<close>

definition set_body_length ::
  "(nat \<Rightarrow> u8) \<Rightarrow> nat \<Rightarrow> u64 \<Rightarrow> protocol_message \<Rightarrow> protocol_message result" where
  "set_body_length fresh avail new_length m =
     (if new_length > of_nat max_normal_body_length
      then rbind (new_array fresh avail (unat (of_nat header_length + new_length))) (\<lambda>b.
        Inr (m\<lparr>data_ptr := Heap_block b, dynamic_alloc := True, body_length := ucast new_length\<rparr>))
      else Inr (m\<lparr>data_ptr := Stat_data, dynamic_alloc := False, body_length := ucast new_length\<rparr>))"

definition header_bytes :: "u64 \<Rightarrow> bytes" where
  "header_bytes sz =
     [ucast (drop_bit 24 sz AND 255), ucast (drop_bit 16 sz AND 255),
      ucast (drop_bit 8 sz AND 255), ucast (sz AND 255)]"

definition encode_header :: "u64 \<Rightarrow> protocol_message \<Rightarrow> protocol_message result" where
  "encode_header sz m = write_data 0 (header_bytes sz) m"

text \<open>\<open>memcpy(data_ + header_length, buf, sz)\<close> of the \<open>sz\<close> first bytes of \<open>buf\<close>.\<close>

definition set_message ::
  "(nat \<Rightarrow> u8) \<Rightarrow> nat \<Rightarrow> bytes \<Rightarrow> u64 \<Rightarrow> protocol_message \<Rightarrow> protocol_message result" where
  "set_message fresh avail buf sz m =
     rbind (set_body_length fresh avail sz m) (\<lambda>m.
     rbind (encode_header sz m) (\<lambda>m.
     rbind (peek 0 (unat sz) buf) (\<lambda>bs.
     write_data header_length bs m)))"

definition make_message ::
  "(nat \<Rightarrow> u8) \<Rightarrow> nat \<Rightarrow> bytes \<Rightarrow> u64 \<Rightarrow> protocol_message result" where
  "make_message fresh avail buf sz = set_message fresh avail buf sz (new_message fresh)"

text \<open>The four bytes are combined into an \<open>int\<close>, which \<open>set_body_length\<close> takes as \<open>size_t\<close>.\<close>

definition header_int :: "bytes \<Rightarrow> u32" where
  "header_int h =
     (push_bit 24 (ucast (h ! 0)) OR push_bit 16 (ucast (h ! 1)))
       OR push_bit 8 (ucast (h ! 2)) OR ucast (h ! 3)"

definition decode_header ::
  "(nat \<Rightarrow> u8) \<Rightarrow> nat \<Rightarrow> protocol_message \<Rightarrow> protocol_message result" where
  "decode_header fresh avail m =
     rbind (peek 0 4 (data m)) (\<lambda>h.
     rbind (set_body_length fresh avail (scast (header_int h)) m) (\<lambda>m.
     encode_header (scast (header_int h)) m))"

text \<open>
  The move constructor: a heap block changes hands, the inline array is copied up to its
  used length. The result is the new object and what is left of the source.
\<close>

definition move_message ::
  "(nat \<Rightarrow> u8) \<Rightarrow> protocol_message \<Rightarrow> (protocol_message \<times> protocol_message) result" where
  "move_message fresh other =
     (let moved = other\<lparr>dynamic_alloc := False\<rparr> in
      if dynamic_alloc other
      then Inr ((new_message fresh)\<lparr>data_ptr := data_ptr other, dynamic_alloc := True,
                  body_length := body_length other\<rparr>, moved)
      else rbind (peek 0 (unat (message_length other)) (stat_data other)) (\<lambda>bs.
           rbind (poke 0 bs (stat_data (new_message fresh))) (\<lambda>mem.
             Inr ((new_message fresh)\<lparr>stat_data := mem, body_length := body_length other\<rparr>, moved))))"

text \<open>The bytes handed to \<open>async_write\<close>: \<open>length()\<close> bytes from \<open>data()\<close>.\<close>

definition frame_of :: "protocol_message \<Rightarrow> bytes result" where
  "frame_of m = peek 0 (unat (message_length m)) (data m)"

definition body_of :: "protocol_message \<Rightarrow> bytes result" where
  "body_of m = peek header_length (unat (body_length m)) (data m)"

section \<open>Invariant\<close>

text \<open>
  The block in use holds the header and the whole body, and the flag says where it is.
\<close>

definition message_inv :: "protocol_message \<Rightarrow> bool" where
  "message_inv m \<longleftrightarrow>
     length (stat_data m) = header_length + max_normal_body_length \<and>
     (case data_ptr m of
        Stat_data \<Rightarrow> \<not> dynamic_alloc m \<and> unat (body_length m) \<le> max_normal_body_length
      | Heap_block b \<Rightarrow> dynamic_alloc m \<and> length b = header_length + unat (body_length m))"

lemmas message_consts = header_length_def max_normal_body_length_def

lemma new_message_inv: "message_inv (new_message fresh)"
  by (simp add: message_inv_def new_message_def message_consts)

lemma data_length:
  "message_inv m \<Longrightarrow> header_length + unat (body_length m) \<le> length (data m)"
  by (auto simp: message_inv_def data_def message_consts split: data_loc.splits)

lemma write_data_Inr:
  assumes "message_inv m" "off + length bs \<le> header_length + unat (body_length m)"
  obtains m' where "write_data off bs m = Inr m'" "message_inv m'"
    "body_length m' = body_length m" "dynamic_alloc m' = dynamic_alloc m"
    "data m' = take off (data m) @ bs @ drop (off + length bs) (data m)"
proof -
  let ?mem = "take off (data m) @ bs @ drop (off + length bs) (data m)"
  have le: "off + length bs \<le> length (data m)" using assms data_length by fastforce
  then have p: "poke off bs (data m) = Inr ?mem" by (simp add: poke_def)
  have len: "length ?mem = length (data m)" using le by simp
  show ?thesis
  proof (cases "data_ptr m")
    case Stat_data
    then have "data m = stat_data m" by (simp add: data_def)
    then show ?thesis
      using that [of "m\<lparr>stat_data := ?mem\<rparr>"] p len assms(1) Stat_data
      by (auto simp: write_data_def message_inv_def data_def)
  next
    case (Heap_block b)
    then have "data m = b" by (simp add: data_def)
    then show ?thesis
      using that [of "m\<lparr>data_ptr := Heap_block ?mem\<rparr>"] p len assms(1) Heap_block
      by (auto simp: write_data_def message_inv_def data_def)
  qed
qed

lemma unat_plus_4_u64: "unat (x :: u64) < 2 ^ 32 \<Longrightarrow> unat (4 + x) = 4 + unat x"
  by (simp add: unat_word_ariths)

lemma unat_ucast_u64_u32: "unat (x :: u64) < 2 ^ 32 \<Longrightarrow> unat (ucast x :: u32) = unat x"
  by (simp add: unat_ucast_small)

lemma set_body_length_Inr:
  assumes "message_inv m" "unat n < 2 ^ 32" "header_length + unat n \<le> avail"
  obtains m' where "set_body_length fresh avail n m = Inr m'" "message_inv m'"
    "body_length m' = ucast n" "unat (body_length m') = unat n"
proof (cases "n > of_nat max_normal_body_length")
  case True
  let ?m' = "m\<lparr>data_ptr := Heap_block (map fresh [0..<4 + unat n]), dynamic_alloc := True,
      body_length := ucast n\<rparr>"
  have "set_body_length fresh avail n m = Inr ?m'"
    using True assms by (simp add: set_body_length_def new_array_def unat_plus_4_u64 message_consts)
  moreover have "message_inv ?m'"
    using assms by (simp add: message_inv_def unat_ucast_u64_u32 message_consts)
  ultimately show ?thesis using that assms by (simp add: unat_ucast_u64_u32)
next
  case False
  let ?m' = "m\<lparr>data_ptr := Stat_data, dynamic_alloc := False, body_length := ucast n\<rparr>"
  have "unat n \<le> 24000"
    using False by (simp add: not_less word_le_nat_alt max_normal_body_length_def)
  then have "message_inv ?m'"
    using assms by (simp add: message_inv_def unat_ucast_u64_u32 message_consts)
  moreover have "set_body_length fresh avail n m = Inr ?m'"
    using False by (simp add: set_body_length_def)
  ultimately show ?thesis using that assms by (simp add: unat_ucast_u64_u32)
qed

section \<open>The length header\<close>

lemma header_bytes_length [simp]: "length (header_bytes sz) = 4"
  by (simp add: header_bytes_def)

lemma ucast_and_255: "ucast ((x :: u64) AND 255) = (ucast x :: u8)"
proof -
  have "x AND 255 = take_bit 8 x" by (simp add: take_bit_eq_mask mask_eq_exp_minus_1)
  then show ?thesis by (auto intro!: bit_word_eqI simp: bit_simps)
qed

lemma header_bytes_eq:
  "header_bytes sz = [ucast (drop_bit 24 sz), ucast (drop_bit 16 sz), ucast (drop_bit 8 sz), ucast sz]"
  unfolding header_bytes_def ucast_and_255 ..

lemma header_int_header_bytes: "header_int (header_bytes sz) = ucast sz"
proof (rule bit_word_eqI)
  fix n
  assume n: "n < LENGTH(32)"
  consider "n < 8" | "8 \<le> n" "n < 16" | "16 \<le> n" "n < 24" | "24 \<le> n" "n < 32" using n by force
  then show "bit (header_int (header_bytes sz)) n \<longleftrightarrow> bit (ucast sz :: u32) n"
    by cases (auto simp: header_int_def header_bytes_eq bit_simps)
qed

lemma scast_u32_u64:
  "unat (scast (h :: u32) :: u64) = (if unat h < 2 ^ 31 then unat h else 2 ^ 64 - 2 ^ 32 + unat h)"
proof (cases "unat h < 2 ^ 31")
  case True
  have "(scast h :: u64) = of_nat (unat h)" using True unfolding scast_eq sint_u32 by simp
  then show ?thesis using True by (simp add: unat_ucast_small)
next
  case False
  have lt: "unat h < 2 ^ 32" using unsigned_less [of h] by simp
  have "sint h = int (2 ^ 64 - 2 ^ 32 + unat h) - 2 ^ 64"
    using False by (simp add: sint_u32)
  then have "(scast h :: u64) = word_of_int (int (2 ^ 64 - 2 ^ 32 + unat h)) - word_of_int (2 ^ 64)"
    by (simp add: scast_eq del: of_nat_add)
  also have "\<dots> = of_nat (2 ^ 64 - 2 ^ 32 + unat h)"
    by (simp del: of_nat_add)
  finally show ?thesis using False lt by (simp add: unat_of_nat_small del: of_nat_add)
qed

lemma scast_ucast_small:
  assumes "unat (n :: u64) < 2 ^ 31"
  shows "(scast (ucast n :: u32) :: u64) = n"
proof -
  have "unat (ucast n :: u32) = unat n" using assms by (simp add: unat_ucast_small)
  then have "unat (scast (ucast n :: u32) :: u64) = unat n"
    using assms by (simp add: scast_u32_u64)
  then show ?thesis by (simp add: word_unat_eq_iff)
qed

lemma encode_header_Inr:
  assumes "message_inv m"
  obtains m' where "encode_header n m = Inr m'" "message_inv m'"
    "body_length m' = body_length m" "dynamic_alloc m' = dynamic_alloc m"
    "data m' = header_bytes n @ drop 4 (data m)"
  using write_data_Inr [OF assms, of 0 "header_bytes n"]
  by (auto simp: encode_header_def header_length_def)

lemma take_4_data:
  "data m' = header_bytes n @ drop 4 (data m) \<Longrightarrow> take 4 (data m') = header_bytes n"
  by simp

text \<open>Filling a message: header, then body, in a block that holds both.\<close>

lemma set_message_Inr:
  assumes "message_inv m" "unat n < 2 ^ 32" "header_length + unat n \<le> avail" "unat n \<le> length buf"
  obtains m' where "set_message fresh avail buf n m = Inr m'" "message_inv m'"
    "body_length m' = ucast n" "take (4 + unat n) (data m') = header_bytes n @ take (unat n) buf"
proof -
  obtain m1 where m1: "set_body_length fresh avail n m = Inr m1" "message_inv m1"
    "body_length m1 = ucast n" "unat (body_length m1) = unat n"
    by (rule set_body_length_Inr [OF assms(1-3), of fresh])
  obtain m2 where m2: "encode_header n m1 = Inr m2" "message_inv m2"
    "body_length m2 = body_length m1" "data m2 = header_bytes n @ drop 4 (data m1)"
    using encode_header_Inr [OF m1(2)] by metis
  let ?bs = "take (unat n) buf"
  have len: "header_length + length ?bs \<le> header_length + unat (body_length m2)"
    using m1 m2 assms by simp
  obtain m3 where m3: "write_data header_length ?bs m2 = Inr m3" "message_inv m3"
    "body_length m3 = body_length m2"
    "data m3 = take header_length (data m2) @ ?bs @ drop (header_length + length ?bs) (data m2)"
    using write_data_Inr [OF m2(2) len] by metis
  have pk: "peek 0 (unat n) buf = Inr ?bs" using assms by (simp add: peek_def)
  have "take header_length (data m2) = header_bytes n"
    using m2(4) by (simp add: header_length_def)
  then have "take (4 + unat n) (data m3) = header_bytes n @ ?bs"
    using m3(4) assms(4) by (simp add: header_length_def)
  moreover have "set_message fresh avail buf n m = Inr m3"
    using m1(1) m2(1) m3(1) pk by (simp add: set_message_def)
  ultimately show ?thesis using that [of m3] m3(2) unfolding m3(3) m2(3) m1(3) by blast
qed

lemma frame_of_Inr:
  assumes "message_inv m" "unat (body_length m) < 2 ^ 32 - 4"
  shows "frame_of m = Inr (take (4 + unat (body_length m)) (data m))"
    and "body_of m = Inr (take (unat (body_length m)) (drop 4 (data m)))"
proof -
  have "unat (message_length m) = 4 + unat (body_length m)"
    using assms(2) by (simp add: message_length_def header_length_def unat_word_ariths)
  then show "frame_of m = Inr (take (4 + unat (body_length m)) (data m))"
    using data_length [OF assms(1)] by (simp add: frame_of_def peek_def header_length_def)
  show "body_of m = Inr (take (unat (body_length m)) (drop 4 (data m)))"
    using data_length [OF assms(1)] by (simp add: body_of_def peek_def header_length_def)
qed

text \<open>Any header with the sign bit clear, announcing a body that fits in memory, is accepted.\<close>

lemma decode_header_ok:
  assumes "message_inv m" "take 4 (data m) = h" "unat (header_int h) < 2 ^ 31"
    "header_length + unat (header_int h) \<le> avail"
  obtains m' where "decode_header fresh avail m = Inr m'" "message_inv m'"
    "unat (body_length m') = unat (header_int h)" "take 4 (data m') = header_bytes (scast (header_int h))"
proof -
  let ?n = "scast (header_int h) :: u64"
  have un: "unat ?n = unat (header_int h)" using assms(3) by (simp add: scast_u32_u64)
  have "4 \<le> length (data m)" using data_length [OF assms(1)] by (simp add: header_length_def)
  then have pk: "peek 0 4 (data m) = Inr h" using assms(2) by (simp add: peek_def)
  obtain m1 where m1: "set_body_length fresh avail ?n m = Inr m1" "message_inv m1"
    "unat (body_length m1) = unat ?n"
    by (rule set_body_length_Inr [OF assms(1), of ?n avail fresh]) (use assms un in auto)
  obtain m2 where "encode_header ?n m1 = Inr m2" "message_inv m2"
    "body_length m2 = body_length m1" "data m2 = header_bytes ?n @ drop 4 (data m1)"
    using encode_header_Inr [OF m1(2)] by metis
  then show ?thesis using that m1 pk un by (simp add: decode_header_def)
qed

lemma decode_header_Inr:
  assumes "message_inv m" "take 4 (data m) = header_bytes n" "unat n < 2 ^ 31"
    "header_length + unat n \<le> avail"
  obtains m' where "decode_header fresh avail m = Inr m'" "message_inv m'"
    "unat (body_length m') = unat n" "take 4 (data m') = header_bytes n"
proof -
  have "unat (header_int (header_bytes n)) = unat n"
    using assms(3) by (simp add: header_int_header_bytes unat_ucast_small)
  moreover have "scast (header_int (header_bytes n)) = n"
    using assms(3) by (simp add: header_int_header_bytes scast_ucast_small)
  ultimately show ?thesis
    by (rule_tac decode_header_ok [OF assms(1,2), of avail fresh]) (use assms that in auto)
qed

text \<open>
  With the sign bit set the length is extended to nearly \<open>2 ^ 64\<close>. The sum with the header
  length wraps around for the four largest values.
\<close>

lemma decode_header_negative:
  assumes "message_inv m" "take 4 (data m) = h" "2 ^ 31 \<le> unat (header_int h)"
  shows "decode_header fresh avail m =
     (let sz = unat (4 + (scast (header_int h) :: u64)) in
      if avail < sz then Inl Bad_alloc
      else if sz < 4 then Inl (Undefined_behaviour ''write past the end of a buffer'')
      else decode_header fresh avail m)"
proof -
  let ?n = "scast (header_int h) :: u64"
  have "4 \<le> length (data m)" using data_length [OF assms(1)] by (simp add: header_length_def)
  then have pk: "peek 0 4 (data m) = Inr h" using assms(2) by (simp add: peek_def)
  have "24000 < unat ?n" using assms(3) by (simp add: scast_u32_u64)
  then have "?n > of_nat max_normal_body_length"
    by (simp add: max_normal_body_length_def word_less_nat_alt)
  then show ?thesis using pk
    by (auto simp: decode_header_def set_body_length_def new_array_def Let_def header_length_def
        encode_header_def write_data_def data_def poke_def)
qed

section \<open>Properties\<close>

text \<open>C8. Every body of less than \<open>2 ^ 31\<close> bytes that fits in memory is framed without touching
  memory outside the object's block, the bytes put on the wire are the length header and the
  body, and a receiver in any state that reads those four header bytes and decodes them asks
  for exactly the length of the body: reading the body then gives it back.\<close>

theorem frame_roundtrip:
  assumes "message_inv snd_msg" "message_inv rcv_msg"
    and "length body < 2 ^ 31" "header_length + length body \<le> avail"
  shows "\<exists>m. set_message fresh avail body (of_nat (length body)) snd_msg = Inr m \<and> message_inv m \<and>
           frame_of m = Inr (header_bytes (of_nat (length body)) @ body) \<and>
           (\<exists>r1 r2 r3. write_data 0 (header_bytes (of_nat (length body))) rcv_msg = Inr r1 \<and>
              decode_header fresh avail r1 = Inr r2 \<and>
              unat (body_length r2) = length body \<and>
              write_data header_length body r2 = Inr r3 \<and> body_of r3 = Inr body)"
proof -
  define n where "n = (of_nat (length body) :: u64)"
  have un: "unat n = length body" using assms(3) by (simp add: n_def unat_of_nat_small)
  obtain m where m: "set_message fresh avail body n snd_msg = Inr m" "message_inv m"
    "body_length m = ucast n" "take (4 + unat n) (data m) = header_bytes n @ take (unat n) body"
    by (rule set_message_Inr [OF assms(1), of n avail body fresh]) (use assms un in auto)
  have bl: "unat (body_length m) = length body"
    using m(3) un assms(3) by (simp add: unat_ucast_small)
  have fr: "frame_of m = Inr (header_bytes n @ body)"
    using frame_of_Inr(1) [OF m(2)] bl m(4) un assms(3) by simp
  obtain r1 where r1: "write_data 0 (header_bytes n) rcv_msg = Inr r1" "message_inv r1"
    "data r1 = header_bytes n @ drop 4 (data rcv_msg)"
    using write_data_Inr [OF assms(2), of 0 "header_bytes n"] by (auto simp: header_length_def)
  obtain r2 where r2: "decode_header fresh avail r1 = Inr r2" "message_inv r2"
    "unat (body_length r2) = unat n" "take 4 (data r2) = header_bytes n"
    by (rule decode_header_Inr [OF r1(2) take_4_data [OF r1(3)], of avail fresh]) (use assms un in auto)
  obtain r3 where r3: "write_data header_length body r2 = Inr r3" "message_inv r3"
    "body_length r3 = body_length r2"
    "data r3 = take header_length (data r2) @ body @ drop (header_length + length body) (data r2)"
    using write_data_Inr [OF r2(2), of header_length body] r2(3) un by auto
  have "length (take header_length (data r2)) = 4" using r2(4) by (simp add: header_length_def)
  then have "body_of r3 = Inr body"
    using frame_of_Inr(2) [OF r3(2)] r3(3,4) r2(3) un assms(3) by simp
  then show ?thesis using m(1,2) fr r1 r2 r3 un unfolding n_def [symmetric] by auto
qed

theorem frame_roundtrip_witness:
  "\<exists>m. set_message (\<lambda>_. 0) 100 [7, 8, 9] (of_nat (length [7 :: u8, 8, 9])) (new_message (\<lambda>_. 0)) = Inr m \<and>
     message_inv m \<and> frame_of m = Inr (header_bytes (of_nat (length [7 :: u8, 8, 9])) @ [7, 8, 9])"
proof -
  have "length [7 :: u8, 8, 9] < 2 ^ 31" "header_length + length [7 :: u8, 8, 9] \<le> 100"
    by (simp_all add: header_length_def)
  from frame_roundtrip [OF new_message_inv new_message_inv this, of "\<lambda>_. 0" "\<lambda>_. 0" "\<lambda>_. 0"]
  show ?thesis by blast
qed



end
