(* ===== verification/Agent_Session.thy ===== *)
theory Agent_Session
  imports Protocol_Message Tagged_Message
begin

text \<open>
  One TCP session with an agent (\<open>network/agent_session.{h,cc}\<close>). The asynchronous reads and
  writes of \<open>boost::asio\<close> appear as completion handlers: \<open>read_complete\<close> is what the
  controller does when the bytes it asked for have arrived, \<open>session_feed\<close> lets a whole
  stream arrive, \<open>deliver\<close> and \<open>write_complete\<close> are the sending side.
\<close>

section \<open>State\<close>

record session =
  session_id :: int
  ip_port :: string
  read_msg :: protocol_message
  write_queue :: "protocol_message list"

text \<open>Which of the two handlers the outstanding \<open>async_read\<close> has.\<close>

datatype rd_phase = Rd_header | Rd_body

definition new_session :: "(nat \<Rightarrow> u8) \<Rightarrow> int \<Rightarrow> string \<Rightarrow> session" where
  "new_session fresh i ep =
     \<lparr>session_id = i, ip_port = ep, read_msg = new_message fresh, write_queue = []\<rparr>"

section \<open>Reading\<close>

definition read_size :: "rd_phase \<Rightarrow> session \<Rightarrow> nat" where
  "read_size ph s = (case ph of Rd_header \<Rightarrow> header_length | Rd_body \<Rightarrow> unat (body_length (read_msg s)))"

text \<open>
  \<open>do_read_header\<close> decodes the header and goes on with the body; \<open>do_read_body\<close> hands a tagged
  copy of the body to the interface and goes back to the header.
\<close>

definition read_complete ::
  "(nat \<Rightarrow> u8) \<Rightarrow> nat \<Rightarrow> rd_phase \<Rightarrow> bytes \<Rightarrow> session \<Rightarrow>
     (session \<times> rd_phase \<times> tagged_message option) result" where
  "read_complete fresh avail ph bs s = (case ph of
     Rd_header \<Rightarrow>
       rbind (write_data 0 bs (read_msg s)) (\<lambda>m.
       rbind (decode_header fresh avail m) (\<lambda>m.
         Inr (s\<lparr>read_msg := m\<rparr>, Rd_body, None)))
   | Rd_body \<Rightarrow>
       rbind (write_data header_length bs (read_msg s)) (\<lambda>m.
       rbind (tm_make fresh avail (drop header_length (data m)) (ucast (body_length m)) (session_id s)) (\<lambda>th.
         Inr (s\<lparr>read_msg := m\<rparr>, Rd_header, Some th))))"

lemma read_complete_phase:
  "read_complete fresh avail ph bs s = Inr (s', ph', out) \<Longrightarrow>
     ph' = (case ph of Rd_header \<Rightarrow> Rd_body | Rd_body \<Rightarrow> Rd_header)"
  by (cases ph) (auto simp: read_complete_def rbind_Inr_eq)

text \<open>
  A stream arrives: handlers run as long as the bytes they wait for are there. The result
  has the messages forwarded, the state of the session and the bytes still unread.
\<close>

function session_feed ::
  "(nat \<Rightarrow> u8) \<Rightarrow> nat \<Rightarrow> session \<times> rd_phase \<Rightarrow> bytes \<Rightarrow>
     (tagged_message list \<times> (session \<times> rd_phase) \<times> bytes) result" where
  "session_feed fresh avail (s, ph) stream =
     (if length stream < read_size ph s then Inr ([], (s, ph), stream)
      else rbind (read_complete fresh avail ph (take (read_size ph s) stream) s) (\<lambda>(s', ph', out).
           rbind (session_feed fresh avail (s', ph') (drop (read_size ph s) stream)) (\<lambda>(ms, t, r).
             Inr (case out of None \<Rightarrow> ms | Some m \<Rightarrow> m # ms, t, r))))"
  by pat_completeness auto

termination
  by (relation "measure (\<lambda>(_, _, (_, ph), bs). 2 * length bs + (if ph = Rd_body then 1 else 0))")
    (auto dest!: read_complete_phase simp: read_size_def header_length_def split: rd_phase.splits)

declare session_feed.simps [simp del]

text \<open>The contents and tags of the forwarded messages.\<close>

definition session_read ::
  "(nat \<Rightarrow> u8) \<Rightarrow> nat \<Rightarrow> session \<times> rd_phase \<Rightarrow> bytes \<Rightarrow>
     ((bytes \<times> int) list \<times> (session \<times> rd_phase) \<times> bytes) result" where
  "session_read fresh avail st stream =
     rbind (session_feed fresh avail st stream) (\<lambda>(ms, t, r). Inr (map tagged_view ms, t, r))"

definition frame :: "bytes \<Rightarrow> bytes" where
  "frame body = header_bytes (of_nat (length body)) @ body"

definition frame_ok :: "nat \<Rightarrow> int \<Rightarrow> bytes \<times> int \<Rightarrow> bool" where
  "frame_ok avail i x \<longleftrightarrow> length (fst x) < 2 ^ 31 \<and> header_length + length (fst x) \<le> avail \<and> snd x = i"

text \<open>A session that waits for a header.\<close>

definition at_header :: "int \<Rightarrow> session \<times> rd_phase \<Rightarrow> bool" where
  "at_header i st \<longleftrightarrow> snd st = Rd_header \<and> message_inv (read_msg (fst st)) \<and> session_id (fst st) = i"

lemma read_header_step:
  assumes "at_header i (s, Rd_header)" "length body < 2 ^ 31" "header_length + length body \<le> avail"
  obtains m where
    "read_complete fresh avail Rd_header (header_bytes (of_nat (length body))) s =
       Inr (s\<lparr>read_msg := m\<rparr>, Rd_body, None)"
    "message_inv m" "unat (body_length m) = length body"
proof -
  let ?n = "of_nat (length body) :: u64"
  have un: "unat ?n = length body" using assms(2) by (simp add: unat_of_nat_small)
  have inv: "message_inv (read_msg s)" using assms(1) by (simp add: at_header_def)
  obtain m1 where m1: "write_data 0 (header_bytes ?n) (read_msg s) = Inr m1" "message_inv m1"
    "data m1 = header_bytes ?n @ drop 4 (data (read_msg s))"
    using write_data_Inr [OF inv, of 0 "header_bytes ?n"] by (auto simp: header_length_def)
  obtain m2 where m2: "decode_header fresh avail m1 = Inr m2" "message_inv m2"
    "unat (body_length m2) = unat ?n"
    by (rule decode_header_Inr [OF m1(2) take_4_data [OF m1(3)], of avail fresh]) (use assms un in auto)
  show ?thesis
    by (rule that [of m2]) (use m1 m2 un in \<open>auto simp: read_complete_def\<close>)
qed

lemma read_body_step:
  assumes "message_inv (read_msg s)" "unat (body_length (read_msg s)) = length body" "session_id s = i"
    "length body < 2 ^ 31" "length body \<le> avail"
  obtains s' th where "read_complete fresh avail Rd_body body s = Inr (s', Rd_header, Some th)"
    "at_header i (s', Rd_header)" "tagged_view th = (body, i)"
proof -
  let ?n = "ucast (body_length (read_msg s)) :: u64"
  have un: "unat ?n = length body" using assms(2,4) by (simp add: unat_ucast_small)
  obtain m where m: "write_data header_length body (read_msg s) = Inr m" "message_inv m"
    "body_length m = body_length (read_msg s)"
    "data m = take header_length (data (read_msg s)) @ body @ drop (header_length + length body) (data (read_msg s))"
    using write_data_Inr [OF assms(1), of header_length body] assms(2) by auto
  have l4: "length (take header_length (data (read_msg s))) = header_length"
    using data_length [OF assms(1)] by simp
  then have d: "drop header_length (data m) = body @ drop (header_length + length body) (data (read_msg s))"
    using m(4) by simp
  obtain r where r: "tm_reserve fresh avail ?n i = Inr r" "tagged_inv r" "tm_size r = ?n" "tm_tag r = i"
    by (rule tm_reserve_Inr [of ?n avail fresh i]) (use un assms(5) in auto)
  obtain th where th: "write_contents body r = Inr th" "tagged_view th = (body, i)"
    using write_contents_Inr [OF r(2), of body] r un by metis
  have "tm_make fresh avail (drop header_length (data m)) ?n i = Inr th"
    using r th un by (simp add: tm_make_eq d peek_def)
  then show ?thesis
    using that [of "s\<lparr>read_msg := m\<rparr>" th] m th assms(3)
    by (simp add: read_complete_def at_header_def)
qed

lemma session_read_frame:
  assumes "frame_ok avail i x" "at_header i st"
  shows "\<exists>st'. at_header i st' \<and> (\<forall>rest. session_read fresh avail st (frame (fst x) @ rest) =
           rbind (session_read fresh avail st' rest) (\<lambda>(ys, t, r). Inr (x # ys, t, r)))"
proof -
  obtain body where x: "x = (body, i)" "length body < 2 ^ 31" "header_length + length body \<le> avail"
    using assms(1) by (cases x) (auto simp: frame_ok_def)
  obtain s where st: "st = (s, Rd_header)"
    using assms(2) by (cases st) (auto simp: at_header_def)
  let ?h = "header_bytes (of_nat (length body))"
  obtain m where m: "read_complete fresh avail Rd_header ?h s = Inr (s\<lparr>read_msg := m\<rparr>, Rd_body, None)"
    "message_inv m" "unat (body_length m) = length body"
    by (rule read_header_step [OF assms(2) [unfolded st] x(2,3), of fresh])
  let ?s1 = "s\<lparr>read_msg := m\<rparr>"
  obtain s' th where s': "read_complete fresh avail Rd_body body ?s1 = Inr (s', Rd_header, Some th)"
    "at_header i (s', Rd_header)" "tagged_view th = (body, i)"
    by (rule read_body_step [of ?s1 body i avail fresh]) (use m x assms(2) st in \<open>auto simp: at_header_def\<close>)
  have hd: "session_feed fresh avail (s, Rd_header) (frame body @ rest) =
      session_feed fresh avail (?s1, Rd_body) (body @ rest)" for rest
  proof -
    have "rbind v (\<lambda>(ms, t, r). Inr (ms, t, r)) = v" for v :: "(tagged_message list \<times> (session \<times> rd_phase) \<times> bytes) result"
      by (cases v) auto
    then show ?thesis
      using m(1) by (subst session_feed.simps) (simp add: read_size_def header_length_def frame_def)
  qed
  have bd: "session_feed fresh avail (?s1, Rd_body) (body @ rest) =
      rbind (session_feed fresh avail (s', Rd_header) rest) (\<lambda>(ms, t, r). Inr (th # ms, t, r))" for rest
    using s'(1) m(3) by (subst session_feed.simps) (simp add: read_size_def case_prod_beta)
  have "session_read fresh avail st (frame (fst x) @ rest) =
      rbind (session_read fresh avail (s', Rd_header) rest) (\<lambda>(ys, t, r). Inr (x # ys, t, r))" for rest
    by (cases "session_feed fresh avail (s', Rd_header) rest")
      (use s'(3) in \<open>auto simp: session_read_def st x(1) hd bd\<close>)
  then show ?thesis using s'(2) by blast
qed

interpretation sess: framing "\<lambda>x. frame (fst x)" "session_read fresh avail" "frame_ok avail i" "at_header i"
  for fresh avail i
  by unfold_locales (rule session_read_frame)

lemma session_read_waiting: "at_header i st \<Longrightarrow> session_read fresh avail st [] = Inr ([], st, [])"
  by (cases st) (auto simp: at_header_def session_read_def session_feed.simps read_size_def header_length_def)

end
