(* ===== verification/Network.thy ===== *)
theory Network
  imports Agent_Session
begin

text \<open>
  \<open>network/connection_manager.{h,cc}\<close> and \<open>network/async_xface.{h,cc}\<close>: the sessions by id,
  the two bounded queues between the network and the task thread, and the completion
  handlers the network thread runs. A step is one handler or one call of the task thread, so
  a sequence of steps is an interleaving of the two threads.

  The lock-free queues of Boost are a parameter \<open>lf_queue\<close>; what the code relies on is
  \<open>bounded_fifo\<close>. Objects are tracked by their owners: a session lives while it is registered
  in \<open>sessions_\<close> or while a write handler holds it (\<open>self\<close> in \<open>do_write\<close>). The read handlers
  hold only \<open>this\<close>, so a handler that runs after the object is gone is an undefined access.
\<close>

section \<open>The queues\<close>

record 'q lf_queue =
  lf_push :: "'q \<Rightarrow> tagged_message \<Rightarrow> 'q option"
  lf_pop :: "'q \<Rightarrow> (tagged_message \<times> 'q) option"
  lf_empty :: 'q

definition bounded_fifo :: "nat \<Rightarrow> ('q \<Rightarrow> tagged_message list) \<Rightarrow> 'q lf_queue \<Rightarrow> bool" where
  "bounded_fifo cap contents Q \<longleftrightarrow> contents (lf_empty Q) = [] \<and>
     (\<forall>q m. case lf_push Q q m of
        None \<Rightarrow> length (contents q) \<ge> cap
      | Some q' \<Rightarrow> length (contents q) < cap \<and> contents q' = contents q @ [m]) \<and>
     (\<forall>q. case lf_pop Q q of
        None \<Rightarrow> contents q = []
      | Some (m, q') \<Rightarrow> contents q = m # contents q')"

lemma bounded_fifo_push:
  assumes "bounded_fifo cap contents Q"
  shows "lf_push Q q m = None \<Longrightarrow> cap \<le> length (contents q)"
    and "lf_push Q q m = Some q' \<Longrightarrow> length (contents q) < cap"
    and "lf_push Q q m = Some q' \<Longrightarrow> contents q' = contents q @ [m]"
proof -
  have "case lf_push Q q m of None \<Rightarrow> length (contents q) \<ge> cap
      | Some q' \<Rightarrow> length (contents q) < cap \<and> contents q' = contents q @ [m]"
    using assms unfolding bounded_fifo_def by blast
  then show "lf_push Q q m = None \<Longrightarrow> cap \<le> length (contents q)"
    "lf_push Q q m = Some q' \<Longrightarrow> length (contents q) < cap"
    "lf_push Q q m = Some q' \<Longrightarrow> contents q' = contents q @ [m]" by auto
qed

lemma bounded_fifo_pop:
  assumes "bounded_fifo cap contents Q"
  shows "lf_pop Q q = None \<Longrightarrow> contents q = []"
    and "lf_pop Q q = Some (m, q') \<Longrightarrow> contents q = m # contents q'"
proof -
  have "case lf_pop Q q of None \<Rightarrow> contents q = [] | Some (m, q') \<Rightarrow> contents q = m # contents q'"
    using assms unfolding bounded_fifo_def by blast
  then show "lf_pop Q q = None \<Longrightarrow> contents q = []"
    "lf_pop Q q = Some (m, q') \<Longrightarrow> contents q = m # contents q'" by auto
qed

definition queue_capacity :: nat where "queue_capacity = 10000"

section \<open>State\<close>

record 'q network =
  objects :: "int \<Rightarrow> session option"
  registered :: "int set"
  next_id :: int
  reads :: "int \<Rightarrow> rd_phase option"
  writes :: "int set"
  in_queue :: 'q
  out_queue :: 'q
  unposted :: nat
  posted :: nat
  wire :: "int \<Rightarrow> bytes"
  handed :: "int \<Rightarrow> bytes list"

text \<open>
  \<open>reads\<close> and \<open>writes\<close> are the asynchronous operations the kernel has outstanding,
  \<open>posted\<close> the number of \<open>forward_msg_to_agent\<close> handlers waiting in the \<open>io_service\<close>,
  \<open>unposted\<close> the number of \<open>send_msg\<close> calls between their \<open>push\<close> and their \<open>post\<close>. \<open>wire\<close>
  records the bytes written to each socket, \<open>handed\<close> the bodies given to \<open>deliver\<close>.
\<close>

definition new_network :: "'q lf_queue \<Rightarrow> 'q network" where
  "new_network Q = \<lparr>objects = (\<lambda>_. None), registered = {}, next_id = 0, reads = (\<lambda>_. None),
     writes = {}, in_queue = lf_empty Q, out_queue = lf_empty Q, unposted = 0, posted = 0,
     wire = (\<lambda>_. []), handed = (\<lambda>_. [])\<rparr>"

section \<open>Operations\<close>

text \<open>\<open>in_queue_.push(msg)\<close>, whose result \<open>forward_message\<close> ignores: a full queue loses the message.\<close>

definition forward_message :: "'q lf_queue \<Rightarrow> tagged_message \<Rightarrow> 'q network \<Rightarrow> 'q network" where
  "forward_message Q m n = (case lf_push Q (in_queue n) m of None \<Rightarrow> n | Some q \<Rightarrow> n\<lparr>in_queue := q\<rparr>)"

definition get_msg_from_network :: "'q lf_queue \<Rightarrow> 'q network \<Rightarrow> tagged_message option \<times> 'q network" where
  "get_msg_from_network Q n = (case lf_pop Q (in_queue n) of
     None \<Rightarrow> (None, n) | Some (m, q) \<Rightarrow> (Some m, n\<lparr>in_queue := q\<rparr>))"

text \<open>The shared pointer to a session is dropped: the object goes when nothing else holds it.\<close>

definition release_object :: "int \<Rightarrow> 'q network \<Rightarrow> 'q network" where
  "release_object i n = (if i \<in> registered n \<or> i \<in> writes n then n
     else n\<lparr>objects := (objects n)(i := None)\<rparr>)"

definition object :: "int \<Rightarrow> 'q network \<Rightarrow> session result" where
  "object i n = (case objects n i of
     None \<Rightarrow> Inl (Undefined_behaviour ''access to a destroyed agent_session'') | Some s \<Rightarrow> Inr s)"

text \<open>\<open>do_accept\<close>, completion without error: register, start reading, announce the connection.\<close>

definition accept_done ::
  "(nat \<Rightarrow> u8) \<Rightarrow> nat \<Rightarrow> 'q lf_queue \<Rightarrow> string \<Rightarrow> 'q network \<Rightarrow> 'q network result" where
  "accept_done fresh avail Q ep n =
     (let i = next_id n in
      rbind (tm_reserve fresh avail 0 i) (\<lambda>th.
        Inr (forward_message Q th
          (n\<lparr>objects := (objects n)(i \<mapsto> new_session fresh i ep), registered := insert i (registered n),
             reads := (reads n)(i \<mapsto> Rd_header)\<rparr>)\<lparr>next_id := i + 1\<rparr>)))"

text \<open>\<open>do_write\<close>: the front of the queue is handed to \<open>async_write\<close>.\<close>

definition do_write :: "int \<Rightarrow> 'q network \<Rightarrow> 'q network" where
  "do_write i n = n\<lparr>writes := insert i (writes n)\<rparr>"

definition deliver ::
  "(nat \<Rightarrow> u8) \<Rightarrow> nat \<Rightarrow> int \<Rightarrow> tagged_message \<Rightarrow> 'q network \<Rightarrow> 'q network result" where
  "deliver fresh avail i msg n =
     rbind (object i n) (\<lambda>s.
     rbind (make_message fresh avail (contents_mem msg) (word_of_int (getSize msg))) (\<lambda>pm.
       let write_in_progress = write_queue s \<noteq> [];
           n' = n\<lparr>objects := (objects n)(i \<mapsto> s\<lparr>write_queue := write_queue s @ [pm]\<rparr>),
                  handed := (handed n)(i := handed n i @ [fst (tagged_view msg)])\<rparr>
       in Inr (if write_in_progress then n' else do_write i n')))"

definition send_msg_to_agent ::
  "(nat \<Rightarrow> u8) \<Rightarrow> nat \<Rightarrow> tagged_message \<Rightarrow> 'q network \<Rightarrow> 'q network result" where
  "send_msg_to_agent fresh avail msg n =
     (if tm_tag msg \<notin> registered n then Inr n else deliver fresh avail (tm_tag msg) msg n)"

definition get_endpoint :: "int \<Rightarrow> 'q network \<Rightarrow> string result" where
  "get_endpoint i n = (if i \<notin> registered n then Inr [] else rbind (object i n) (\<lambda>s. Inr (ip_port s)))"

text \<open>
  \<open>generate_disconnect_msg\<close>: \<open>disconnect\<close> is the serialisation of the disconnect message,
  which is the generated code's.
\<close>

definition generate_disconnect_msg ::
  "(nat \<Rightarrow> u8) \<Rightarrow> nat \<Rightarrow> 'q lf_queue \<Rightarrow> bytes \<Rightarrow> int \<Rightarrow> 'q network \<Rightarrow> 'q network result" where
  "generate_disconnect_msg fresh avail Q disconnect i n =
     rbind (object i n) (\<lambda>s.
     rbind (tm_reserve fresh avail (of_nat (length disconnect)) (session_id s)) (\<lambda>tm.
     rbind (write_contents disconnect tm) (\<lambda>tm. Inr (forward_message Q tm n))))"

text \<open>The completion of the outstanding read of session \<open>i\<close> with the bytes asked for.\<close>

definition read_done ::
  "(nat \<Rightarrow> u8) \<Rightarrow> nat \<Rightarrow> 'q lf_queue \<Rightarrow> int \<Rightarrow> bytes \<Rightarrow> 'q network \<Rightarrow> 'q network result" where
  "read_done fresh avail Q i bs n = (case reads n i of
     None \<Rightarrow> Inr n
   | Some ph \<Rightarrow>
       rbind (object i n) (\<lambda>s.
       rbind (read_complete fresh avail ph bs s) (\<lambda>(s', ph', out).
         let n' = n\<lparr>objects := (objects n)(i \<mapsto> s'), reads := (reads n)(i \<mapsto> ph')\<rparr>
         in Inr (case out of None \<Rightarrow> n' | Some th \<Rightarrow> forward_message Q th n'))))"

text \<open>The completion of the read with an error (end of file, reset, aborted by \<open>close\<close>).\<close>

definition read_failed ::
  "(nat \<Rightarrow> u8) \<Rightarrow> nat \<Rightarrow> 'q lf_queue \<Rightarrow> bytes \<Rightarrow> int \<Rightarrow> 'q network \<Rightarrow> 'q network result" where
  "read_failed fresh avail Q disconnect i n = (case reads n i of
     None \<Rightarrow> Inr n
   | Some _ \<Rightarrow> generate_disconnect_msg fresh avail Q disconnect i (n\<lparr>reads := (reads n)(i := None)\<rparr>))"

definition write_done :: "int \<Rightarrow> 'q network \<Rightarrow> 'q network result" where
  "write_done i n = (if i \<notin> writes n then Inr n else
     rbind (object i n) (\<lambda>s. case write_queue s of
       [] \<Rightarrow> Inl (Undefined_behaviour ''front of an empty queue'')
     | pm # rest \<Rightarrow>
         rbind (frame_of pm) (\<lambda>fr.
         let n' = n\<lparr>objects := (objects n)(i \<mapsto> s\<lparr>write_queue := rest\<rparr>), writes := writes n - {i},
                    wire := (wire n)(i := wire n i @ fr)\<rparr>
         in Inr (if rest \<noteq> [] then do_write i n' else release_object i n'))))"

definition write_failed ::
  "(nat \<Rightarrow> u8) \<Rightarrow> nat \<Rightarrow> 'q lf_queue \<Rightarrow> bytes \<Rightarrow> int \<Rightarrow> 'q network \<Rightarrow> 'q network result" where
  "write_failed fresh avail Q disconnect i n = (if i \<notin> writes n then Inr n else
     rbind (generate_disconnect_msg fresh avail Q disconnect i n) (\<lambda>n.
       Inr (release_object i (n\<lparr>writes := writes n - {i}\<rparr>))))"

definition close_connection :: "int \<Rightarrow> 'q network \<Rightarrow> 'q network" where
  "close_connection i n = (if i \<in> registered n
     then release_object i (n\<lparr>registered := registered n - {i}\<rparr>) else n)"

text \<open>\<open>send_msg\<close> of the task thread: first the push, then the post, which another thread can separate.\<close>

definition send_push ::
  "(nat \<Rightarrow> u8) \<Rightarrow> nat \<Rightarrow> 'q lf_queue \<Rightarrow> bytes \<Rightarrow> int \<Rightarrow> 'q network \<Rightarrow> ('q network \<times> bool) result" where
  "send_push fresh avail Q msg agent_tag n =
     rbind (tm_reserve fresh avail (of_nat (length msg)) agent_tag) (\<lambda>tm.
     rbind (write_contents msg tm) (\<lambda>tm.
       Inr (case lf_push Q (out_queue n) tm of
              None \<Rightarrow> (n, False)
            | Some q \<Rightarrow> (n\<lparr>out_queue := q, unposted := unposted n + 1\<rparr>, True))))"

definition send_post :: "'q network \<Rightarrow> 'q network" where
  "send_post n = (if unposted n = 0 then n
     else n\<lparr>unposted := unposted n - 1, posted := posted n + 1\<rparr>)"

text \<open>
  \<open>forward_msg_to_agent\<close> does not look at the result of \<open>pop\<close>: on an empty queue \<open>msg\<close> would
  be an uninitialised pointer.
\<close>

definition forward_msg_to_agent ::
  "(nat \<Rightarrow> u8) \<Rightarrow> nat \<Rightarrow> 'q lf_queue \<Rightarrow> 'q network \<Rightarrow> 'q network result" where
  "forward_msg_to_agent fresh avail Q n = (if posted n = 0 then Inr n
     else case lf_pop Q (out_queue n) of
       None \<Rightarrow> Inl (Undefined_behaviour ''uninitialised tagged_message pointer'')
     | Some (msg, q) \<Rightarrow> send_msg_to_agent fresh avail msg (n\<lparr>out_queue := q, posted := posted n - 1\<rparr>))"

section \<open>Steps\<close>

datatype net_event =
    Accepted string
  | Read_done int bytes
  | Read_failed int
  | Write_done int
  | Write_failed int
  | Run_forward
  | Send_push bytes int
  | Send_post
  | Get_msg
  | Release int

fun net_step ::
  "(nat \<Rightarrow> u8) \<Rightarrow> nat \<Rightarrow> 'q lf_queue \<Rightarrow> bytes \<Rightarrow> net_event \<Rightarrow> 'q network \<Rightarrow> 'q network result" where
  "net_step fresh avail Q dm (Accepted ep) n = accept_done fresh avail Q ep n"
| "net_step fresh avail Q dm (Read_done i bs) n = read_done fresh avail Q i bs n"
| "net_step fresh avail Q dm (Read_failed i) n = read_failed fresh avail Q dm i n"
| "net_step fresh avail Q dm (Write_done i) n = write_done i n"
| "net_step fresh avail Q dm (Write_failed i) n = write_failed fresh avail Q dm i n"
| "net_step fresh avail Q dm Run_forward n = forward_msg_to_agent fresh avail Q n"
| "net_step fresh avail Q dm (Send_push msg tag) n =
     rbind (send_push fresh avail Q msg tag n) (\<lambda>(n', _). Inr n')"
| "net_step fresh avail Q dm Send_post n = Inr (send_post n)"
| "net_step fresh avail Q dm Get_msg n = Inr (snd (get_msg_from_network Q n))"
| "net_step fresh avail Q dm (Release i) n = Inr (close_connection i n)"

section \<open>Invariant\<close>

text \<open>The environment: queues as documented, a disconnect message of reasonable size.\<close>

definition env_ok :: "nat \<Rightarrow> ('q \<Rightarrow> tagged_message list) \<Rightarrow> 'q lf_queue \<Rightarrow> bytes \<Rightarrow> bool" where
  "env_ok avail contents Q dm \<longleftrightarrow> bounded_fifo queue_capacity contents Q \<and> length dm \<le> avail \<and> length dm < 2 ^ 31"

definition sendable :: "nat \<Rightarrow> bytes \<Rightarrow> bool" where
  "sendable avail bs \<longleftrightarrow> length bs < 2 ^ 31 \<and> header_length + length bs \<le> avail"

definition out_ok :: "nat \<Rightarrow> tagged_message \<Rightarrow> bool" where
  "out_ok avail m \<longleftrightarrow> tagged_inv m \<and> sendable avail (fst (tagged_view m))"

definition frame_bytes :: "protocol_message \<Rightarrow> bytes" where
  "frame_bytes pm = (case frame_of pm of Inl _ \<Rightarrow> [] | Inr b \<Rightarrow> b)"

text \<open>
  The write queue of a session holds exactly the frames of what was handed to it and is not
  yet on the wire, in order.
\<close>

definition session_ok :: "int \<Rightarrow> session \<Rightarrow> bytes \<Rightarrow> bytes list \<Rightarrow> bool" where
  "session_ok i s w h \<longleftrightarrow> session_id s = i \<and> message_inv (read_msg s) \<and>
     (\<forall>pm \<in> set (write_queue s). is_ok (frame_of pm)) \<and>
     w @ concat (map frame_bytes (write_queue s)) = concat (map frame h)"

definition net_inv :: "nat \<Rightarrow> ('q \<Rightarrow> tagged_message list) \<Rightarrow> 'q lf_queue \<Rightarrow> bytes \<Rightarrow> 'q network \<Rightarrow> bool" where
  "net_inv avail contents Q dm n \<longleftrightarrow> env_ok avail contents Q dm \<and>
     (\<forall>i s. objects n i = Some s \<longrightarrow> i < next_id n \<and> session_ok i s (wire n i) (handed n i)) \<and>
     (\<forall>i. next_id n \<le> i \<longrightarrow> wire n i = [] \<and> handed n i = []) \<and>
     (\<forall>i \<in> registered n. objects n i \<noteq> None) \<and>
     (\<forall>i \<in> writes n. \<exists>s. objects n i = Some s \<and> write_queue s \<noteq> []) \<and>
     (\<forall>i. reads n i \<noteq> None \<longrightarrow> i \<in> registered n) \<and>
     (\<forall>i s. reads n i = Some Rd_body \<longrightarrow> objects n i = Some s \<longrightarrow>
        unat (body_length (read_msg s)) < 2 ^ 31 \<and> unat (body_length (read_msg s)) \<le> avail) \<and>
     length (contents (out_queue n)) = posted n + unposted n \<and>
     (\<forall>m \<in> set (contents (out_queue n)). out_ok avail m)"

text \<open>
  The steps the rest of the program and a well-behaved agent make: reads deliver the number of
  bytes asked for, headers have the sign bit clear and announce a body that fits in memory,
  and a connection is released when no read of it is outstanding.
\<close>

fun net_enabled :: "nat \<Rightarrow> net_event \<Rightarrow> 'q network \<Rightarrow> bool" where
  "net_enabled avail (Read_done i bs) n = (case (reads n i, objects n i) of
      (Some Rd_header, Some s) \<Rightarrow> length bs = 4 \<and> unat (header_int bs) < 2 ^ 31 \<and>
         header_length + unat (header_int bs) \<le> avail
    | (Some Rd_body, Some s) \<Rightarrow> length bs = unat (body_length (read_msg s))
    | _ \<Rightarrow> True)"
| "net_enabled avail (Send_push msg tag) n = sendable avail msg"
| "net_enabled avail (Release i) n = (reads n i = None)"
| "net_enabled avail _ n = True"

lemma net_invD:
  assumes "net_inv avail contents Q dm n"
  shows "env_ok avail contents Q dm"
    and "objects n i = Some s \<Longrightarrow> i < next_id n \<and> session_ok i s (wire n i) (handed n i)"
    and "next_id n \<le> i \<Longrightarrow> wire n i = [] \<and> handed n i = []"
    and "i \<in> registered n \<Longrightarrow> \<exists>s. objects n i = Some s"
    and "i \<in> writes n \<Longrightarrow> \<exists>s. objects n i = Some s \<and> write_queue s \<noteq> []"
    and "reads n i \<noteq> None \<Longrightarrow> i \<in> registered n"
    and "reads n i = Some Rd_body \<Longrightarrow> objects n i = Some s \<Longrightarrow>
        unat (body_length (read_msg s)) < 2 ^ 31 \<and> unat (body_length (read_msg s)) \<le> avail"
    and "length (contents (out_queue n)) = posted n + unposted n"
    and "m \<in> set (contents (out_queue n)) \<Longrightarrow> out_ok avail m"
  using assms unfolding net_inv_def by auto

lemma net_inv_fields:
  assumes "net_inv avail contents Q dm n"
    and "objects n' = objects n" "registered n' = registered n" "next_id n' = next_id n"
      "reads n' = reads n" "writes n' = writes n" "out_queue n' = out_queue n"
      "posted n' + unposted n' = posted n + unposted n" "wire n' = wire n" "handed n' = handed n"
  shows "net_inv avail contents Q dm n'"
  using assms unfolding net_inv_def by simp

lemma forward_message_fields [simp]:
  "objects (forward_message Q m n) = objects n" "registered (forward_message Q m n) = registered n"
  "next_id (forward_message Q m n) = next_id n" "reads (forward_message Q m n) = reads n"
  "writes (forward_message Q m n) = writes n" "out_queue (forward_message Q m n) = out_queue n"
  "posted (forward_message Q m n) = posted n" "unposted (forward_message Q m n) = unposted n"
  "wire (forward_message Q m n) = wire n" "handed (forward_message Q m n) = handed n"
  by (simp_all add: forward_message_def split: option.splits)

lemma net_inv_forward: "net_inv avail contents Q dm n \<Longrightarrow> net_inv avail contents Q dm (forward_message Q m n)"
  by (erule net_inv_fields) simp_all

lemma object_Inr: "objects n i = Some s \<Longrightarrow> object i n = Inr s"
  by (simp add: object_def)

lemma frame_of_make:
  assumes "length buf \<ge> unat sz" "unat sz < 2 ^ 31" "header_length + unat sz \<le> avail"
  obtains pm where "make_message fresh avail buf sz = Inr pm"
    "frame_of pm = Inr (frame (take (unat sz) buf))"
proof -
  obtain m where m: "set_message fresh avail buf sz (new_message fresh) = Inr m" "message_inv m"
    "body_length m = ucast sz" "take (4 + unat sz) (data m) = header_bytes sz @ take (unat sz) buf"
    by (rule set_message_Inr [OF new_message_inv, of sz avail buf fresh fresh]) (use assms in auto)
  have bl: "unat (body_length m) = unat sz" using m(3) assms(2) by (simp add: unat_ucast_small)
  have "of_nat (length (take (unat sz) buf)) = sz" using assms(1) by simp
  then have "frame_of m = Inr (frame (take (unat sz) buf))"
    using frame_of_Inr(1) [OF m(2)] bl m(4) assms(2) by (simp add: frame_def)
  then show ?thesis using that m(1) by (simp add: make_message_def)
qed

lemma deliver_inv:
  assumes inv: "net_inv avail contents Q dm n" and s: "objects n i = Some s" and m: "out_ok avail msg"
  obtains n' where "deliver fresh avail i msg n = Inr n'" "net_inv avail contents Q dm n'"
proof -
  let ?b = "fst (tagged_view msg)"
  have le: "unat (tm_size msg) \<le> length (contents_mem msg)"
    using m tagged_inv_length by (auto simp: out_ok_def)
  then have b: "?b = take (unat (tm_size msg)) (contents_mem msg)" "length ?b = unat (tm_size msg)"
    by (simp_all add: tagged_view_def)
  then have sz: "unat (tm_size msg) < 2 ^ 31" "header_length + unat (tm_size msg) \<le> avail"
    using m by (simp_all add: out_ok_def sendable_def)
  obtain pm where pm: "make_message fresh avail (contents_mem msg) (tm_size msg) = Inr pm"
    "frame_of pm = Inr (frame ?b)"
    by (rule frame_of_make [OF le sz, of fresh]) (use b in auto)
  define s' where "s' = s\<lparr>write_queue := write_queue s @ [pm]\<rparr>"
  define n1 where "n1 = n\<lparr>objects := (objects n)(i \<mapsto> s'), handed := (handed n)(i := handed n i @ [?b])\<rparr>"
  have ok: "session_ok i s (wire n i) (handed n i)" "i < next_id n" using net_invD(2) [OF inv s] by auto
  have "session_ok i s' (wire n i) (handed n i @ [?b])"
  proof -
    have "wire n i @ concat (map frame_bytes (write_queue s)) @ frame ?b = concat (map frame (handed n i)) @ frame ?b"
      using ok(1) unfolding session_ok_def by (metis append_assoc)
    then show ?thesis using ok(1) pm(2) by (auto simp: session_ok_def s'_def frame_bytes_def)
  qed
  moreover have "\<not> next_id n \<le> i" using ok(2) by simp
  ultimately have n1: "net_inv avail contents Q dm n1"
    using inv s unfolding net_inv_def n1_def s'_def by auto
  have n2: "net_inv avail contents Q dm (do_write i n1)"
    using n1 unfolding net_inv_def do_write_def n1_def s'_def by auto
  have sz': "word_of_int (getSize msg) = tm_size msg" using getSize_small [OF sz(1)] .
  have "deliver fresh avail i msg n = Inr (if write_queue s \<noteq> [] then n1 else do_write i n1)"
    using pm(1) s sz' by (simp add: deliver_def object_Inr n1_def s'_def Let_def)
  then show ?thesis using that n1 n2 by (cases "write_queue s \<noteq> []") auto
qed

lemma accept_inv:
  assumes inv: "net_inv avail contents Q dm n"
  obtains n' where "accept_done fresh avail Q ep n = Inr n'" "net_inv avail contents Q dm n'"
proof -
  let ?i = "next_id n"
  obtain th where th: "tm_reserve fresh avail 0 ?i = Inr th"
    by (rule tm_reserve_Inr [of 0 avail fresh ?i]) auto
  define n' where "n' = (n\<lparr>objects := (objects n)(?i \<mapsto> new_session fresh ?i ep),
     registered := insert ?i (registered n), reads := (reads n)(?i \<mapsto> Rd_header)\<rparr>)\<lparr>next_id := ?i + 1\<rparr>"
  have "objects n ?i = None" using net_invD(2) [OF inv, of ?i] by (cases "objects n ?i") auto
  then have nw: "?i \<notin> writes n" using net_invD(5) [OF inv] by fastforce
  have "session_ok ?i (new_session fresh ?i ep) (wire n ?i) (handed n ?i)"
    using net_invD(3) [OF inv, of ?i] by (simp add: session_ok_def new_session_def new_message_inv)
  moreover have "i \<le> ?i" if "objects n i = Some s" for i s
    using net_invD(2) [OF inv that] by simp
  ultimately have "net_inv avail contents Q dm n'"
    using inv nw unfolding net_inv_def n'_def by auto
  then have "net_inv avail contents Q dm (forward_message Q th n')" by (rule net_inv_forward)
  moreover have "accept_done fresh avail Q ep n = Inr (forward_message Q th n')"
    using th by (simp add: accept_done_def n'_def Let_def forward_message_def split: option.splits)
  ultimately show ?thesis using that by blast
qed

lemma session_ok_read:
  "session_ok i s w h \<Longrightarrow> message_inv (read_msg s') \<Longrightarrow> session_id s' = session_id s \<Longrightarrow>
     write_queue s' = write_queue s \<Longrightarrow> session_ok i s' w h"
  by (simp add: session_ok_def)

lemma read_header_ok:
  assumes "message_inv (read_msg s)" "length bs = 4" "unat (header_int bs) < 2 ^ 31"
    "header_length + unat (header_int bs) \<le> avail"
  obtains m where "read_complete fresh avail Rd_header bs s = Inr (s\<lparr>read_msg := m\<rparr>, Rd_body, None)"
    "message_inv m" "unat (body_length m) = unat (header_int bs)"
proof -
  obtain m1 where m1: "write_data 0 bs (read_msg s) = Inr m1" "message_inv m1"
    "data m1 = take 0 (data (read_msg s)) @ bs @ drop (0 + length bs) (data (read_msg s))"
    using write_data_Inr [OF assms(1), of 0 bs] assms(2) by (auto simp: header_length_def)
  have "take 4 (data m1) = bs" using m1(3) assms(2) by simp
  from decode_header_ok [OF m1(2) this assms(3,4), of fresh]
  obtain m2 where "decode_header fresh avail m1 = Inr m2" "message_inv m2"
    "unat (body_length m2) = unat (header_int bs)" by metis
  then show ?thesis using that [of m2] m1(1) by (simp add: read_complete_def)
qed

lemma net_inv_read:
  assumes inv: "net_inv avail contents Q dm n" and s: "objects n i = Some s" and r: "reads n i \<noteq> None"
    and s': "message_inv (read_msg s')" "session_id s' = session_id s" "write_queue s' = write_queue s"
    and ph: "ph' = Rd_body \<Longrightarrow> unat (body_length (read_msg s')) < 2 ^ 31 \<and> unat (body_length (read_msg s')) \<le> avail"
  shows "net_inv avail contents Q dm (n\<lparr>objects := (objects n)(i \<mapsto> s'), reads := (reads n)(i \<mapsto> ph')\<rparr>)"
proof -
  have "session_ok i s' (wire n i) (handed n i)" "i < next_id n" "i \<in> registered n"
    using net_invD(2) [OF inv s] net_invD(6) [OF inv r] session_ok_read s' by blast+
  then show ?thesis using inv s s' ph unfolding net_inv_def by auto
qed

lemma read_done_inv:
  assumes inv: "net_inv avail contents Q dm n" and en: "net_enabled avail (Read_done i bs) n"
  obtains n' where "read_done fresh avail Q i bs n = Inr n'" "net_inv avail contents Q dm n'"
proof (cases "reads n i")
  case None
  then show ?thesis using that inv by (simp add: read_done_def)
next
  case (Some ph)
  then obtain s where s: "objects n i = Some s"
    using net_invD(4,6) [OF inv] by blast
  have ok: "session_ok i s (wire n i) (handed n i)" using net_invD(2) [OF inv s] by simp
  then have mi: "message_inv (read_msg s)" "session_id s = i" by (simp_all add: session_ok_def)
  show ?thesis
  proof (cases ph)
    case Rd_header
    obtain m where m: "read_complete fresh avail Rd_header bs s = Inr (s\<lparr>read_msg := m\<rparr>, Rd_body, None)"
      "message_inv m" "unat (body_length m) = unat (header_int bs)"
      by (rule read_header_ok [OF mi(1), of bs avail fresh]) (use en Some s Rd_header in auto)
    have "net_inv avail contents Q dm (n\<lparr>objects := (objects n)(i \<mapsto> s\<lparr>read_msg := m\<rparr>), reads := (reads n)(i \<mapsto> Rd_body)\<rparr>)"
      by (rule net_inv_read [OF inv s]) (use m en Some s Rd_header in auto)
    then show ?thesis using that m(1) Some s Rd_header by (simp add: read_done_def object_Inr Let_def)
  next
    case Rd_body
    have len: "unat (body_length (read_msg s)) = length bs" using en Some s Rd_body by simp
    have small: "length bs < 2 ^ 31" "length bs \<le> avail"
      using net_invD(7) [OF inv _ s] Some Rd_body len by auto
    obtain s' th where s': "read_complete fresh avail Rd_body bs s = Inr (s', Rd_header, Some th)"
      "at_header i (s', Rd_header)" "tagged_view th = (bs, i)"
      by (rule read_body_step [OF mi(1) len mi(2) small, of fresh])
    then have w: "write_queue s' = write_queue s" by (auto simp: read_complete_def rbind_Inr_eq)
    have "net_inv avail contents Q dm (n\<lparr>objects := (objects n)(i \<mapsto> s'), reads := (reads n)(i \<mapsto> Rd_header)\<rparr>)"
      by (rule net_inv_read [OF inv s]) (use s' w Some mi in \<open>auto simp: at_header_def\<close>)
    then show ?thesis using that s'(1) Some s Rd_body
      by (simp add: read_done_def object_Inr Let_def net_inv_forward)
  qed
qed

lemma disconnect_ok:
  assumes inv: "net_inv avail contents Q dm n" and s: "objects n i = Some s"
  obtains q where "generate_disconnect_msg fresh avail Q dm i n = Inr (forward_message Q q n)"
proof -
  have env: "length dm \<le> avail" "length dm < 2 ^ 31" using net_invD(1) [OF inv] by (auto simp: env_ok_def)
  have un: "unat (of_nat (length dm) :: u64) = length dm" using env(2) by (simp add: unat_of_nat_small)
  obtain tm where tm: "tm_reserve fresh avail (of_nat (length dm)) (session_id s) = Inr tm" "tagged_inv tm"
    "tm_size tm = of_nat (length dm)"
    by (rule tm_reserve_Inr [of "of_nat (length dm)" avail fresh "session_id s"]) (use un env in auto)
  obtain tm' where "write_contents dm tm = Inr tm'"
    by (rule write_contents_Inr [OF tm(2), of dm]) (use tm un in auto)
  then show ?thesis using that tm s by (simp add: generate_disconnect_msg_def object_Inr)
qed

lemma read_failed_inv:
  assumes inv: "net_inv avail contents Q dm n"
  obtains n' where "read_failed fresh avail Q dm i n = Inr n'" "net_inv avail contents Q dm n'"
proof (cases "reads n i")
  case None
  then show ?thesis using that inv by (simp add: read_failed_def)
next
  case (Some ph)
  then obtain s where s: "objects n i = Some s" using net_invD(4,6) [OF inv] by blast
  let ?n = "n\<lparr>reads := (reads n)(i := None)\<rparr>"
  have n0: "net_inv avail contents Q dm ?n" using inv unfolding net_inv_def by auto
  obtain q where "generate_disconnect_msg fresh avail Q dm i ?n = Inr (forward_message Q q ?n)"
    by (rule disconnect_ok [OF n0, of i s fresh]) (use s in auto)
  then show ?thesis using that n0 Some by (simp add: read_failed_def net_inv_forward)
qed

lemma net_inv_release:
  assumes inv: "net_inv avail contents Q dm n"
  shows "net_inv avail contents Q dm (release_object i n)"
proof (cases "i \<in> registered n \<or> i \<in> writes n")
  case False
  then have "reads n i = None" using net_invD(6) [OF inv] by blast
  then show ?thesis using inv False unfolding net_inv_def release_object_def by auto
qed (simp add: release_object_def inv)

lemma write_done_inv:
  assumes inv: "net_inv avail contents Q dm n"
  obtains n' where "write_done i n = Inr n'" "net_inv avail contents Q dm n'"
proof (cases "i \<in> writes n")
  case False
  then show ?thesis using that inv by (simp add: write_done_def)
next
  case True
  then obtain s pm rest where s: "objects n i = Some s" "write_queue s = pm # rest"
    using net_invD(5) [OF inv] by (metis neq_Nil_conv)
  have ok: "session_ok i s (wire n i) (handed n i)" "\<not> next_id n \<le> i"
    using net_invD(2) [OF inv s(1)] by auto
  obtain fr where fr: "frame_of pm = Inr fr"
    using ok(1) s(2) by (auto simp: session_ok_def is_ok_iff)
  define n' where "n' = n\<lparr>objects := (objects n)(i \<mapsto> s\<lparr>write_queue := rest\<rparr>), writes := writes n - {i},
     wire := (wire n)(i := wire n i @ fr)\<rparr>"
  have "session_ok i (s\<lparr>write_queue := rest\<rparr>) (wire n i @ fr) (handed n i)"
    using ok(1) s(2) fr by (simp add: session_ok_def frame_bytes_def)
  then have n': "net_inv avail contents Q dm n'"
    using inv s ok(2) unfolding net_inv_def n'_def by auto
  have "net_inv avail contents Q dm (do_write i n')" if "rest \<noteq> []"
    using n' that unfolding net_inv_def do_write_def n'_def by auto
  moreover have "net_inv avail contents Q dm (release_object i n')"
    using n' by (rule net_inv_release)
  moreover have "write_done i n = Inr (if rest \<noteq> [] then do_write i n' else release_object i n')"
    using True s fr by (simp add: write_done_def object_Inr n'_def Let_def)
  ultimately show ?thesis using that by (cases "rest \<noteq> []") auto
qed

lemma write_failed_inv:
  assumes inv: "net_inv avail contents Q dm n"
  obtains n' where "write_failed fresh avail Q dm i n = Inr n'" "net_inv avail contents Q dm n'"
proof (cases "i \<in> writes n")
  case False
  then show ?thesis using that inv by (simp add: write_failed_def)
next
  case True
  then obtain s where s: "objects n i = Some s" using net_invD(5) [OF inv] by blast
  obtain q where q: "generate_disconnect_msg fresh avail Q dm i n = Inr (forward_message Q q n)"
    by (rule disconnect_ok [OF inv s, of fresh])
  let ?n = "forward_message Q q n"
  have "net_inv avail contents Q dm ?n" using inv by (rule net_inv_forward)
  then have "net_inv avail contents Q dm (?n\<lparr>writes := writes n - {i}\<rparr>)"
    unfolding net_inv_def by auto
  then have "net_inv avail contents Q dm (release_object i (?n\<lparr>writes := writes n - {i}\<rparr>))"
    by (rule net_inv_release)
  then show ?thesis using that q True by (simp add: write_failed_def)
qed

lemma close_inv:
  assumes inv: "net_inv avail contents Q dm n" and en: "reads n i = None"
  shows "net_inv avail contents Q dm (close_connection i n)"
proof (cases "i \<in> registered n")
  case True
  have "net_inv avail contents Q dm (n\<lparr>registered := registered n - {i}\<rparr>)"
    using inv en unfolding net_inv_def by auto
  then show ?thesis using True by (simp add: close_connection_def net_inv_release)
qed (simp add: close_connection_def inv)

lemma send_push_inv:
  assumes inv: "net_inv avail contents Q dm n" and en: "sendable avail msg"
  obtains n' b where "send_push fresh avail Q msg tag n = Inr (n', b)" "net_inv avail contents Q dm n'"
    "b \<longleftrightarrow> length (contents (out_queue n)) < queue_capacity"
proof -
  have len: "length msg < 2 ^ 31" "length msg \<le> avail" using en by (auto simp: sendable_def)
  have un: "unat (of_nat (length msg) :: u64) = length msg" using len(1) by (simp add: unat_of_nat_small)
  obtain tm where tm: "tm_reserve fresh avail (of_nat (length msg)) tag = Inr tm" "tagged_inv tm"
    "tm_size tm = of_nat (length msg)"
    by (rule tm_reserve_Inr [of "of_nat (length msg)" avail fresh tag]) (use un len in auto)
  obtain w where w: "write_contents msg tm = Inr w" "tagged_inv w" "fst (tagged_view w) = msg"
    using write_contents_Inr [OF tm(2), of msg] tm(3) un by (metis fst_conv)
  have ok: "out_ok avail w" using w en by (simp add: out_ok_def)
  have bf: "bounded_fifo queue_capacity contents Q" using net_invD(1) [OF inv] by (simp add: env_ok_def)
  show ?thesis
  proof (cases "lf_push Q (out_queue n) w")
    case None
    then have "queue_capacity \<le> length (contents (out_queue n))"
      using bounded_fifo_push [OF bf] by blast
    then show ?thesis using that [of n False] None tm(1) w(1) inv by (simp add: send_push_def)
  next
    case (Some q)
    then have q: "length (contents (out_queue n)) < queue_capacity" "contents q = contents (out_queue n) @ [w]"
      using bounded_fifo_push [OF bf] by blast+
    have "net_inv avail contents Q dm (n\<lparr>out_queue := q, unposted := unposted n + 1\<rparr>)"
      using inv q(2) ok unfolding net_inv_def by auto
    then show ?thesis using that [of _ True] Some tm(1) w(1) q(1) by (simp add: send_push_def)
  qed
qed

lemma send_post_inv: "net_inv avail contents Q dm n \<Longrightarrow> net_inv avail contents Q dm (send_post n)"
  unfolding send_post_def by (auto elim!: net_inv_fields)

lemma forward_inv:
  assumes inv: "net_inv avail contents Q dm n"
  obtains n' where "forward_msg_to_agent fresh avail Q n = Inr n'" "net_inv avail contents Q dm n'"
proof (cases "posted n = 0")
  case True
  then show ?thesis using that inv by (simp add: forward_msg_to_agent_def)
next
  case False
  have bf: "bounded_fifo queue_capacity contents Q" using net_invD(1) [OF inv] by (simp add: env_ok_def)
  have "contents (out_queue n) \<noteq> []" using net_invD(8) [OF inv] False by auto
  then obtain m q where mq: "lf_pop Q (out_queue n) = Some (m, q)" "contents (out_queue n) = m # contents q"
    using bounded_fifo_pop [OF bf] by (cases "lf_pop Q (out_queue n)") auto
  let ?n = "n\<lparr>out_queue := q, posted := posted n - 1\<rparr>"
  have n0: "net_inv avail contents Q dm ?n"
    using inv mq(2) False unfolding net_inv_def by auto
  have ok: "out_ok avail m" using net_invD(9) [OF inv, of m] mq(2) by simp
  show ?thesis
  proof (cases "tm_tag m \<in> registered n")
    case True
    then obtain s where "objects ?n (tm_tag m) = Some s" using net_invD(4) [OF inv] by auto
    then obtain n' where "deliver fresh avail (tm_tag m) m ?n = Inr n'" "net_inv avail contents Q dm n'"
      by (rule deliver_inv [OF n0 _ ok, of _ _ fresh])
    then show ?thesis using that True False mq(1) by (simp add: forward_msg_to_agent_def send_msg_to_agent_def)
  next
    case notreg: False
    then show ?thesis using that [of ?n] n0 False mq(1)
      by (simp add: forward_msg_to_agent_def send_msg_to_agent_def)
  qed
qed

lemma get_msg_inv: "net_inv avail contents Q dm n \<Longrightarrow> net_inv avail contents Q dm (snd (get_msg_from_network Q n))"
  unfolding get_msg_from_network_def by (auto elim!: net_inv_fields split: option.splits)

lemma net_step_inv:
  assumes "net_inv avail contents Q dm n" "net_enabled avail e n"
  shows "\<exists>n'. net_step fresh avail Q dm e n = Inr n' \<and> net_inv avail contents Q dm n'"
proof (cases e)
  case (Accepted ep)
  then show ?thesis using accept_inv [OF assms(1), of fresh ep] by (metis net_step.simps(1))
next
  case (Read_done i bs)
  then show ?thesis using read_done_inv [OF assms(1), of i bs fresh] assms(2) by (metis net_step.simps(2))
next
  case (Read_failed i)
  then show ?thesis using read_failed_inv [OF assms(1), of fresh i] by (metis net_step.simps(3))
next
  case (Write_done i)
  then show ?thesis using write_done_inv [OF assms(1), of i] by (metis net_step.simps(4))
next
  case (Write_failed i)
  then show ?thesis using write_failed_inv [OF assms(1), of fresh i] by (metis net_step.simps(5))
next
  case Run_forward
  then show ?thesis using forward_inv [OF assms(1), of fresh] by (metis net_step.simps(6))
next
  case (Send_push msg tag)
  then have "sendable avail msg" using assms(2) by simp
  then obtain n' b where "send_push fresh avail Q msg tag n = Inr (n', b)" "net_inv avail contents Q dm n'"
    by (rule send_push_inv [OF assms(1)])
  then show ?thesis using Send_push by simp
next
  case Send_post
  then show ?thesis using send_post_inv [OF assms(1)] by simp
next
  case Get_msg
  then show ?thesis using get_msg_inv [OF assms(1)] by simp
next
  case (Release i)
  then show ?thesis using close_inv [OF assms(1)] assms(2) by simp
qed

lemma new_network_inv: "env_ok avail contents Q dm \<Longrightarrow> net_inv avail contents Q dm (new_network Q)"
  by (simp add: net_inv_def new_network_def env_ok_def bounded_fifo_def)

interpretation net: safe_system "net_step fresh avail Q dm" "net_inv avail contents Q dm" "net_enabled avail"
  for fresh avail Q dm contents
proof unfold_locales
  fix s e s'
  assume "net_inv avail contents Q dm s" "net_enabled avail e s" "net_step fresh avail Q dm e s = Inr s'"
  then show "net_inv avail contents Q dm s'"
    using net_step_inv [of avail contents Q dm s e fresh] by auto
next
  fix s e
  assume "net_inv avail contents Q dm s" "net_enabled avail e s"
  then show "is_ok (net_step fresh avail Q dm e s)"
    using net_step_inv [of avail contents Q dm s e fresh] by auto
qed

section \<open>Properties\<close>

text \<open>A queue as documented, for the examples.\<close>

definition list_queue :: "tagged_message list lf_queue" where
  "list_queue = \<lparr>lf_push = (\<lambda>q m. if length q < queue_capacity then Some (q @ [m]) else None),
     lf_pop = (\<lambda>q. case q of [] \<Rightarrow> None | m # q' \<Rightarrow> Some (m, q')), lf_empty = []\<rparr>"

lemma list_queue_fifo: "bounded_fifo queue_capacity (\<lambda>q. q) list_queue"
  by (auto simp: bounded_fifo_def list_queue_def split: list.splits)






lemma accept_new_network:
  "\<exists>n. accept_done fresh avail Q ep (new_network Q) = Inr n \<and> objects n 0 = Some (new_session fresh 0 ep) \<and>
     reads n 0 = Some Rd_header \<and> writes n = {}"
  by (simp add: accept_done_def new_network_def tm_reserve_def Let_def)


text \<open>Releasing a connection whose read is still outstanding (as the updater does after an
  unsuccessful hello) destroys the session unless a write holds it; the aborted read then
  completes in a handler of the destroyed object.\<close>

theorem release_with_pending_read:
  assumes "net_inv avail contents Q dm n" "reads n i = Some ph" "i \<notin> writes n"
  shows "read_failed fresh avail Q dm i (close_connection i n) =
           Inl (Undefined_behaviour ''access to a destroyed agent_session'')"
proof -
  have "i \<in> registered n" using net_invD(6) [OF assms(1)] assms(2) by simp
  then have "objects (close_connection i n) i = None" "reads (close_connection i n) i = Some ph"
    using assms(2,3) by (auto simp: close_connection_def release_object_def)
  then show ?thesis by (simp add: read_failed_def generate_disconnect_msg_def object_def)
qed

theorem release_with_pending_read_witness:
  "\<exists>n. net_step (\<lambda>_. 0) 50 list_queue [] (Accepted ''h:1'') (new_network list_queue) = Inr n \<and>
     net_step (\<lambda>_. 0) 50 list_queue [] (Read_failed 0) (close_connection 0 n) =
       Inl (Undefined_behaviour ''access to a destroyed agent_session'')"
proof -
  obtain n where n: "accept_done (\<lambda>_. 0) 50 list_queue ''h:1'' (new_network list_queue) = Inr n"
    "reads n 0 = Some Rd_header" "writes n = {}"
    using accept_new_network by blast
  have env: "env_ok 50 (\<lambda>q. q) list_queue []" by (simp add: env_ok_def list_queue_fifo)
  have "net_inv 50 (\<lambda>q. q) list_queue [] n"
    using accept_inv [OF new_network_inv [OF env], of "\<lambda>_. 0" "''h:1''"] n(1) by auto
  from release_with_pending_read [OF this n(2)] n show ?thesis by simp
qed

end
